(* ===== verification/Prelude.thy ===== *)
theory Prelude
  imports Main
begin

text \<open>
  Shared vocabulary of the development: the development's collections of simplification rules,
  the few JavaScript idioms the sources use everywhere (truthiness of optional strings,
  \<open>[...new Set(xs)]\<close>, \<open>slice\<close>, clamping by an optional bound), and SQL tables as lists of rows
  with the two statements the stores are built from (\<open>SELECT ... WHERE\<close> taking the first row
  and \<open>UPDATE ... WHERE\<close>), together with the lemmas every store shares.

  Conventions of all theories: instants are integers (milliseconds since the epoch, the value
  of \<open>Date.getTime()\<close>; an ISO string that the code itself wrote with \<open>toISOString()\<close> is
  identified with its instant), \<open>now\<close> is the value of \<open>Date.now()\<close> passed as an argument,
  strings are lists of ASCII characters, \<open>undefined\<close> and SQL \<open>NULL\<close> are \<open>None\<close>.
\<close>

section \<open>Collections\<close>

named_theorems table_simps \<open>reading a table after an update\<close>
named_theorems lease_simps \<open>what the lease operations leave unchanged\<close>

section \<open>JavaScript idioms\<close>

text \<open>Truthiness of an optional string: \<open>undefined\<close>, \<open>null\<close> and \<open>""\<close> are falsy.\<close>

definition truthy :: "string option \<Rightarrow> bool" where
  "truthy s = (case s of None \<Rightarrow> False | Some t \<Rightarrow> t \<noteq> [])"

lemma truthy_simps [simp]:
  "truthy None = False"
  "truthy (Some s) = (s \<noteq> [])"
  by (simp_all add: truthy_def)

lemma truthy_SomeD: "truthy s \<Longrightarrow> \<exists>t. s = Some t \<and> t \<noteq> []"
  by (cases s) simp_all

text \<open>The nullish default \<open>x ?? d\<close>.\<close>

definition orelse :: "'a option \<Rightarrow> 'a \<Rightarrow> 'a" where
  "orelse x d = (case x of None \<Rightarrow> d | Some v \<Rightarrow> v)"

lemma orelse_simps [simp]:
  "orelse None d = d"
  "orelse (Some v) d = v"
  by (simp_all add: orelse_def)

text \<open>\<open>a ?? b\<close> where \<open>b\<close> may itself be undefined.\<close>

definition orelse_opt :: "'a option \<Rightarrow> 'a option \<Rightarrow> 'a option" where
  "orelse_opt x d = (case x of None \<Rightarrow> d | Some v \<Rightarrow> Some v)"

lemma orelse_opt_simps [simp]:
  "orelse_opt None d = d"
  "orelse_opt (Some v) d = Some v"
  by (simp_all add: orelse_opt_def)

text \<open>\<open>const clamp = v => bound !== undefined ? Math.min(v, bound) : v\<close>, which several modules define.\<close>

definition clamp :: "int option \<Rightarrow> int \<Rightarrow> int" where
  "clamp bound v = (case bound of None \<Rightarrow> v | Some b \<Rightarrow> min v b)"

lemma clamp_le [simp, intro]: "clamp b v \<le> v"
  by (simp add: clamp_def split: option.splits)

lemma clamp_bound: "clamp (Some b) v \<le> b"
  by (simp add: clamp_def)

lemma clamp_mono: "v \<le> w \<Longrightarrow> clamp b v \<le> clamp b w"
  by (auto simp: clamp_def split: option.splits)

text \<open>\<open>[...new Set(xs)]\<close>: the first occurrence of every value, in order.\<close>

fun uniq_from :: "'a list \<Rightarrow> 'a list \<Rightarrow> 'a list" where
  "uniq_from seen [] = []"
| "uniq_from seen (x # xs) =
     (if x \<in> set seen then uniq_from seen xs else x # uniq_from (x # seen) xs)"

definition uniq :: "'a list \<Rightarrow> 'a list" where
  "uniq xs = uniq_from [] xs"

lemma set_uniq_from: "set (uniq_from seen xs) = set xs - set seen"
  by (induction seen xs rule: uniq_from.induct) auto

lemma set_uniq [simp]: "set (uniq xs) = set xs"
  by (simp add: uniq_def set_uniq_from)

lemma distinct_uniq_from: "distinct (uniq_from seen xs)"
  by (induction seen xs rule: uniq_from.induct) (auto simp: set_uniq_from)

lemma distinct_uniq [simp]: "distinct (uniq xs)"
  by (simp add: uniq_def distinct_uniq_from)

section \<open>Tables\<close>

text \<open>
  A table is the list of its rows in rowid order. \<open>sql_first p t\<close> is
  \<open>SELECT ... WHERE p\<close> read with \<open>.get()\<close>; \<open>sql_update p f t\<close> is \<open>UPDATE ... SET f WHERE p\<close>
  and \<open>sql_changes p t\<close> the \<open>changes\<close> it reports; \<open>sql_last_by key p t\<close> is
  \<open>SELECT ... WHERE p ORDER BY key DESC LIMIT 1\<close>.
\<close>

definition sql_first :: "('r \<Rightarrow> bool) \<Rightarrow> 'r list \<Rightarrow> 'r option" where
  "sql_first p t = List.find p t"

definition sql_update :: "('r \<Rightarrow> bool) \<Rightarrow> ('r \<Rightarrow> 'r) \<Rightarrow> 'r list \<Rightarrow> 'r list" where
  "sql_update p f t = map (\<lambda>r. if p r then f r else r) t"

definition sql_changes :: "('r \<Rightarrow> bool) \<Rightarrow> 'r list \<Rightarrow> nat" where
  "sql_changes p t = length (filter p t)"

fun max_by :: "('r \<Rightarrow> int) \<Rightarrow> 'r list \<Rightarrow> 'r option" where
  "max_by key [] = None"
| "max_by key (r # rs) =
     (case max_by key rs of None \<Rightarrow> Some r | Some m \<Rightarrow> if key m \<le> key r then Some r else Some m)"

definition sql_last_by :: "('r \<Rightarrow> int) \<Rightarrow> ('r \<Rightarrow> bool) \<Rightarrow> 'r list \<Rightarrow> 'r option" where
  "sql_last_by key p t = max_by key (filter p t)"

lemma sql_first_Nil [simp]: "sql_first p [] = None"
  by (simp add: sql_first_def)

lemma sql_first_Cons [simp]: "sql_first p (r # t) = (if p r then Some r else sql_first p t)"
  by (simp add: sql_first_def)

lemma sql_update_Nil [simp]: "sql_update p f [] = []"
  by (simp add: sql_update_def)

lemma sql_update_Cons [simp]: "sql_update p f (r # t) = (if p r then f r else r) # sql_update p f t"
  by (simp add: sql_update_def)

lemma sql_changes_Nil [simp]: "sql_changes p [] = 0"
  by (simp add: sql_changes_def)

lemma sql_changes_Cons [simp]: "sql_changes p (r # t) = (if p r then Suc (sql_changes p t) else sql_changes p t)"
  by (simp add: sql_changes_def)

lemma sql_first_SomeD: "sql_first p t = Some r \<Longrightarrow> r \<in> set t \<and> p r"
  by (induction t) (auto split: if_splits)

lemma sql_first_None: "sql_first p t = None \<longleftrightarrow> (\<forall>r \<in> set t. \<not> p r)"
  by (induction t) auto

lemma sql_first_append: "sql_first p (t @ u) = orelse_opt (sql_first p t) (sql_first p u)"
  by (induction t) auto

lemma sql_changes_0: "sql_changes p t = 0 \<longleftrightarrow> (\<forall>r \<in> set t. \<not> p r)"
  by (induction t) auto

lemma sql_update_id: "sql_changes p t = 0 \<Longrightarrow> sql_update p f t = t"
  by (induction t) (auto split: if_splits)

lemma length_sql_update [simp]: "length (sql_update p f t) = length t"
  by (simp add: sql_update_def)

lemma set_sql_update: "set (sql_update p f t) = (\<lambda>r. if p r then f r else r) ` set t"
  by (simp add: sql_update_def)

text \<open>A row keeps its key under an update; reading by key then commutes with the update.\<close>

lemma sql_first_update [table_simps]:
  assumes "\<And>r. k (f r) = k r"
  shows "sql_first (\<lambda>r. k r = x) (sql_update p f t) =
    map_option (\<lambda>r. if p r then f r else r) (sql_first (\<lambda>r. k r = x) t)"
  by (induction t) (auto simp: assms)

lemma map_key_update [table_simps]:
  assumes "\<And>r. k (f r) = k r"
  shows "map k (sql_update p f t) = map k t"
  by (induction t) (auto simp: assms)

text \<open>With a primary key, an \<open>UPDATE ... WHERE key = x AND q\<close> changes one row or none.\<close>

lemma sql_changes_key:
  assumes "distinct (map k t)"
  shows "sql_changes (\<lambda>r. k r = x \<and> q r) t =
    (case sql_first (\<lambda>r. k r = x) t of None \<Rightarrow> 0 | Some r \<Rightarrow> if q r then 1 else 0)"
  using assms
proof (induction t)
  case (Cons a t)
  show ?case
  proof (cases "k a = x")
    case True
    from Cons.prems have "k a \<notin> k ` set t" by simp
    with True have "\<forall>r \<in> set t. k r \<noteq> x" by (metis imageI)
    then have "sql_changes (\<lambda>r. k r = x \<and> q r) t = 0" by (auto simp: sql_changes_0)
    with True show ?thesis by simp
  next
    case False
    with Cons show ?thesis by simp
  qed
qed simp

lemma max_by_in: "max_by key t = Some r \<Longrightarrow> r \<in> set t"
  by (induction t arbitrary: r) (auto split: option.splits if_splits)

lemma max_by_None [simp]: "max_by key t = None \<longleftrightarrow> t = []"
  by (cases t) (auto split: option.splits)

lemma max_by_ge: "max_by key t = Some m \<Longrightarrow> r \<in> set t \<Longrightarrow> key r \<le> key m"
proof (induction t arbitrary: m)
  case (Cons a t)
  show ?case
  proof (cases "max_by key t")
    case None
    with Cons.prems show ?thesis by auto
  next
    case (Some n)
    note IH = Cons.IH [OF Some]
    show ?thesis
    proof (cases "r = a")
      case True
      with Some Cons.prems show ?thesis by (auto split: if_splits)
    next
      case False
      with Cons.prems have "key r \<le> key n" using IH by simp
      with Some Cons.prems show ?thesis by (auto split: if_splits)
    qed
  qed
qed simp

lemma sql_last_by_SomeD: "sql_last_by key p t = Some r \<Longrightarrow> r \<in> set t \<and> p r"
  by (auto simp: sql_last_by_def dest: max_by_in)

lemma sql_last_by_max: "sql_last_by key p t = Some m \<Longrightarrow> r \<in> set t \<Longrightarrow> p r \<Longrightarrow> key r \<le> key m"
  by (simp add: sql_last_by_def max_by_ge)

lemma max_by_map:
  "(\<And>r. key (h r) = key r) \<Longrightarrow> max_by key (map h t) = map_option h (max_by key t)"
  by (induction t) (auto split: option.split)

lemma sql_last_by_update:
  assumes "\<And>r. key (f r) = key r" and "\<And>r. p (f r) = p r"
  shows "sql_last_by key p (sql_update q f t) = map_option (\<lambda>r. if q r then f r else r) (sql_last_by key p t)"
proof -
  have "filter p (sql_update q f t) = map (\<lambda>r. if q r then f r else r) (filter p t)"
    by (induction t) (auto simp: assms)
  then show ?thesis by (simp add: sql_last_by_def max_by_map assms)
qed

lemma sql_update_other: "(\<And>r. r \<in> set t \<Longrightarrow> \<not> p r) \<Longrightarrow> sql_update p f t = t"
  by (induction t) auto

text \<open>Totals over a table after the one row with key \<open>x\<close> changed.\<close>

lemma sum_update_key:
  fixes g :: "'r \<Rightarrow> int"
  assumes "distinct (map k t)" and "sql_first (\<lambda>r. k r = x) t = Some r"
  shows "sum_list (map g (sql_update (\<lambda>r. k r = x) f t)) = sum_list (map g t) - g r + g (f r)"
  using assms
proof (induction t)
  case (Cons a t)
  show ?case
  proof (cases "k a = x")
    case True
    with Cons.prems(1) have "x \<notin> k ` set t" by auto
    then have "sql_update (\<lambda>r. k r = x) f t = t" by (intro sql_update_other) auto
    with True Cons.prems(2) show ?thesis by simp
  next
    case False
    with Cons show ?thesis by simp
  qed
qed simp

lemma sum_filter_int: "sum_list (map h (filter p t)) = sum_list (map (\<lambda>r. if p r then h r else (0 :: int)) t)"
  by (induction t) auto

lemma count_filter_int: "int (length (filter p t)) = sum_list (map (\<lambda>r. if p r then 1 else (0 :: int)) t)"
  by (induction t) auto

lemma concat_map_Nil: "concat (map f xs) = [] \<longleftrightarrow> (\<forall>x \<in> set xs. f x = [])"
  by auto

end
