(* ===== verification/Interfaces.thy ===== *)
theory Interfaces
  imports Prelude
begin

text \<open>
  The contracts that components rely on, as locales; each is interpreted on the model's own
  definitions in the theory of the component that provides it.
  \<open>transition_table\<close>: a status table with final states, what the board, the retry directives and
  the attempt lifecycle promise. \<open>versioned_store\<close>: rows with a version that every write compares
  and advances, what the lease store promises the reconciler.
\<close>

section \<open>Transition tables\<close>

fun walk :: "('s \<Rightarrow> 's \<Rightarrow> bool) \<Rightarrow> 's \<Rightarrow> 's list \<Rightarrow> bool" where
  "walk R s [] = True"
| "walk R s (t # ts) = (R s t \<and> walk R t ts)"

lemma walk_append: "walk R s (ts @ us) \<longleftrightarrow> walk R s ts \<and> walk R (last (s # ts)) us"
  by (induction ts arbitrary: s) auto

locale transition_table =
  fixes allowed :: "'s \<Rightarrow> 's \<Rightarrow> bool"
    and final :: "'s \<Rightarrow> bool"
  assumes final_stuck: "final s \<Longrightarrow> \<not> allowed s t"
begin

lemma final_walk: "final s \<Longrightarrow> walk allowed s ts \<Longrightarrow> ts = []"
  by (cases ts) (auto dest: final_stuck)

lemma final_only_last:
  assumes "walk allowed s (ts @ t # us)" and "final t"
  shows "us = []"
  using assms final_walk [of t us] by (simp add: walk_append)

end

section \<open>Versioned stores\<close>

text \<open>Several writers that all compare against the same expected version, one after another.\<close>

fun write_all :: "('w \<Rightarrow> 'db \<Rightarrow> bool \<times> 'db) \<Rightarrow> 'w list \<Rightarrow> 'db \<Rightarrow> bool list \<times> 'db" where
  "write_all wr [] db = ([], db)"
| "write_all wr (w # ws) db =
     (let (won, db1) = wr w db; (rest, db2) = write_all wr ws db1 in (won # rest, db2))"

locale versioned_store =
  fixes ok :: "'db \<Rightarrow> bool"
    and version :: "'db \<Rightarrow> 'k \<Rightarrow> int option"
    and cas :: "'k \<Rightarrow> int \<Rightarrow> 'w \<Rightarrow> 'db \<Rightarrow> bool \<times> 'db"
  assumes lost: "ok db \<Longrightarrow> \<not> fst (cas k v w db) \<Longrightarrow> snd (cas k v w db) = db"
    and won: "ok db \<Longrightarrow> fst (cas k v w db) \<Longrightarrow>
      version db k = Some v \<and> version (snd (cas k v w db)) k = Some (v + 1)"
    and frame: "ok db \<Longrightarrow> k' \<noteq> k \<Longrightarrow> version (snd (cas k v w db)) k' = version db k'"
    and keeps: "ok db \<Longrightarrow> ok (snd (cas k v w db))"
begin

lemma stale_loses: "ok db \<Longrightarrow> version db k = Some u \<Longrightarrow> u \<noteq> v \<Longrightarrow> \<not> fst (cas k v w db)"
  using won by fastforce

lemma all_stale:
  "ok db \<Longrightarrow> version db k = Some u \<Longrightarrow> u \<noteq> v \<Longrightarrow>
    write_all (cas k v) ws db = (map (\<lambda>_. False) ws, db)"
proof (induction ws)
  case (Cons w ws)
  from stale_loses [OF Cons.prems] have "\<not> fst (cas k v w db)" .
  with lost [OF Cons.prems(1)] have "cas k v w db = (False, db)" by (metis prod.collapse)
  with Cons show ?case by simp
qed simp

lemma one_winner: "ok db \<Longrightarrow> length (filter id (fst (write_all (cas k v) ws db))) \<le> 1"
proof (induction ws arbitrary: db)
  case (Cons w ws)
  obtain b db1 where c: "cas k v w db = (b, db1)" by (cases "cas k v w db")
  show ?case
  proof (cases b)
    case True
    with won [OF Cons.prems, of k v w] c have "version db1 k = Some (v + 1)" by simp
    moreover from keeps [OF Cons.prems, of k v w] c have "ok db1" by simp
    ultimately have "write_all (cas k v) ws db1 = (map (\<lambda>_. False) ws, db1)" by (simp add: all_stale)
    with c True show ?thesis by (simp add: filter_map o_def)
  next
    case False
    with lost [OF Cons.prems, of k v w] c have "db1 = db" by simp
    with c False Cons.IH [OF Cons.prems] show ?thesis by (simp add: case_prod_unfold Let_def)
  qed
qed simp

lemma monotone:
  assumes "ok db" and "version db k' = Some u"
  shows "\<exists>u' \<ge> u. version (snd (cas k v w db)) k' = Some u'"
proof (cases "k' = k \<and> fst (cas k v w db)")
  case True
  with won [OF assms(1)] assms(2) show ?thesis by fastforce
next
  case False
  with frame [OF assms(1)] lost [OF assms(1), of k v w] assms(2) show ?thesis by fastforce
qed

end

end
