(* ===== verification/Json.thy ===== *)
theory Json
  imports Prelude
begin

text \<open>
  Values as \<open>JSON.parse\<close> and in-process callers hand them to the validators of
  \<open>src/src/components\<close>: objects with insertion-ordered members, arrays, strings, booleans,
  \<open>null\<close> and numbers. A number is an integer, a finite non-integer (kept as its shortest
  decimal text, the one \<open>JSON.stringify\<close> prints), \<open>NaN\<close> or an infinity. Member access
  returns \<open>None\<close> for \<open>undefined\<close>. \<open>json_size\<close> is \<open>Buffer.byteLength(JSON.stringify(v))\<close>.
\<close>

section \<open>Values\<close>

datatype jnum = NInt int | NFrac string | NNaN | NInf

datatype json =
    JNull
  | JBool bool
  | JNum jnum
  | JStr string
  | JArr "json list"
  | JObj "(string \<times> json) list"

definition jget :: "json \<Rightarrow> string \<Rightarrow> json option" where
  "jget v k = (case v of JObj ms \<Rightarrow> map_of ms k | _ \<Rightarrow> None)"

text \<open>\<open>typeof v === "object" && v !== null\<close>; arrays are objects.\<close>

definition is_object :: "json \<Rightarrow> bool" where
  "is_object v = (case v of JObj _ \<Rightarrow> True | JArr _ \<Rightarrow> True | _ \<Rightarrow> False)"

definition is_string :: "json option \<Rightarrow> bool" where
  "is_string v = (case v of Some (JStr _) \<Rightarrow> True | _ \<Rightarrow> False)"

text \<open>\<open>typeof v === "string" && v && byteLength(v) <= n\<close>.\<close>

definition nonempty_string_upto :: "nat \<Rightarrow> json option \<Rightarrow> bool" where
  "nonempty_string_upto n v = (case v of Some (JStr s) \<Rightarrow> s \<noteq> [] \<and> length s \<le> n | _ \<Rightarrow> False)"

definition string_upto :: "nat \<Rightarrow> json option \<Rightarrow> bool" where
  "string_upto n v = (case v of Some (JStr s) \<Rightarrow> length s \<le> n | _ \<Rightarrow> False)"

definition max_safe_integer :: int where
  "max_safe_integer = 9007199254740991"

text \<open>\<open>typeof v === "number" && Number.isSafeInteger(v) && v >= lo\<close>.\<close>

definition safe_integer_from :: "int \<Rightarrow> json option \<Rightarrow> bool" where
  "safe_integer_from lo v = (case v of
     Some (JNum (NInt i)) \<Rightarrow> \<bar>i\<bar> \<le> max_safe_integer \<and> lo \<le> i
   | _ \<Rightarrow> False)"

definition truthy_json :: "json option \<Rightarrow> bool" where
  "truthy_json v = (case v of
     None \<Rightarrow> False
   | Some JNull \<Rightarrow> False
   | Some (JBool b) \<Rightarrow> b
   | Some (JNum (NInt i)) \<Rightarrow> i \<noteq> 0
   | Some (JNum NNaN) \<Rightarrow> False
   | Some (JStr s) \<Rightarrow> s \<noteq> []
   | Some _ \<Rightarrow> True)"

text \<open>
  The property key a value becomes in \<open>table[value]\<close>; a one-element array becomes the key of
  its element, every other non-string gives a key that names no entry of the tables used here.
\<close>

fun prop_key :: "json \<Rightarrow> string" where
  "prop_key (JStr s) = s"
| "prop_key (JArr [v]) = prop_key v"
| "prop_key _ = ''''"

text \<open>A text member, \<open>[]\<close> when it is none; the items of an array member; any member.\<close>

definition text_at :: "json \<Rightarrow> string \<Rightarrow> string" where
  "text_at v k = (case jget v k of Some (JStr s) \<Rightarrow> s | _ \<Rightarrow> [])"

definition items_at :: "json \<Rightarrow> string \<Rightarrow> json list" where
  "items_at v k = (case jget v k of Some (JArr xs) \<Rightarrow> xs | _ \<Rightarrow> [])"

definition member_at :: "json \<Rightarrow> string \<Rightarrow> json" where
  "member_at v k = orelse (jget v k) JNull"

text \<open>\<open>ss.join(sep)\<close>\<close>

fun join_with :: "string \<Rightarrow> string list \<Rightarrow> string" where
  "join_with sep [] = ''''"
| "join_with sep [s] = s"
| "join_with sep (s # ss) = s @ sep @ join_with sep ss"

section \<open>Printing sizes\<close>

fun show_nat :: "nat \<Rightarrow> string" where
  "show_nat n = (if n < 10 then [char_of (48 + n)] else show_nat (n div 10) @ [char_of (48 + n mod 10)])"

declare show_nat.simps [simp del]

definition show_int :: "int \<Rightarrow> string" where
  "show_int i = (if i < 0 then CHR ''-'' # show_nat (nat (- i)) else show_nat (nat i))"

lemma show_nat_nonempty [simp]: "show_nat n \<noteq> []"
  by (subst show_nat.simps) simp

text \<open>Two characters for the short escapes, six for other control characters.\<close>

definition escape_size :: "char \<Rightarrow> nat" where
  "escape_size c = (let n = (of_char c :: nat) in
     if n = 34 \<or> n = 92 \<or> n = 8 \<or> n = 9 \<or> n = 10 \<or> n = 12 \<or> n = 13 then 2
     else if n < 32 then 6 else 1)"

definition string_size :: "string \<Rightarrow> nat" where
  "string_size s = 2 + sum_list (map escape_size s)"

fun json_size :: "json \<Rightarrow> nat" where
  "json_size JNull = 4"
| "json_size (JBool b) = (if b then 4 else 5)"
| "json_size (JNum (NInt i)) = length (show_int i)"
| "json_size (JNum (NFrac s)) = length s"
| "json_size (JNum NNaN) = 4"
| "json_size (JNum NInf) = 4"
| "json_size (JStr s) = string_size s"
| "json_size (JArr vs) = 2 + sum_list (map json_size vs) + (length vs - 1)"
| "json_size (JObj ms) =
     2 + sum_list (map (\<lambda>(k, v). string_size k + 1 + json_size v) ms) + (length ms - 1)"

text \<open>A bound on the size that does not look at the characters.\<close>

lemma escape_size_le: "escape_size c \<le> 6" by (simp add: escape_size_def Let_def)

lemma string_size_le: "string_size s \<le> 2 + 6 * length s"
proof -
  have "sum_list (map escape_size s) \<le> 6 * length s" 
  proof (induction s)
    case (Cons c s)
    with escape_size_le [of c] show ?case by simp
  qed simp
  then show ?thesis by (simp add: string_size_def)
qed

fun json_bound :: "json \<Rightarrow> nat" where
  "json_bound (JNum (NInt i)) = length (show_int i)"
| "json_bound (JNum (NFrac s)) = length s"
| "json_bound (JStr s) = 2 + 6 * length s"
| "json_bound (JArr vs) = 2 + sum_list (map json_bound vs) + length vs"
| "json_bound (JObj ms) = 2 + sum_list (map (\<lambda>(k, v). 3 + 6 * length k + json_bound v) ms) + length ms"
| "json_bound _ = 5"

lemma json_size_le: "json_size v \<le> json_bound v"
proof (induction v rule: json_bound.induct)
  case (4 vs)
  then have "sum_list (map json_size vs) \<le> sum_list (map json_bound vs)" by (intro sum_list_mono) auto
  then show ?case by simp
next
  case (5 ms)
  then have "sum_list (map (\<lambda>(k, v). string_size k + 1 + json_size v) ms) \<le> sum_list (map (\<lambda>(k, v). 3 + 6 * length k + json_bound v) ms)"
  proof (intro sum_list_mono)
    fix m assume "m \<in> set ms"
    with 5 [of m "fst m" "snd m"] string_size_le [of "fst m"]
    show "(case m of (k, v) \<Rightarrow> string_size k + 1 + json_size v) \<le> (case m of (k, v) \<Rightarrow> 3 + 6 * length k + json_bound v)"
      by (simp add: case_prod_unfold)
  qed
  then show ?case by simp
next
  case (3 s)
  show ?case using string_size_le [of s] by simp
qed simp_all

section \<open>Reading members\<close>

lemma jget_JObj [simp]: "jget (JObj ms) k = map_of ms k"
  by (simp add: jget_def)

lemma is_object_simps [simp]:
  "is_object (JObj ms)" "is_object (JArr vs)" "\<not> is_object JNull"
  "\<not> is_object (JStr s)" "\<not> is_object (JBool b)" "\<not> is_object (JNum n)"
  by (simp_all add: is_object_def)

lemma is_string_simps [simp]:
  "\<not> is_string None" "is_string (Some (JStr s))"
  by (simp_all add: is_string_def)

lemma string_upto_simps [simp]:
  "string_upto n (Some (JStr s)) = (length s \<le> n)" "\<not> string_upto n None"
  "nonempty_string_upto n (Some (JStr s)) = (s \<noteq> [] \<and> length s \<le> n)" "\<not> nonempty_string_upto n None"
  "safe_integer_from lo (Some (JNum (NInt i))) = (\<bar>i\<bar> \<le> max_safe_integer \<and> lo \<le> i)"
  "\<not> safe_integer_from lo None"
  by (simp_all add: string_upto_def nonempty_string_upto_def safe_integer_from_def)

lemma truthy_json_simps [simp]:
  "\<not> truthy_json None" "truthy_json (Some (JStr s)) = (s \<noteq> [])"
  by (simp_all add: truthy_json_def)

text \<open>An optional member, absent when the field is \<open>undefined\<close>.\<close>

definition opt_member :: "string \<Rightarrow> ('a \<Rightarrow> json) \<Rightarrow> 'a option \<Rightarrow> (string \<times> json) list" where
  "opt_member k f x = (case x of None \<Rightarrow> [] | Some v \<Rightarrow> [(k, f v)])"

lemma map_of_opt_member [simp]:
  "map_of (opt_member k f x @ ms) j =
    (if j = k then (case x of None \<Rightarrow> map_of ms j | Some v \<Rightarrow> Some (f v)) else map_of ms j)"
  "map_of (opt_member k f x) j = (if j = k then map_option f x else None)"
  by (auto simp: opt_member_def split: option.splits)

end
