(* ===== verification/Progress.thy ===== *)
theory Progress
  imports Json
begin

text \<open>
  \<open>src/src/components/executor-progress.ts\<close>: the progress facts an executor reports for one
  claimed attempt, the lease snapshot the facts are folded into, the lease policy with its two
  presets, the validator of a raw fact, the deadlines of a snapshot and the diagnostic lease
  effect of a fact. Enums of the source are datatypes; an ISO instant is an integer, except
  \<open>nextEvaluationAt\<close>, whose reader explicitly handles an instant that does not parse.
  \<open>node:crypto\<close>'s SHA-256 (hex) is the parameter \<open>sha\<close>.
\<close>

section \<open>Facts\<close>

datatype progress_kind =
  Alive | Producing_output | Using_tool | Durable_milestone | Awaiting_input | Stalled

datatype progress_phase = Ph_start | Ph_advance | Ph_end | Ph_resolved

datatype executor_kind = Agent | Pi | Remote

record payload =
  pl_operation_id :: "string option"
  pl_operation_label :: "string option"
  pl_expected_timeout_ms :: "int option"
  pl_progress_units :: "int option"
  pl_observation_id :: "string option"
  pl_milestone_id :: "string option"
  pl_input_request_id :: "string option"
  pl_summary :: "string option"

record fact =
  f_fact_id :: string
  f_attempt_id :: string
  f_claim_generation :: int
  f_executor_kind :: executor_kind
  f_executor_id :: string
  f_kind :: progress_kind
  f_phase :: "progress_phase option"
  f_producer_at :: "string option"
  f_payload :: payload

section \<open>Snapshots\<close>

datatype lease_reason =
    Liveness_expired | Progress_expired | Tool_silence_expired | Awaiting_input_expired
  | Explicit_stall | Hard_deadline | Inspection_unknown_exhausted

datatype evaluation_phase =
  Healthy | Warning | Inspect_due | Inspecting | Inspect_grace | Cancel_requested | Closed

datatype inspection_outcome = Insp_running | Insp_terminal | Insp_unknown

record lease_operation =
  op_id :: string
  op_label :: string
  op_started_at :: int
  op_silence_deadline_at :: int
  op_progress_units :: "int option"
  op_last_observation_id :: "string option"

record awaiting_input =
  ai_request_id :: string
  ai_since :: int
  ai_deadline_at :: int

record lease_evaluation =
  ev_phase :: evaluation_phase
  ev_reason :: "lease_reason option"
  ev_inspection_count :: int
  ev_last_outcome :: "inspection_outcome option"
  ev_grace_deadline_at :: "int option"
  ev_version :: int

text \<open>An instant as stored text: one that parses, or one for which \<open>getTime()\<close> is \<open>NaN\<close>.\<close>

datatype stamp = At int | Unparseable

record snapshot =
  sn_attempt_id :: string
  sn_card_id :: int
  sn_claim_generation :: int
  sn_executor_kind :: executor_kind
  sn_executor_id :: string
  sn_high_water_sequence :: int
  sn_state_version :: int
  sn_semantic_state :: progress_kind
  sn_semantic_fingerprint :: "string option"
  sn_last_milestone_id :: "string option"
  sn_last_received_at :: int
  sn_last_liveness_at :: int
  sn_last_progress_at :: int
  sn_liveness_deadline_at :: int
  sn_progress_deadline_at :: int
  sn_output_only_since :: "int option"
  sn_output_units :: "int option"
  sn_operation :: "lease_operation option"
  sn_awaiting_input :: "awaiting_input option"
  sn_evaluation :: lease_evaluation
  sn_next_evaluation_at :: "stamp option"
  sn_closed_at :: "int option"
  sn_close_reason :: "string option"
  sn_updated_at :: int

section \<open>Policies\<close>

record lease_policy =
  lp_liveness_ms :: int
  lp_meaningful_progress_ms :: int
  lp_warning_before_ms :: int
  lp_inspect_grace_ms :: int
  lp_max_unknown_inspections :: int
  lp_max_tool_silence_ms :: int
  lp_awaiting_input_ms :: int
  lp_output_only_progress_cap_ms :: int

definition DEFAULT_LOCAL_POLICY :: lease_policy where
  "DEFAULT_LOCAL_POLICY = \<lparr>
     lp_liveness_ms = 120000, lp_meaningful_progress_ms = 300000, lp_warning_before_ms = 30000,
     lp_inspect_grace_ms = 30000, lp_max_unknown_inspections = 3, lp_max_tool_silence_ms = 600000,
     lp_awaiting_input_ms = 600000, lp_output_only_progress_cap_ms = 120000 \<rparr>"

definition DEFAULT_PI_POLICY :: lease_policy where
  "DEFAULT_PI_POLICY = \<lparr>
     lp_liveness_ms = 180000, lp_meaningful_progress_ms = 600000, lp_warning_before_ms = 60000,
     lp_inspect_grace_ms = 60000, lp_max_unknown_inspections = 3, lp_max_tool_silence_ms = 900000,
     lp_awaiting_input_ms = 1800000, lp_output_only_progress_cap_ms = 300000 \<rparr>"

text \<open>What every policy in use satisfies, and what the lease lemmas need of one.\<close>

definition policy_ok :: "lease_policy \<Rightarrow> bool" where
  "policy_ok p \<longleftrightarrow> 0 \<le> lp_warning_before_ms p \<and> lp_warning_before_ms p < lp_liveness_ms p \<and>
     lp_liveness_ms p \<le> lp_meaningful_progress_ms p \<and> 0 < lp_inspect_grace_ms p \<and>
     0 < lp_max_unknown_inspections p \<and> 0 < lp_max_tool_silence_ms p \<and>
     0 < lp_awaiting_input_ms p \<and> 0 < lp_output_only_progress_cap_ms p"

lemma policy_ok_presets: "policy_ok DEFAULT_LOCAL_POLICY" "policy_ok DEFAULT_PI_POLICY"
  by (simp_all add: policy_ok_def DEFAULT_LOCAL_POLICY_def DEFAULT_PI_POLICY_def)

section \<open>Decisions\<close>

datatype lease_action = La_healthy | La_warning | La_inspect | La_cancel | La_closed

record lease_decision =
  ld_action :: lease_action
  ld_reason :: "lease_reason option"
  ld_next_at :: "int option"

section \<open>Names of the enums\<close>

fun kind_name :: "progress_kind \<Rightarrow> string" where
  "kind_name Alive = ''alive''"
| "kind_name Producing_output = ''producing_output''"
| "kind_name Using_tool = ''using_tool''"
| "kind_name Durable_milestone = ''durable_milestone''"
| "kind_name Awaiting_input = ''awaiting_input''"
| "kind_name Stalled = ''stalled''"

fun phase_name :: "progress_phase \<Rightarrow> string" where
  "phase_name Ph_start = ''start''"
| "phase_name Ph_advance = ''advance''"
| "phase_name Ph_end = ''end''"
| "phase_name Ph_resolved = ''resolved''"

fun executor_kind_name :: "executor_kind \<Rightarrow> string" where
  "executor_kind_name Agent = ''agent''"
| "executor_kind_name Pi = ''pi''"
| "executor_kind_name Remote = ''remote''"

definition VALID_KINDS :: "string list" where
  "VALID_KINDS = [''alive'', ''producing_output'', ''using_tool'', ''durable_milestone'',
     ''awaiting_input'', ''stalled'']"

definition VALID_PHASES :: "string list" where
  "VALID_PHASES = [''start'', ''advance'', ''end'', ''resolved'']"

text \<open>
  \<open>PHASE_OPTIONS\<close> and \<open>PHASE_REQUIRED\<close> are object literals read with a computed key, so a key
  that \<open>Object.prototype\<close> defines finds an inherited member: a truthy value that has no
  \<open>includes\<close> method.
\<close>

definition object_prototype_keys :: "string list" where
  "object_prototype_keys = [''constructor'', ''__defineGetter__'', ''__defineSetter__'',
     ''hasOwnProperty'', ''__lookupGetter__'', ''__lookupSetter__'', ''isPrototypeOf'',
     ''propertyIsEnumerable'', ''toString'', ''valueOf'', ''__proto__'', ''toLocaleString'']"

definition PHASE_REQUIRED :: "string \<Rightarrow> bool" where
  "PHASE_REQUIRED k \<longleftrightarrow> k = ''using_tool'' \<or> k = ''awaiting_input'' \<or> k \<in> set object_prototype_keys"

definition PHASE_OPTIONS :: "string \<Rightarrow> string list option" where
  "PHASE_OPTIONS k =
     (if k = ''using_tool'' then Some [''start'', ''advance'', ''end'']
      else if k = ''awaiting_input'' then Some [''start'', ''resolved'']
      else None)"

section \<open>Validation\<close>

text \<open>An issue is its tag and path; severity is always \<open>error\<close> and the message is display text.\<close>

type_synonym issue = "string \<times> string"

datatype validation = Valid | Invalid "issue list" | Throws_TypeError

definition raise_if :: "bool \<Rightarrow> string \<Rightarrow> string \<Rightarrow> issue list" where
  "raise_if b tag path = (if b then [(tag, path)] else [])"

definition executor_issues :: "json option \<Rightarrow> issue list" where
  "executor_issues ex =
     (case ex of
        None \<Rightarrow> [(''missing_field'', ''$.executor'')]
      | Some e \<Rightarrow>
          if \<not> is_object e then [(''missing_field'', ''$.executor'')]
          else raise_if (jget e ''kind'' \<noteq> Some (JStr ''agent'') \<and> jget e ''kind'' \<noteq> Some (JStr ''pi''))
                 ''type_error'' ''$.executor.kind'' @
               raise_if (\<not> nonempty_string_upto 200 (jget e ''id''))
                 ''missing_field'' ''$.executor.id'')"

definition bounded_string_fields :: "(string \<times> nat) list" where
  "bounded_string_fields = [(''operation_id'', 200), (''operation_label'', 200),
     (''observation_id'', 200), (''milestone_id'', 200), (''input_request_id'', 200), (''summary'', 500)]"

definition payload_issues :: "json option \<Rightarrow> json option \<Rightarrow> issue list" where
  "payload_issues kind pay =
     (case pay of
        Some (JObj ms) \<Rightarrow>
          let p = JObj ms in
          concat (map (\<lambda>(field, n). raise_if (jget p field \<noteq> None \<and> \<not> string_upto n (jget p field))
             ''invalid_payload'' (''$.payload.'' @ field)) bounded_string_fields) @
          concat (map (\<lambda>field. raise_if (jget p field \<noteq> None \<and> \<not> safe_integer_from 0 (jget p field))
             ''invalid_payload'' (''$.payload.'' @ field)) [''expected_timeout_ms'', ''progress_units'']) @
          raise_if (kind = Some (JStr ''durable_milestone'') \<and> \<not> is_string (jget p ''milestone_id''))
             ''missing_field'' ''$.payload.milestone_id'' @
          raise_if (kind = Some (JStr ''using_tool'') \<and> \<not> is_string (jget p ''operation_id''))
             ''missing_field'' ''$.payload.operation_id'' @
          raise_if (kind = Some (JStr ''awaiting_input'') \<and> \<not> is_string (jget p ''input_request_id''))
             ''missing_field'' ''$.payload.input_request_id''
      | _ \<Rightarrow> [(''missing_field'', ''$.payload'')])"

text \<open>The phase checks; \<open>None\<close> is the \<open>TypeError\<close> of calling the missing \<open>includes\<close>.\<close>

definition phase_issues :: "json option \<Rightarrow> json option \<Rightarrow> issue list option" where
  "phase_issues kind phase =
     (let key = (case kind of None \<Rightarrow> '''' | Some k \<Rightarrow> prop_key k);
          bad_phase = raise_if (phase \<noteq> None \<and> (\<forall>p \<in> set VALID_PHASES. phase \<noteq> Some (JStr p)))
            ''type_error'' ''$.phase'';
          missing = raise_if (truthy_json kind \<and> PHASE_REQUIRED key \<and> \<not> truthy_json phase)
            ''missing_field'' ''$.phase''
      in if truthy_json kind \<and> truthy_json phase \<and> key \<in> set object_prototype_keys then None
         else Some (bad_phase @ missing @
           (case PHASE_OPTIONS key of
              Some allowed \<Rightarrow>
                raise_if (truthy_json kind \<and> truthy_json phase \<and>
                    (\<forall>p \<in> set allowed. phase \<noteq> Some (JStr p))) ''type_error'' ''$.phase''
            | None \<Rightarrow> [])))"

definition MAX_EVENT_JSON_BYTES :: nat where
  "MAX_EVENT_JSON_BYTES = 10000"

definition validateProgressEvent :: "json \<Rightarrow> validation" where
  "validateProgressEvent raw =
     (if \<not> is_object raw then Invalid [(''type_error'', ''$'')]
      else if jget raw ''schema_version'' \<noteq> Some (JNum (NInt 1)) then
        Invalid [(''unknown_version'', ''$.schema_version'')]
      else case phase_issues (jget raw ''kind'') (jget raw ''phase'') of
        None \<Rightarrow> Throws_TypeError
      | Some phase_errors \<Rightarrow>
          let errors =
            raise_if (\<not> nonempty_string_upto 200 (jget raw ''fact_id'')) ''missing_field'' ''$.fact_id'' @
            raise_if (\<not> nonempty_string_upto 200 (jget raw ''attempt_id'')) ''missing_field'' ''$.attempt_id'' @
            raise_if (\<not> safe_integer_from 1 (jget raw ''claim_generation''))
              ''type_error'' ''$.claim_generation'' @
            executor_issues (jget raw ''executor'') @
            raise_if (\<forall>k \<in> set VALID_KINDS. jget raw ''kind'' \<noteq> Some (JStr k)) ''type_error'' ''$.kind'' @
            phase_errors @
            payload_issues (jget raw ''kind'') (jget raw ''payload'') @
            raise_if (jget raw ''producer_at'' \<noteq> None \<and> \<not> string_upto 64 (jget raw ''producer_at''))
              ''type_error'' ''$.producer_at''
          in if errors \<noteq> [] then Invalid errors
             else if json_size raw > MAX_EVENT_JSON_BYTES then Invalid [(''too_long'', ''$'')]
             else Valid)"

section \<open>Fingerprints, deadlines, effects\<close>

definition part_if_truthy :: "string option \<Rightarrow> string list" where
  "part_if_truthy s = (if truthy s then [the s] else [])"

definition fingerprint_parts :: "fact \<Rightarrow> string list" where
  "fingerprint_parts f =
     (let p = f_payload f in
      [kind_name (f_kind f), (case f_phase f of None \<Rightarrow> '''' | Some ph \<Rightarrow> phase_name ph)] @
      part_if_truthy (pl_operation_id p) @
      part_if_truthy (pl_milestone_id p) @
      part_if_truthy (pl_input_request_id p) @
      (case pl_progress_units p of None \<Rightarrow> [] | Some u \<Rightarrow> [show_int u]) @
      part_if_truthy (pl_observation_id p) @
      (if truthy (pl_summary p) then [take 100 (the (pl_summary p))] else []))"

definition computeSemanticFingerprint :: "(string \<Rightarrow> string) \<Rightarrow> fact \<Rightarrow> string" where
  "computeSemanticFingerprint sha f = take 16 (sha (join_with ''|'' (fingerprint_parts f)))"

text \<open>\<open>snapshot\<close> is the pair of the two optional instants the source reads of it.\<close>

definition computeDeadlines ::
    "int \<Rightarrow> lease_policy \<Rightarrow> int option \<times> int option \<Rightarrow> int option \<Rightarrow> int \<times> int" where
  "computeDeadlines now policy snap hard =
     (let lastLivenessAt = orelse (fst snap) now;
          lastProgressAt = orelse (snd snap) now;
          livenessDeadline = lastLivenessAt + lp_liveness_ms policy;
          progressDeadline = lastProgressAt + lp_meaningful_progress_ms policy
      in case hard of
           None \<Rightarrow> (livenessDeadline, progressDeadline)
         | Some h \<Rightarrow> (if h < livenessDeadline then h else livenessDeadline,
                     if h < progressDeadline then h else progressDeadline))"

datatype lease_effect = Eff_none | Eff_liveness | Eff_meaningful | Eff_state

fun computeLeaseEffect :: "progress_kind \<Rightarrow> progress_phase option \<Rightarrow> lease_effect" where
  "computeLeaseEffect Durable_milestone ph = Eff_meaningful"
| "computeLeaseEffect Producing_output ph = Eff_liveness"
| "computeLeaseEffect Using_tool ph = (if ph = Some Ph_end then Eff_meaningful else Eff_liveness)"
| "computeLeaseEffect Awaiting_input ph = (if ph = Some Ph_resolved then Eff_meaningful else Eff_state)"
| "computeLeaseEffect Stalled ph = Eff_state"
| "computeLeaseEffect Alive ph = Eff_liveness"

section \<open>The validator against the contract of a typed fact\<close>

text \<open>The value a typed fact is at run time; absent members are omitted.\<close>

definition payload_json :: "payload \<Rightarrow> json" where
  "payload_json p = JObj (
     opt_member ''operation_id'' JStr (pl_operation_id p) @
     opt_member ''operation_label'' JStr (pl_operation_label p) @
     opt_member ''expected_timeout_ms'' (\<lambda>i. JNum (NInt i)) (pl_expected_timeout_ms p) @
     opt_member ''progress_units'' (\<lambda>i. JNum (NInt i)) (pl_progress_units p) @
     opt_member ''observation_id'' JStr (pl_observation_id p) @
     opt_member ''milestone_id'' JStr (pl_milestone_id p) @
     opt_member ''input_request_id'' JStr (pl_input_request_id p) @
     opt_member ''summary'' JStr (pl_summary p))"

definition fact_json :: "fact \<Rightarrow> json" where
  "fact_json f = JObj (
     [(''schema_version'', JNum (NInt 1)), (''fact_id'', JStr (f_fact_id f)),
      (''attempt_id'', JStr (f_attempt_id f)), (''claim_generation'', JNum (NInt (f_claim_generation f))),
      (''executor'', JObj [(''kind'', JStr (executor_kind_name (f_executor_kind f))),
                          (''id'', JStr (f_executor_id f))]),
      (''kind'', JStr (kind_name (f_kind f)))] @
     opt_member ''phase'' (\<lambda>ph. JStr (phase_name ph)) (f_phase f) @
     opt_member ''producer_at'' JStr (f_producer_at f) @
     [(''payload'', payload_json (f_payload f))])"

text \<open>The contract a well-formed fact meets, stated on the typed fact.\<close>

definition id_ok :: "nat \<Rightarrow> string \<Rightarrow> bool" where
  "id_ok n s \<longleftrightarrow> s \<noteq> [] \<and> length s \<le> n"

definition opt_upto :: "nat \<Rightarrow> string option \<Rightarrow> bool" where
  "opt_upto n s \<longleftrightarrow> (case s of None \<Rightarrow> True | Some t \<Rightarrow> length t \<le> n)"

definition opt_natural :: "int option \<Rightarrow> bool" where
  "opt_natural i \<longleftrightarrow> (case i of None \<Rightarrow> True | Some n \<Rightarrow> 0 \<le> n \<and> n \<le> max_safe_integer)"

definition payload_ok :: "payload \<Rightarrow> bool" where
  "payload_ok p \<longleftrightarrow> opt_upto 200 (pl_operation_id p) \<and> opt_upto 200 (pl_operation_label p) \<and>
     opt_upto 200 (pl_observation_id p) \<and> opt_upto 200 (pl_milestone_id p) \<and>
     opt_upto 200 (pl_input_request_id p) \<and> opt_upto 500 (pl_summary p) \<and>
     opt_natural (pl_expected_timeout_ms p) \<and> opt_natural (pl_progress_units p)"

definition shape_ok :: "fact \<Rightarrow> bool" where
  "shape_ok f \<longleftrightarrow> (case f_kind f of
       Using_tool \<Rightarrow> f_phase f \<in> {Some Ph_start, Some Ph_advance, Some Ph_end} \<and>
         pl_operation_id (f_payload f) \<noteq> None
     | Awaiting_input \<Rightarrow> f_phase f \<in> {Some Ph_start, Some Ph_resolved} \<and>
         pl_input_request_id (f_payload f) \<noteq> None
     | Durable_milestone \<Rightarrow> pl_milestone_id (f_payload f) \<noteq> None
     | _ \<Rightarrow> True)"

definition fact_ok :: "fact \<Rightarrow> bool" where
  "fact_ok f \<longleftrightarrow> id_ok 200 (f_fact_id f) \<and> id_ok 200 (f_attempt_id f) \<and>
     1 \<le> f_claim_generation f \<and> f_claim_generation f \<le> max_safe_integer \<and>
     f_executor_kind f \<noteq> Remote \<and> id_ok 200 (f_executor_id f) \<and>
     opt_upto 64 (f_producer_at f) \<and> shape_ok f \<and> payload_ok (f_payload f)"

lemma raise_if_Nil [simp]: "(raise_if b t p = []) = (\<not> b)"
  by (simp add: raise_if_def)


lemma phase_issues_fact_None:
  "phase_issues (Some (JStr (kind_name k))) None =
     Some (if k = Using_tool \<or> k = Awaiting_input then [(''missing_field'', ''$.phase'')] else [])"
  by (cases k) (simp_all add: phase_issues_def PHASE_REQUIRED_def PHASE_OPTIONS_def
     object_prototype_keys_def raise_if_def)

lemma phase_issues_fact_Some:
  "phase_issues (Some (JStr (kind_name k))) (Some (JStr (phase_name ph))) =
     Some (if k = Using_tool \<and> ph = Ph_resolved \<or> k = Awaiting_input \<and> ph \<notin> {Ph_start, Ph_resolved}
           then [(''type_error'', ''$.phase'')] else [])"
  by (cases k; cases ph) (simp_all add: phase_issues_def PHASE_REQUIRED_def PHASE_OPTIONS_def
     object_prototype_keys_def VALID_PHASES_def raise_if_def)

lemma phase_issues_fact:
  "\<exists>es. phase_issues (Some (JStr (kind_name k))) (map_option (\<lambda>p. JStr (phase_name p)) ph) = Some es \<and>
    (es = [] \<longleftrightarrow> (case k of
       Using_tool \<Rightarrow> ph \<in> {Some Ph_start, Some Ph_advance, Some Ph_end}
     | Awaiting_input \<Rightarrow> ph \<in> {Some Ph_start, Some Ph_resolved} | _ \<Rightarrow> True))"
proof (cases ph)
  case None
  show ?thesis unfolding None option.map phase_issues_fact_None by (cases k) auto
next
  case (Some p)
  show ?thesis unfolding Some option.map phase_issues_fact_Some by (cases k; cases p) auto
qed

lemma string_upto_member [simp]:
  "(map_option JStr s \<noteq> None \<and> \<not> string_upto n (map_option JStr s)) = (\<not> opt_upto n s)"
  by (cases s) (simp_all add: opt_upto_def)

lemma safe_integer_member [simp]:
  "(map_option (\<lambda>i. JNum (NInt i)) x \<noteq> None \<and> \<not> safe_integer_from 0 (map_option (\<lambda>i. JNum (NInt i)) x)) =
    (\<not> opt_natural x)"
  by (cases x) (auto simp: opt_natural_def)

lemma is_string_member [simp]: "is_string (map_option JStr s) = (s \<noteq> None)"
  by (cases s) simp_all

lemma jget_payload_json:
  "jget (payload_json p) ''operation_id'' = map_option JStr (pl_operation_id p)"
  "jget (payload_json p) ''operation_label'' = map_option JStr (pl_operation_label p)"
  "jget (payload_json p) ''expected_timeout_ms'' = map_option (\<lambda>i. JNum (NInt i)) (pl_expected_timeout_ms p)"
  "jget (payload_json p) ''progress_units'' = map_option (\<lambda>i. JNum (NInt i)) (pl_progress_units p)"
  "jget (payload_json p) ''observation_id'' = map_option JStr (pl_observation_id p)"
  "jget (payload_json p) ''milestone_id'' = map_option JStr (pl_milestone_id p)"
  "jget (payload_json p) ''input_request_id'' = map_option JStr (pl_input_request_id p)"
  "jget (payload_json p) ''summary'' = map_option JStr (pl_summary p)"
  by (simp_all add: payload_json_def map_add_def split: option.split)

lemma payload_json_obj: "\<exists>ms. payload_json p = JObj ms"
  by (simp add: payload_json_def)

lemma kind_name_eq:
  "(kind_name k = ''durable_milestone'') = (k = Durable_milestone)"
  "(kind_name k = ''using_tool'') = (k = Using_tool)"
  "(kind_name k = ''awaiting_input'') = (k = Awaiting_input)"
  by (cases k; simp)+

lemma payload_issues_fact:
  "(payload_issues (Some (JStr (kind_name k))) (Some (payload_json p)) = []) \<longleftrightarrow>
    payload_ok p \<and>
    (k = Durable_milestone \<longrightarrow> pl_milestone_id p \<noteq> None) \<and>
    (k = Using_tool \<longrightarrow> pl_operation_id p \<noteq> None) \<and>
    (k = Awaiting_input \<longrightarrow> pl_input_request_id p \<noteq> None)"
proof -
  obtain ms where ms: "payload_json p = JObj ms" using payload_json_obj by blast
  note j = jget_payload_json [of p, unfolded ms]
  show ?thesis
    unfolding ms payload_issues_def
    by (simp only: option.case json.case Let_def bounded_string_fields_def list.map concat.simps
          prod.case j string_upto_member safe_integer_member is_string_member append_is_Nil_conv
          raise_if_Nil option.inject json.inject kind_name_eq payload_ok_def simp_thms de_Morgan_conj imp_conv_disj conj_assoc)
qed

lemma jget_fact_json:
  "jget (fact_json f) ''schema_version'' = Some (JNum (NInt 1))"
  "jget (fact_json f) ''fact_id'' = Some (JStr (f_fact_id f))"
  "jget (fact_json f) ''attempt_id'' = Some (JStr (f_attempt_id f))"
  "jget (fact_json f) ''claim_generation'' = Some (JNum (NInt (f_claim_generation f)))"
  "jget (fact_json f) ''executor'' = Some (JObj [(''kind'', JStr (executor_kind_name (f_executor_kind f))),
                          (''id'', JStr (f_executor_id f))])"
  "jget (fact_json f) ''kind'' = Some (JStr (kind_name (f_kind f)))"
  "jget (fact_json f) ''phase'' = map_option (\<lambda>ph. JStr (phase_name ph)) (f_phase f)"
  "jget (fact_json f) ''producer_at'' = map_option JStr (f_producer_at f)"
  "jget (fact_json f) ''payload'' = Some (payload_json (f_payload f))"
  "is_object (fact_json f)"
  by (simp_all add: fact_json_def map_add_def split: option.split)

lemma executor_issues_fact:
  "(executor_issues (Some (JObj [(''kind'', JStr (executor_kind_name k)), (''id'', JStr i)])) = []) =
    (k \<noteq> Remote \<and> id_ok 200 i)"
  by (cases k) (auto simp: executor_issues_def id_ok_def)

lemma kind_issues_fact:
  "(\<forall>n \<in> set VALID_KINDS. Some (JStr (kind_name k)) \<noteq> Some (JStr n)) = False"
  by (cases k) (simp_all add: VALID_KINDS_def)

lemma shape_ok_split:
  "shape_ok f \<longleftrightarrow>
    (case f_kind f of
       Using_tool \<Rightarrow> f_phase f \<in> {Some Ph_start, Some Ph_advance, Some Ph_end}
     | Awaiting_input \<Rightarrow> f_phase f \<in> {Some Ph_start, Some Ph_resolved} | _ \<Rightarrow> True) \<and>
    (f_kind f = Durable_milestone \<longrightarrow> pl_milestone_id (f_payload f) \<noteq> None) \<and>
    (f_kind f = Using_tool \<longrightarrow> pl_operation_id (f_payload f) \<noteq> None) \<and>
    (f_kind f = Awaiting_input \<longrightarrow> pl_input_request_id (f_payload f) \<noteq> None)"
  by (cases "f_kind f") (auto simp: shape_ok_def)

lemma decide_Valid:
  "(if e \<noteq> [] then Invalid e else if n > m then Invalid x else Valid) = Valid \<longleftrightarrow> e = [] \<and> n \<le> (m::nat)"
  by simp

text \<open>
  the validator accepts the wire form of a typed fact exactly when the fact meets the
  declared contract (bounded non-empty identities, a positive safe generation, an agent or pi
  executor, the phase and payload member its kind requires, bounded payload members) and its
  JSON text has at most 10000 bytes; it never throws on such a fact.
\<close>

lemma validate_fact_iff:
  "validateProgressEvent (fact_json f) = Valid \<longleftrightarrow>
     fact_ok f \<and> json_size (fact_json f) \<le> MAX_EVENT_JSON_BYTES"
proof -
  obtain es where es: "phase_issues (Some (JStr (kind_name (f_kind f))))
      (map_option (\<lambda>p. JStr (phase_name p)) (f_phase f)) = Some es"
    and shape: "(es = []) = (case f_kind f of
       Using_tool \<Rightarrow> f_phase f \<in> {Some Ph_start, Some Ph_advance, Some Ph_end}
     | Awaiting_input \<Rightarrow> f_phase f \<in> {Some Ph_start, Some Ph_resolved} | _ \<Rightarrow> True)"
    using phase_issues_fact by blast
  have gen: "(\<not> safe_integer_from 1 (Some (JNum (NInt i)))) = (\<not> (1 \<le> i \<and> i \<le> max_safe_integer))" for i
    by auto
  have id: "nonempty_string_upto 200 (Some (JStr s)) = id_ok 200 s" for s
    by (simp add: id_ok_def)
  show ?thesis
    unfolding validateProgressEvent_def jget_fact_json es Let_def option.case decide_Valid
      append_is_Nil_conv raise_if_Nil executor_issues_fact payload_issues_fact shape kind_issues_fact
      string_upto_member gen id
    by (auto simp: jget_fact_json fact_ok_def shape_ok_split)
qed

end
