(* ===== verification/Lease.thy ===== *)
theory Lease
  imports Progress
begin

text \<open>
  \<open>src/src/components/executor-lease-reducer.ts\<close> and \<open>executor-lease-policy.ts\<close>: folding one
  progress fact into the lease snapshot of an attempt, evaluating a snapshot against the clock
  and the policy, and applying the outcome of an inspection. \<open>hard\<close> is the attempt's optional
  hard deadline, \<open>resolver\<close> the optional \<open>PendingInputResolver\<close>.
\<close>

section \<open>The reducer\<close>

definition armEvaluation :: "lease_policy \<Rightarrow> int \<Rightarrow> int \<Rightarrow> int \<Rightarrow> int option \<Rightarrow> int" where
  "armEvaluation policy livenessDeadlineAt progressDeadlineAt now hard =
     (let evalAt = clamp hard (min (livenessDeadlineAt - lp_warning_before_ms policy)
                                   (progressDeadlineAt - lp_warning_before_ms policy))
      in max now evalAt)"

definition createInitialSnapshot ::
    "(string \<Rightarrow> string) \<Rightarrow> fact \<Rightarrow> int \<Rightarrow> lease_policy \<Rightarrow> int \<Rightarrow> int option \<Rightarrow> snapshot" where
  "createInitialSnapshot sha f cardId policy now hard =
     (let livenessDeadlineAt = clamp hard (now + lp_liveness_ms policy);
          progressDeadlineAt = clamp hard (now + lp_meaningful_progress_ms policy)
      in \<lparr> sn_attempt_id = f_attempt_id f,
           sn_card_id = cardId,
           sn_claim_generation = f_claim_generation f,
           sn_executor_kind = f_executor_kind f,
           sn_executor_id = f_executor_id f,
           sn_high_water_sequence = 0,
           sn_state_version = 1,
           sn_semantic_state = f_kind f,
           sn_semantic_fingerprint = Some (computeSemanticFingerprint sha f),
           sn_last_milestone_id =
             (if f_kind f = Durable_milestone then pl_milestone_id (f_payload f) else None),
           sn_last_received_at = now,
           sn_last_liveness_at = now,
           sn_last_progress_at = now,
           sn_liveness_deadline_at = livenessDeadlineAt,
           sn_progress_deadline_at = progressDeadlineAt,
           sn_output_only_since = None,
           sn_output_units = None,
           sn_operation = None,
           sn_awaiting_input = None,
           sn_evaluation = \<lparr> ev_phase = Healthy, ev_reason = None, ev_inspection_count = 0,
             ev_last_outcome = None, ev_grace_deadline_at = None, ev_version = 0 \<rparr>,
           sn_next_evaluation_at =
             Some (At (armEvaluation policy livenessDeadlineAt progressDeadlineAt now hard)),
           sn_closed_at = None,
           sn_close_reason = None,
           sn_updated_at = now \<rparr>)"

text \<open>The two refreshes the cases of \<open>reduceFact\<close> repeat.\<close>

definition touch_liveness :: "lease_policy \<Rightarrow> int \<Rightarrow> int option \<Rightarrow> snapshot \<Rightarrow> snapshot" where
  "touch_liveness policy now hard s =
     s\<lparr> sn_last_liveness_at := now, sn_liveness_deadline_at := clamp hard (now + lp_liveness_ms policy) \<rparr>"

definition touch_progress :: "lease_policy \<Rightarrow> int \<Rightarrow> int option \<Rightarrow> snapshot \<Rightarrow> snapshot" where
  "touch_progress policy now hard s =
     s\<lparr> sn_last_progress_at := now,
        sn_progress_deadline_at := clamp hard (now + lp_meaningful_progress_ms policy) \<rparr>"

definition clear_output :: "snapshot \<Rightarrow> snapshot" where
  "clear_output s = s\<lparr> sn_output_only_since := None, sn_output_units := None \<rparr>"

definition reduce_producing_output ::
    "lease_policy \<Rightarrow> int \<Rightarrow> int option \<Rightarrow> payload \<Rightarrow> snapshot \<Rightarrow> snapshot" where
  "reduce_producing_output policy now hard pay s =
     (let n = touch_liveness policy now hard (s\<lparr> sn_semantic_state := Producing_output \<rparr>)
      in case pl_progress_units pay of
           None \<Rightarrow> n
         | Some units \<Rightarrow>
             if units > orelse (sn_output_units n) 0 then
               let since = orelse (sn_output_only_since n) now;
                   n' = n\<lparr> sn_output_units := Some units, sn_output_only_since := Some since \<rparr>
               in if now \<le> since + lp_output_only_progress_cap_ms policy
                  then touch_progress policy now hard n' else n'
             else n)"

definition start_operation ::
    "lease_policy \<Rightarrow> int \<Rightarrow> int option \<Rightarrow> payload \<Rightarrow> string \<Rightarrow> snapshot \<Rightarrow> snapshot" where
  "start_operation policy now hard pay opId s =
     (if (case sn_operation s of None \<Rightarrow> True | Some oper \<Rightarrow> op_id oper \<noteq> opId) then
        let declared = orelse (pl_expected_timeout_ms pay) (lp_max_tool_silence_ms policy);
            absSilence = now + min declared (lp_max_tool_silence_ms policy)
        in s\<lparr> sn_operation := Some \<lparr> op_id = opId, op_label = orelse (pl_operation_label pay) opId,
               op_started_at = now, op_silence_deadline_at = clamp hard absSilence,
               op_progress_units = None, op_last_observation_id = None \<rparr> \<rparr>
      else s)"

definition advance_operation :: "payload \<Rightarrow> lease_operation \<Rightarrow> lease_operation" where
  "advance_operation pay oper =
     (let newUnits = pl_progress_units pay; newObs = pl_observation_id pay
      in if (case newUnits of None \<Rightarrow> False | Some u \<Rightarrow> u > orelse (op_progress_units oper) 0) \<or>
            (truthy newObs \<and> newObs \<noteq> op_last_observation_id oper)
         then oper\<lparr> op_progress_units := orelse_opt newUnits (op_progress_units oper),
                    op_last_observation_id := orelse_opt newObs (op_last_observation_id oper) \<rparr>
         else oper)"

definition reduce_using_tool ::
    "lease_policy \<Rightarrow> int \<Rightarrow> int option \<Rightarrow> progress_phase option \<Rightarrow> payload \<Rightarrow> snapshot \<Rightarrow> snapshot" where
  "reduce_using_tool policy now hard ph pay s =
     (if \<not> truthy (pl_operation_id pay) then s
      else let opId = the (pl_operation_id pay) in
        case ph of
          Some Ph_start \<Rightarrow>
            touch_liveness policy now hard
              ((start_operation policy now hard pay opId s)\<lparr> sn_semantic_state := Using_tool \<rparr>)
        | Some Ph_advance \<Rightarrow>
            (case sn_operation s of
               Some oper \<Rightarrow>
                 if op_id oper = opId
                 then touch_liveness policy now hard (s\<lparr> sn_operation := Some (advance_operation pay oper) \<rparr>)
                 else s
             | None \<Rightarrow> s)\<lparr> sn_semantic_state := Using_tool \<rparr>
        | Some Ph_end \<Rightarrow>
            (let ended = (case sn_operation s of
                 Some oper \<Rightarrow>
                   if op_id oper = opId then
                     (if truthy (pl_observation_id pay) \<and> pl_observation_id pay \<noteq> op_last_observation_id oper
                      then touch_progress policy now hard s else s)\<lparr> sn_operation := None \<rparr>
                   else s
               | None \<Rightarrow> s)
             in clear_output (touch_liveness policy now hard (ended\<lparr> sn_semantic_state := Alive \<rparr>)))
        | _ \<Rightarrow> s)"

definition reduce_durable_milestone ::
    "lease_policy \<Rightarrow> int \<Rightarrow> int option \<Rightarrow> payload \<Rightarrow> snapshot \<Rightarrow> snapshot" where
  "reduce_durable_milestone policy now hard pay s =
     (let mid = pl_milestone_id pay;
          n = (if truthy mid \<and> mid \<noteq> sn_last_milestone_id s
               then clear_output (touch_progress policy now hard (s\<lparr> sn_last_milestone_id := mid \<rparr>))
               else s)
      in touch_liveness policy now hard (n\<lparr> sn_semantic_state := Durable_milestone \<rparr>))"

definition reduce_awaiting_input ::
    "lease_policy \<Rightarrow> int \<Rightarrow> int option \<Rightarrow> (string \<Rightarrow> int \<Rightarrow> string \<Rightarrow> bool) option \<Rightarrow> fact \<Rightarrow> snapshot \<Rightarrow> snapshot" where
  "reduce_awaiting_input policy now hard resolver f s =
     (let n = (case f_phase f of
          Some Ph_start \<Rightarrow>
            (let reqId = pl_input_request_id (f_payload f);
                 n1 = (case resolver of
                     Some isOpen \<Rightarrow>
                       if truthy reqId \<and> isOpen (f_attempt_id f) (f_claim_generation f) (the reqId)
                       then s\<lparr> sn_awaiting_input := Some \<lparr> ai_request_id = the reqId, ai_since = now,
                              ai_deadline_at = clamp hard (now + lp_awaiting_input_ms policy) \<rparr> \<rparr>
                       else s
                   | None \<Rightarrow> s)
             in n1\<lparr> sn_semantic_state := Awaiting_input \<rparr>)
        | Some Ph_resolved \<Rightarrow>
            clear_output ((touch_progress policy now hard (s\<lparr> sn_awaiting_input := None \<rparr>))
              \<lparr> sn_semantic_state := Alive \<rparr>)
        | _ \<Rightarrow> s)
      in touch_liveness policy now hard n)"

definition reduce_stalled :: "lease_policy \<Rightarrow> int \<Rightarrow> int option \<Rightarrow> snapshot \<Rightarrow> snapshot" where
  "reduce_stalled policy now hard s =
     (touch_liveness policy now hard (s\<lparr> sn_semantic_state := Stalled \<rparr>))\<lparr> sn_next_evaluation_at := Some (At now) \<rparr>"

definition reduce_kind ::
    "lease_policy \<Rightarrow> int \<Rightarrow> int option \<Rightarrow> (string \<Rightarrow> int \<Rightarrow> string \<Rightarrow> bool) option \<Rightarrow> fact \<Rightarrow> snapshot \<Rightarrow> snapshot" where
  "reduce_kind policy now hard resolver f s =
     (case f_kind f of
        Alive \<Rightarrow> touch_liveness policy now hard (s\<lparr> sn_semantic_state := Alive \<rparr>)
      | Producing_output \<Rightarrow> reduce_producing_output policy now hard (f_payload f) s
      | Using_tool \<Rightarrow> reduce_using_tool policy now hard (f_phase f) (f_payload f) s
      | Durable_milestone \<Rightarrow> reduce_durable_milestone policy now hard (f_payload f) s
      | Awaiting_input \<Rightarrow> reduce_awaiting_input policy now hard resolver f s
      | Stalled \<Rightarrow> reduce_stalled policy now hard s)"

text \<open>The trailing re-arming: keep an armed instant unless it does not parse or the new one is earlier.\<close>

definition rearm :: "lease_policy \<Rightarrow> int \<Rightarrow> int option \<Rightarrow> snapshot \<Rightarrow> snapshot" where
  "rearm policy now hard s =
     (let armed = armEvaluation policy (sn_liveness_deadline_at s) (sn_progress_deadline_at s) now hard
      in if (case sn_next_evaluation_at s of Some (At t) \<Rightarrow> t > armed | _ \<Rightarrow> True)
         then s\<lparr> sn_next_evaluation_at := Some (At armed) \<rparr> else s)"

definition reduceFact ::
    "(string \<Rightarrow> string) \<Rightarrow> snapshot \<Rightarrow> fact \<Rightarrow> lease_policy \<Rightarrow> int \<Rightarrow> int option \<Rightarrow>
     (string \<Rightarrow> int \<Rightarrow> string \<Rightarrow> bool) option \<Rightarrow> snapshot" where
  "reduceFact sha s f policy now hard resolver =
     (let n0 = s\<lparr> sn_last_received_at := now,
                 sn_semantic_fingerprint := Some (computeSemanticFingerprint sha f),
                 sn_state_version := sn_state_version s + 1 \<rparr>
      in (rearm policy now hard (reduce_kind policy now hard resolver f n0))\<lparr> sn_updated_at := now \<rparr>)"

section \<open>The evaluator\<close>

definition decide :: "lease_action \<Rightarrow> lease_reason option \<Rightarrow> int option \<Rightarrow> lease_decision" where
  "decide a r t = \<lparr> ld_action = a, ld_reason = r, ld_next_at = t \<rparr>"

text \<open>The escalation of an expired lease, by the evaluation phase it is in.\<close>

definition escalate :: "snapshot \<Rightarrow> int \<Rightarrow> lease_reason \<Rightarrow> lease_decision" where
  "escalate s now reason =
     (case ev_phase (sn_evaluation s) of
        Healthy \<Rightarrow> decide La_warning (Some reason) (Some now)
      | Inspect_grace \<Rightarrow>
          (let graceDeadline = orelse (ev_grace_deadline_at (sn_evaluation s)) now
           in if now \<ge> graceDeadline then decide La_cancel (Some reason) None
              else decide La_healthy None (ev_grace_deadline_at (sn_evaluation s)))
      | Warning \<Rightarrow> (if sn_semantic_state s = Stalled then decide La_cancel (Some reason) None
                    else decide La_inspect (Some reason) None)
      | Inspecting \<Rightarrow> decide La_inspect (Some reason) None
      | Inspect_due \<Rightarrow> decide La_inspect (Some reason) None
      | _ \<Rightarrow> decide La_cancel (Some reason) None)"

definition evaluate_deadlines :: "snapshot \<Rightarrow> int \<Rightarrow> lease_policy \<Rightarrow> int option \<Rightarrow> lease_decision" where
  "evaluate_deadlines s now policy hard =
     (let livenessDeadline = clamp hard (sn_liveness_deadline_at s);
          progressDeadline = clamp hard (sn_progress_deadline_at s);
          livenessExpired = (now \<ge> livenessDeadline);
          progressExpired = (now \<ge> progressDeadline);
          livenessWarning = (\<not> livenessExpired \<and> now \<ge> livenessDeadline - lp_warning_before_ms policy);
          progressWarning = (\<not> progressExpired \<and> now \<ge> progressDeadline - lp_warning_before_ms policy);
          reason = (if progressExpired then Progress_expired else Liveness_expired)
      in if livenessExpired \<or> progressExpired then escalate s now reason
         else if livenessWarning \<or> progressWarning
              then decide La_warning (Some reason) (Some (min livenessDeadline progressDeadline))
         else decide La_healthy None
              (Some (min (livenessDeadline - lp_warning_before_ms policy)
                         (progressDeadline - lp_warning_before_ms policy))))"

definition evaluateLease :: "snapshot \<Rightarrow> int \<Rightarrow> lease_policy \<Rightarrow> int option \<Rightarrow> lease_decision" where
  "evaluateLease s now policy hard =
     (let ev = sn_evaluation s in
      if ev_phase ev = Closed \<or> sn_closed_at s \<noteq> None then decide La_closed None None
      else if ev_phase ev = Cancel_requested then decide La_cancel (ev_reason ev) None
      else if ev_phase ev = Inspect_grace \<and> ev_reason ev = Some Inspection_unknown_exhausted \<and>
              ev_inspection_count ev \<ge> lp_max_unknown_inspections policy
        then decide La_cancel (Some Inspection_unknown_exhausted) None
      else if (case hard of None \<Rightarrow> False | Some h \<Rightarrow> now \<ge> h) then decide La_cancel (Some Hard_deadline) None
      else if sn_semantic_state s = Stalled then decide La_cancel (Some Explicit_stall) None
      else case (if sn_semantic_state s = Awaiting_input then sn_awaiting_input s else None) of
        Some ai \<Rightarrow>
          (if now \<ge> ai_deadline_at ai then decide La_cancel (Some Awaiting_input_expired) None
           else decide La_healthy None (Some (min (ai_deadline_at ai) (orelse hard (ai_deadline_at ai)))))
      | None \<Rightarrow>
          (case sn_operation s of
             Some oper \<Rightarrow>
               (if now \<ge> op_silence_deadline_at oper then decide La_cancel (Some Tool_silence_expired) None
                else decide La_healthy None
                  (Some (min (op_silence_deadline_at oper) (orelse hard (op_silence_deadline_at oper)))))
           | None \<Rightarrow> evaluate_deadlines s now policy hard))"

definition applyInspectionOutcome ::
    "snapshot \<Rightarrow> inspection_outcome \<Rightarrow> int \<Rightarrow> lease_policy \<Rightarrow> int option \<Rightarrow> snapshot" where
  "applyInspectionOutcome s outcome now policy hard =
     (let ev0 = sn_evaluation s;
          ev1 = ev0\<lparr> ev_inspection_count := ev_inspection_count ev0 + 1,
                     ev_last_outcome := Some outcome, ev_version := ev_version ev0 + 1 \<rparr>;
          n = s\<lparr> sn_evaluation := ev1, sn_state_version := sn_state_version s + 1, sn_updated_at := now \<rparr>;
          grace = clamp hard (now + lp_inspect_grace_ms policy)
      in case outcome of
           Insp_running \<Rightarrow>
             (let n1 = n\<lparr> sn_last_liveness_at := now,
                         sn_liveness_deadline_at := clamp hard (now + lp_liveness_ms policy) \<rparr>;
                  progressDeadline = sn_last_progress_at n + lp_meaningful_progress_ms policy
              in if now \<ge> progressDeadline then
                   n1\<lparr> sn_evaluation := ev1\<lparr> ev_phase := Inspect_grace, ev_grace_deadline_at := Some grace \<rparr>,
                       sn_next_evaluation_at := Some (At grace) \<rparr>
                 else
                   n1\<lparr> sn_evaluation := ev1\<lparr> ev_phase := Healthy \<rparr>,
                       sn_progress_deadline_at := clamp hard progressDeadline,
                       sn_next_evaluation_at :=
                         Some (At (clamp hard (now + lp_liveness_ms policy - lp_warning_before_ms policy))) \<rparr>)
         | Insp_terminal \<Rightarrow>
             n\<lparr> sn_evaluation := ev1\<lparr> ev_phase := Closed \<rparr>, sn_closed_at := Some now,
                sn_close_reason := Some ''inspection_terminal'', sn_next_evaluation_at := None \<rparr>
         | Insp_unknown \<Rightarrow>
             (if ev_inspection_count ev1 \<ge> lp_max_unknown_inspections policy then
                n\<lparr> sn_evaluation := ev1\<lparr> ev_phase := Inspect_grace,
                     ev_reason := Some Inspection_unknown_exhausted, ev_grace_deadline_at := Some now \<rparr>,
                   sn_next_evaluation_at := Some (At now) \<rparr>
              else
                n\<lparr> sn_evaluation := ev1\<lparr> ev_phase := Inspect_grace, ev_grace_deadline_at := Some grace \<rparr>,
                   sn_next_evaluation_at := Some (At grace) \<rparr>))"

section \<open>What a fact leaves unchanged\<close>

definition same_lease :: "snapshot \<Rightarrow> snapshot \<Rightarrow> bool" where
  "same_lease s t \<longleftrightarrow> sn_attempt_id t = sn_attempt_id s \<and> sn_card_id t = sn_card_id s \<and>
     sn_claim_generation t = sn_claim_generation s \<and> sn_executor_kind t = sn_executor_kind s \<and>
     sn_executor_id t = sn_executor_id s \<and> sn_high_water_sequence t = sn_high_water_sequence s \<and>
     sn_evaluation t = sn_evaluation s \<and> sn_closed_at t = sn_closed_at s \<and>
     sn_close_reason t = sn_close_reason s"

lemma same_lease_refl [simp]: "same_lease s s"
  by (simp add: same_lease_def)

lemma same_lease_updates [simp]:
  "same_lease s (touch_liveness p n h t) = same_lease s t"
  "same_lease s (touch_progress p n h t) = same_lease s t"
  "same_lease s (clear_output t) = same_lease s t"
  "same_lease s (t\<lparr> sn_semantic_state := k \<rparr>) = same_lease s t"
  "same_lease s (t\<lparr> sn_operation := oper \<rparr>) = same_lease s t"
  "same_lease s (t\<lparr> sn_awaiting_input := ai \<rparr>) = same_lease s t"
  "same_lease s (t\<lparr> sn_last_milestone_id := m \<rparr>) = same_lease s t"
  "same_lease s (t\<lparr> sn_output_units := u \<rparr>) = same_lease s t"
  "same_lease s (t\<lparr> sn_output_only_since := u \<rparr>) = same_lease s t"
  "same_lease s (t\<lparr> sn_next_evaluation_at := x \<rparr>) = same_lease s t"
  "same_lease s (t\<lparr> sn_updated_at := y \<rparr>) = same_lease s t"
  "same_lease s (t\<lparr> sn_last_received_at := y \<rparr>) = same_lease s t"
  "same_lease s (t\<lparr> sn_semantic_fingerprint := fp \<rparr>) = same_lease s t"
  "same_lease s (t\<lparr> sn_state_version := v \<rparr>) = same_lease s t"
  by (simp_all add: same_lease_def touch_liveness_def touch_progress_def clear_output_def)

lemma same_lease_kind [simp]: "same_lease s (reduce_kind p n h r f t) = same_lease s t"
  by (cases "f_kind f")
     (simp_all add: reduce_kind_def reduce_producing_output_def reduce_using_tool_def
        start_operation_def reduce_durable_milestone_def reduce_awaiting_input_def reduce_stalled_def
        Let_def split: option.split progress_phase.split)

lemma same_lease_reduceFact [lease_simps]: "same_lease s (reduceFact sha s f p n h r)"
  by (simp add: reduceFact_def rearm_def Let_def split: option.split stamp.split)

lemma version_kind [simp]: "sn_state_version (reduce_kind p n h r f s) = sn_state_version s"
  by (cases "f_kind f")
     (simp_all add: reduce_kind_def reduce_producing_output_def reduce_using_tool_def
        start_operation_def reduce_durable_milestone_def reduce_awaiting_input_def reduce_stalled_def
        touch_liveness_def touch_progress_def clear_output_def
        Let_def split: option.split progress_phase.split)

lemma version_reduceFact [lease_simps]:
  "sn_state_version (reduceFact sha s f p n h r) = sn_state_version s + 1"
  by (simp add: reduceFact_def rearm_def Let_def split: option.split stamp.split)

section \<open>Deadlines stay inside the policy windows\<close>

text \<open>No deadline of the lease lies beyond its window counted from \<open>t\<close>, nor beyond the hard deadline.\<close>

definition lease_bounded :: "lease_policy \<Rightarrow> int option \<Rightarrow> int \<Rightarrow> snapshot \<Rightarrow> bool" where
  "lease_bounded policy hard t s \<longleftrightarrow>
     sn_liveness_deadline_at s \<le> clamp hard (t + lp_liveness_ms policy) \<and>
     sn_progress_deadline_at s \<le> clamp hard (t + lp_meaningful_progress_ms policy) \<and>
     (\<forall>oper. sn_operation s = Some oper \<longrightarrow>
        op_silence_deadline_at oper \<le> clamp hard (t + lp_max_tool_silence_ms policy)) \<and>
     (\<forall>ai. sn_awaiting_input s = Some ai \<longrightarrow>
        ai_deadline_at ai \<le> clamp hard (t + lp_awaiting_input_ms policy))"

lemma lease_bounded_mono: "lease_bounded p h t s \<Longrightarrow> t \<le> t' \<Longrightarrow> lease_bounded p h t' s"
  unfolding lease_bounded_def by (meson add_right_mono clamp_mono order_trans)

lemma lease_bounded_updates [simp]:
  "lease_bounded p h t (s\<lparr> sn_semantic_state := k \<rparr>) = lease_bounded p h t s"
  "lease_bounded p h t (s\<lparr> sn_last_milestone_id := m \<rparr>) = lease_bounded p h t s"
  "lease_bounded p h t (s\<lparr> sn_output_units := u \<rparr>) = lease_bounded p h t s"
  "lease_bounded p h t (s\<lparr> sn_output_only_since := u \<rparr>) = lease_bounded p h t s"
  "lease_bounded p h t (s\<lparr> sn_next_evaluation_at := x \<rparr>) = lease_bounded p h t s"
  "lease_bounded p h t (s\<lparr> sn_updated_at := y \<rparr>) = lease_bounded p h t s"
  "lease_bounded p h t (s\<lparr> sn_last_received_at := y \<rparr>) = lease_bounded p h t s"
  "lease_bounded p h t (s\<lparr> sn_semantic_fingerprint := fp \<rparr>) = lease_bounded p h t s"
  "lease_bounded p h t (s\<lparr> sn_state_version := v \<rparr>) = lease_bounded p h t s"
  "lease_bounded p h t (clear_output s) = lease_bounded p h t s"
  by (simp_all add: lease_bounded_def clear_output_def)

lemma lease_bounded_touch:
  "lease_bounded p h t s \<Longrightarrow> lease_bounded p h t (touch_liveness p t h s)"
  "lease_bounded p h t s \<Longrightarrow> lease_bounded p h t (touch_progress p t h s)"
  "lease_bounded p h t s \<Longrightarrow> lease_bounded p h t (s\<lparr> sn_operation := None \<rparr>)"
  "lease_bounded p h t s \<Longrightarrow> lease_bounded p h t (s\<lparr> sn_awaiting_input := None \<rparr>)"
  by (simp_all add: lease_bounded_def touch_liveness_def touch_progress_def)

lemma lease_bounded_start:
  "lease_bounded p h t s \<Longrightarrow> lease_bounded p h t (start_operation p t h pay i s)"
  by (auto simp: lease_bounded_def start_operation_def Let_def intro!: clamp_mono split: option.split)

lemma lease_bounded_advance:
  "lease_bounded p h t s \<Longrightarrow> sn_operation s = Some oper \<Longrightarrow>
    lease_bounded p h t (s\<lparr> sn_operation := Some (advance_operation pay oper) \<rparr>)"
  by (auto simp: lease_bounded_def advance_operation_def Let_def)

lemma lease_bounded_await:
  "lease_bounded p h t s \<Longrightarrow> lease_bounded p h t
    (s\<lparr> sn_awaiting_input := Some \<lparr> ai_request_id = i, ai_since = t,
        ai_deadline_at = clamp h (t + lp_awaiting_input_ms p) \<rparr> \<rparr>)"
  by (simp add: lease_bounded_def)

lemmas lease_bounded_intros =
  lease_bounded_touch lease_bounded_start lease_bounded_advance lease_bounded_await

lemma lease_bounded_kind:
  "lease_bounded p h t s \<Longrightarrow> lease_bounded p h t (reduce_kind p t h r f s)"
  by (cases "f_kind f")
     (auto simp: reduce_kind_def reduce_producing_output_def reduce_using_tool_def
        reduce_durable_milestone_def reduce_awaiting_input_def reduce_stalled_def Let_def
        intro!: lease_bounded_intros split: option.split progress_phase.split)

text \<open>
  C31: no fact can push a deadline of the lease past its policy window: if every deadline
  (liveness, progress, tool silence, awaiting input) lies within its window counted from some
  earlier instant and within the hard deadline, then after folding any fact at \<open>now\<close> it lies
  within the window counted from \<open>now\<close> and still within the hard deadline.
\<close>

theorem reduceFact_deadlines_bounded:
  assumes "lease_bounded policy hard t s" and "t \<le> now"
  shows "lease_bounded policy hard now (reduceFact sha s f policy now hard resolver)"
proof -
  have "lease_bounded policy hard now s"
    using assms by (rule lease_bounded_mono)
  then show ?thesis
    by (auto simp: reduceFact_def rearm_def Let_def intro!: lease_bounded_kind split: option.split stamp.split)
qed

lemma createInitialSnapshot_bounded: "lease_bounded p h now (createInitialSnapshot sha f c p now h)"
  by (simp add: lease_bounded_def createInitialSnapshot_def Let_def)

section \<open>The schedule stays armed\<close>

text \<open>
  After every fact the evaluation schedule is armed, no later than the policy's warning
  instant of the new deadlines, and no already armed instant was pushed beyond \<open>now\<close>.
\<close>

theorem reduceFact_armed:
  "\<exists>t. sn_next_evaluation_at (reduceFact sha s f policy now hard resolver) = Some (At t) \<and>
     t \<le> armEvaluation policy (sn_liveness_deadline_at (reduceFact sha s f policy now hard resolver))
            (sn_progress_deadline_at (reduceFact sha s f policy now hard resolver)) now hard \<and>
     t \<le> (case sn_next_evaluation_at s of Some (At u) \<Rightarrow> max now u | _ \<Rightarrow> t)"
proof -
  have keep: "sn_next_evaluation_at (reduce_kind policy now hard resolver f s') =
      (if f_kind f = Stalled then Some (At now) else sn_next_evaluation_at s')" for s'
    by (cases "f_kind f")
     (simp_all add: reduce_kind_def reduce_producing_output_def reduce_using_tool_def
        start_operation_def reduce_durable_milestone_def reduce_awaiting_input_def reduce_stalled_def
        touch_liveness_def touch_progress_def clear_output_def
        Let_def split: option.split progress_phase.split)
  show ?thesis
    by (auto simp: reduceFact_def rearm_def Let_def keep split: option.split stamp.split)
qed

section \<open>Soundness of the evaluator\<close>

text \<open>The evidence a cancel decision rests on.\<close>

definition cancel_evidence :: "snapshot \<Rightarrow> int \<Rightarrow> lease_policy \<Rightarrow> int option \<Rightarrow> lease_reason \<Rightarrow> bool" where
  "cancel_evidence s now policy hard r = (case r of
     Hard_deadline \<Rightarrow> (\<exists>h. hard = Some h \<and> h \<le> now)
   | Explicit_stall \<Rightarrow> sn_semantic_state s = Stalled
   | Awaiting_input_expired \<Rightarrow> (\<exists>ai. sn_awaiting_input s = Some ai \<and> ai_deadline_at ai \<le> now)
   | Tool_silence_expired \<Rightarrow> (\<exists>oper. sn_operation s = Some oper \<and> op_silence_deadline_at oper \<le> now)
   | Inspection_unknown_exhausted \<Rightarrow> ev_inspection_count (sn_evaluation s) \<ge> lp_max_unknown_inspections policy
   | Progress_expired \<Rightarrow> sn_progress_deadline_at s \<le> now \<and> ev_phase (sn_evaluation s) = Inspect_grace \<and>
       orelse (ev_grace_deadline_at (sn_evaluation s)) now \<le> now
   | Liveness_expired \<Rightarrow> sn_liveness_deadline_at s \<le> now \<and> ev_phase (sn_evaluation s) = Inspect_grace \<and>
       orelse (ev_grace_deadline_at (sn_evaluation s)) now \<le> now)"


lemma decide_simps [simp]:
  "ld_action (decide a r t) = a" "ld_reason (decide a r t) = r" "ld_next_at (decide a r t) = t"
  by (simp_all add: decide_def)

lemma escalate_cancel:
  assumes "ld_action (escalate s now r) = La_cancel"
    and "sn_semantic_state s \<noteq> Stalled" and "ev_phase (sn_evaluation s) \<noteq> Closed"
    and "ev_phase (sn_evaluation s) \<noteq> Cancel_requested"
  shows "ld_reason (escalate s now r) = Some r \<and> ev_phase (sn_evaluation s) = Inspect_grace \<and>
    orelse (ev_grace_deadline_at (sn_evaluation s)) now \<le> now"
  using assms by (cases "ev_phase (sn_evaluation s)") (auto simp: escalate_def Let_def split: if_splits)

lemma evaluate_deadlines_cancel:
  assumes c: "ld_action (evaluate_deadlines s now p h) = La_cancel"
    and open_lease: "sn_semantic_state s \<noteq> Stalled" "ev_phase (sn_evaluation s) \<noteq> Closed"
      "ev_phase (sn_evaluation s) \<noteq> Cancel_requested"
    and h: "\<And>b. h = Some b \<Longrightarrow> now < b"
  shows "\<exists>r. ld_reason (evaluate_deadlines s now p h) = Some r \<and> cancel_evidence s now p h r"
proof -
  have cl: "clamp h d \<le> now \<Longrightarrow> d \<le> now" for d
    using h by (auto simp: clamp_def min_def split: option.splits if_splits)
  define r where "r = (if clamp h (sn_progress_deadline_at s) \<le> now then Progress_expired else Liveness_expired)"
  have e: "evaluate_deadlines s now p h = escalate s now r" and
    x: "clamp h (sn_liveness_deadline_at s) \<le> now \<or> clamp h (sn_progress_deadline_at s) \<le> now"
    using c by (auto simp: evaluate_deadlines_def Let_def r_def split: if_splits)
  from escalate_cancel [of s now r] c open_lease e have
    g: "ld_reason (escalate s now r) = Some r" "ev_phase (sn_evaluation s) = Inspect_grace"
      "orelse (ev_grace_deadline_at (sn_evaluation s)) now \<le> now"
    by auto
  from x g have "cancel_evidence s now p h r"
    by (auto simp: cancel_evidence_def r_def dest: cl)
  with e g show ?thesis by auto
qed

text \<open>
  C30: a cancel decision always rests on evidence or on an earlier decision. Outside the phase
  \<open>cancel_requested\<close> the decision carries a reason, and the snapshot and clock prove it (the deadline it
  names has passed; a liveness or progress expiry cancels only out of the inspection grace phase, once
  its grace instant has passed). In the phase \<open>cancel_requested\<close> of an open lease nothing is looked at
  again: it is a cancellation with the reason that was stored, if there is one.
\<close>

theorem evaluateLease_cancel_sound:
  assumes "ld_action (evaluateLease s now policy hard) = La_cancel"
  shows "ev_phase (sn_evaluation s) \<noteq> Closed \<and> sn_closed_at s = None \<and>
    (if ev_phase (sn_evaluation s) = Cancel_requested
     then evaluateLease s now policy hard = decide La_cancel (ev_reason (sn_evaluation s)) None
     else \<exists>r. ld_reason (evaluateLease s now policy hard) = Some r \<and> cancel_evidence s now policy hard r)"
proof (cases "ev_phase (sn_evaluation s) = Closed \<or> sn_closed_at s \<noteq> None \<or>
    ev_phase (sn_evaluation s) = Cancel_requested")
  case True
  with assms show ?thesis by (auto simp: evaluateLease_def Let_def split: if_splits)
next
  case False
  note o = False
  have "\<exists>r. ld_reason (evaluateLease s now policy hard) = Some r \<and> cancel_evidence s now policy hard r"
  proof (cases "\<exists>h. hard = Some h \<and> h \<le> now")
    case True
    with o show ?thesis by (auto simp: evaluateLease_def Let_def cancel_evidence_def)
  next
    case False
    then have h: "\<And>b. hard = Some b \<Longrightarrow> now < b" by force
    then have nh: "(case hard of None \<Rightarrow> False | Some h \<Rightarrow> now \<ge> h) = False"
      by (auto split: option.splits)
    show ?thesis
    proof (cases "sn_semantic_state s = Stalled")
      case True
      with o nh show ?thesis by (auto simp: evaluateLease_def Let_def cancel_evidence_def)
    next
      case False
      from evaluate_deadlines_cancel [OF _ False _ _ h, of policy] o
      have d: "ld_action (evaluate_deadlines s now policy hard) = La_cancel \<Longrightarrow> \<exists>r.
         ld_reason (evaluate_deadlines s now policy hard) = Some r \<and> cancel_evidence s now policy hard r"
        by blast
      show ?thesis
        using assms o nh False d
        by (cases "sn_operation s"; cases "sn_awaiting_input s")
           (auto simp: evaluateLease_def Let_def cancel_evidence_def split: if_splits)
    qed
  qed
  with o show ?thesis by simp
qed

text \<open>
  A healthy decision always names a next evaluation strictly in the future, so a healthy lease
  neither drops out of the schedule nor spins.
\<close>

theorem evaluateLease_healthy_schedules:
  assumes "ld_action (evaluateLease s now policy hard) = La_healthy"
  shows "\<exists>t. ld_next_at (evaluateLease s now policy hard) = Some t \<and> now < t"
proof -
  have o: "\<not> (ev_phase (sn_evaluation s) = Closed \<or> sn_closed_at s \<noteq> None)" 
    and c: "ev_phase (sn_evaluation s) \<noteq> Cancel_requested"
    and nh: "(case hard of None \<Rightarrow> False | Some h \<Rightarrow> now \<ge> h) = False"
    and st: "sn_semantic_state s \<noteq> Stalled"
    using assms by (auto simp: evaluateLease_def Let_def split: if_splits)
  have h: "\<not> d \<le> now \<Longrightarrow> now < orelse hard d" for d
    using nh by (auto split: option.splits)
  have dl: "ld_action (evaluate_deadlines s now policy hard) = La_healthy \<Longrightarrow>
      \<exists>t. ld_next_at (evaluate_deadlines s now policy hard) = Some t \<and> now < t"
    using c by (cases "ev_phase (sn_evaluation s)"; cases "ev_grace_deadline_at (sn_evaluation s)")
      (auto simp: evaluate_deadlines_def escalate_def Let_def split: if_splits)
  show ?thesis
    using assms o c nh st dl
    by (cases "sn_operation s"; cases "sn_awaiting_input s")
       (auto simp: evaluateLease_def Let_def h split: if_splits)
qed


section \<open>Streaming output alone does not keep a lease alive\<close>

fun reduce_run :: "(string \<Rightarrow> string) \<Rightarrow> lease_policy \<Rightarrow> int option \<Rightarrow>
    (string \<Rightarrow> int \<Rightarrow> string \<Rightarrow> bool) option \<Rightarrow> (int \<times> fact) list \<Rightarrow> snapshot \<Rightarrow> snapshot" where
  "reduce_run sha policy hard resolver [] s = s"
| "reduce_run sha policy hard resolver ((now, f) # fs) s =
     reduce_run sha policy hard resolver fs (reduceFact sha s f policy now hard resolver)"

definition output_fact :: "fact \<Rightarrow> bool" where
  "output_fact f \<longleftrightarrow> f_kind f = Alive \<or> f_kind f = Producing_output"

lemma rearm_simps [simp]:
  "sn_output_only_since (rearm p n h s) = sn_output_only_since s"
  "sn_progress_deadline_at (rearm p n h s) = sn_progress_deadline_at s"
  by (simp_all add: rearm_def Let_def split: option.split stamp.split)

lemma output_step:
  assumes "output_fact f" and "sn_output_only_since s = Some t0"
  shows "sn_output_only_since (reduceFact sha s f p now hard r) = Some t0 \<and>
    sn_progress_deadline_at (reduceFact sha s f p now hard r) \<le>
      max (sn_progress_deadline_at s) (t0 + lp_output_only_progress_cap_ms p + lp_meaningful_progress_ms p)"
proof -
  have "clamp hard (now + m) \<le> max d (t0 + c + m)" if "now \<le> t0 + c" for c m d
    using clamp_le [of hard "now + m"] that by linarith
  then show ?thesis
    using assms
    by (auto simp: output_fact_def reduceFact_def reduce_kind_def reduce_producing_output_def Let_def
         touch_liveness_def touch_progress_def split: option.split)
qed

text \<open>
  An executor that only streams output and heartbeats cannot extend its progress deadline
  beyond the output-only cap plus one progress window from when the streak began, whatever the
  number and timing of its facts.
\<close>

theorem output_only_capped:
  assumes "\<forall>(now, f) \<in> set fs. output_fact f" and "sn_output_only_since s = Some t0"
  shows "sn_progress_deadline_at (reduce_run sha policy hard resolver fs s) \<le>
    max (sn_progress_deadline_at s)
      (t0 + lp_output_only_progress_cap_ms policy + lp_meaningful_progress_ms policy)"
  using assms
proof (induction fs arbitrary: s)
  case (Cons a fs)
  obtain now f where a: "a = (now, f)" by (cases a)
  with Cons.prems have f: "output_fact f" by auto
  from output_step [OF f Cons.prems(2), of sha policy now hard resolver] Cons.IH Cons.prems(1)
  show ?case unfolding a by (fastforce intro: order_trans)
qed simp

section \<open>Witnesses\<close>

definition no_payload :: payload where
  "no_payload = \<lparr> pl_operation_id = None, pl_operation_label = None, pl_expected_timeout_ms = None,
     pl_progress_units = None, pl_observation_id = None, pl_milestone_id = None,
     pl_input_request_id = None, pl_summary = None \<rparr>"

definition sample_fact :: "progress_kind \<Rightarrow> payload \<Rightarrow> fact" where
  "sample_fact k pay = \<lparr> f_fact_id = ''f1'', f_attempt_id = ''a1'', f_claim_generation = 1,
     f_executor_kind = Agent, f_executor_id = ''spin-local'', f_kind = k, f_phase = None,
     f_producer_at = None, f_payload = pay \<rparr>"

definition sample_snapshot :: snapshot where
  "sample_snapshot =
     createInitialSnapshot (\<lambda>s. s) (sample_fact Alive no_payload) 7 DEFAULT_LOCAL_POLICY 1000 None"

lemmas sample_defs = sample_snapshot_def sample_fact_def no_payload_def createInitialSnapshot_def
  DEFAULT_LOCAL_POLICY_def clamp_def

theorem reduceFact_deadlines_bounded_witness:
  "lease_bounded DEFAULT_LOCAL_POLICY None 5000
    (reduceFact (\<lambda>s. s) sample_snapshot (sample_fact Alive no_payload) DEFAULT_LOCAL_POLICY 5000 None None)"
proof (rule reduceFact_deadlines_bounded)
  show "lease_bounded DEFAULT_LOCAL_POLICY None 1000 sample_snapshot"
    unfolding sample_snapshot_def by (rule createInitialSnapshot_bounded)
qed simp

theorem evaluateLease_cancel_sound_witness:
  "cancel_evidence (sample_snapshot\<lparr> sn_semantic_state := Stalled \<rparr>) 2000 DEFAULT_LOCAL_POLICY None Explicit_stall"
proof -
  let ?s = "sample_snapshot\<lparr> sn_semantic_state := Stalled \<rparr>"
  have d: "evaluateLease ?s 2000 DEFAULT_LOCAL_POLICY None = decide La_cancel (Some Explicit_stall) None"
    by (simp add: evaluateLease_def sample_defs Let_def)
  have "ev_phase (sn_evaluation ?s) = Healthy"
    by (simp add: sample_defs Let_def)
  with evaluateLease_cancel_sound [of ?s 2000 DEFAULT_LOCAL_POLICY None] show ?thesis
    by (simp add: d)
qed

theorem evaluateLease_healthy_schedules_witness:
  "\<exists>t. ld_next_at (evaluateLease sample_snapshot 2000 DEFAULT_LOCAL_POLICY None) = Some t \<and> 2000 < t"
  by (rule evaluateLease_healthy_schedules)
     (simp add: evaluateLease_def evaluate_deadlines_def sample_defs Let_def)

theorem output_only_capped_witness:
  "sn_progress_deadline_at (reduce_run (\<lambda>s. s) DEFAULT_LOCAL_POLICY None None
     [(400000, sample_fact Producing_output (no_payload\<lparr> pl_progress_units := Some 9 \<rparr>))]
     (sample_snapshot\<lparr> sn_output_only_since := Some 1000 \<rparr>)) \<le> 421000"
  using output_only_capped [of "[(400000, sample_fact Producing_output (no_payload\<lparr> pl_progress_units := Some 9 \<rparr>))]"
      "sample_snapshot\<lparr> sn_output_only_since := Some 1000 \<rparr>" 1000 "\<lambda>s. s" DEFAULT_LOCAL_POLICY None None]
  by (simp add: output_fact_def sample_defs Let_def)

end
