(* ===== verification/Database.thy ===== *)
theory Database
  imports Lease
begin

text \<open>
  The rows of the shared SQLite database that the swarm core reads and writes, table by table,
  and the database as one record. Columns keep the source's names behind a prefix per table; a
  nullable column is an option; a column that holds the JSON of a lease snapshot holds the
  snapshot itself. Rows are kept in rowid order. The last fields of \<open>swarm_db\<close> are not tables:
  they record the in-process notifications (the nerve events and the due-change and lease hooks)
  that operations fire, so that theorems can speak of them.
\<close>

section \<open>Cards\<close>

datatype card_status = Queued | Running | Done | Failed | Delivering | Delivered

fun status_name :: "card_status \<Rightarrow> string" where
  "status_name Queued = ''queued''"
| "status_name Running = ''running''"
| "status_name Done = ''done''"
| "status_name Failed = ''failed''"
| "status_name Delivering = ''delivering''"
| "status_name Delivered = ''delivered''"

lemma status_name_inject [simp]: "status_name a = status_name b \<longleftrightarrow> a = b"
  by (cases a; cases b) simp_all

datatype priority = CRITICAL | HIGH | MEDIUM | LOW

record card =
  k_id :: int
  k_title :: string
  k_source :: string
  k_source_id :: "string option"
  k_priority :: priority
  k_created_at :: int
  k_status :: card_status
  k_type :: "string option"
  k_goal :: "string option"
  k_labels :: "string option"
  k_due_at :: "string option"
  k_parent_id :: "int option"
  k_notes :: "string option"
  k_delivery_mode :: string
  k_blocked_by :: "string option"
  k_chat_id :: "string option"
  k_source_peer :: "string option"
  k_max_agents :: "int option"
  k_delivery_ready :: bool
  k_result_summary :: "string option"
  k_result_path :: "string option"
  k_error :: "string option"
  k_delivery_attempts :: "int option"
  k_delivery_result :: "string option"
  k_delivery_receipt :: "string option"
  k_completed_at :: "int option"
  k_delivered_at :: "int option"
  k_retry_count :: "int option"
  k_next_retry_at :: "int option"
  k_max_tokens :: "int option"
  k_tokens_used :: "int option"
  k_updated_at :: int

text \<open>\<open>kanban_card_transitions\<close> and \<open>peer_callback_outbox\<close>.\<close>

datatype transition_actor =
  A_dispatch | A_retry_promotion | A_retry_backoff | A_settle_done | A_settle_failed
| A_delivery_claim | A_delivery_settle | A_project_acceptance | A_pi_run_settle | A_pi_run_dispatch
| A_pi_resume_generation | A_pi_interrupt | A_restart_recovery | A_pi_origin_projection
| A_budget_enforcement | A_stale_repair | A_retry_requeue | A_workflow_runner

record journal_row =
  j_id :: int
  j_card_id :: int
  j_from :: card_status
  j_to :: card_status
  j_actor :: transition_actor
  j_reason :: string
  j_attempt_id :: "string option"
  j_claim_generation :: "int option"

record outbox_row =
  ob_id :: string
  ob_card_id :: int
  ob_peer :: string
  ob_status :: string
  ob_payload :: json

section \<open>Projects, scheduled runs and workflow runs\<close>

datatype project_state =
  Awaiting_contract | Executing | Review_ready | Review_requested | Reviewing
| Repair_planned | Repairing | Needs_input | Blocked | Accepted

record supervision =
  ps_project_card_id :: int
  ps_state :: project_state
  ps_generation :: int
  ps_blocked_reason :: "string option"
  ps_workspace_cwd :: "string option"

record task_run =
  tr_run_id :: string
  tr_finished_at :: "int option"
  tr_outcome :: "string option"

datatype workflow_state =
  W_admitted | W_planning | W_dispatched | W_executing | W_reviewing | W_repairing
| W_awaiting_input | W_delivering | W_succeeded | W_failed | W_cancelled

definition run_terminal :: "workflow_state \<Rightarrow> bool" where
  "run_terminal st \<longleftrightarrow> st = W_succeeded \<or> st = W_failed \<or> st = W_cancelled"

lemma run_terminal_simps [simp]:
  "run_terminal W_succeeded" "run_terminal W_failed" "run_terminal W_cancelled"
  "\<not> run_terminal W_admitted" "\<not> run_terminal W_planning" "\<not> run_terminal W_dispatched"
  "\<not> run_terminal W_executing" "\<not> run_terminal W_reviewing" "\<not> run_terminal W_repairing"
  "\<not> run_terminal W_awaiting_input" "\<not> run_terminal W_delivering"
  by (simp_all add: run_terminal_def)

datatype root_kind = Root_scheduled | Root_interactive | Root_peer

datatype budget_scope = Work_retry | Plan_revision | Review_repair | Protocol_correction

record workflow_run =
  wr_run_id :: string
  wr_root_kind :: root_kind
  wr_root_card_id :: int
  wr_scheduled_run_id :: "string option"
  wr_generation :: int
  wr_state :: workflow_state
  wr_state_version :: int
  wr_client_operation_id :: string
  wr_budgets :: "budget_scope \<Rightarrow> int"
  wr_failure_code :: "string option"
  wr_failure_reason :: "string option"
  wr_created_at :: int
  wr_updated_at :: int

section \<open>Workflow tables\<close>

text \<open>
  A plan revision keeps its proposal as the JSON value; a node outcome that is plain text is the
  JSON string of that text.
\<close>

record plan_row =
  pv_run_id :: string
  pv_revision :: nat
  pv_plan :: json

datatype node_kind = N_work | N_synthesis | N_planning | N_review | N_delivery
datatype node_status = Nd_queued | Nd_running | Nd_succeeded | Nd_failed | Nd_skipped | Nd_cancelled

record node_row =
  wn_run_id :: string
  wn_revision :: nat
  wn_node_id :: string
  wn_kind :: node_kind
  wn_status :: node_status
  wn_worker_card_id :: "int option"
  wn_attempt_id :: "string option"
  wn_outcome :: "json option"

record dep_row =
  wd_run_id :: string
  wd_revision :: nat
  wd_node_id :: string
  wd_depends_on :: string
  wd_satisfied :: bool

datatype op_kind = Op_planning | Op_review
datatype op_status = Op_pending | Op_claimed | Op_running | Op_succeeded | Op_failed | Op_cancelled

record operation_row =
  wo_op_id :: string
  wo_run_id :: string
  wo_kind :: op_kind
  wo_revision :: "nat option"
  wo_status :: op_status
  wo_result :: "json option"

record budget_row =
  wb_run_id :: string
  wb_scope :: budget_scope
  wb_allowed :: int
  wb_consumed :: int

datatype command_action = Ac_dispatch | Ac_notify | Ac_deliver | Ac_review | Ac_plan
datatype command_status = Cm_pending | Cm_claimed | Cm_done | Cm_cancelled

record command_row =
  wc_run_id :: string
  wc_generation :: int
  wc_node_id :: string
  wc_action :: command_action
  wc_ordinal :: int
  wc_status :: command_status
  wc_payload :: json
  wc_created_at :: int
  wc_claimed_at :: "int option"
  wc_done_at :: "int option"
  wc_owner :: "string option"
  wc_token :: "string option"
  wc_inspect_gen :: int
  wc_inconclusive :: int
  wc_next_inspection_at :: "int option"

datatype ingress_disposition = In_received | In_applied | In_noop

record ingress_row =
  wi_event_id :: string
  wi_run_id :: string
  wi_hash :: string
  wi_payload :: json
  wi_disposition :: ingress_disposition
  wi_received_at :: int
  wi_applied_at :: "int option"

datatype delivery_outcome = Dv_pending | Dv_acknowledged | Dv_failed | Dv_unknown

record delivery_row =
  wv_run_id :: string
  wv_node_id :: string
  wv_obligation :: json
  wv_outcome :: delivery_outcome
  wv_attempts :: int
  wv_receipt :: "json option"

datatype input_status = Iq_pending | Iq_answered | Iq_expired

record input_request =
  iq_id :: string
  iq_project_card_id :: int
  iq_case_ref :: string
  iq_question :: string
  iq_criteria :: "string list"
  iq_kind :: string
  iq_run_id :: "string option"
  iq_status :: input_status
  iq_response :: "string option"

section \<open>Worker attempts\<close>

datatype attempt_lifecycle =
  L_pending | L_claimed | L_starting | L_running | L_cancel_requested
| L_completed | L_failed | L_cancelled | L_timed_out

fun lifecycle_name :: "attempt_lifecycle \<Rightarrow> string" where
  "lifecycle_name L_pending = ''pending''"
| "lifecycle_name L_claimed = ''claimed''"
| "lifecycle_name L_starting = ''starting''"
| "lifecycle_name L_running = ''running''"
| "lifecycle_name L_cancel_requested = ''cancel_requested''"
| "lifecycle_name L_completed = ''completed''"
| "lifecycle_name L_failed = ''failed''"
| "lifecycle_name L_cancelled = ''cancelled''"
| "lifecycle_name L_timed_out = ''timed_out''"

record contract =
  ct_id :: string
  ct_card_id :: int
  ct_revision :: int
  ct_root_contract_id :: string
  ct_parent_contract_id :: "string option"
  ct_source_attempt_id :: "string option"
  ct_json :: "json option"
  ct_digest :: string

record attempt =
  at_id :: string
  at_card_id :: int
  at_contract_id :: string
  at_ordinal :: int
  at_executor_kind :: executor_kind
  at_executor_id :: string
  at_generation :: int
  at_lifecycle :: attempt_lifecycle
  at_remote_task_id :: "int option"
  at_status :: string
  at_claimed_at :: "int option"
  at_started_at :: int
  at_settled_at :: "int option"
  at_hard_deadline_at :: "int option"
  at_cancel_reason :: "string option"
  at_source_attempt_id :: "string option"
  at_retry_directive_id :: "string option"
  at_earliest_claim_at :: "int option"
  at_reserved_tokens :: int
  at_input_tokens :: "int option"
  at_output_tokens :: "int option"
  at_charged_tokens :: int
  at_usage_charged_at :: "int option"
  at_resource_id :: "string option"
  at_resource_generation :: "int option"
  at_continuity :: "string option"
  at_root_project_card_id :: "int option"
  at_root_project_generation :: "int option"
  at_scheduled_run_id :: "string option"

text \<open>\<open>worker_results\<close> (the envelope as its JSON value) and \<open>retry_budget_reservations\<close>.\<close>

record result_row =
  re_attempt_id :: string
  re_envelope :: json
  re_digest :: string

datatype reservation_status = Rs_active | Rs_claimed | Rs_released | Rs_consumed

record reservation =
  rs_source_attempt_id :: string
  rs_target_attempt_id :: string
  rs_tokens :: int
  rs_cost :: int
  rs_switches :: int
  rs_status :: reservation_status
  rs_updated_at :: int

section \<open>Leases\<close>

record lease_row =
  ls_attempt_id :: string
  ls_card_id :: int
  ls_claim_generation :: int
  ls_high_water :: int
  ls_state_version :: int
  ls_next_evaluation_at :: "stamp option"
  ls_closed_at :: "int option"
  ls_snapshot :: snapshot

record progress_row =
  pe_attempt_id :: string
  pe_claim_generation :: int
  pe_sequence :: int
  pe_fact_id :: string
  pe_kind :: progress_kind
  pe_fingerprint :: string
  pe_effect :: lease_effect
  pe_received_at :: int

section \<open>The database\<close>

record swarm_db =
  db_cards :: "card list"
  db_card_seq :: int
  db_journal :: "journal_row list"
  db_journal_seq :: int
  db_outbox :: "outbox_row list"
  db_supervision :: "supervision list"
  db_task_runs :: "task_run list"
  db_workflow_runs :: "workflow_run list"
  db_contracts :: "contract list"
  db_attempts :: "attempt list"
  db_results :: "result_row list"
  db_reservations :: "reservation list"
  db_leases :: "lease_row list"
  db_progress :: "progress_row list"
  db_plans :: "plan_row list"
  db_nodes :: "node_row list"
  db_deps :: "dep_row list"
  db_operations :: "operation_row list"
  db_budgets :: "budget_row list"
  db_commands :: "command_row list"
  db_ingress :: "ingress_row list"
  db_wdeliveries :: "delivery_row list"
  db_inputs :: "input_request list"
  db_nerve :: "(card_status \<times> int) list"
  db_due_changed :: nat
  db_lease_changed :: "int list"

text \<open>The primary-key reads every component uses.\<close>

definition find_card :: "swarm_db \<Rightarrow> int \<Rightarrow> card option" where
  "find_card db c = sql_first (\<lambda>r. k_id r = c) (db_cards db)"

definition find_supervision :: "swarm_db \<Rightarrow> int \<Rightarrow> supervision option" where
  "find_supervision db c = sql_first (\<lambda>r. ps_project_card_id r = c) (db_supervision db)"

definition find_task_run :: "swarm_db \<Rightarrow> string \<Rightarrow> task_run option" where
  "find_task_run db r = sql_first (\<lambda>t. tr_run_id t = r) (db_task_runs db)"

definition find_attempt :: "swarm_db \<Rightarrow> string \<Rightarrow> attempt option" where
  "find_attempt db a = sql_first (\<lambda>r. at_id r = a) (db_attempts db)"

definition find_lease :: "swarm_db \<Rightarrow> string \<Rightarrow> lease_row option" where
  "find_lease db a = sql_first (\<lambda>r. ls_attempt_id r = a) (db_leases db)"

text \<open>SQLite's \<open>datetime('now')\<close> and the source's \<open>sqliteNow()\<close> have a resolution of one second.\<close>

definition sqliteNow :: "int \<Rightarrow> int" where
  "sqliteNow now = now div 1000 * 1000"

section \<open>Sample rows\<close>

definition empty_db :: swarm_db where
  "empty_db = \<lparr> db_cards = [], db_card_seq = 0, db_journal = [], db_journal_seq = 0, db_outbox = [],
     db_supervision = [], db_task_runs = [], db_workflow_runs = [], db_contracts = [], db_attempts = [],
     db_results = [], db_reservations = [], db_leases = [], db_progress = [],
     db_plans = [], db_nodes = [], db_deps = [], db_operations = [], db_budgets = [], db_commands = [],
     db_ingress = [], db_wdeliveries = [], db_inputs = [], db_nerve = [],
     db_due_changed = 0, db_lease_changed = [] \<rparr>"

text \<open>A card as the columns' defaults make it.\<close>

definition default_card :: "int \<Rightarrow> string \<Rightarrow> string \<Rightarrow> int \<Rightarrow> card" where
  "default_card i title src now = \<lparr> k_id = i, k_title = title, k_source = src, k_source_id = None,
     k_priority = MEDIUM, k_created_at = sqliteNow now, k_status = Queued, k_type = None, k_goal = None,
     k_labels = None, k_due_at = None, k_parent_id = None, k_notes = None, k_delivery_mode = ''deliver'',
     k_blocked_by = None, k_chat_id = None, k_source_peer = None, k_max_agents = None,
     k_delivery_ready = True, k_result_summary = None, k_result_path = None, k_error = None,
     k_delivery_attempts = Some 0, k_delivery_result = None, k_delivery_receipt = None,
     k_completed_at = None, k_delivered_at = None, k_retry_count = Some 0, k_next_retry_at = None,
     k_max_tokens = None, k_tokens_used = Some 0, k_updated_at = sqliteNow now \<rparr>"

definition sample_board :: "card_status \<Rightarrow> swarm_db" where
  "sample_board st = empty_db\<lparr> db_cards := [(default_card 1 ''t'' ''agent'' 0)\<lparr> k_status := st \<rparr>,
     (default_card 2 ''u'' ''agent'' 0)\<lparr> k_status := Running \<rparr>] \<rparr>"

lemmas board_samples = sample_board_def empty_db_def default_card_def

lemma find_card_sample [simp]:
  "find_card (sample_board st) 1 = Some ((default_card 1 ''t'' ''agent'' 0)\<lparr> k_status := st \<rparr>)"
  by (simp add: find_card_def board_samples)

end
