(* ===== verification/Board.thy ===== *)
theory Board
  imports Database Interfaces
begin

text \<open>
  \<open>src/src/components/tasks/kanban-board.ts\<close>: the single writer of a card's status
  (\<open>kanbanTransition\<close>: a compare-and-set against a set of expected statuses, an append-only
  journal, the peer-callback outbox, all in one transaction) and the board operations built on it.
  \<open>redact\<close> is \<open>redactSecrets\<close>. The board's database is taken to be open; the branches for an
  unavailable native module are not modelled.
\<close>

section \<open>Requests\<close>

definition LEGAL_TRANSITIONS :: "card_status \<Rightarrow> card_status list" where
  "LEGAL_TRANSITIONS s = (case s of
     Queued \<Rightarrow> [Running, Failed, Done]
   | Running \<Rightarrow> [Done, Failed, Queued]
   | Done \<Rightarrow> [Delivering, Queued, Failed]
   | Failed \<Rightarrow> [Queued]
   | Delivering \<Rightarrow> [Delivered, Done]
   | Delivered \<Rightarrow> [])"

definition STATUS_EVENT :: "card_status \<Rightarrow> bool" where
  "STATUS_EVENT s = (s \<noteq> Delivering)"

definition MAX_TRANSITIONS_PER_CARD :: nat where
  "MAX_TRANSITIONS_PER_CARD = 200"

definition MAX_JOURNAL_REASON :: nat where
  "MAX_JOURNAL_REASON = 300"

text \<open>The co-writable columns; \<open>W_other\<close> is any other key a caller may pass.\<close>

datatype co_write =
  W_error "string option" | W_result_path "string option" | W_result_summary "string option"
| W_retry_count int | W_next_retry_at "int option" | W_delivery_attempts int
| W_delivery_result "string option" | W_delivery_receipt "string option"
| W_completed_at "int option" | W_delivered_at "int option" | W_other string

fun write_column :: "co_write \<Rightarrow> card \<Rightarrow> card" where
  "write_column (W_error e) r = r\<lparr> k_error := e \<rparr>"
| "write_column (W_result_path p) r = r\<lparr> k_result_path := p \<rparr>"
| "write_column (W_result_summary t) r = r\<lparr> k_result_summary := t \<rparr>"
| "write_column (W_retry_count n) r = r\<lparr> k_retry_count := Some n \<rparr>"
| "write_column (W_next_retry_at t) r = r\<lparr> k_next_retry_at := t \<rparr>"
| "write_column (W_delivery_attempts n) r = r\<lparr> k_delivery_attempts := Some n \<rparr>"
| "write_column (W_delivery_result d) r = r\<lparr> k_delivery_result := d \<rparr>"
| "write_column (W_delivery_receipt d) r = r\<lparr> k_delivery_receipt := d \<rparr>"
| "write_column (W_completed_at t) r = r\<lparr> k_completed_at := t \<rparr>"
| "write_column (W_delivered_at t) r = r\<lparr> k_delivered_at := t \<rparr>"
| "write_column (W_other c) r = r"

fun co_writable :: "co_write \<Rightarrow> bool" where
  "co_writable (W_other c) = False"
| "co_writable w = True"

text \<open>The allowlisted predicates with their bound parameters; \<open>Other_sql\<close> is any other text.\<close>

datatype extra_predicate =
  Delivery_attempts_below_5
| Retry_due int
| Delivery_result_null
| Claim_scheduled string int string
| Claim_unscheduled int
| Complete_scheduled string int string
| Complete_unscheduled int
| Fail_scheduled string int
| Fail_unscheduled int
| Runner_root_running int string "string option"
| Other_sql string

definition supervised :: "swarm_db \<Rightarrow> int \<Rightarrow> (project_state \<Rightarrow> bool) \<Rightarrow> int \<Rightarrow> bool" where
  "supervised db c st gen = list_ex
     (\<lambda>ps. ps_project_card_id ps = c \<and> st (ps_state ps) \<and> ps_generation ps = gen) (db_supervision db)"

definition task_run_where :: "swarm_db \<Rightarrow> string \<Rightarrow> (task_run \<Rightarrow> bool) \<Rightarrow> bool" where
  "task_run_where db run q = list_ex (\<lambda>tr. tr_run_id tr = run \<and> q tr) (db_task_runs db)"

definition is_project :: "card \<Rightarrow> bool" where
  "is_project r \<longleftrightarrow> k_type r = Some ''O''"

definition from_task :: "card \<Rightarrow> bool" where
  "from_task r \<longleftrightarrow> k_source r = ''task''"

definition attempts_below_5 :: "card \<Rightarrow> bool" where
  "attempts_below_5 r \<longleftrightarrow> orelse (k_delivery_attempts r) 0 < 5"

definition runner_root_running :: "swarm_db \<Rightarrow> card \<Rightarrow> int \<Rightarrow> string \<Rightarrow> string option \<Rightarrow> bool" where
  "runner_root_running db r gen run scheduled \<longleftrightarrow>
     is_project r \<and>
     supervised db (k_id r) (\<lambda>st. st = Executing \<or> st = Repairing) gen \<and>
     list_ex (\<lambda>wr. wr_run_id wr = run \<and> wr_root_card_id wr = k_id r \<and> wr_scheduled_run_id wr = scheduled \<and>
        \<not> run_terminal (wr_state wr) \<and>
        (from_task r \<and> truthy (k_source_id r) \<and> wr_scheduled_run_id wr = k_source_id r \<and>
           task_run_where db (orelse (wr_scheduled_run_id wr) []) (\<lambda>tr. tr_finished_at tr = None) \<or>
         (\<not> from_task r \<or> \<not> truthy (k_source_id r)) \<and> wr_scheduled_run_id wr = None))
       (db_workflow_runs db)"

definition holds :: "swarm_db \<Rightarrow> extra_predicate \<Rightarrow> card \<Rightarrow> bool" where
  "holds db p r = (case p of
     Delivery_attempts_below_5 \<Rightarrow> attempts_below_5 r
   | Retry_due sec \<Rightarrow> (case k_next_retry_at r of None \<Rightarrow> False | Some t \<Rightarrow> t div 1000 \<le> sec)
   | Delivery_result_null \<Rightarrow> k_delivery_result r = None
   | Claim_scheduled src gen run \<Rightarrow> is_project r \<and> from_task r \<and> attempts_below_5 r \<and> k_delivery_ready r \<and>
       k_source_id r = Some src \<and> supervised db (k_id r) (\<lambda>st. st = Accepted) gen \<and>
       task_run_where db run (\<lambda>tr. tr_finished_at tr \<noteq> None \<and> tr_outcome tr = Some ''success'')
   | Claim_unscheduled gen \<Rightarrow> is_project r \<and> \<not> from_task r \<and> attempts_below_5 r \<and> k_delivery_ready r \<and>
       supervised db (k_id r) (\<lambda>st. st = Accepted) gen
   | Complete_scheduled src gen run \<Rightarrow> is_project r \<and> from_task r \<and> k_source_id r = Some src \<and>
       supervised db (k_id r) (\<lambda>st. st = Accepted) gen \<and>
       task_run_where db run (\<lambda>tr. tr_finished_at tr \<noteq> None)
   | Complete_unscheduled gen \<Rightarrow> is_project r \<and> \<not> from_task r \<and>
       supervised db (k_id r) (\<lambda>st. st = Accepted) gen
   | Fail_scheduled src gen \<Rightarrow> is_project r \<and> from_task r \<and> k_source_id r = Some src \<and>
       supervised db (k_id r) (\<lambda>st. True) gen
   | Fail_unscheduled gen \<Rightarrow> is_project r \<and> \<not> from_task r \<and> supervised db (k_id r) (\<lambda>st. True) gen
   | Runner_root_running gen run scheduled \<Rightarrow> runner_root_running db r gen run scheduled
   | Other_sql q \<Rightarrow> False)"

record callback =
  cb_peer :: string
  cb_status :: string
  cb_result_summary :: "string option"
  cb_error :: "string option"
  cb_tokens_used :: "int option"
  cb_artifacts :: "(string \<times> string) list option"

record transition_request =
  tq_card_id :: int
  tq_from :: "card_status list"
  tq_to :: card_status
  tq_actor :: transition_actor
  tq_reason :: string
  tq_attempt_id :: "string option"
  tq_claim_generation :: "int option"
  tq_callback :: "callback option"
  tq_fields :: "co_write list"
  tq_extra :: "extra_predicate option"
  tq_emit :: bool

datatype transition_outcome = Applied card_status | Reasserted card_status | No_op "card_status option"

datatype illegal_transition =
  Empty_from | Illegal_pair card_status card_status | Not_co_writable | Not_allowlisted


section \<open>The transition\<close>

text \<open>The checks made before the database is touched, in the order of the source.\<close>

definition illegal :: "transition_request \<Rightarrow> illegal_transition option" where
  "illegal rq =
     (if tq_from rq = [] then Some Empty_from
      else case List.find (\<lambda>f. f \<noteq> tq_to rq \<and> tq_to rq \<notin> set (LEGAL_TRANSITIONS f)) (tq_from rq) of
        Some f \<Rightarrow> Some (Illegal_pair f (tq_to rq))
      | None \<Rightarrow>
          (if list_ex (\<lambda>w. \<not> co_writable w) (tq_fields rq) then Some Not_co_writable
           else case tq_extra rq of
             Some (Other_sql q) \<Rightarrow> Some Not_allowlisted
           | _ \<Rightarrow> None))"

definition peerCallbackOutboxId :: "int \<Rightarrow> card_status \<Rightarrow> string" where
  "peerCallbackOutboxId cardId st = ''pc_'' @ show_int cardId @ ''_'' @ status_name st"

definition callback_payload :: "int \<Rightarrow> callback \<Rightarrow> json" where
  "callback_payload cardId cb =
     (let artifacts = map (\<lambda>(name, content). JObj [(''name'', JStr (take 200 name)),
            (''content'', JStr (take 2000 content))]) (take 20 (orelse (cb_artifacts cb) []))
      in JObj ([(''action'', JStr ''callback''), (''task_id'', JNum (NInt cardId)),
                (''status'', JStr (cb_status cb))]
           @ opt_member ''result_summary'' JStr (cb_result_summary cb)
           @ opt_member ''error'' JStr (cb_error cb)
           @ [(''tokens_used'', JNum (NInt (orelse (cb_tokens_used cb) 0)))]
           @ (if artifacts \<noteq> [] then [(''artifacts'', JArr artifacts)] else [])))"

definition queuePeerCallbackInTx :: "int \<Rightarrow> card_status \<Rightarrow> callback \<Rightarrow> swarm_db \<Rightarrow> swarm_db" where
  "queuePeerCallbackInTx cardId st cb db =
     (let i = peerCallbackOutboxId cardId st
      in if list_ex (\<lambda>x. ob_id x = i) (db_outbox db) then db
         else db\<lparr> db_outbox := db_outbox db @ [\<lparr> ob_id = i, ob_card_id = cardId, ob_peer = cb_peer cb,
           ob_status = cb_status cb, ob_payload = callback_payload cardId cb \<rparr>] \<rparr>)"

text \<open>
  The pruning \<open>DELETE\<close>: of the card's rows it keeps the \<open>n\<close> newest ids (rows are in id order).
\<close>

definition prune_journal :: "int \<Rightarrow> nat \<Rightarrow> journal_row list \<Rightarrow> journal_row list" where
  "prune_journal c n js =
     (let keep = map j_id (take n (rev (filter (\<lambda>j. j_card_id j = c) js)))
      in filter (\<lambda>j. \<not> (j_card_id j = c \<and> j_id j \<notin> set keep)) js)"

definition journal_entry :: "(string \<Rightarrow> string) \<Rightarrow> transition_request \<Rightarrow> card_status \<Rightarrow> int \<Rightarrow> journal_row" where
  "journal_entry redact rq observed i = \<lparr> j_id = i, j_card_id = tq_card_id rq, j_from = observed,
     j_to = tq_to rq, j_actor = tq_actor rq, j_reason = take MAX_JOURNAL_REASON (redact (tq_reason rq)),
     j_attempt_id = tq_attempt_id rq, j_claim_generation = tq_claim_generation rq \<rparr>"

definition append_journal :: "(string \<Rightarrow> string) \<Rightarrow> transition_request \<Rightarrow> card_status \<Rightarrow> swarm_db \<Rightarrow> swarm_db" where
  "append_journal redact rq observed db =
     (let i = db_journal_seq db + 1
      in db\<lparr> db_journal_seq := i, db_journal := db_journal db @ [journal_entry redact rq observed i] \<rparr>)"

definition set_status :: "int \<Rightarrow> transition_request \<Rightarrow> card \<Rightarrow> card" where
  "set_status now rq r =
     fold write_column (tq_fields rq) (r\<lparr> k_status := tq_to rq, k_updated_at := sqliteNow now \<rparr>)"

definition update_cards :: "(card \<Rightarrow> bool) \<Rightarrow> (card \<Rightarrow> card) \<Rightarrow> swarm_db \<Rightarrow> swarm_db" where
  "update_cards p f db = db\<lparr> db_cards := sql_update p f (db_cards db) \<rparr>"

definition observed_status :: "swarm_db \<Rightarrow> int \<Rightarrow> card_status option" where
  "observed_status db c = map_option k_status (find_card db c)"

definition extra_holds :: "swarm_db \<Rightarrow> transition_request \<Rightarrow> card \<Rightarrow> bool" where
  "extra_holds db rq r = (case tq_extra rq of None \<Rightarrow> True | Some p \<Rightarrow> holds db p r)"

text \<open>What a won compare-and-set commits beside the row: the journal row, the callback, the pruning.\<close>

definition commit_applied :: "(string \<Rightarrow> string) \<Rightarrow> transition_request \<Rightarrow> card_status \<Rightarrow> swarm_db \<Rightarrow> swarm_db" where
  "commit_applied redact rq observed db =
     (let db2 = append_journal redact rq observed db;
          db3 = (case tq_callback rq of None \<Rightarrow> db2
                 | Some cb \<Rightarrow> queuePeerCallbackInTx (tq_card_id rq) (tq_to rq) cb db2)
      in db3\<lparr> db_journal := prune_journal (tq_card_id rq) MAX_TRANSITIONS_PER_CARD (db_journal db3) \<rparr>)"

text \<open>The body of the transaction.\<close>

definition transition_tx ::
    "(string \<Rightarrow> string) \<Rightarrow> int \<Rightarrow> transition_request \<Rightarrow> swarm_db \<Rightarrow> transition_outcome \<times> swarm_db" where
  "transition_tx redact now rq db =
     (case find_card db (tq_card_id rq) of
        None \<Rightarrow> (No_op None, db)
      | Some row \<Rightarrow>
          (let observed = k_status row in
           if observed = tq_to rq \<and> tq_to rq \<in> set (tq_from rq) then
             (let hit = (\<lambda>r. k_id r = tq_card_id rq \<and> k_status r = tq_to rq \<and> extra_holds db rq r);
                  db1 = update_cards hit (set_status now rq) db
              in if sql_changes hit (db_cards db) = 1 then (Reasserted observed, db1)
                 else (No_op (observed_status db1 (tq_card_id rq)), db1))
           else
             (let hit = (\<lambda>r. k_id r = tq_card_id rq \<and> k_status r \<in> set (tq_from rq) \<and> extra_holds db rq r);
                  db1 = update_cards hit (set_status now rq) db
              in if sql_changes hit (db_cards db) = 1 then (Applied observed, commit_applied redact rq observed db1)
                 else (No_op (observed_status db1 (tq_card_id rq)), db1))))"

definition emit_transition :: "transition_request \<Rightarrow> swarm_db \<Rightarrow> swarm_db" where
  "emit_transition rq db =
     db\<lparr> db_nerve := db_nerve db @ (if STATUS_EVENT (tq_to rq) then [(tq_to rq, tq_card_id rq)] else []),
        db_due_changed := Suc (db_due_changed db) \<rparr>"

definition kanbanTransition ::
    "(string \<Rightarrow> string) \<Rightarrow> int \<Rightarrow> transition_request \<Rightarrow> swarm_db \<Rightarrow>
       (illegal_transition + transition_outcome) \<times> swarm_db" where
  "kanbanTransition redact now rq db =
     (case illegal rq of
        Some e \<Rightarrow> (Inl e, db)
      | None \<Rightarrow>
          (let (outcome, db1) = transition_tx redact now rq db
           in (Inr outcome,
               case outcome of Applied f \<Rightarrow> (if tq_emit rq then emit_transition rq db1 else db1) | _ \<Rightarrow> db1)))"

fun is_applied :: "(illegal_transition + transition_outcome) \<Rightarrow> bool" where
  "is_applied (Inr (Applied f)) = True"
| "is_applied _ = False"

section \<open>The operations of the board\<close>

definition move :: "int \<Rightarrow> card_status list \<Rightarrow> card_status \<Rightarrow> transition_actor \<Rightarrow> string \<Rightarrow> transition_request" where
  "move c fs st actor reason = \<lparr> tq_card_id = c, tq_from = fs, tq_to = st, tq_actor = actor,
     tq_reason = reason, tq_attempt_id = None, tq_claim_generation = None, tq_callback = None,
     tq_fields = [], tq_extra = None, tq_emit = True \<rparr>"

definition kanbanRunning :: "(string \<Rightarrow> string) \<Rightarrow> int \<Rightarrow> int \<Rightarrow> swarm_db \<Rightarrow> swarm_db" where
  "kanbanRunning redact now c db =
     snd (kanbanTransition redact now (move c [Queued] Running A_dispatch ''dispatch to running'') db)"

definition kanbanPromoteDueRetry ::
    "(string \<Rightarrow> string) \<Rightarrow> int \<Rightarrow> int \<Rightarrow> int option \<Rightarrow> swarm_db \<Rightarrow> bool \<times> swarm_db" where
  "kanbanPromoteDueRetry redact now c at db =
     (let nowVal = orelse at now;
          (out, db1) = kanbanTransition redact now
            ((move c [Queued] Running A_retry_promotion ''due retry promotion'')
              \<lparr> tq_fields := [W_next_retry_at None], tq_extra := Some (Retry_due (nowVal div 1000)) \<rparr>) db
      in (is_applied out, db1))"

definition settle_done_fields :: "int \<Rightarrow> string option \<Rightarrow> string \<Rightarrow> co_write list" where
  "settle_done_fields now resultPath summary = [W_result_path resultPath,
     W_result_summary (Some (take 4000 summary)), W_completed_at (Some (sqliteNow now))]"

definition kanbanComplete ::
    "(string \<Rightarrow> string) \<Rightarrow> int \<Rightarrow> int \<Rightarrow> string option \<Rightarrow> string \<Rightarrow> bool \<Rightarrow> callback option \<Rightarrow> swarm_db \<Rightarrow> swarm_db" where
  "kanbanComplete redact now c resultPath summary emit cb db =
     snd (kanbanTransition redact now
       ((move c [Running, Queued] Done A_settle_done ''settlement complete'')
         \<lparr> tq_fields := settle_done_fields now resultPath summary, tq_emit := emit, tq_callback := cb \<rparr>) db)"

record project_claim =
  pc_generation :: int
  pc_scheduled_run_id :: "string option"

definition kanbanCompleteProject ::
    "(string \<Rightarrow> string) \<Rightarrow> int \<Rightarrow> int \<Rightarrow> string option \<Rightarrow> string \<Rightarrow> project_claim \<Rightarrow> bool \<Rightarrow> swarm_db \<Rightarrow> bool \<times> swarm_db" where
  "kanbanCompleteProject redact now c resultPath summary au emit db =
     (let (out, db1) = kanbanTransition redact now
        ((move c [Running, Queued] Done A_settle_done ''project settlement complete'')
          \<lparr> tq_fields := settle_done_fields now resultPath summary,
            tq_extra := Some (case pc_scheduled_run_id au of
               Some run \<Rightarrow> Complete_scheduled run (pc_generation au) run
             | None \<Rightarrow> Complete_unscheduled (pc_generation au)),
            tq_emit := emit \<rparr>) db
      in (is_applied out, db1))"

definition settle_failed_fields :: "int \<Rightarrow> string \<Rightarrow> co_write list" where
  "settle_failed_fields now err = [W_error (Some (take 1000 err)), W_completed_at (Some (sqliteNow now))]"

definition kanbanFail ::
    "(string \<Rightarrow> string) \<Rightarrow> int \<Rightarrow> int \<Rightarrow> string \<Rightarrow> bool \<Rightarrow> callback option \<Rightarrow> swarm_db \<Rightarrow> swarm_db" where
  "kanbanFail redact now c err emit cb db =
     snd (kanbanTransition redact now
       ((move c [Queued, Running, Done] Failed A_settle_failed ''settlement failed'')
         \<lparr> tq_fields := settle_failed_fields now err, tq_emit := emit, tq_callback := cb \<rparr>) db)"

definition kanbanFailProject ::
    "(string \<Rightarrow> string) \<Rightarrow> int \<Rightarrow> int \<Rightarrow> string \<Rightarrow> project_claim \<Rightarrow> bool \<Rightarrow> swarm_db \<Rightarrow> bool \<times> swarm_db" where
  "kanbanFailProject redact now c err au emit db =
     (let (out, db1) = kanbanTransition redact now
        ((move c [Queued, Running, Done] Failed A_settle_failed ''project settlement failed'')
          \<lparr> tq_fields := settle_failed_fields now err,
            tq_extra := Some (case pc_scheduled_run_id au of
               Some run \<Rightarrow> Fail_scheduled run (pc_generation au)
             | None \<Rightarrow> Fail_unscheduled (pc_generation au)),
            tq_emit := emit \<rparr>) db
      in (is_applied out, db1))"

definition MAX_RETRIES :: int where
  "MAX_RETRIES = 3"

datatype retry_result = Retrying | Retry_failed

text \<open>\<open>Math.pow(2, n - 1)\<close> for the retry number \<open>n \<ge> 1\<close> (the stored counter is never negative).\<close>

definition backoff_ms :: "int \<Rightarrow> int" where
  "backoff_ms n = min (10000 * 2 ^ nat (n - 1)) 300000"

definition kanbanRetryOrFail ::
    "(string \<Rightarrow> string) \<Rightarrow> int \<Rightarrow> int \<Rightarrow> string \<Rightarrow> callback option \<Rightarrow> swarm_db \<Rightarrow> retry_result \<times> swarm_db" where
  "kanbanRetryOrFail redact now c err cb db =
     (let retryCount = (case find_card db c of None \<Rightarrow> 0 | Some r \<Rightarrow> orelse (k_retry_count r) 0) + 1
      in if retryCount > MAX_RETRIES then
           (Retry_failed, kanbanFail redact now c (err @ '' (after 3 retries)'') True cb db)
         else
           (let (out, db1) = kanbanTransition redact now
              ((move c [Running, Queued] Queued A_retry_backoff ''retry backoff'')
                \<lparr> tq_fields := [W_retry_count retryCount, W_next_retry_at (Some (now + backoff_ms retryCount)),
                    W_error (Some (take 1000 err))] \<rparr>) db
            in (case out of Inr (Applied f) \<Rightarrow> Retrying | Inr (Reasserted f) \<Rightarrow> Retrying | _ \<Rightarrow> Retry_failed, db1)))"

section \<open>What a transition does to one card\<close>

lemma write_column_keep [simp]:
  "k_id (write_column w r) = k_id r"
  "k_status (write_column w r) = k_status r"
  "k_type (write_column w r) = k_type r"
  "k_parent_id (write_column w r) = k_parent_id r"
  "k_tokens_used (write_column w r) = k_tokens_used r"
  "k_max_tokens (write_column w r) = k_max_tokens r"
  by (cases w; simp)+

lemma write_columns_keep [simp]:
  "k_id (fold write_column ws r) = k_id r"
  "k_status (fold write_column ws r) = k_status r"
  "k_type (fold write_column ws r) = k_type r"
  "k_parent_id (fold write_column ws r) = k_parent_id r"
  "k_tokens_used (fold write_column ws r) = k_tokens_used r"
  "k_max_tokens (fold write_column ws r) = k_max_tokens r"
  by (induction ws arbitrary: r; simp)+

lemma set_status_simps [simp]:
  "k_id (set_status now rq r) = k_id r"
  "k_status (set_status now rq r) = tq_to rq"
  "k_type (set_status now rq r) = k_type r"
  "k_parent_id (set_status now rq r) = k_parent_id r"
  "k_tokens_used (set_status now rq r) = k_tokens_used r"
  "k_max_tokens (set_status now rq r) = k_max_tokens r"
  by (simp_all add: set_status_def)

lemma move_simps [simp]:
  "tq_card_id (move c fs st a why) = c" "tq_from (move c fs st a why) = fs" "tq_to (move c fs st a why) = st"
  "tq_callback (move c fs st a why) = None" "tq_fields (move c fs st a why) = []"
  "tq_extra (move c fs st a why) = None" "tq_emit (move c fs st a why) = True"
  by (simp_all add: move_def)

definition card_keys :: "swarm_db \<Rightarrow> bool" where
  "card_keys db \<longleftrightarrow> distinct (map k_id (db_cards db))"

lemma find_card_update:
  assumes "\<And>r. k_id (f r) = k_id r"
  shows "find_card (update_cards p f db) c = map_option (\<lambda>r. if p r then f r else r) (find_card db c)"
  unfolding find_card_def update_cards_def by (simp add: sql_first_update [of k_id f, OF assms])

lemma find_card_frame [simp]:
  "find_card (db\<lparr> db_journal := js \<rparr>) c = find_card db c"
  "find_card (append_journal redact rq s db) c = find_card db c"
  "find_card (queuePeerCallbackInTx i st cb db) c = find_card db c"
  "find_card (emit_transition rq db) c = find_card db c"
  by (simp_all add: find_card_def append_journal_def queuePeerCallbackInTx_def emit_transition_def Let_def)

lemma find_cardD: "find_card db c = Some r \<Longrightarrow> r \<in> set (db_cards db) \<and> k_id r = c"
  unfolding find_card_def by (drule sql_first_SomeD) simp

lemma find_card_unique:
  assumes "card_keys db" "find_card db c = Some row" "r \<in> set (db_cards db)" "k_id r = c"
  shows "r = row"
proof -
  have "row \<in> set (db_cards db)" "k_id row = c" using find_cardD [OF assms(2)] by auto
  with assms(1,3,4) show ?thesis unfolding card_keys_def distinct_map inj_on_def by blast
qed

text \<open>Whether the compare-and-set finds its row.\<close>

definition cas_hits :: "swarm_db \<Rightarrow> transition_request \<Rightarrow> card \<Rightarrow> bool" where
  "cas_hits db rq row \<longleftrightarrow> k_status row \<in> set (tq_from rq) \<and> extra_holds db rq row"

lemma update_cards_none: "sql_changes p (db_cards db) = 0 \<Longrightarrow> update_cards p f db = db"
  by (simp add: update_cards_def sql_update_id)

lemma transition_tx_eq:
  assumes keys: "card_keys db" and row: "find_card db (tq_card_id rq) = Some row"
  shows "transition_tx redact now rq db =
    (let db1 = update_cards (\<lambda>r. k_id r = tq_card_id rq) (set_status now rq) db in
     if \<not> cas_hits db rq row then (No_op (Some (k_status row)), db)
     else if k_status row = tq_to rq then (Reasserted (k_status row), db1)
     else (Applied (k_status row), commit_applied redact rq (k_status row) db1))"
proof -
  from row have f: "sql_first (\<lambda>r. k_id r = tq_card_id rq) (db_cards db) = Some row"
    by (simp add: find_card_def)
  have n: "sql_changes (\<lambda>r. k_id r = tq_card_id rq \<and> q r) (db_cards db) = (if q row then 1 else 0)" for q
    using sql_changes_key [of k_id "db_cards db" "tq_card_id rq" q] keys f by (simp add: card_keys_def)
  have u: "update_cards (\<lambda>r. k_id r = tq_card_id rq \<and> q r) g db =
      (if q row then update_cards (\<lambda>r. k_id r = tq_card_id rq) g db else db)" for q g
  proof (cases "q row")
    case True
    have "r = row" if "r \<in> set (db_cards db)" "k_id r = tq_card_id rq" for r
      using that by (rule find_card_unique [OF keys row])
    with True have "map (\<lambda>r. if k_id r = tq_card_id rq \<and> q r then g r else r) (db_cards db) =
        map (\<lambda>r. if k_id r = tq_card_id rq then g r else r) (db_cards db)"
      by (intro map_cong) auto
    with True show ?thesis
      by (simp add: update_cards_def sql_update_def)
  next
    case False
    with n [of q] show ?thesis by (simp add: update_cards_none)
  qed
  have obs: "observed_status db (tq_card_id rq) = Some (k_status row)"
    by (simp add: observed_status_def row)
  show ?thesis
    using row
    by (auto simp: transition_tx_def Let_def n u obs cas_hits_def commit_applied_def)
qed


section \<open>The board's invariant\<close>

text \<open>
  The journal rows of a card, newest first, spell a legal path that ends in the card's status.
\<close>

definition legal_move :: "card_status \<Rightarrow> card_status \<Rightarrow> bool" where
  "legal_move a b \<longleftrightarrow> b \<in> set (LEGAL_TRANSITIONS a)"

fun newest_first_chain :: "journal_row list \<Rightarrow> card_status \<Rightarrow> bool" where
  "newest_first_chain [] s = True"
| "newest_first_chain (j # js) s = (j_to j = s \<and> legal_move (j_from j) s \<and> newest_first_chain js (j_from j))"

definition journal_of :: "swarm_db \<Rightarrow> int \<Rightarrow> journal_row list" where
  "journal_of db c = filter (\<lambda>j. j_card_id j = c) (db_journal db)"

definition journal_ids_ok :: "swarm_db \<Rightarrow> bool" where
  "journal_ids_ok db \<longleftrightarrow> distinct (map j_id (db_journal db)) \<and> (\<forall>j \<in> set (db_journal db). j_id j \<le> db_journal_seq db)"

definition board_ok :: "swarm_db \<Rightarrow> bool" where
  "board_ok db \<longleftrightarrow> card_keys db \<and> journal_ids_ok db \<and> distinct (map ob_id (db_outbox db)) \<and>
     (\<forall>c. length (journal_of db c) \<le> MAX_TRANSITIONS_PER_CARD) \<and>
     (\<forall>r \<in> set (db_cards db). newest_first_chain (rev (journal_of db (k_id r))) (k_status r))"

lemma chain_take: "newest_first_chain js s \<Longrightarrow> newest_first_chain (take n js) s"
proof (induction js s arbitrary: n rule: newest_first_chain.induct)
  case (2 j js s)
  then show ?case by (cases n) simp_all
qed simp

lemma filter_take_key:
  assumes "distinct (map f xs)"
  shows "filter (\<lambda>x. f x \<in> f ` set (take n xs)) xs = take n xs"
proof -
  have d: "distinct (map f (take n xs @ drop n xs))" using assms by simp
  then have "filter (\<lambda>x. f x \<in> f ` set (take n xs)) (drop n xs) = []"
    unfolding map_append distinct_append filter_empty_conv by auto
  moreover have "filter (\<lambda>x. f x \<in> f ` set (take n xs)) (take n xs) = take n xs"
    by (simp add: filter_id_conv)
  ultimately show ?thesis
    by (metis append_Nil2 append_take_drop_id filter_append)
qed

lemma prune_journal_card:
  assumes "distinct (map j_id js)"
  shows "filter (\<lambda>j. j_card_id j = d) (prune_journal c n js) =
    (if d = c then rev (take n (rev (filter (\<lambda>j. j_card_id j = c) js)))
     else filter (\<lambda>j. j_card_id j = d) js)"
proof (cases "d = c")
  case True
  let ?F = "filter (\<lambda>j. j_card_id j = c) js"
  have "distinct (map j_id (rev ?F))"
    using distinct_map_filter [OF assms] by (metis distinct_rev rev_map)
  from filter_take_key [OF this, of n]
  have "filter (\<lambda>j. j_id j \<in> j_id ` set (take n (rev ?F))) ?F = rev (take n (rev ?F))"
    by (metis rev_filter rev_rev_ident)
  moreover have "filter (\<lambda>j. j_card_id j = c) (prune_journal c n js) =
      filter (\<lambda>j. j_id j \<in> j_id ` set (take n (rev ?F))) ?F"
    by (auto simp: prune_journal_def Let_def intro!: filter_cong)
  ultimately show ?thesis using True by simp
next
  case False
  then show ?thesis by (auto simp: prune_journal_def Let_def intro!: filter_cong)
qed

lemma set_prune_journal: "set (prune_journal c n js) \<subseteq> set js"
  by (auto simp: prune_journal_def Let_def)

lemma distinct_prune_journal: "distinct (map j_id js) \<Longrightarrow> distinct (map j_id (prune_journal c n js))"
  by (simp add: prune_journal_def Let_def distinct_map_filter)

lemma commit_applied_fields [simp]:
  "db_cards (commit_applied redact rq s db) = db_cards db"
  "db_journal_seq (commit_applied redact rq s db) = db_journal_seq db + 1"
  by (simp_all add: commit_applied_def append_journal_def queuePeerCallbackInTx_def Let_def split: option.split)

lemma commit_applied_outbox:
  "distinct (map ob_id (db_outbox db)) \<Longrightarrow> distinct (map ob_id (db_outbox (commit_applied redact rq s db)))"
  by (auto simp: commit_applied_def append_journal_def queuePeerCallbackInTx_def Let_def list_ex_iff split: option.split)

lemma commit_applied_journal:
  "db_journal (commit_applied redact rq s db) =
     prune_journal (tq_card_id rq) MAX_TRANSITIONS_PER_CARD (db_journal (append_journal redact rq s db))"
  by (simp add: commit_applied_def queuePeerCallbackInTx_def Let_def split: option.split)

lemma journal_entry_simps [simp]:
  "j_id (journal_entry redact rq s i) = i" "j_card_id (journal_entry redact rq s i) = tq_card_id rq"
  "j_from (journal_entry redact rq s i) = s" "j_to (journal_entry redact rq s i) = tq_to rq"
  by (simp_all add: journal_entry_def)

lemma append_journal_ids:
  assumes "journal_ids_ok db"
  shows "distinct (map j_id (db_journal (append_journal redact rq s db)))"
proof -
  from assms have "db_journal_seq db + 1 \<notin> j_id ` set (db_journal db)"
    by (fastforce simp: journal_ids_ok_def)
  with assms show ?thesis by (auto simp: append_journal_def journal_ids_ok_def Let_def)
qed

lemma commit_applied_ids:
  assumes "journal_ids_ok db"
  shows "journal_ids_ok (commit_applied redact rq s db)"
proof -
  have "j_id j \<le> db_journal_seq db + 1" if "j \<in> set (db_journal (append_journal redact rq s db))" for j
    using that assms by (auto simp: append_journal_def Let_def journal_ids_ok_def)
  then have "\<forall>j \<in> set (db_journal (commit_applied redact rq s db)). j_id j \<le> db_journal_seq db + 1"
    unfolding commit_applied_journal by (meson set_prune_journal subsetD)
  with distinct_prune_journal [OF append_journal_ids [OF assms]] show ?thesis
    by (simp add: journal_ids_ok_def commit_applied_journal)
qed

lemma journal_of_commit:
  assumes "journal_ids_ok db"
  shows "journal_of (commit_applied redact rq s db) c =
    (if c = tq_card_id rq
     then rev (take MAX_TRANSITIONS_PER_CARD
       (journal_entry redact rq s (db_journal_seq db + 1) # rev (journal_of db c)))
     else journal_of db c)"
  unfolding journal_of_def commit_applied_journal
    prune_journal_card [OF append_journal_ids [OF assms]]
  by (auto simp: append_journal_def Let_def)

lemma update_cards_frame [simp]:
  "journal_of (update_cards p f db) c = journal_of db c"
  "journal_ids_ok (update_cards p f db) = journal_ids_ok db"
  "db_outbox (update_cards p f db) = db_outbox db"
  "db_cards (update_cards p f db) = sql_update p f (db_cards db)"
  by (simp_all add: update_cards_def journal_of_def journal_ids_ok_def)

lemma emit_transition_frame [simp]:
  "journal_of (emit_transition rq db) c = journal_of db c"
  "journal_ids_ok (emit_transition rq db) = journal_ids_ok db"
  "db_outbox (emit_transition rq db) = db_outbox db"
  "db_cards (emit_transition rq db) = db_cards db"
  by (simp_all add: emit_transition_def journal_of_def journal_ids_ok_def)

lemma legal_pair: "illegal rq = None \<Longrightarrow> f \<in> set (tq_from rq) \<Longrightarrow> f \<noteq> tq_to rq \<Longrightarrow> legal_move f (tq_to rq)"
  by (auto simp: illegal_def legal_move_def find_None_iff split: if_splits option.splits)


lemma board_ok_emit [simp]: "board_ok (emit_transition rq db) = board_ok db"
  by (simp add: board_ok_def card_keys_def)

lemma board_ok_commit:
  assumes ok: "board_ok db" and row: "find_card db (tq_card_id rq) = Some row"
    and mv: "legal_move (k_status row) (tq_to rq)"
  shows "board_ok (commit_applied redact rq (k_status row)
    (update_cards (\<lambda>r. k_id r = tq_card_id rq) (set_status now rq) db))"
    (is "board_ok (commit_applied redact rq ?s ?db1)")
proof -
  from row have r: "row \<in> set (db_cards db)" "k_id row = tq_card_id rq"
    by (auto dest: find_cardD)
  have ids: "journal_ids_ok ?db1" using ok by (simp add: board_ok_def)
  note j = journal_of_commit [OF ids, of redact rq ?s]
  have c: "newest_first_chain (rev (journal_of db (k_id r))) (k_status r)" if "r \<in> set (db_cards db)" for r
    using ok that by (simp add: board_ok_def)
  have "newest_first_chain (rev (journal_of (commit_applied redact rq ?s ?db1) (k_id r))) (k_status r)"
    if "r \<in> set (db_cards ?db1)" for r
  proof -
    from that obtain r0 where r0: "r0 \<in> set (db_cards db)"
      "r = (if k_id r0 = tq_card_id rq then set_status now rq r0 else r0)"
      by (auto simp: set_sql_update)
    show ?thesis
    proof (cases "k_id r0 = tq_card_id rq")
      case True
      with r0 have "k_id r = tq_card_id rq" "k_status r = tq_to rq" by simp_all
      with c [OF r(1)] mv r(2) show ?thesis by (simp add: j chain_take)
    next
      case False
      with r0 c [OF r0(1)] show ?thesis by (simp add: j)
    qed
  qed
  moreover have "card_keys (commit_applied redact rq ?s ?db1)"
    using ok by (simp add: board_ok_def card_keys_def map_key_update)
  moreover have "length (journal_of (commit_applied redact rq ?s ?db1) c) \<le> MAX_TRANSITIONS_PER_CARD" for c
    using ok by (simp add: j board_ok_def)
  ultimately show ?thesis
    using ok commit_applied_ids [OF ids, of redact rq ?s] commit_applied_outbox [of ?db1 redact rq ?s]
    by (simp add: board_ok_def)
qed

lemma board_ok_keep:
  assumes ok: "board_ok db" and id: "\<And>r. k_id (f r) = k_id r"
    and st: "\<And>r. r \<in> set (db_cards db) \<Longrightarrow> p r \<Longrightarrow> k_status (f r) = k_status r"
  shows "board_ok (update_cards p f db)"
proof -
  have "newest_first_chain (rev (journal_of db (k_id r))) (k_status r)" if "r \<in> set (sql_update p f (db_cards db))" for r
  proof -
    from that obtain r0 where r0: "r0 \<in> set (db_cards db)" "r = (if p r0 then f r0 else r0)"
      by (auto simp: set_sql_update)
    with id st have "k_id r = k_id r0" "k_status r = k_status r0" by simp_all
    with ok r0(1) show ?thesis by (simp add: board_ok_def)
  qed
  with ok show ?thesis
    by (simp add: board_ok_def card_keys_def map_key_update [of k_id f, OF id])
qed

lemma transition_keeps_board:
  assumes "board_ok db"
  shows "board_ok (snd (kanbanTransition redact now rq db))"
proof (cases "illegal rq")
  case None
  have "board_ok (snd (transition_tx redact now rq db))"
  proof (cases "find_card db (tq_card_id rq)")
    case None
    with assms show ?thesis by (simp add: transition_tx_def)
  next
    case (Some row)
    have keys: "card_keys db" using assms by (simp add: board_ok_def)
    have same: "board_ok (update_cards (\<lambda>r. k_id r = tq_card_id rq) (set_status now rq) db)"
      if "k_status row = tq_to rq"
    proof (rule board_ok_keep [OF assms])
      fix r assume "r \<in> set (db_cards db)" "k_id r = tq_card_id rq"
      then have "r = row" by (rule find_card_unique [OF keys Some])
      with that show "k_status (set_status now rq r) = k_status r" by simp
    qed simp
    have "legal_move (k_status row) (tq_to rq)" if "cas_hits db rq row" "k_status row \<noteq> tq_to rq"
      using that legal_pair [OF None] by (auto simp: cas_hits_def)
    with same assms board_ok_commit [OF assms Some] show ?thesis
      unfolding transition_tx_eq [OF keys Some] by (simp add: Let_def)
  qed
  with None show ?thesis
    by (auto simp: kanbanTransition_def case_prod_unfold Let_def split: transition_outcome.split)
qed (simp add: kanbanTransition_def assms)

text \<open>
  C6: every board transition keeps the board's invariant: card ids stay a key, the journal of
  every card stays a legal path through the transition matrix that ends in the card's current
  status and holds at most 200 rows, journal ids stay unique, and callback ids stay unique.
\<close>

theorem kanbanTransition_keeps_board:
  assumes "board_ok db"
  shows "board_ok (snd (kanbanTransition redact now rq db))"
  by (rule transition_keeps_board [OF assms])

section \<open>What a transition returns\<close>

lemma transition_effect:
  assumes "card_keys db"
  shows "(illegal rq \<noteq> None \<longrightarrow> kanbanTransition redact now rq db = (Inl (the (illegal rq)), db)) \<and>
    (illegal rq = None \<longrightarrow> fst (kanbanTransition redact now rq db) = Inr
       (case find_card db (tq_card_id rq) of
          None \<Rightarrow> No_op None
        | Some row \<Rightarrow>
            if cas_hits db rq row
            then (if k_status row = tq_to rq then Reasserted (k_status row) else Applied (k_status row))
            else No_op (Some (k_status row)))) \<and>
    (\<forall>s. fst (kanbanTransition redact now rq db) = Inr (No_op s) \<longrightarrow>
       snd (kanbanTransition redact now rq db) = db) \<and>
    (\<forall>c. find_card (snd (kanbanTransition redact now rq db)) c =
       map_option (\<lambda>r. if c = tq_card_id rq \<and> illegal rq = None \<and> cas_hits db rq r
                       then set_status now rq r else r) (find_card db c))"
proof (cases "illegal rq")
  case (Some e)
  then show ?thesis by (simp add: kanbanTransition_def option.map_ident)
next
  case legal: None
  show ?thesis
  proof (cases "find_card db (tq_card_id rq)")
    case None
    have "find_card db c = map_option (\<lambda>r. if c = tq_card_id rq \<and> cas_hits db rq r
        then set_status now rq r else r) (find_card db c)" for c
      using None by (cases "find_card db c") auto
    with legal None show ?thesis by (simp add: kanbanTransition_def transition_tx_def)
  next
    case (Some row)
    have u: "find_card (update_cards (\<lambda>r. k_id r = tq_card_id rq) (set_status now rq) db) c =
        map_option (\<lambda>r. if c = tq_card_id rq then set_status now rq r else r) (find_card db c)" for c
      by (subst find_card_update) (auto dest: find_cardD intro!: option.map_cong0)
    have f: "find_card (commit_applied redact rq s d) c = find_card d c" for s d c
      by (simp add: find_card_def)
    have k: "find_card db c = map_option (\<lambda>r. if c = tq_card_id rq \<and> cas_hits db rq r
        then set_status now rq r else r) (find_card db c)" if "\<not> cas_hits db rq row" for c
      using that Some by (cases "find_card db c") auto
    show ?thesis
      using legal Some k
      by (auto simp: kanbanTransition_def transition_tx_eq [OF assms Some] Let_def f u
            intro!: option.map_cong0 simp: case_prod_unfold option.map_comp o_def)
  qed
qed

text \<open>
  C7: the outcome of a legal request is decided by the stored row alone: no row gives
  \<open>no_op\<close> with nothing observed; a row whose status is expected and that meets the extra predicate
  is \<open>reasserted\<close> when it already has the target status and \<open>applied\<close> otherwise; any other row
  gives \<open>no_op\<close> with its true status. After a win the card has the target status and every other
  card is untouched; a \<open>no_op\<close> and a refused request change nothing at all.
\<close>

theorem kanbanTransition_outcome:
  assumes "card_keys db"
  shows "(illegal rq \<noteq> None \<longrightarrow> kanbanTransition redact now rq db = (Inl (the (illegal rq)), db)) \<and>
    (illegal rq = None \<longrightarrow> fst (kanbanTransition redact now rq db) = Inr
       (case find_card db (tq_card_id rq) of
          None \<Rightarrow> No_op None
        | Some row \<Rightarrow>
            if cas_hits db rq row
            then (if k_status row = tq_to rq then Reasserted (k_status row) else Applied (k_status row))
            else No_op (Some (k_status row)))) \<and>
    (\<forall>s. fst (kanbanTransition redact now rq db) = Inr (No_op s) \<longrightarrow>
       snd (kanbanTransition redact now rq db) = db) \<and>
    (\<forall>c. find_card (snd (kanbanTransition redact now rq db)) c =
       map_option (\<lambda>r. if c = tq_card_id rq \<and> illegal rq = None \<and> cas_hits db rq r
                       then set_status now rq r else r) (find_card db c))"
  by (rule transition_effect [OF assms])


section \<open>Final statuses\<close>

interpretation board: transition_table legal_move "\<lambda>s. s = Delivered"
  by unfold_locales (simp add: legal_move_def LEGAL_TRANSITIONS_def)

fun run_transitions :: "(string \<Rightarrow> string) \<Rightarrow> (int \<times> transition_request) list \<Rightarrow> swarm_db \<Rightarrow> swarm_db" where
  "run_transitions redact [] db = db"
| "run_transitions redact ((now, rq) # rqs) db =
     run_transitions redact rqs (snd (kanbanTransition redact now rq db))"

lemma transition_card_keys: "card_keys db \<Longrightarrow> card_keys (snd (kanbanTransition redact now rq db))"
proof (cases "illegal rq")
  case None
  assume keys: "card_keys db"
  then have "card_keys (snd (transition_tx redact now rq db))"
    by (cases "find_card db (tq_card_id rq)")
       (simp add: transition_tx_def,
        simp add: transition_tx_eq [OF keys] Let_def card_keys_def map_key_update)
  with None show ?thesis
    by (auto simp: kanbanTransition_def card_keys_def case_prod_unfold Let_def split: transition_outcome.split)
qed (simp add: kanbanTransition_def)

lemma transition_status:
  assumes "card_keys db" and "find_card db c = Some r"
  shows "\<exists>r'. find_card (snd (kanbanTransition redact now rq db)) c = Some r' \<and>
    (k_status r' = k_status r \<or> legal_move (k_status r) (k_status r'))"
proof -
  from transition_effect [OF assms(1), of rq redact now] assms(2)
  have f: "find_card (snd (kanbanTransition redact now rq db)) c =
      Some (if c = tq_card_id rq \<and> illegal rq = None \<and> cas_hits db rq r then set_status now rq r else r)"
    by simp
  show ?thesis
    unfolding f by (auto simp: cas_hits_def dest: legal_pair)
qed

text \<open>
  A delivered card stays delivered: no sequence of board transitions, whoever requests them,
  moves a card out of \<open>delivered\<close>.
\<close>

theorem delivered_final:
  assumes "card_keys db" and "observed_status db c = Some Delivered"
  shows "observed_status (run_transitions redact rqs db) c = Some Delivered"
  using assms
proof (induction redact rqs db rule: run_transitions.induct)
  case (2 redact now rq rqs db)
  from 2(3) obtain r where r: "find_card db c = Some r" "k_status r = Delivered"
    by (auto simp: observed_status_def)
  with transition_status [OF 2(2) r(1)] board.final_stuck
  have "observed_status (snd (kanbanTransition redact now rq db)) c = Some Delivered"
    by (fastforce simp: observed_status_def)
  with 2(1) transition_card_keys [OF 2(2)] show ?case by simp
qed simp

section \<open>Callbacks\<close>

definition outbox_count :: "swarm_db \<Rightarrow> string \<Rightarrow> nat" where
  "outbox_count db i = length (filter (\<lambda>x. ob_id x = i) (db_outbox db))"

lemma filter_key_le:
  assumes "distinct (map f xs)"
  shows "length (filter (\<lambda>x. f x = k) xs) \<le> 1"
  using assms
proof (induction xs)
  case (Cons x xs)
  have "filter (\<lambda>y. f y = k) xs = []" if "f x = k"
    using that Cons.prems unfolding filter_empty_conv by (metis distinct.simps(2) image_eqI list.map(2) list.set_map)
  with Cons show ?case by auto
qed simp

lemma outbox_count_le: "board_ok db \<Longrightarrow> outbox_count db i \<le> 1"
  unfolding board_ok_def outbox_count_def using filter_key_le [of ob_id] by blast

lemma outbox_of_commit:
  "db_outbox (commit_applied redact rq s db) = (case tq_callback rq of None \<Rightarrow> db_outbox db
     | Some cb \<Rightarrow> db_outbox (queuePeerCallbackInTx (tq_card_id rq) (tq_to rq) cb db))"
  by (simp add: commit_applied_def append_journal_def queuePeerCallbackInTx_def Let_def split: option.split)

text \<open>
  a peer callback is queued exactly when the transition it reports is won, and at most once per
  card and verdict: an outcome that is not \<open>applied\<close> leaves the outbox as it was, and after any
  transition there is at most one obligation for every verdict, exactly one for a won one.
\<close>

theorem callback_once:
  assumes ok: "board_ok db" and legal: "illegal rq = None"
    and res_def: "res = kanbanTransition redact now rq db"
  shows "(\<not> is_applied (fst res) \<longrightarrow> db_outbox (snd res) = db_outbox db) \<and>
    outbox_count (snd res) i \<le> 1 \<and>
    (is_applied (fst res) \<and> tq_callback rq = Some cb \<longrightarrow>
       outbox_count (snd res) (peerCallbackOutboxId (tq_card_id rq) (tq_to rq)) = 1)"
proof -
  have keys: "card_keys db" using ok by (simp add: board_ok_def)
  have ok': "board_ok (snd res)"
    unfolding res_def by (rule transition_keeps_board [OF ok])
  have q: "outbox_count (queuePeerCallbackInTx c st cb d) (peerCallbackOutboxId c st) \<ge> 1" for c st d
    by (auto simp: queuePeerCallbackInTx_def outbox_count_def Let_def list_ex_iff Suc_le_eq length_greater_0_conv
        filter_empty_conv)
  show ?thesis
  proof (cases "find_card db (tq_card_id rq)")
    case None
    with legal outbox_count_le [OF ok'] show ?thesis
      by (simp add: res_def kanbanTransition_def transition_tx_def)
  next
    case (Some row)
    note eq = transition_tx_eq [OF keys Some, of redact now]
    have "outbox_count (snd res) (peerCallbackOutboxId (tq_card_id rq) (tq_to rq)) \<ge> 1"
      if "is_applied (fst res)" "tq_callback rq = Some cb"
      using that legal q
      by (auto simp: res_def kanbanTransition_def eq Let_def outbox_count_def outbox_of_commit split: if_splits)
    moreover have "\<not> is_applied (fst res) \<Longrightarrow> db_outbox (snd res) = db_outbox db"
      using legal by (auto simp: res_def kanbanTransition_def eq Let_def split: if_splits)
    ultimately show ?thesis
      using outbox_count_le [OF ok', of i]
        outbox_count_le [OF ok', of "peerCallbackOutboxId (tq_card_id rq) (tq_to rq)"] by fastforce
  qed
qed

section \<open>Retries\<close>

text \<open>
  a card is retried at most three times: with fewer than three retries behind it a queued or
  running card goes back to \<open>queued\<close> with the counter one higher and a backoff of 10, 20 or 40
  seconds; with three it fails for good and keeps its counter.
\<close>

theorem kanbanRetryOrFail_bounded:
  assumes keys: "card_keys db" and row: "find_card db c = Some row"
    and live: "k_status row = Queued \<or> k_status row = Running"
    and n: "n = orelse (k_retry_count row) 0" "0 \<le> n"
  shows "(n < 3 \<longrightarrow> fst (kanbanRetryOrFail redact now c err cb db) = Retrying \<and>
      (\<exists>r. find_card (snd (kanbanRetryOrFail redact now c err cb db)) c = Some r \<and> k_status r = Queued \<and>
         k_retry_count r = Some (n + 1) \<and> k_next_retry_at r = Some (now + 10000 * 2 ^ nat n) \<and>
         10000 * 2 ^ nat n \<le> (40000 :: int))) \<and>
    (3 \<le> n \<longrightarrow> fst (kanbanRetryOrFail redact now c err cb db) = Retry_failed \<and>
      (\<exists>r. find_card (snd (kanbanRetryOrFail redact now c err cb db)) c = Some r \<and> k_status r = Failed \<and>
         k_retry_count r = k_retry_count row))"
proof (cases "n < 3")
  case True
  let ?rq = "(move c [Running, Queued] Queued A_retry_backoff ''retry backoff'')
    \<lparr> tq_fields := [W_retry_count (n + 1), W_next_retry_at (Some (now + backoff_ms (n + 1))), W_error (Some (take 1000 err))] \<rparr>"
  have legal: "illegal ?rq = None"
    by (simp add: illegal_def LEGAL_TRANSITIONS_def)
  have hit: "cas_hits db ?rq row"
    using live by (auto simp: cas_hits_def extra_holds_def)
  from n(2) True have "n = 0 \<or> n = 1 \<or> n = 2" by auto
  then have b: "backoff_ms (n + 1) = 10000 * 2 ^ nat n" "10000 * 2 ^ nat n \<le> (40000 :: int)"
    by (auto simp: backoff_ms_def)
  have e: "kanbanRetryOrFail redact now c err cb db = (let (out, db1) = kanbanTransition redact now ?rq db in
      (case out of Inr (Applied f) \<Rightarrow> Retrying | Inr (Reasserted f) \<Rightarrow> Retrying | _ \<Rightarrow> Retry_failed, db1))"
    using True row n by (simp add: kanbanRetryOrFail_def MAX_RETRIES_def Let_def)
  from transition_effect [OF keys, of ?rq redact now] row hit legal
  have "fst (kanbanTransition redact now ?rq db) = Inr (if k_status row = Queued then Reasserted Queued else Applied (k_status row))"
    "find_card (snd (kanbanTransition redact now ?rq db)) c = Some (set_status now ?rq row)"
    by simp_all
  with True b show ?thesis
    unfolding e by (simp add: case_prod_unfold set_status_def)
next
  case False
  let ?rq = "(move c [Queued, Running, Done] Failed A_settle_failed ''settlement failed'')
    \<lparr> tq_fields := settle_failed_fields now (err @ '' (after 3 retries)''), tq_emit := True, tq_callback := cb \<rparr>"
  have legal: "illegal ?rq = None"
    by (simp add: illegal_def LEGAL_TRANSITIONS_def settle_failed_fields_def)
  have hit: "cas_hits db ?rq row"
    using live by (auto simp: cas_hits_def extra_holds_def)
  have e: "kanbanRetryOrFail redact now c err cb db = (Retry_failed, snd (kanbanTransition redact now ?rq db))"
    using False row n by (simp add: kanbanRetryOrFail_def kanbanFail_def MAX_RETRIES_def)
  from transition_effect [OF keys, of ?rq redact now] row hit legal
  have "find_card (snd (kanbanTransition redact now ?rq db)) c = Some (set_status now ?rq row)"
    by simp
  with False show ?thesis
    unfolding e by (simp add: set_status_def settle_failed_fields_def)
qed

section \<open>Witnesses\<close>

lemma sample_board_ok: "board_ok (sample_board st)"
  by (simp add: board_ok_def card_keys_def journal_ids_ok_def journal_of_def board_samples)

lemma sample_card_keys: "card_keys (sample_board st)"
  using sample_board_ok by (simp add: board_ok_def)

theorem kanbanTransition_keeps_board_witness:
  "board_ok (snd (kanbanTransition (\<lambda>s. s) 5000 (move 1 [Queued] Running A_dispatch ''go'') (sample_board Queued)))"
  by (rule kanbanTransition_keeps_board [OF sample_board_ok])

theorem kanbanTransition_outcome_witness:
  "fst (kanbanTransition (\<lambda>s. s) 5000 (move 1 [Queued] Running A_dispatch ''go'') (sample_board Queued)) =
     Inr (Applied Queued) \<and>
   fst (kanbanTransition (\<lambda>s. s) 5000 (move 1 [Running] Done A_dispatch ''go'') (sample_board Queued)) =
     Inr (No_op (Some Queued))"
  using kanbanTransition_outcome [OF sample_card_keys, of "move 1 [Queued] Running A_dispatch ''go''" "\<lambda>s. s" 5000 Queued]
    kanbanTransition_outcome [OF sample_card_keys, of "move 1 [Running] Done A_dispatch ''go''" "\<lambda>s. s" 5000 Queued]
  by (simp add: illegal_def LEGAL_TRANSITIONS_def cas_hits_def extra_holds_def)

theorem delivered_final_witness:
  "observed_status (run_transitions (\<lambda>s. s) [(1, move 1 [Queued] Running A_dispatch ''x''),
     (2, move 1 [Done] Failed A_settle_failed ''y'')] (sample_board Delivered)) 1 = Some Delivered"
  by (rule delivered_final [OF sample_card_keys]) (simp add: observed_status_def)

theorem callback_once_witness:
  "outbox_count (snd (kanbanTransition (\<lambda>s. s) 5000
     ((move 1 [Running] Done A_settle_done ''x'')\<lparr> tq_callback := Some \<lparr> cb_peer = ''p'', cb_status = ''done'',
        cb_result_summary = None, cb_error = None, cb_tokens_used = None, cb_artifacts = None \<rparr> \<rparr>)
     (sample_board Running))) (peerCallbackOutboxId 1 Done) = 1"
proof -
  let ?cb = "\<lparr> cb_peer = ''p'', cb_status = ''done'', cb_result_summary = None, cb_error = None,
    cb_tokens_used = None, cb_artifacts = None \<rparr>"
  let ?rq = "(move 1 [Running] Done A_settle_done ''x'')\<lparr> tq_callback := Some ?cb \<rparr>"
  have legal: "illegal ?rq = None" by (simp add: illegal_def LEGAL_TRANSITIONS_def)
  have "is_applied (fst (kanbanTransition (\<lambda>s. s) 5000 ?rq (sample_board Running)))"
    by (simp add: kanbanTransition_def legal transition_tx_eq [OF sample_card_keys] cas_hits_def extra_holds_def Let_def)
  with callback_once [OF sample_board_ok legal refl, of "\<lambda>s. s" 5000 Running undefined ?cb] show ?thesis
    by simp
qed

theorem kanbanRetryOrFail_bounded_witness:
  "fst (kanbanRetryOrFail (\<lambda>s. s) 5000 1 ''boom'' None (sample_board Running)) = Retrying"
  using kanbanRetryOrFail_bounded [OF sample_card_keys [of Running] find_card_sample [of Running], of 0 "\<lambda>s. s" 5000 "''boom''" None]
  by (simp add: default_card_def)

end
