(* ===== verification/Delivery.thy ===== *)
theory Delivery
  imports Board "HOL-Library.Product_Lexorder"
begin

text \<open>
  The delivery half of the board: the claims of \<open>kanban-board.ts\<close> (a bounded number of attempts,
  project authority) and \<open>src/src/components/tasks/kanban-delivery.ts\<close> (one claimed send, routed
  by its outcome). The transports are parameters: each send returns its outcome or throws.
  The awaited sends are where other operations interleave; \<open>delivery_step\<close> has every stage as a
  step of its own.
\<close>

section \<open>Claims\<close>

definition kanbanPending :: "swarm_db \<Rightarrow> card list" where
  "kanbanPending db = sort_key
     (\<lambda>r. (if k_priority r = CRITICAL then 0 else 1 :: int, if k_priority r = HIGH then 0 else 1 :: int, k_created_at r))
     (filter (\<lambda>r. k_status r = Done \<and> (case k_delivery_attempts r of None \<Rightarrow> False | Some n \<Rightarrow> n < 5)) (db_cards db))"

definition kanbanSetDelivering :: "(string \<Rightarrow> string) \<Rightarrow> int \<Rightarrow> int \<Rightarrow> swarm_db \<Rightarrow> swarm_db" where
  "kanbanSetDelivering redact now c db = snd (kanbanTransition redact now
     ((move c [Done] Delivering A_delivery_claim ''set delivering'')\<lparr> tq_emit := False \<rparr>) db)"

definition attempts_of :: "swarm_db \<Rightarrow> int \<Rightarrow> int" where
  "attempts_of db c = (case find_card db c of None \<Rightarrow> 0 | Some r \<Rightarrow> orelse (k_delivery_attempts r) 0)"

definition kanbanClaimDelivery :: "(string \<Rightarrow> string) \<Rightarrow> int \<Rightarrow> int \<Rightarrow> swarm_db \<Rightarrow> bool \<times> swarm_db" where
  "kanbanClaimDelivery redact now c db =
     (let (out, db1) = kanbanTransition redact now
        ((move c [Done] Delivering A_delivery_claim ''delivery claim'')
          \<lparr> tq_fields := [W_delivery_attempts (attempts_of db c + 1)],
            tq_extra := Some Delivery_attempts_below_5, tq_emit := False \<rparr>) db
      in (is_applied out, db1))"

definition kanbanClaimProjectDelivery ::
    "(string \<Rightarrow> string) \<Rightarrow> int \<Rightarrow> int \<Rightarrow> project_claim \<Rightarrow> swarm_db \<Rightarrow> bool \<times> swarm_db" where
  "kanbanClaimProjectDelivery redact now c au db =
     (let (out, db1) = kanbanTransition redact now
        ((move c [Done] Delivering A_delivery_claim ''project delivery claim'')
          \<lparr> tq_fields := [W_delivery_attempts (attempts_of db c + 1)],
            tq_extra := Some (case pc_scheduled_run_id au of
               Some run \<Rightarrow> Claim_scheduled run (pc_generation au) run
             | None \<Rightarrow> Claim_unscheduled (pc_generation au)),
            tq_emit := False \<rparr>) db
      in (is_applied out, db1))"

definition kanbanMarkDelivered :: "(string \<Rightarrow> string) \<Rightarrow> int \<Rightarrow> int \<Rightarrow> swarm_db \<Rightarrow> swarm_db" where
  "kanbanMarkDelivered redact now c db = snd (kanbanTransition redact now
     ((move c [Delivering] Delivered A_delivery_settle ''delivery complete'')
       \<lparr> tq_fields := [W_delivered_at (Some (sqliteNow now))] \<rparr>) db)"

section \<open>Settling a send\<close>

definition markSent :: "(string \<Rightarrow> string) \<Rightarrow> int \<Rightarrow> int \<Rightarrow> string \<Rightarrow> swarm_db \<Rightarrow> swarm_db" where
  "markSent redact now c receipt db = snd (kanbanTransition redact now
     ((move c [Delivering] Delivered A_delivery_settle ''delivery sent'')
       \<lparr> tq_fields := [W_delivery_result (Some ''sent''), W_delivery_receipt (Some receipt),
           W_delivered_at (Some (sqliteNow now))], tq_emit := False \<rparr>) db)"

definition markUnknown :: "(string \<Rightarrow> string) \<Rightarrow> int \<Rightarrow> int \<Rightarrow> swarm_db \<Rightarrow> swarm_db" where
  "markUnknown redact now c db = snd (kanbanTransition redact now
     ((move c [Delivering] Done A_delivery_settle ''delivery unknown'')
       \<lparr> tq_fields := [W_delivery_result (Some ''unknown'')],
         tq_extra := Some Delivery_result_null, tq_emit := False \<rparr>) db)"

definition markDefinitelyNotSent :: "(string \<Rightarrow> string) \<Rightarrow> int \<Rightarrow> int \<Rightarrow> swarm_db \<Rightarrow> swarm_db" where
  "markDefinitelyNotSent redact now c db = snd (kanbanTransition redact now
     ((move c [Delivering] Done A_delivery_settle ''delivery definitely not sent'')
       \<lparr> tq_fields := [W_delivery_result (Some ''definitely_not_sent'')], tq_emit := False \<rparr>) db)"

datatype send_outcome = Sent | Not_sent | Unknown_outcome

datatype send_result = Returns send_outcome | Rejects

definition recordOutcome :: "(string \<Rightarrow> string) \<Rightarrow> int \<Rightarrow> int \<Rightarrow> send_outcome \<Rightarrow> swarm_db \<Rightarrow> swarm_db" where
  "recordOutcome redact now c outcome db = (case outcome of
     Sent \<Rightarrow> markSent redact now c ''sent'' db
   | Not_sent \<Rightarrow> markDefinitelyNotSent redact now c db
   | Unknown_outcome \<Rightarrow> markUnknown redact now c db)"

definition settle_send :: "(string \<Rightarrow> string) \<Rightarrow> int \<Rightarrow> int \<Rightarrow> send_result \<Rightarrow> swarm_db \<Rightarrow> swarm_db" where
  "settle_send redact now c res db = (case res of
     Returns outcome \<Rightarrow> recordOutcome redact now c outcome db
   | Rejects \<Rightarrow> markUnknown redact now c db)"

section \<open>One delivery\<close>

record deliver_deps =
  dd_message :: "string \<Rightarrow> string \<Rightarrow> send_result"
  dd_document :: "string \<Rightarrow> string \<Rightarrow> string \<Rightarrow> send_result"
  dd_chat_id_for :: "card \<Rightarrow> string"
  dd_announce_to_main :: "(card \<Rightarrow> send_result) option"

text \<open>The fresh read, the guards and the claim; \<open>Some fresh\<close> when this delivery won its claim.\<close>

definition claim_for_delivery ::
    "(string \<Rightarrow> string) \<Rightarrow> int \<Rightarrow> int \<Rightarrow> swarm_db \<Rightarrow> card option \<times> swarm_db" where
  "claim_for_delivery redact now c db = (case find_card db c of
     None \<Rightarrow> (None, db)
   | Some fresh \<Rightarrow>
       (if k_status fresh = Delivered then (None, db)
        else if \<not> k_delivery_ready fresh then (None, db)
        else if k_delivery_result fresh = Some ''unknown'' then (None, db)
        else if k_type fresh = Some ''O'' then
          (case find_supervision db (k_id fresh) of
             None \<Rightarrow> (None, db)
           | Some sv \<Rightarrow>
               (if ps_state sv \<noteq> Accepted then (None, db)
                else let (won, db1) = kanbanClaimProjectDelivery redact now (k_id fresh)
                       \<lparr> pc_generation = ps_generation sv, pc_scheduled_run_id =
                           (if k_source fresh = ''task'' \<and> truthy (k_source_id fresh) then k_source_id fresh else None) \<rparr> db
                     in (if won then Some fresh else None, db1)))
        else let (won, db1) = kanbanClaimDelivery redact now c db
             in (if won then Some fresh else None, db1)))"

definition newline :: string where
  "newline = [CHR 0x0A]"

definition delivery_text :: "card \<Rightarrow> string" where
  "delivery_text r = k_title r @ '' complete.'' @
     (if truthy (k_result_summary r) then newline @ newline @ orelse (k_result_summary r) [] else [])"

text \<open>The send of a claimed card: \<open>crd\<close> is the caller's snapshot, \<open>fresh\<close> the re-read row.\<close>

definition send_claimed ::
    "(string \<Rightarrow> string) \<Rightarrow> int \<Rightarrow> deliver_deps \<Rightarrow> card \<Rightarrow> card \<Rightarrow> swarm_db \<Rightarrow> swarm_db" where
  "send_claimed redact now deps crd fresh db =
     (let chatId = dd_chat_id_for deps crd; c = k_id crd in
      if k_delivery_mode crd = ''silent'' then kanbanMarkDelivered redact now c db
      else if k_source fresh = ''task'' \<and> k_type fresh = Some ''T'' \<and> k_delivery_mode fresh = ''announce'' then
        (case dd_announce_to_main deps of
           None \<Rightarrow> markDefinitelyNotSent redact now c db
         | Some announce \<Rightarrow> settle_send redact now c (announce fresh) db)
      else if truthy (k_result_path crd) then
        settle_send redact now c (dd_document deps chatId (orelse (k_result_path crd) []) (k_title crd)) db
      else settle_send redact now c (dd_message deps chatId (delivery_text crd)) db)"

definition deliverCard :: "(string \<Rightarrow> string) \<Rightarrow> int \<Rightarrow> deliver_deps \<Rightarrow> card \<Rightarrow> swarm_db \<Rightarrow> swarm_db" where
  "deliverCard redact now deps crd db =
     (let (claimed, db1) = claim_for_delivery redact now (k_id crd) db
      in case claimed of None \<Rightarrow> db1 | Some fresh \<Rightarrow> send_claimed redact now deps crd fresh db1)"

definition pollPendingDeliveries :: "(string \<Rightarrow> string) \<Rightarrow> int \<Rightarrow> deliver_deps \<Rightarrow> swarm_db \<Rightarrow> nat \<times> swarm_db" where
  "pollPendingDeliveries redact now deps db =
     (length (kanbanPending db), fold (deliverCard redact now deps) (kanbanPending db) db)"

section \<open>What a won claim proves\<close>

lemma board_transition:
  assumes "card_keys db" and "illegal rq = None" and "find_card db (tq_card_id rq) = Some row"
  shows "is_applied (fst (kanbanTransition redact now rq db)) \<longleftrightarrow> cas_hits db rq row \<and> k_status row \<noteq> tq_to rq"
    and "find_card (snd (kanbanTransition redact now rq db)) (tq_card_id rq) =
      Some (if cas_hits db rq row then set_status now rq row else row)"
  using transition_effect [OF assms(1), of rq redact now] assms(2,3) by auto

lemma applied_row:
  assumes "card_keys db" and "is_applied (fst (kanbanTransition redact now rq db))"
  shows "illegal rq = None" and "\<exists>row. find_card db (tq_card_id rq) = Some row \<and> cas_hits db rq row"
  using transition_effect [OF assms(1), of rq redact now] assms(2)
  by (cases "illegal rq"; cases "find_card db (tq_card_id rq)"; auto split: if_splits)+

lemma claim_project_eq:
  "fst (kanbanClaimProjectDelivery redact now c au db) = is_applied (fst (kanbanTransition redact now
     ((move c [Done] Delivering A_delivery_claim ''project delivery claim'')
       \<lparr> tq_fields := [W_delivery_attempts (attempts_of db c + 1)],
         tq_extra := Some (case pc_scheduled_run_id au of
               Some run \<Rightarrow> Claim_scheduled run (pc_generation au) run
             | None \<Rightarrow> Claim_unscheduled (pc_generation au)),
         tq_emit := False \<rparr>) db))"
  by (simp add: kanbanClaimProjectDelivery_def case_prod_unfold Let_def)

text \<open>
  a project is claimed for delivery only under its exact authority: the card is a done,
  released \<open>O\<close> card with fewer than five attempts, its supervision is accepted at the claimed
  generation, and a claim under a scheduled run needs that run to be the card's own source and
  to have finished with success, so a claim for one run never releases another.
\<close>

theorem project_claim_authority:
  assumes keys: "card_keys db" and won: "fst (kanbanClaimProjectDelivery redact now c au db)"
  shows "\<exists>row. find_card db c = Some row \<and> k_status row = Done \<and> k_type row = Some ''O'' \<and>
    k_delivery_ready row \<and> orelse (k_delivery_attempts row) 0 < 5 \<and>
    (\<exists>sv \<in> set (db_supervision db). ps_project_card_id sv = c \<and> ps_state sv = Accepted \<and>
       ps_generation sv = pc_generation au) \<and>
    (case pc_scheduled_run_id au of
       None \<Rightarrow> k_source row \<noteq> ''task''
     | Some run \<Rightarrow> k_source row = ''task'' \<and> k_source_id row = Some run \<and>
         (\<exists>tr \<in> set (db_task_runs db). tr_run_id tr = run \<and> tr_finished_at tr \<noteq> None \<and>
            tr_outcome tr = Some ''success''))"
proof -
  from applied_row(2) [OF keys won [unfolded claim_project_eq]]
  obtain row where row: "find_card db c = Some row"
    and hit: "cas_hits db ((move c [Done] Delivering A_delivery_claim ''project delivery claim'')
       \<lparr> tq_fields := [W_delivery_attempts (attempts_of db c + 1)],
         tq_extra := Some (case pc_scheduled_run_id au of
               Some run \<Rightarrow> Claim_scheduled run (pc_generation au) run
             | None \<Rightarrow> Claim_unscheduled (pc_generation au)),
         tq_emit := False \<rparr>) row"
    by auto
  from find_cardD [OF row] have "k_id row = c" by simp
  with row hit show ?thesis
    by (auto simp: cas_hits_def extra_holds_def holds_def supervised_def task_run_where_def list_ex_iff
        is_project_def from_task_def attempts_below_5_def split: option.splits)
qed

section \<open>A delivery state machine\<close>

text \<open>Every stage of every delivery is a step, so all interleavings of sends are executions.\<close>

inductive delivery_step :: "(string \<Rightarrow> string) \<Rightarrow> swarm_db \<Rightarrow> swarm_db \<Rightarrow> bool" for redact where
  claim: "delivery_step redact db (snd (kanbanClaimDelivery redact now c db))"
| claim_project: "delivery_step redact db (snd (kanbanClaimProjectDelivery redact now c au db))"
| silent: "delivery_step redact db (kanbanMarkDelivered redact now c db)"
| sent: "delivery_step redact db (markSent redact now c receipt db)"
| unknown: "delivery_step redact db (markUnknown redact now c db)"
| not_sent: "delivery_step redact db (markDefinitelyNotSent redact now c db)"
| running: "delivery_step redact db (kanbanRunning redact now c db)"
| promote: "delivery_step redact db (snd (kanbanPromoteDueRetry redact now c at db))"
| complete: "delivery_step redact db (kanbanComplete redact now c path summary emit cb db)"
| complete_project: "delivery_step redact db (snd (kanbanCompleteProject redact now c path summary au emit db))"
| fail: "delivery_step redact db (kanbanFail redact now c err emit cb db)"
| fail_project: "delivery_step redact db (snd (kanbanFailProject redact now c err au emit db))"
| retry: "delivery_step redact db (snd (kanbanRetryOrFail redact now c err cb db))"

text \<open>Every step is one board transition whose request leaves the attempt counter alone or is a claim.\<close>

definition claim_request :: "swarm_db \<Rightarrow> transition_request \<Rightarrow> bool" where
  "claim_request db rq \<longleftrightarrow> tq_fields rq = [W_delivery_attempts (attempts_of db (tq_card_id rq) + 1)] \<and>
     (\<forall>r. extra_holds db rq r \<longrightarrow> orelse (k_delivery_attempts r) 0 < 5)"

fun counts_attempts :: "co_write \<Rightarrow> bool" where
  "counts_attempts (W_delivery_attempts n) = True"
| "counts_attempts _ = False"

lemma by_request:
  "db' = snd (kanbanTransition redact now rq db) \<Longrightarrow>
    claim_request db rq \<or> list_all (\<lambda>w. \<not> counts_attempts w) (tq_fields rq) \<Longrightarrow>
   \<exists>now rq. db' = snd (kanbanTransition redact now rq db) \<and>
    (claim_request db rq \<or> list_all (\<lambda>w. \<not> counts_attempts w) (tq_fields rq))"
  by blast

lemmas settle_defs = kanbanMarkDelivered_def markSent_def markUnknown_def markDefinitelyNotSent_def
  kanbanRunning_def kanbanPromoteDueRetry_def kanbanComplete_def kanbanCompleteProject_def kanbanFail_def
  kanbanFailProject_def kanbanClaimDelivery_def kanbanClaimProjectDelivery_def case_prod_unfold Let_def snd_conv

lemma delivery_step_request:
  assumes "delivery_step redact db db'"
  shows "\<exists>now rq. db' = snd (kanbanTransition redact now rq db) \<and>
    (claim_request db rq \<or> list_all (\<lambda>w. \<not> counts_attempts w) (tq_fields rq))"
  using assms
proof cases
  case (retry now c err cb)
  let ?n = "(case find_card db c of None \<Rightarrow> 0 | Some r \<Rightarrow> orelse (k_retry_count r) 0) + 1"
  show ?thesis
  proof (cases "?n > MAX_RETRIES")
    case True
    then have "db' = kanbanFail redact now c (err @ '' (after 3 retries)'') True cb db"
      by (simp add: retry kanbanRetryOrFail_def Let_def)
    then show ?thesis
      unfolding kanbanFail_def by (rule by_request) (simp add: settle_failed_fields_def)
  next
    case False
    then show ?thesis
      unfolding retry kanbanRetryOrFail_def Let_def case_prod_unfold if_not_P [OF False] snd_conv
      by (intro by_request [OF refl]) simp
  qed
qed (unfold settle_defs, (erule by_request, simp add: claim_request_def extra_holds_def holds_def
      attempts_below_5_def settle_done_fields_def settle_failed_fields_def split: option.split)+)

lemma writes_keep_attempts:
  "list_all (\<lambda>w. \<not> counts_attempts w) ws \<Longrightarrow>
    k_delivery_attempts (fold write_column ws r) = k_delivery_attempts r"
proof (induction ws arbitrary: r)
  case (Cons w ws)
  then show ?case by (cases w) simp_all
qed simp

lemma attempts_after:
  assumes keys: "card_keys db"
    and rq: "claim_request db rq \<or> list_all (\<lambda>w. \<not> counts_attempts w) (tq_fields rq)"
  shows "attempts_of (snd (kanbanTransition redact now rq db)) c = attempts_of db c \<or>
    attempts_of db c < 5 \<and> attempts_of (snd (kanbanTransition redact now rq db)) c = attempts_of db c + 1"
proof -
  from transition_effect [OF keys, of rq redact now]
  have f: "find_card (snd (kanbanTransition redact now rq db)) c =
    map_option (\<lambda>r. if c = tq_card_id rq \<and> illegal rq = None \<and> cas_hits db rq r
                       then set_status now rq r else r) (find_card db c)"
    by blast
  show ?thesis
  proof (cases "find_card db c")
    case None
    then show ?thesis using f by (simp add: attempts_of_def)
  next
    case (Some r)
    then show ?thesis
      using f rq by (auto simp: attempts_of_def set_status_def writes_keep_attempts claim_request_def cas_hits_def)
  qed
qed

lemma step_attempts:
  assumes "card_keys db" and "delivery_step redact db db'"
  shows "card_keys db' \<and> (attempts_of db' c = attempts_of db c \<or>
    attempts_of db c < 5 \<and> attempts_of db' c = attempts_of db c + 1)"
  using delivery_step_request [OF assms(2)] transition_card_keys [OF assms(1)] attempts_after [OF assms(1)] by metis

text \<open>Executions that count the deliveries of card \<open>c\<close> that won their claim.\<close>

inductive deliveries :: "(string \<Rightarrow> string) \<Rightarrow> int \<Rightarrow> swarm_db \<Rightarrow> nat \<Rightarrow> swarm_db \<Rightarrow> bool" for redact c db0 where
  start: "deliveries redact c db0 0 db0"
| other: "deliveries redact c db0 n db \<Longrightarrow> delivery_step redact db db' \<Longrightarrow> deliveries redact c db0 n db'"
| won: "deliveries redact c db0 n db \<Longrightarrow> claim_for_delivery redact now c db = (Some fresh, db') \<Longrightarrow>
    deliveries redact c db0 (Suc n) db'"

definition won_by :: "(string \<Rightarrow> string) \<Rightarrow> int \<Rightarrow> int \<Rightarrow> swarm_db \<Rightarrow> swarm_db \<Rightarrow> transition_request \<Rightarrow> bool" where
  "won_by redact now c db db' rq \<longleftrightarrow> tq_card_id rq = c \<and> claim_request db rq \<and>
     is_applied (fst (kanbanTransition redact now rq db)) \<and> db' = snd (kanbanTransition redact now rq db)"

lemma kanbanClaimDelivery_won:
  "kanbanClaimDelivery redact now c db = (True, db') \<Longrightarrow> \<exists>rq. won_by redact now c db db' rq"
  unfolding kanbanClaimDelivery_def case_prod_unfold Let_def
  by (rule exI [of _ "(move c [Done] Delivering A_delivery_claim ''delivery claim'')
          \<lparr> tq_fields := [W_delivery_attempts (attempts_of db c + 1)],
            tq_extra := Some Delivery_attempts_below_5, tq_emit := False \<rparr>"])
     (simp add: won_by_def claim_request_def extra_holds_def holds_def attempts_below_5_def)

lemma kanbanClaimProjectDelivery_won:
  "kanbanClaimProjectDelivery redact now c au db = (True, db') \<Longrightarrow> \<exists>rq. won_by redact now c db db' rq"
  unfolding kanbanClaimProjectDelivery_def case_prod_unfold Let_def
  by (rule exI [of _ "(move c [Done] Delivering A_delivery_claim ''project delivery claim'')
          \<lparr> tq_fields := [W_delivery_attempts (attempts_of db c + 1)],
            tq_extra := Some (case pc_scheduled_run_id au of
               Some run \<Rightarrow> Claim_scheduled run (pc_generation au) run
             | None \<Rightarrow> Claim_unscheduled (pc_generation au)),
            tq_emit := False \<rparr>"])
     (simp add: won_by_def claim_request_def extra_holds_def holds_def attempts_below_5_def split: option.split)

lemma claim_for_delivery_won:
  assumes keys: "card_keys db" and won: "claim_for_delivery redact now c db = (Some fresh, db')"
  shows "card_keys db' \<and> attempts_of db c < 5 \<and> attempts_of db' c = attempts_of db c + 1"
proof -
  have key: "k_id r = c" if "find_card db c = Some r" for r using find_cardD [OF that] by simp
  have "kanbanClaimDelivery redact now c db = (True, db') \<or>
      (\<exists>au. kanbanClaimProjectDelivery redact now c au db = (True, db'))"
    using won by (auto simp: claim_for_delivery_def Let_def key split: option.splits if_splits prod.splits)
  then obtain rq where rq: "tq_card_id rq = c" "claim_request db rq"
      "is_applied (fst (kanbanTransition redact now rq db))" "db' = snd (kanbanTransition redact now rq db)"
    using kanbanClaimDelivery_won kanbanClaimProjectDelivery_won unfolding won_by_def by blast
  from applied_row [OF keys rq(3)] rq(1) obtain row where row: "find_card db c = Some row" "cas_hits db rq row"
    and legal: "illegal rq = None" by auto
  from board_transition(2) [OF keys legal, of row redact now] row rq(1)
  have "find_card db' c = Some (set_status now rq row)" by (simp add: rq(4))
  with row rq show ?thesis
    using transition_card_keys [OF keys]
    by (auto simp: attempts_of_def set_status_def claim_request_def cas_hits_def)
qed

text \<open>
  C35: a card's result is handed to a transport at most five times: in every execution, however
  the stages of deliveries and the other board operations interleave, the number of deliveries of
  the card that win their claim is at most five less those already behind it.
\<close>

theorem at_most_five_deliveries:
  assumes "card_keys db0" and "deliveries redact c db0 n db" and "attempts_of db0 c \<le> 5"
  shows "int n \<le> 5 - attempts_of db0 c"
proof -
  from assms(2) have "card_keys db \<and> attempts_of db0 c + int n \<le> attempts_of db c \<and> attempts_of db c \<le> 5"
  proof induction
    case start
    with assms show ?case by simp
  next
    case (other n db db')
    from step_attempts [of db redact db' c] other show ?case by auto
  next
    case (won n db now fresh db')
    from claim_for_delivery_won [of db redact now c fresh db'] won show ?case by auto
  qed
  then show ?thesis by simp
qed

section \<open>Settling a claimed send\<close>

lemma settle_status:
  assumes keys: "card_keys db" and row: "find_card db c = Some r" and st: "k_status r = Delivering"
  shows "find_card (markSent redact now c receipt db) c = Some (r\<lparr> k_status := Delivered,
      k_updated_at := sqliteNow now, k_delivery_result := Some ''sent'', k_delivery_receipt := Some receipt,
      k_delivered_at := Some (sqliteNow now) \<rparr>)"
    and "find_card (markDefinitelyNotSent redact now c db) c = Some (r\<lparr> k_status := Done,
      k_updated_at := sqliteNow now, k_delivery_result := Some ''definitely_not_sent'' \<rparr>)"
    and "k_delivery_result r = None \<Longrightarrow> find_card (markUnknown redact now c db) c = Some (r\<lparr> k_status := Done,
      k_updated_at := sqliteNow now, k_delivery_result := Some ''unknown'' \<rparr>)"
    and "k_delivery_result r \<noteq> None \<Longrightarrow> markUnknown redact now c db = db"
proof -
  note o = transition_effect [OF keys]
  show "find_card (markSent redact now c receipt db) c = Some (r\<lparr> k_status := Delivered,
      k_updated_at := sqliteNow now, k_delivery_result := Some ''sent'', k_delivery_receipt := Some receipt,
      k_delivered_at := Some (sqliteNow now) \<rparr>)"
    unfolding markSent_def using row st
    by (simp add: o illegal_def LEGAL_TRANSITIONS_def cas_hits_def extra_holds_def set_status_def)
  show "find_card (markDefinitelyNotSent redact now c db) c = Some (r\<lparr> k_status := Done,
      k_updated_at := sqliteNow now, k_delivery_result := Some ''definitely_not_sent'' \<rparr>)"
    unfolding markDefinitelyNotSent_def using row st
    by (simp add: o illegal_def LEGAL_TRANSITIONS_def cas_hits_def extra_holds_def set_status_def)
  show "k_delivery_result r = None \<Longrightarrow> find_card (markUnknown redact now c db) c = Some (r\<lparr> k_status := Done,
      k_updated_at := sqliteNow now, k_delivery_result := Some ''unknown'' \<rparr>)"
    unfolding markUnknown_def using row st
    by (simp add: o illegal_def LEGAL_TRANSITIONS_def cas_hits_def extra_holds_def holds_def set_status_def)
  assume set: "k_delivery_result r \<noteq> None"
  let ?rq = "(move c [Delivering] Done A_delivery_settle ''delivery unknown'')
       \<lparr> tq_fields := [W_delivery_result (Some ''unknown'')], tq_extra := Some Delivery_result_null, tq_emit := False \<rparr>"
  have legal: "illegal ?rq = None" by (simp add: illegal_def LEGAL_TRANSITIONS_def)
  have miss: "\<not> cas_hits db ?rq r" using set by (simp add: cas_hits_def extra_holds_def holds_def)
  from o [of ?rq redact now] legal miss row
  have "fst (kanbanTransition redact now ?rq db) = Inr (No_op (Some (k_status r)))" by simp
  with o [of ?rq redact now] show "markUnknown redact now c db = db"
    unfolding markUnknown_def by blast
qed

text \<open>
  the outcome of a first send decides the card: sent, it is delivered for good with its
  receipt; definitely not sent, it is done again and, below five attempts, in the next poll;
  unknown or rejected, it is done, marked, and no later delivery claims it again.
\<close>

theorem settle_send_outcome:
  assumes keys: "card_keys db" and row: "find_card db c = Some r" and st: "k_status r = Delivering"
    and first: "k_delivery_result r = None"
  shows "observed_status (settle_send redact now c (Returns Sent) db) c = Some Delivered \<and>
    (\<forall>r'. find_card (settle_send redact now c (Returns Not_sent) db) c = Some r' \<longrightarrow>
       k_delivery_attempts r = Some n \<longrightarrow> n < 5 \<longrightarrow> r' \<in> set (kanbanPending (settle_send redact now c (Returns Not_sent) db))) \<and>
    (\<forall>res. res = Rejects \<or> res = Returns Unknown_outcome \<longrightarrow>
       observed_status (settle_send redact now c res db) c = Some Done \<and>
       claim_for_delivery redact' now' c (settle_send redact now c res db) = (None, settle_send redact now c res db))"
proof -
  have "observed_status (markUnknown redact now c db) c = Some Done \<and>
       claim_for_delivery redact' now' c (markUnknown redact now c db) = (None, markUnknown redact now c db)"
    using settle_status(3) [OF keys row st first] by (simp add: observed_status_def claim_for_delivery_def)
  moreover have "observed_status (markSent redact now c ''sent'' db) c = Some Delivered"
    using settle_status(1) [OF keys row st] by (simp add: observed_status_def)
  moreover have "r' \<in> set (kanbanPending (markDefinitelyNotSent redact now c db))"
    if "find_card (markDefinitelyNotSent redact now c db) c = Some r'" "k_delivery_attempts r = Some n" "n < 5" for r'
    using find_cardD [OF that(1)] that(2,3) settle_status(2) [OF keys row st] that(1) by (auto simp: kanbanPending_def)
  ultimately show ?thesis
    by (auto simp: settle_send_def recordOutcome_def)
qed

text \<open>
  once a send has definitely failed, the retry's own unknown outcome is lost: the
  \<open>delivery_result IS NULL\<close> guard of \<open>markUnknown\<close> rejects a card that carries the earlier
  \<open>definitely_not_sent\<close>, so a rejected or unknown resend changes nothing, the card stays
  \<open>delivering\<close>, and no poll lists it again.
\<close>

theorem unknown_resend_wedges:
  assumes keys: "card_keys db" and row: "find_card db c = Some r" and st: "k_status r = Delivering"
    and retried: "k_delivery_result r = Some ''definitely_not_sent''"
    and res: "res = Rejects \<or> res = Returns Unknown_outcome"
  shows "settle_send redact now c res db = db \<and> (\<forall>x \<in> set (kanbanPending db). k_id x \<noteq> c)"
proof
  show "settle_send redact now c res db = db"
    using res settle_status(4) [OF keys row st] retried by (auto simp: settle_send_def recordOutcome_def)
  show "\<forall>x \<in> set (kanbanPending db). k_id x \<noteq> c"
    using find_card_unique [OF keys row] st by (auto simp: kanbanPending_def)
qed

section \<open>Witnesses\<close>

definition done_project :: swarm_db where
  "done_project = empty_db\<lparr>
     db_cards := [(default_card 1 ''t'' ''task'' 0)\<lparr> k_status := Done, k_type := Some ''O'', k_source_id := Some ''r1'' \<rparr>],
     db_supervision := [\<lparr> ps_project_card_id = 1, ps_state = Accepted, ps_generation = 2,
       ps_blocked_reason = None, ps_workspace_cwd = None \<rparr>],
     db_task_runs := [\<lparr> tr_run_id = ''r1'', tr_finished_at = Some 5, tr_outcome = Some ''success'' \<rparr>] \<rparr>"

lemma done_project_keys: "card_keys done_project"
  by (simp add: card_keys_def done_project_def)

theorem project_claim_authority_witness:
  "\<exists>row. find_card done_project 1 = Some row \<and> k_status row = Done"
proof -
  have f: "find_card done_project 1 = Some (hd (db_cards done_project))"
    by (simp add: find_card_def done_project_def default_card_def)
  have "fst (kanbanClaimProjectDelivery (\<lambda>s. s) 9000 1 \<lparr> pc_generation = 2, pc_scheduled_run_id = Some ''r1'' \<rparr> done_project)"
    by (simp add: claim_project_eq board_transition(1) [OF done_project_keys, where row = "hd (db_cards done_project)"]
        f illegal_def LEGAL_TRANSITIONS_def)
       (simp add: done_project_def default_card_def cas_hits_def extra_holds_def holds_def supervised_def
         task_run_where_def is_project_def from_task_def attempts_below_5_def)
  from project_claim_authority [OF done_project_keys this] show ?thesis by blast
qed

lemma claim_sample:
  "claim_for_delivery (\<lambda>s. s) 9000 1 (sample_board Done) =
     (Some ((default_card 1 ''t'' ''agent'' 0)\<lparr> k_status := Done \<rparr>), snd (kanbanClaimDelivery (\<lambda>s. s) 9000 1 (sample_board Done)))"
proof -
  have "fst (kanbanClaimDelivery (\<lambda>s. s) 9000 1 (sample_board Done))"
    by (simp add: kanbanClaimDelivery_def case_prod_unfold Let_def
        board_transition(1) [OF sample_card_keys, where row = "(default_card 1 ''t'' ''agent'' 0)\<lparr> k_status := Done \<rparr>"]
        illegal_def LEGAL_TRANSITIONS_def cas_hits_def extra_holds_def holds_def attempts_below_5_def default_card_def)
  then show ?thesis
    by (simp add: claim_for_delivery_def case_prod_unfold Let_def) (simp add: default_card_def)
qed

theorem at_most_five_deliveries_witness:
  "int (Suc 0) \<le> 5 - attempts_of (sample_board Done) 1"
proof (rule at_most_five_deliveries [OF sample_card_keys, of "\<lambda>s. s" 1 Done])
  show "deliveries (\<lambda>s. s) 1 (sample_board Done) (Suc 0) (snd (kanbanClaimDelivery (\<lambda>s. s) 9000 1 (sample_board Done)))"
    by (rule deliveries.won [OF deliveries.start claim_sample])
qed (simp add: attempts_of_def default_card_def)

theorem settle_send_outcome_witness:
  "observed_status (settle_send (\<lambda>s. s) 9000 1 (Returns Sent) (sample_board Delivering)) 1 = Some Delivered"
  using settle_send_outcome [OF sample_card_keys find_card_sample, of Delivering "\<lambda>s. s" 9000]
  by (simp add: default_card_def)

definition delivering_again :: swarm_db where
  "delivering_again = empty_db\<lparr> db_cards := [(default_card 1 ''t'' ''agent'' 0)
     \<lparr> k_status := Delivering, k_delivery_attempts := Some 2, k_delivery_result := Some ''definitely_not_sent'' \<rparr>] \<rparr>"

theorem unknown_resend_wedges_witness:
  "settle_send (\<lambda>s. s) 9000 1 Rejects delivering_again = delivering_again"
proof -
  have k: "card_keys delivering_again" by (simp add: card_keys_def delivering_again_def)
  have f: "find_card delivering_again 1 = Some (hd (db_cards delivering_again))"
    by (simp add: find_card_def delivering_again_def default_card_def)
  from unknown_resend_wedges [OF k f] show ?thesis by (simp add: delivering_again_def)
qed

end
