(* ===== verification/Authority.thy ===== *)
theory Authority
  imports Board
begin

text \<open>
  The mutation authority of \<open>src/src/components/project-acceptance/project-review-store.ts\<close>: who may
  change work under a supervised project root, and which attempts sit under one. Rows are read on
  the caller's connection; the predicates change nothing.
\<close>

section \<open>Authority tuples\<close>

record authority =
  pa_card_id :: int
  pa_generation :: int
  pa_scheduled_run_id :: "string option"

datatype authority_rejection =
  Missing_authority | Project_missing | Project_terminal | Generation_mismatch | Run_mismatch | Run_failed

definition TERMINAL_PROJECT_STATES :: "project_state list" where
  "TERMINAL_PROJECT_STATES = [Blocked, Accepted]"

definition positive_safe_integer :: "int \<Rightarrow> bool" where
  "positive_safe_integer n \<longleftrightarrow> 1 \<le> n \<and> n \<le> max_safe_integer"

definition baseProjectAuthorityCheck :: "swarm_db \<Rightarrow> authority option \<Rightarrow> authority_rejection option" where
  "baseProjectAuthorityCheck db au = (case au of
     None \<Rightarrow> Some Missing_authority
   | Some a \<Rightarrow>
       (if \<not> positive_safe_integer (pa_card_id a) \<or> \<not> positive_safe_integer (pa_generation a)
        then Some Missing_authority
        else case find_card db (pa_card_id a) of
          None \<Rightarrow> Some Project_missing
        | Some root \<Rightarrow>
            (if k_type root \<noteq> Some ''O'' then Some Project_missing
             else case find_supervision db (pa_card_id a) of
               None \<Rightarrow> Some Project_missing
             | Some sv \<Rightarrow> (if ps_generation sv \<noteq> pa_generation a then Some Generation_mismatch else None))))"

definition runAuthorityCheck :: "swarm_db \<Rightarrow> card \<Rightarrow> authority \<Rightarrow> bool \<Rightarrow> authority_rejection option" where
  "runAuthorityCheck db root a requireTerminalSuccess =
     (if k_source root = ''task'' \<and> truthy (k_source_id root) then
        (if pa_scheduled_run_id a = None \<or> pa_scheduled_run_id a \<noteq> k_source_id root then Some Run_mismatch
         else case find_task_run db (orelse (pa_scheduled_run_id a) []) of
           None \<Rightarrow> Some Run_mismatch
         | Some run \<Rightarrow>
             (if requireTerminalSuccess then
                (if tr_finished_at run = None \<or> tr_outcome run \<noteq> Some ''success'' then Some Run_failed else None)
              else if tr_finished_at run \<noteq> None then Some Run_failed else None))
      else if pa_scheduled_run_id a \<noteq> None then Some Run_mismatch else None)"

text \<open>The two re-reads after the base check return the rows it saw.\<close>

definition authorizeActiveProjectWork :: "swarm_db \<Rightarrow> authority option \<Rightarrow> authority_rejection option" where
  "authorizeActiveProjectWork db au = (case baseProjectAuthorityCheck db au of
     Some e \<Rightarrow> Some e
   | None \<Rightarrow>
       (let a = the au; root = the (find_card db (pa_card_id a)); sv = the (find_supervision db (pa_card_id a))
        in if ps_state sv \<in> set TERMINAL_PROJECT_STATES then Some Project_terminal
           else runAuthorityCheck db root a False))"

definition authorizeProjectDelivery :: "swarm_db \<Rightarrow> authority option \<Rightarrow> authority_rejection option" where
  "authorizeProjectDelivery db au = (case baseProjectAuthorityCheck db au of
     Some e \<Rightarrow> Some e
   | None \<Rightarrow>
       (let a = the au; root = the (find_card db (pa_card_id a)); sv = the (find_supervision db (pa_card_id a))
        in if ps_state sv \<noteq> Accepted then Some Project_terminal
           else runAuthorityCheck db root a True))"

section \<open>Ancestors\<close>

text \<open>
  The recursive query: from a card up the \<open>parent_id\<close> links, never visiting an id twice (the
  \<open>path\<close> column), so it ends on cyclic tables as well.
\<close>

definition next_parent :: "swarm_db \<Rightarrow> int list \<Rightarrow> card \<Rightarrow> card option" where
  "next_parent db seen r = (case k_parent_id r of
     None \<Rightarrow> None
   | Some p \<Rightarrow> (if p \<in> set seen then None else find_card db p))"

lemma find_card_in: "find_card db c = Some r \<Longrightarrow> r \<in> set (db_cards db) \<and> k_id r = c"
  unfolding find_card_def by (drule sql_first_SomeD) simp

lemma next_parentD:
  assumes "next_parent db seen r = Some q"
  shows "k_parent_id r = Some (k_id q)" "k_id q \<notin> set seen" "find_card db (k_id q) = Some q" "q \<in> set (db_cards db)"
  using assms by (auto simp: next_parent_def dest: find_card_in split: option.splits if_splits)

function ancestors :: "swarm_db \<Rightarrow> int list \<Rightarrow> card \<Rightarrow> card list" where
  "ancestors db seen r = r # (case next_parent db seen r of
     None \<Rightarrow> []
   | Some q \<Rightarrow> ancestors db (k_id q # seen) q)"
  by pat_completeness auto

lemma unseen_decreases:
  assumes "p \<notin> set seen" and "p \<in> f ` set xs"
  shows "length (filter (\<lambda>x. f x \<notin> set (p # seen)) xs) < length (filter (\<lambda>x. f x \<notin> set seen) xs)"
  using assms(2)
proof (induction xs)
  case (Cons x xs)
  have le: "length (filter (\<lambda>x. f x \<notin> set (p # seen)) xs) \<le> length (filter (\<lambda>x. f x \<notin> set seen) xs)" for xs
    by (induction xs) auto
  show ?case
  proof (cases "f x = p")
    case True
    with assms(1) le [of xs] show ?thesis by simp
  next
    case False
    with Cons show ?thesis by auto
  qed
qed simp

termination ancestors
proof (relation "measure (\<lambda>(db, seen, r). length (filter (\<lambda>x. k_id x \<notin> set seen) (db_cards db)))")
  fix db :: swarm_db and seen :: "int list" and r q :: card
  assume "next_parent db seen r = Some q"
  from next_parentD [OF this] unseen_decreases [of "k_id q" seen k_id "db_cards db"]
  show "((db, k_id q # seen, q), (db, seen, r)) \<in>
      measure (\<lambda>(db, seen, r). length (filter (\<lambda>x. k_id x \<notin> set seen) (db_cards db)))"
    by simp
qed simp

declare ancestors.simps [simp del]

lemma ancestors_None [simp]: "next_parent db seen r = None \<Longrightarrow> ancestors db seen r = [r]"
  by (simp add: ancestors.simps)

lemma ancestors_Some [simp]:
  "next_parent db seen r = Some q \<Longrightarrow> ancestors db seen r = r # ancestors db (k_id q # seen) q"
  by (subst ancestors.simps) simp

definition cardIsSupervisedProjectChild :: "swarm_db \<Rightarrow> int \<Rightarrow> bool" where
  "cardIsSupervisedProjectChild db c = (case find_card db c of
     None \<Rightarrow> False
   | Some r \<Rightarrow> list_ex (\<lambda>a. k_type a = Some ''O'' \<and> find_supervision db (k_id a) \<noteq> None) (ancestors db [c] r))"

text \<open>The specification: the cards reached by following parents, the card itself included.\<close>

inductive above :: "swarm_db \<Rightarrow> int \<Rightarrow> card \<Rightarrow> bool" for db c where
  self: "find_card db c = Some r \<Longrightarrow> above db c r"
| parent: "above db c r \<Longrightarrow> k_parent_id r = Some p \<Longrightarrow> find_card db p = Some q \<Longrightarrow> above db c q"

lemma ancestors_sound: "above db c r \<Longrightarrow> a \<in> set (ancestors db seen r) \<Longrightarrow> above db c a"
proof (induction db seen r rule: ancestors.induct)
  case (1 db seen r)
  show ?case
  proof (cases "next_parent db seen r")
    case None
    with 1(2,3) show ?thesis by simp
  next
    case (Some q)
    from next_parentD [OF Some] have "above db c q" by (blast intro: above.parent [OF 1(2)])
    with 1 Some show ?thesis by auto
  qed
qed

text \<open>What the walk has seen or lists is closed under parents, once what it had seen is.\<close>

definition parents_in :: "swarm_db \<Rightarrow> int set \<Rightarrow> int set \<Rightarrow> bool" where
  "parents_in db X S \<longleftrightarrow> (\<forall>x \<in> X. \<forall>y p q. find_card db x = Some y \<longrightarrow> k_parent_id y = Some p \<longrightarrow>
     find_card db p = Some q \<longrightarrow> p \<in> S)"

lemma parents_inD:
  "parents_in db X S \<Longrightarrow> x \<in> X \<Longrightarrow> find_card db x = Some y \<Longrightarrow> k_parent_id y = Some p \<Longrightarrow>
    find_card db p = Some q \<Longrightarrow> p \<in> S"
  unfolding parents_in_def by blast

lemma ancestors_self: "r \<in> set (ancestors db seen r)"
  by (cases "next_parent db seen r") simp_all

lemma ancestors_closed:
  assumes "find_card db (k_id r) = Some r" and "k_id r \<in> set seen"
    and "parents_in db (set seen - {k_id r}) (set seen)"
  shows "parents_in db (set seen \<union> k_id ` set (ancestors db seen r)) (set seen \<union> k_id ` set (ancestors db seen r))"
  using assms
proof (induction db seen r rule: ancestors.induct)
  case (1 db seen r)
  show ?case
  proof (cases "next_parent db seen r")
    case (Some q)
    note q = next_parentD [OF Some]
    have "parents_in db (set (k_id q # seen) - {k_id q}) (set (k_id q # seen))"
      unfolding parents_in_def
    proof (intro ballI allI impI)
      fix x y p q'
      assume x: "x \<in> set (k_id q # seen) - {k_id q}" and y: "find_card db x = Some y"
        "k_parent_id y = Some p" "find_card db p = Some q'"
      show "p \<in> set (k_id q # seen)"
      proof (cases "x = k_id r")
        case True
        with 1(2) y q(1) show ?thesis by simp
      next
        case False
        with x have "x \<in> set seen - {k_id r}" by simp
        from parents_inD [OF 1(4) this y] show ?thesis by simp
      qed
    qed
    with 1(1) [OF Some q(3)] have "parents_in db (set (k_id q # seen) \<union> k_id ` set (ancestors db (k_id q # seen) q))
        (set (k_id q # seen) \<union> k_id ` set (ancestors db (k_id q # seen) q))" by simp
    moreover have "set (k_id q # seen) \<union> k_id ` set (ancestors db (k_id q # seen) q) =
        set seen \<union> k_id ` set (ancestors db seen r)"
      using Some 1(3) ancestors_self [of q db "k_id q # seen"] by auto
    ultimately show ?thesis by simp
  next
    case None
    have "p \<in> set seen" if "find_card db x = Some y" "k_parent_id y = Some p" "find_card db p = Some q" "x \<in> set seen"
      for x y p q
    proof (cases "x = k_id r")
      case True
      with that 1(2) None show ?thesis by (auto simp: next_parent_def split: if_splits)
    next
      case False
      with that(4) have "x \<in> set seen - {k_id r}" by simp
      from parents_inD [OF 1(4) this that(1-3)] show ?thesis .
    qed
    then have "parents_in db (set seen) (set seen)" unfolding parents_in_def by blast
    with None 1(3) show ?thesis by (simp add: insert_absorb)
  qed
qed

lemma above_found: "above db c a \<Longrightarrow> find_card db (k_id a) = Some a"
  by (induction rule: above.induct) (auto dest: find_card_in)

lemma ancestors_complete:
  assumes "find_card db c = Some r" and "above db c a"
  shows "a \<in> set (ancestors db [c] r)"
proof -
  have c: "k_id r = c" using find_card_in [OF assms(1)] by simp
  let ?F = "set [c] \<union> k_id ` set (ancestors db [c] r)"
  have F: "?F = k_id ` set (ancestors db [c] r)"
    using c ancestors_self [of r db "[c]"] by auto
  have cl: "parents_in db ?F ?F"
    by (rule ancestors_closed) (use assms(1) c in \<open>simp_all add: parents_in_def\<close>)
  from assms(2) have "k_id a \<in> ?F"
  proof induction
    case (self r')
    with find_card_in [OF self] show ?case by simp
  next
    case (parent r' p q)
    from parents_inD [OF cl parent.IH above_found [OF parent(1)] parent(2,3)] find_card_in [OF parent(3)]
    show ?case by simp
  qed
  then have "k_id a \<in> k_id ` set (ancestors db [c] r)" by (simp only: F)
  then obtain b where b: "b \<in> set (ancestors db [c] r)" "k_id b = k_id a" by (metis imageE)
  have "find_card db (k_id b) = Some b"
    by (rule above_found [OF ancestors_sound [OF above.self [OF assms(1)] b(1)]])
  with above_found [OF assms(2)] b(2) have "b = a" by (metis option.inject)
  with b(1) show ?thesis by simp
qed

text \<open>
  the recursive query decides exactly whether some card on the parent chain (the card itself
  included) is an \<open>O\<close> card with a supervision row, at any depth, and it answers on every table,
  cyclic parent links included.
\<close>

theorem cardIsSupervisedProjectChild_iff:
  "cardIsSupervisedProjectChild db c \<longleftrightarrow>
     (\<exists>a. above db c a \<and> k_type a = Some ''O'' \<and> find_supervision db (k_id a) \<noteq> None)"
proof (cases "find_card db c")
  case None
  have "\<not> above db c a" for a
  proof
    assume "above db c a"
    then show False by induction (use None in auto)
  qed
  with None show ?thesis by (simp add: cardIsSupervisedProjectChild_def)
next
  case (Some r)
  with ancestors_complete [OF Some] ancestors_sound [OF above.self [OF Some]] show ?thesis
    by (auto simp: cardIsSupervisedProjectChild_def list_ex_iff)
qed

section \<open>What authority means\<close>

definition scheduled_root :: "card \<Rightarrow> bool" where
  "scheduled_root r \<longleftrightarrow> k_source r = ''task'' \<and> truthy (k_source_id r)"

lemma base_None:
  "baseProjectAuthorityCheck db au = None \<longleftrightarrow> (\<exists>a root sv. au = Some a \<and>
     positive_safe_integer (pa_card_id a) \<and> positive_safe_integer (pa_generation a) \<and>
     find_card db (pa_card_id a) = Some root \<and> k_type root = Some ''O'' \<and>
     find_supervision db (pa_card_id a) = Some sv \<and> ps_generation sv = pa_generation a)"
proof (cases au)
  case (Some a)
  then show ?thesis
    by (cases "find_card db (pa_card_id a)"; cases "find_supervision db (pa_card_id a)")
       (auto simp: baseProjectAuthorityCheck_def)
qed (simp add: baseProjectAuthorityCheck_def)

lemma run_None:
  "runAuthorityCheck db root a False = None \<longleftrightarrow> (if scheduled_root root
     then pa_scheduled_run_id a = k_source_id root \<and>
       (\<exists>run. find_task_run db (the (k_source_id root)) = Some run \<and> tr_finished_at run = None)
     else pa_scheduled_run_id a = None)"
proof (cases "scheduled_root root")
  case True
  then obtain i where "k_source_id root = Some i" by (auto simp: scheduled_root_def dest: truthy_SomeD)
  with True show ?thesis
    by (auto simp: runAuthorityCheck_def scheduled_root_def split: option.split)
next
  case False
  then show ?thesis by (auto simp: runAuthorityCheck_def scheduled_root_def)
qed

text \<open>
  Active work is authorised exactly when the tuple names an existing supervised root at its
  exact generation that is neither blocked nor accepted and, for a scheduled root, the root's own
  run that has not finished (for any other root, no run at all).
\<close>

theorem authorizeActive_exact:
  "authorizeActiveProjectWork db au = None \<longleftrightarrow>
     (\<exists>a root sv. au = Some a \<and> positive_safe_integer (pa_card_id a) \<and> positive_safe_integer (pa_generation a) \<and>
        find_card db (pa_card_id a) = Some root \<and> k_type root = Some ''O'' \<and>
        find_supervision db (pa_card_id a) = Some sv \<and> ps_generation sv = pa_generation a \<and>
        ps_state sv \<noteq> Blocked \<and> ps_state sv \<noteq> Accepted \<and>
        (if scheduled_root root
         then pa_scheduled_run_id a = k_source_id root \<and>
           (\<exists>run. find_task_run db (the (k_source_id root)) = Some run \<and> tr_finished_at run = None)
         else pa_scheduled_run_id a = None))"
proof (cases "baseProjectAuthorityCheck db au")
  case (Some e)
  then have "authorizeActiveProjectWork db au \<noteq> None" by (simp add: authorizeActiveProjectWork_def)
  with base_None [of db au] Some show ?thesis by (metis option.distinct(1))
next
  case None
  then obtain a root sv where b: "au = Some a" "positive_safe_integer (pa_card_id a)"
    "positive_safe_integer (pa_generation a)" "find_card db (pa_card_id a) = Some root" "k_type root = Some ''O''"
    "find_supervision db (pa_card_id a) = Some sv" "ps_generation sv = pa_generation a"
    unfolding base_None by blast
  with None have "authorizeActiveProjectWork db au =
      (if ps_state sv = Blocked \<or> ps_state sv = Accepted then Some Project_terminal else runAuthorityCheck db root a False)"
    by (simp add: authorizeActiveProjectWork_def TERMINAL_PROJECT_STATES_def)
  with b show ?thesis by (simp add: run_None)
qed

text \<open>
  The two predicates exclude each other: no tuple is ever authorised both for active work and
  for delivery, so nothing can still change a project whose result may be sent.
\<close>

theorem active_excludes_delivery:
  "(authorizeActiveProjectWork db au, authorizeProjectDelivery db au) \<noteq> (None, None)"
  by (auto simp: authorizeActiveProjectWork_def authorizeProjectDelivery_def TERMINAL_PROJECT_STATES_def Let_def
      split: option.splits if_splits)

end
