(* ===== verification/LeaseStore.thy ===== *)
theory LeaseStore
  imports Database Interfaces
begin

text \<open>
  \<open>src/src/components/executor-lease-store.ts\<close>: the durable lease of every attempt (its columns and
  its snapshot JSON side by side), the progress events behind it, and the writes that compare
  against the lease's version. \<open>redact\<close> is the store's \<open>redactSecrets\<close>, \<open>sha\<close> the hash behind the
  fingerprint, \<open>resolver\<close> the optional \<open>PendingInputResolver\<close>. Calls of the \<open>onLeaseChanged\<close> hook are
  recorded in \<open>db_lease_changed\<close> with the card they name.
\<close>

section \<open>Facts\<close>

definition MAX_EVENTS_PER_ATTEMPT :: nat where
  "MAX_EVENTS_PER_ATTEMPT = 500"

definition MAX_PAYLOAD_SUMMARY_LENGTH :: nat where
  "MAX_PAYLOAD_SUMMARY_LENGTH = 500"

definition upto_200 :: "string option \<Rightarrow> bool" where
  "upto_200 s = (case s of None \<Rightarrow> True | Some t \<Rightarrow> length t \<le> 200)"

definition natural :: "int option \<Rightarrow> bool" where
  "natural n = (case n of None \<Rightarrow> True | Some i \<Rightarrow> 0 \<le> i)"

definition sanitize_payload :: "(string \<Rightarrow> string) \<Rightarrow> payload \<Rightarrow> payload option" where
  "sanitize_payload redact p =
     (if upto_200 (pl_operation_id p) \<and> upto_200 (pl_operation_label p) \<and> natural (pl_expected_timeout_ms p) \<and>
         natural (pl_progress_units p) \<and> orelse (pl_progress_units p) 0 \<le> max_safe_integer \<and>
         upto_200 (pl_observation_id p) \<and> upto_200 (pl_milestone_id p) \<and> upto_200 (pl_input_request_id p)
      then Some (p\<lparr> pl_operation_label := map_option (\<lambda>t. take 200 (redact t)) (pl_operation_label p),
                    pl_summary := map_option (\<lambda>t. take MAX_PAYLOAD_SUMMARY_LENGTH (redact t)) (pl_summary p) \<rparr>)
      else None)"

definition sanitizeFact :: "(string \<Rightarrow> string) \<Rightarrow> fact \<Rightarrow> fact option" where
  "sanitizeFact redact f = map_option (\<lambda>p. f\<lparr> f_payload := p \<rparr>) (sanitize_payload redact (f_payload f))"

section \<open>Rows\<close>

text \<open>\<open>INSERT OR REPLACE\<close> of the columns taken from the snapshot.\<close>

definition lease_row_of :: "snapshot \<Rightarrow> lease_row" where
  "lease_row_of s = \<lparr> ls_attempt_id = sn_attempt_id s, ls_card_id = sn_card_id s,
     ls_claim_generation = sn_claim_generation s, ls_high_water = sn_high_water_sequence s,
     ls_state_version = sn_state_version s, ls_next_evaluation_at = sn_next_evaluation_at s,
     ls_closed_at = sn_closed_at s, ls_snapshot = s \<rparr>"

definition replace_lease :: "snapshot \<Rightarrow> swarm_db \<Rightarrow> swarm_db" where
  "replace_lease s db = db\<lparr> db_leases :=
     filter (\<lambda>l. ls_attempt_id l \<noteq> sn_attempt_id s) (db_leases db) @ [lease_row_of s] \<rparr>"

text \<open>
  \<open>INSERT OR IGNORE\<close> against the primary key (attempt, generation, sequence) and the unique index
  on (attempt, generation, fact id).
\<close>

definition insert_event :: "progress_row \<Rightarrow> swarm_db \<Rightarrow> swarm_db" where
  "insert_event e db =
     (if list_ex (\<lambda>x. pe_attempt_id x = pe_attempt_id e \<and> pe_claim_generation x = pe_claim_generation e \<and>
            (pe_sequence x = pe_sequence e \<or> pe_fact_id x = pe_fact_id e)) (db_progress db)
      then db else db\<lparr> db_progress := db_progress db @ [e] \<rparr>)"

definition events_of :: "swarm_db \<Rightarrow> string \<Rightarrow> int \<Rightarrow> progress_row list" where
  "events_of db a g = filter (\<lambda>e. pe_attempt_id e = a \<and> pe_claim_generation e = g) (db_progress db)"

text \<open>\<open>ORDER BY sequence ASC LIMIT excess\<close>; the sequence is unique within the attempt and generation.\<close>

definition pruneEvents :: "string \<Rightarrow> int \<Rightarrow> swarm_db \<Rightarrow> swarm_db" where
  "pruneEvents a g db =
     (let cnt = length (events_of db a g)
      in if cnt > MAX_EVENTS_PER_ATTEMPT then
           (let doomed = take (cnt - MAX_EVENTS_PER_ATTEMPT) (sort_key pe_sequence (events_of db a g))
            in db\<lparr> db_progress := filter (\<lambda>e. e \<notin> set doomed) (db_progress db) \<rparr>)
         else db)"

definition lease_changed :: "int \<Rightarrow> swarm_db \<Rightarrow> swarm_db" where
  "lease_changed c db = db\<lparr> db_lease_changed := db_lease_changed db @ [c] \<rparr>"

section \<open>Appending a fact\<close>

datatype append_result =
  Append_accepted snapshot | Append_idempotent snapshot | Append_rejected string | Append_conflict string
| Append_throws

definition active_lifecycle :: "attempt_lifecycle \<Rightarrow> bool" where
  "active_lifecycle l \<longleftrightarrow> l = L_claimed \<or> l = L_starting \<or> l = L_running"

definition terminal_lifecycle :: "attempt_lifecycle \<Rightarrow> bool" where
  "terminal_lifecycle l \<longleftrightarrow> l = L_completed \<or> l = L_failed \<or> l = L_cancelled \<or> l = L_timed_out"

text \<open>The ownership checks on the attempt row; \<open>None\<close> when the fact may be recorded.\<close>

definition fact_refused :: "fact \<Rightarrow> attempt option \<Rightarrow> string option" where
  "fact_refused f at = (case at of
     None \<Rightarrow> Some ''attempt not found''
   | Some a \<Rightarrow>
       (if terminal_lifecycle (at_lifecycle a) then Some (''attempt is '' @ lifecycle_name (at_lifecycle a))
        else if \<not> active_lifecycle (at_lifecycle a)
          then Some (''attempt lifecycle '' @ lifecycle_name (at_lifecycle a) @ '' not active'')
        else if at_generation a \<noteq> f_claim_generation f
          then Some (''generation mismatch: expected '' @ show_int (at_generation a) @ '', got '' @ show_int (f_claim_generation f))
        else if at_executor_kind a \<noteq> f_executor_kind f
          then Some (''executor kind mismatch: expected '' @ executor_kind_name (at_executor_kind a) @
                 '', got '' @ executor_kind_name (f_executor_kind f))
        else if at_executor_id a \<noteq> f_executor_id f
          then Some (''executor id mismatch: expected '' @ at_executor_id a @ '', got '' @ f_executor_id f)
        else None))"

definition find_event :: "swarm_db \<Rightarrow> string \<Rightarrow> int \<Rightarrow> string \<Rightarrow> progress_row option" where
  "find_event db a g i = sql_first
     (\<lambda>e. pe_attempt_id e = a \<and> pe_claim_generation e = g \<and> pe_fact_id e = i) (db_progress db)"

text \<open>Recording the sanitised fact: the next snapshot with its sequence, or a closed lease.\<close>

definition next_snapshot ::
    "(string \<Rightarrow> string) \<Rightarrow> lease_policy \<Rightarrow> int \<Rightarrow> (string \<Rightarrow> int \<Rightarrow> string \<Rightarrow> bool) option \<Rightarrow>
       fact \<Rightarrow> attempt \<Rightarrow> lease_row option \<Rightarrow> snapshot option" where
  "next_snapshot sha policy now resolver sf a existing = (case existing of
     None \<Rightarrow> Some ((createInitialSnapshot sha sf (at_card_id a) policy now (at_hard_deadline_at a))
               \<lparr> sn_high_water_sequence := 1 \<rparr>)
   | Some l \<Rightarrow>
       (if sn_closed_at (ls_snapshot l) \<noteq> None then None
        else Some ((reduceFact sha (ls_snapshot l) sf policy now (at_hard_deadline_at a) resolver)
               \<lparr> sn_high_water_sequence := ls_high_water l + 1 \<rparr>)))"

definition fact_event :: "(string \<Rightarrow> string) \<Rightarrow> int \<Rightarrow> fact \<Rightarrow> fact \<Rightarrow> snapshot \<Rightarrow> progress_row" where
  "fact_event sha now f sf s = \<lparr> pe_attempt_id = f_attempt_id f, pe_claim_generation = f_claim_generation f,
     pe_sequence = sn_high_water_sequence s, pe_fact_id = f_fact_id sf, pe_kind = f_kind sf,
     pe_fingerprint = computeSemanticFingerprint sha sf,
     pe_effect = computeLeaseEffect (f_kind f) (f_phase f), pe_received_at = now \<rparr>"

definition record_fact ::
    "(string \<Rightarrow> string) \<Rightarrow> int \<Rightarrow> fact \<Rightarrow> fact \<Rightarrow> snapshot \<Rightarrow> swarm_db \<Rightarrow> swarm_db" where
  "record_fact sha now f sf s db =
     lease_changed (sn_card_id s) (pruneEvents (f_attempt_id f) (f_claim_generation f)
       (insert_event (fact_event sha now f sf s) (replace_lease s db)))"

definition appendFact ::
    "(string \<Rightarrow> string) \<Rightarrow> (string \<Rightarrow> string) \<Rightarrow> int \<Rightarrow> fact \<Rightarrow> lease_policy \<Rightarrow>
       (string \<Rightarrow> int \<Rightarrow> string \<Rightarrow> bool) option \<Rightarrow> swarm_db \<Rightarrow> append_result \<times> swarm_db" where
  "appendFact redact sha now f policy resolver db = (case validateProgressEvent (fact_json f) of
     Throws_TypeError \<Rightarrow> (Append_throws, db)
   | Invalid errors \<Rightarrow> (Append_rejected (join_with '','' (map fst errors)), db)
   | Valid \<Rightarrow>
       (case sanitizeFact redact f of
          None \<Rightarrow> (Append_rejected ''sanitization failed'', db)
        | Some sf \<Rightarrow>
            (case fact_refused f (find_attempt db (f_attempt_id f)) of
               Some why \<Rightarrow> (Append_rejected why, db)
             | None \<Rightarrow>
                 (let a = the (find_attempt db (f_attempt_id f)); row = find_lease db (f_attempt_id f)
                  in case find_event db (f_attempt_id f) (f_claim_generation f) (f_fact_id f) of
                       Some e \<Rightarrow>
                         (case row of
                            Some l \<Rightarrow> (if pe_fingerprint e = computeSemanticFingerprint sha sf
                                       then (Append_idempotent (ls_snapshot l), db)
                                       else (Append_conflict ''duplicate fact_id with different fingerprint'', db))
                          | None \<Rightarrow> (Append_conflict ''duplicate fact_id with different fingerprint'', db))
                     | None \<Rightarrow>
                         (case next_snapshot sha policy now resolver sf a row of
                            None \<Rightarrow> (Append_rejected ''lease is closed'', db)
                          | Some s \<Rightarrow> (Append_accepted s, record_fact sha now f sf s db))))))"

section \<open>Closing and evaluating\<close>

definition blank_closed :: "attempt \<Rightarrow> int \<Rightarrow> int \<Rightarrow> string \<Rightarrow> snapshot" where
  "blank_closed a g now why = \<lparr> sn_attempt_id = at_id a, sn_card_id = at_card_id a, sn_claim_generation = g,
     sn_executor_kind = at_executor_kind a, sn_executor_id = at_executor_id a, sn_high_water_sequence = 0,
     sn_state_version = 1, sn_semantic_state = Alive, sn_semantic_fingerprint = None,
     sn_last_milestone_id = None, sn_last_received_at = now, sn_last_liveness_at = now,
     sn_last_progress_at = now, sn_liveness_deadline_at = now, sn_progress_deadline_at = now,
     sn_output_only_since = None, sn_output_units = None, sn_operation = None, sn_awaiting_input = None,
     sn_evaluation = \<lparr> ev_phase = Closed, ev_reason = None, ev_inspection_count = 0, ev_last_outcome = None,
       ev_grace_deadline_at = None, ev_version = 1 \<rparr>,
     sn_next_evaluation_at = None, sn_closed_at = Some now, sn_close_reason = Some why, sn_updated_at = now \<rparr>"

definition close_snapshot :: "int \<Rightarrow> string \<Rightarrow> snapshot \<Rightarrow> snapshot" where
  "close_snapshot now why s = s\<lparr> sn_closed_at := Some now, sn_close_reason := Some why,
     sn_evaluation := (sn_evaluation s)\<lparr> ev_phase := Closed, ev_version := ev_version (sn_evaluation s) + 1 \<rparr>,
     sn_updated_at := now, sn_next_evaluation_at := None \<rparr>"

definition advance_sequence :: "snapshot \<Rightarrow> snapshot" where
  "advance_sequence s = s\<lparr> sn_high_water_sequence := sn_high_water_sequence s + 1 \<rparr>"

definition closing_snapshot :: "attempt \<Rightarrow> int \<Rightarrow> int \<Rightarrow> string \<Rightarrow> lease_row option \<Rightarrow> snapshot option" where
  "closing_snapshot a g now why existing = (case existing of
     None \<Rightarrow> Some (advance_sequence (blank_closed a g now why))
   | Some l \<Rightarrow>
       (if sn_closed_at (ls_snapshot l) \<noteq> None then None
        else Some (advance_sequence (close_snapshot now why (ls_snapshot l)))))"

definition closing_event :: "string \<Rightarrow> int \<Rightarrow> int \<Rightarrow> string \<Rightarrow> snapshot \<Rightarrow> progress_row" where
  "closing_event attemptId g now why s = \<lparr> pe_attempt_id = attemptId, pe_claim_generation = g,
     pe_sequence = sn_high_water_sequence s, pe_fact_id = ''close:'' @ attemptId, pe_kind = Stalled,
     pe_fingerprint = ''closed:'' @ why, pe_effect = Eff_none, pe_received_at = now \<rparr>"

definition closeLease :: "int \<Rightarrow> string \<Rightarrow> int \<Rightarrow> string \<Rightarrow> swarm_db \<Rightarrow> bool \<times> swarm_db" where
  "closeLease now attemptId g why db = (case find_attempt db attemptId of
     None \<Rightarrow> (False, db)
   | Some a \<Rightarrow>
       (if at_generation a \<noteq> g then (False, db)
        else case closing_snapshot a g now why (find_lease db attemptId) of
          None \<Rightarrow> (False, db)
        | Some s \<Rightarrow>
            (True, lease_changed (at_card_id a)
              (insert_event (closing_event attemptId g now why s) (replace_lease s db)))))"

text \<open>\<open>UPDATE attempt_lease_snapshots SET ... WHERE attempt_id = ? AND state_version = ?\<close>.\<close>

definition update_lease :: "string \<Rightarrow> int \<Rightarrow> (lease_row \<Rightarrow> lease_row) \<Rightarrow> swarm_db \<Rightarrow> nat \<times> swarm_db" where
  "update_lease a v f db =
     (let p = (\<lambda>l. ls_attempt_id l = a \<and> ls_state_version l = v)
      in (sql_changes p (db_leases db), db\<lparr> db_leases := sql_update p f (db_leases db) \<rparr>))"

definition evaluated :: "int \<Rightarrow> evaluation_phase \<Rightarrow> stamp option \<Rightarrow> int \<Rightarrow> snapshot \<Rightarrow> snapshot" where
  "evaluated now phase nextAt v s = s\<lparr>
     sn_evaluation := (sn_evaluation s)\<lparr> ev_phase := phase, ev_version := ev_version (sn_evaluation s) + 1 \<rparr>,
     sn_state_version := v + 1,
     sn_next_evaluation_at := (case nextAt of None \<Rightarrow> sn_next_evaluation_at s | Some t \<Rightarrow> Some t),
     sn_updated_at := now \<rparr>"

definition updateEvaluation ::
    "int \<Rightarrow> string \<Rightarrow> evaluation_phase \<Rightarrow> int option \<Rightarrow> stamp option \<Rightarrow> swarm_db \<Rightarrow> bool \<times> swarm_db" where
  "updateEvaluation now a phase expected nextAt db = (case find_lease db a of
     None \<Rightarrow> (False, db)
   | Some l \<Rightarrow>
       (if (case expected of None \<Rightarrow> False | Some v \<Rightarrow> ls_state_version l \<noteq> v) then (False, db)
        else if ev_phase (sn_evaluation (ls_snapshot l)) = Cancel_requested \<and> phase \<noteq> Cancel_requested then (False, db)
        else
          (let s = evaluated now phase nextAt (ls_state_version l) (ls_snapshot l);
               (n, db1) = update_lease a (ls_state_version l)
                 (\<lambda>r. r\<lparr> ls_snapshot := s, ls_state_version := ls_state_version r + 1,
                        ls_next_evaluation_at := sn_next_evaluation_at s \<rparr>) db
           in if n > 0 then (True, lease_changed (sn_card_id s) db1) else (False, db1))))"

fun reason_name :: "lease_reason \<Rightarrow> string" where
  "reason_name Liveness_expired = ''liveness_expired''"
| "reason_name Progress_expired = ''progress_expired''"
| "reason_name Tool_silence_expired = ''tool_silence_expired''"
| "reason_name Awaiting_input_expired = ''awaiting_input_expired''"
| "reason_name Explicit_stall = ''explicit_stall''"
| "reason_name Hard_deadline = ''hard_deadline''"
| "reason_name Inspection_unknown_exhausted = ''inspection_unknown_exhausted''"

definition update_attempts :: "(attempt \<Rightarrow> bool) \<Rightarrow> (attempt \<Rightarrow> attempt) \<Rightarrow> swarm_db \<Rightarrow> nat \<times> swarm_db" where
  "update_attempts p f db =
     (sql_changes p (db_attempts db), db\<lparr> db_attempts := sql_update p f (db_attempts db) \<rparr>)"

definition cancel_target :: "string \<Rightarrow> int \<Rightarrow> attempt \<Rightarrow> bool" where
  "cancel_target a g r \<longleftrightarrow> at_id r = a \<and> at_generation r = g \<and> active_lifecycle (at_lifecycle r)"

definition cancel_requested :: "int \<Rightarrow> lease_reason \<Rightarrow> int \<Rightarrow> snapshot \<Rightarrow> snapshot" where
  "cancel_requested now why v s = s\<lparr>
     sn_evaluation := (sn_evaluation s)\<lparr> ev_phase := Cancel_requested, ev_reason := Some why,
       ev_version := ev_version (sn_evaluation s) + 1 \<rparr>,
     sn_next_evaluation_at := None, sn_updated_at := now, sn_state_version := v + 1 \<rparr>"

definition recordCancelIntent :: "int \<Rightarrow> string \<Rightarrow> lease_reason \<Rightarrow> int \<Rightarrow> int \<Rightarrow> swarm_db \<Rightarrow> bool \<times> swarm_db" where
  "recordCancelIntent now a why g expected db = (case find_lease db a of
     None \<Rightarrow> (False, db)
   | Some l \<Rightarrow>
       (if ls_state_version l \<noteq> expected then (False, db)
        else let (n, db1) = update_attempts (cancel_target a g)
                   (\<lambda>r. r\<lparr> at_lifecycle := L_cancel_requested, at_cancel_reason := Some (''lease:'' @ reason_name why) \<rparr>) db
             in if n = 0 then (False, db1)
                else
                  (let s = cancel_requested now why (ls_state_version l) (ls_snapshot l);
                       (m, db2) = update_lease a (ls_state_version l)
                         (\<lambda>r. r\<lparr> ls_snapshot := s, ls_state_version := ls_state_version r + 1,
                                ls_next_evaluation_at := None \<rparr>) db1
                   in (m = 1, db2))))"

definition setUpcomingEvaluation :: "int \<Rightarrow> string \<Rightarrow> stamp \<Rightarrow> swarm_db \<Rightarrow> swarm_db" where
  "setUpcomingEvaluation now a nextAt db = (case find_lease db a of
     None \<Rightarrow> db
   | Some l \<Rightarrow>
       (if sn_closed_at (ls_snapshot l) \<noteq> None then db
        else if ev_phase (sn_evaluation (ls_snapshot l)) = Cancel_requested then db
        else snd (update_lease a (ls_state_version l)
               (\<lambda>r. r\<lparr> ls_snapshot := (ls_snapshot l)\<lparr> sn_next_evaluation_at := Some nextAt, sn_updated_at := now \<rparr>,
                      ls_next_evaluation_at := Some nextAt \<rparr>) db)))"

section \<open>Reads\<close>

definition getSnapshot :: "swarm_db \<Rightarrow> string \<Rightarrow> snapshot option" where
  "getSnapshot db a = map_option ls_snapshot (find_lease db a)"

definition getActiveSnapshots :: "swarm_db \<Rightarrow> snapshot list" where
  "getActiveSnapshots db = map ls_snapshot (filter (\<lambda>l. ls_closed_at l = None) (db_leases db))"

text \<open>Both lists of due instants; a row whose stored instant does not parse is not modelled as due.\<close>

definition getEvaluationSchedule :: "swarm_db \<Rightarrow> (string \<times> int \<times> stamp) list" where
  "getEvaluationSchedule db = map (\<lambda>l. (ls_attempt_id l, ls_card_id l, the (ls_next_evaluation_at l)))
     (filter (\<lambda>l. ls_closed_at l = None \<and> ls_next_evaluation_at l \<noteq> None) (db_leases db))"

definition getDueSnapshots :: "int \<Rightarrow> swarm_db \<Rightarrow> (string \<times> int \<times> stamp) list" where
  "getDueSnapshots now db = filter (\<lambda>(a, c, t). case t of At i \<Rightarrow> i \<le> now | Unparseable \<Rightarrow> False)
     (getEvaluationSchedule db)"

section \<open>The store's invariant\<close>

text \<open>The columns and the snapshot JSON agree, and no event is ahead of its lease's high water.\<close>

definition lockstep :: "lease_row \<Rightarrow> bool" where
  "lockstep l \<longleftrightarrow> sn_attempt_id (ls_snapshot l) = ls_attempt_id l \<and>
     sn_state_version (ls_snapshot l) = ls_state_version l \<and>
     sn_next_evaluation_at (ls_snapshot l) = ls_next_evaluation_at l \<and>
     sn_closed_at (ls_snapshot l) = ls_closed_at l \<and>
     sn_high_water_sequence (ls_snapshot l) = ls_high_water l"

definition lease_keys :: "swarm_db \<Rightarrow> bool" where
  "lease_keys db \<longleftrightarrow> distinct (map ls_attempt_id (db_leases db))"

definition events_below :: "swarm_db \<Rightarrow> bool" where
  "events_below db \<longleftrightarrow> (\<forall>e \<in> set (db_progress db). \<exists>l.
     find_lease db (pe_attempt_id e) = Some l \<and> pe_sequence e \<le> ls_high_water l)"

definition leases_ok :: "swarm_db \<Rightarrow> bool" where
  "leases_ok db \<longleftrightarrow> lease_keys db \<and> (\<forall>l \<in> set (db_leases db). lockstep l) \<and> events_below db"

lemma find_leaseD: "find_lease db a = Some l \<Longrightarrow> l \<in> set (db_leases db) \<and> ls_attempt_id l = a"
  unfolding find_lease_def by (drule sql_first_SomeD) simp

lemma leases_ok_lockstep: "leases_ok db \<Longrightarrow> find_lease db a = Some l \<Longrightarrow> lockstep l"
  using find_leaseD [of db a l] by (simp add: leases_ok_def)

lemma find_lease_cong: "db_leases db = db_leases db' \<Longrightarrow> find_lease db a = find_lease db' a"
  by (simp add: find_lease_def)

lemma lease_row_of_simps [simp]:
  "ls_attempt_id (lease_row_of s) = sn_attempt_id s" "ls_closed_at (lease_row_of s) = sn_closed_at s"
  "ls_high_water (lease_row_of s) = sn_high_water_sequence s" "ls_snapshot (lease_row_of s) = s"
  "ls_state_version (lease_row_of s) = sn_state_version s"
  "ls_next_evaluation_at (lease_row_of s) = sn_next_evaluation_at s" "lockstep (lease_row_of s)"
  by (simp_all add: lease_row_of_def lockstep_def)

lemma sql_first_filter_other:
  "sql_first (\<lambda>l. k l = a) (filter (\<lambda>l. k l \<noteq> b) t) = (if a = b then None else sql_first (\<lambda>l. k l = a) t)"
  by (induction t) auto

lemma orelse_opt_None: "orelse_opt x None = x"
  by (cases x) simp_all

lemma find_lease_replace:
  "find_lease (replace_lease s db) a = (if a = sn_attempt_id s then Some (lease_row_of s) else find_lease db a)"
  by (simp add: find_lease_def replace_lease_def sql_first_append sql_first_filter_other orelse_opt_None)

lemma replace_lease_keys: "lease_keys db \<Longrightarrow> lease_keys (replace_lease s db)"
  by (auto simp: lease_keys_def replace_lease_def distinct_map_filter)

lemma insert_event_leases [simp]: "db_leases (insert_event e db) = db_leases db"
  by (simp add: insert_event_def)

lemma pruneEvents_leases [simp]: "db_leases (pruneEvents a g db) = db_leases db"
  by (simp add: pruneEvents_def Let_def)

lemma lease_changed_tables [simp]:
  "db_leases (lease_changed c db) = db_leases db" "db_progress (lease_changed c db) = db_progress db"
  "db_attempts (lease_changed c db) = db_attempts db"
  by (simp_all add: lease_changed_def)

lemma set_pruneEvents: "set (db_progress (pruneEvents a g db)) \<subseteq> set (db_progress db)"
  by (auto simp: pruneEvents_def Let_def)

lemma set_insert_event: "set (db_progress (insert_event e db)) \<subseteq> insert e (set (db_progress db))"
  by (auto simp: insert_event_def)

text \<open>Replacing a lease by one at a higher sequence and recording an event at most there.\<close>

lemma leases_ok_record:
  assumes ok: "leases_ok db"
    and up: "\<And>l. find_lease db (sn_attempt_id s) = Some l \<Longrightarrow> ls_high_water l \<le> sn_high_water_sequence s"
    and leases: "db_leases db' = db_leases (replace_lease s db)"
    and events: "set (db_progress db') \<subseteq> insert e (set (db_progress db))"
    and e: "pe_attempt_id e = sn_attempt_id s" "pe_sequence e \<le> sn_high_water_sequence s"
  shows "leases_ok db'"
proof -
  have f: "find_lease db' a = (if a = sn_attempt_id s then Some (lease_row_of s) else find_lease db a)" for a
    using find_lease_cong [OF leases] find_lease_replace by simp
  have "events_below db'"
    unfolding events_below_def
  proof
    fix x assume "x \<in> set (db_progress db')"
    with events consider "x = e" | "x \<in> set (db_progress db)" by auto
    then show "\<exists>l. find_lease db' (pe_attempt_id x) = Some l \<and> pe_sequence x \<le> ls_high_water l"
    proof cases
      case 1
      with e show ?thesis by (simp add: f)
    next
      case 2
      with ok obtain l where l: "find_lease db (pe_attempt_id x) = Some l" "pe_sequence x \<le> ls_high_water l"
        unfolding leases_ok_def events_below_def by blast
      show ?thesis
      proof (cases "pe_attempt_id x = sn_attempt_id s")
        case True
        with up l have "pe_sequence x \<le> sn_high_water_sequence s" by force
        with True show ?thesis by (simp add: f)
      next
        case False
        with l show ?thesis by (simp add: f)
      qed
    qed
  qed
  moreover have "lease_keys db'"
    using replace_lease_keys [of db s] ok leases by (simp add: leases_ok_def lease_keys_def)
  moreover have "\<forall>l \<in> set (db_leases db'). lockstep l"
    using ok unfolding leases by (auto simp: leases_ok_def replace_lease_def)
  ultimately show ?thesis by (simp add: leases_ok_def)
qed

text \<open>An update of one lease that keeps key, closing and high water and stays in lockstep.\<close>

lemma update_lease_eq:
  assumes keys: "lease_keys db" and row: "find_lease db a = Some l"
  shows "update_lease a (ls_state_version l) f db =
    (1, db\<lparr> db_leases := sql_update (\<lambda>r. ls_attempt_id r = a) f (db_leases db) \<rparr>)"
proof -
  from find_leaseD [OF row] have l: "l \<in> set (db_leases db)" "ls_attempt_id l = a" by auto
  have u: "r = l" if "r \<in> set (db_leases db)" "ls_attempt_id r = a" for r
    using keys l that unfolding lease_keys_def distinct_map inj_on_def by blast
  have "sql_update (\<lambda>r. ls_attempt_id r = a \<and> ls_state_version r = ls_state_version l) f (db_leases db) =
      sql_update (\<lambda>r. ls_attempt_id r = a) f (db_leases db)"
    unfolding sql_update_def by (intro map_cong) (auto dest: u)
  moreover have "sql_changes (\<lambda>r. ls_attempt_id r = a \<and> ls_state_version r = ls_state_version l) (db_leases db) = 1"
    using sql_changes_key [of ls_attempt_id "db_leases db" a "\<lambda>r. ls_state_version r = ls_state_version l"]
      keys row by (simp add: lease_keys_def find_lease_def)
  ultimately show ?thesis by (simp add: update_lease_def)
qed

lemma find_lease_updated:
  assumes "\<And>r. ls_attempt_id (f r) = ls_attempt_id r"
  shows "find_lease (db\<lparr> db_leases := sql_update (\<lambda>r. ls_attempt_id r = a) f (db_leases db) \<rparr>) b =
    (if b = a then map_option f (find_lease db b) else find_lease db b)"
proof -
  have "find_lease (db\<lparr> db_leases := sql_update (\<lambda>r. ls_attempt_id r = a) f (db_leases db) \<rparr>) b =
      map_option (\<lambda>r. if ls_attempt_id r = a then f r else r) (find_lease db b)"
    unfolding find_lease_def by (simp add: sql_first_update [of ls_attempt_id f, OF assms])
  also have "\<dots> = (if b = a then map_option f (find_lease db b) else find_lease db b)"
    by (cases "find_lease db b") (auto dest: find_leaseD)
  finally show ?thesis .
qed

lemma leases_ok_update:
  assumes ok: "leases_ok db" and row: "find_lease db a = Some l"
    and f: "\<And>r. ls_attempt_id (f r) = ls_attempt_id r" "\<And>r. ls_high_water (f r) = ls_high_water r"
    and lock: "lockstep (f l)"
    and same: "db_leases db' = sql_update (\<lambda>r. ls_attempt_id r = a) f (db_leases db)" "db_progress db' = db_progress db"
  shows "leases_ok db'"
proof -
  have fl: "find_lease db' b = (if b = a then map_option f (find_lease db b) else find_lease db b)" for b
    using find_lease_updated [where f = f and db = db and a = a and b = b, OF f(1)] same(1) by (simp add: find_lease_def)
  from find_leaseD [OF row] have l: "l \<in> set (db_leases db)" "ls_attempt_id l = a" by auto
  have u: "r = l" if "r \<in> set (db_leases db)" "ls_attempt_id r = a" for r
    using ok l that unfolding leases_ok_def lease_keys_def distinct_map inj_on_def by blast
  have "lockstep r" if "r \<in> set (db_leases db')" for r
    using that ok lock u unfolding same set_sql_update leases_ok_def by auto
  moreover have "events_below db'"
    unfolding events_below_def
  proof
    fix x assume "x \<in> set (db_progress db')"
    with ok obtain k where "find_lease db (pe_attempt_id x) = Some k" "pe_sequence x \<le> ls_high_water k"
      unfolding same leases_ok_def events_below_def by blast
    then show "\<exists>k. find_lease db' (pe_attempt_id x) = Some k \<and> pe_sequence x \<le> ls_high_water k"
      by (cases "pe_attempt_id x = a") (auto simp: fl f)
  qed
  moreover have "lease_keys db'"
    using ok by (simp add: same leases_ok_def lease_keys_def map_key_update [of ls_attempt_id f, OF f(1)])
  ultimately show ?thesis by (simp add: leases_ok_def)
qed


section \<open>Every operation keeps the invariant\<close>

lemma reduceFact_key: "sn_attempt_id (reduceFact sha s f p n h r) = sn_attempt_id s"
  using same_lease_reduceFact [of s sha f p n h r] by (simp add: same_lease_def)

lemma sanitize_keys:
  "sanitizeFact redact f = Some sf \<Longrightarrow> f_attempt_id sf = f_attempt_id f \<and> f_fact_id sf = f_fact_id f \<and>
     f_claim_generation sf = f_claim_generation f"
  by (auto simp: sanitizeFact_def)

lemma fact_refused_None:
  "fact_refused f x = None \<Longrightarrow> \<exists>a. x = Some a \<and> active_lifecycle (at_lifecycle a) \<and>
     at_generation a = f_claim_generation f \<and> at_executor_kind a = f_executor_kind f \<and> at_executor_id a = f_executor_id f"
  by (auto simp: fact_refused_def split: option.splits if_splits)

text \<open>An accepted fact, taken apart.\<close>

lemma appendFact_accepted:
  assumes "appendFact redact sha now f policy resolver db = (Append_accepted s, db')"
  obtains sf a where "validateProgressEvent (fact_json f) = Valid" "sanitizeFact redact f = Some sf"
    "find_attempt db (f_attempt_id f) = Some a" "fact_refused f (Some a) = None"
    "find_event db (f_attempt_id f) (f_claim_generation f) (f_fact_id f) = None"
    "next_snapshot sha policy now resolver sf a (find_lease db (f_attempt_id f)) = Some s"
    "db' = record_fact sha now f sf s db"
proof (cases "find_attempt db (f_attempt_id f)")
  case None
  then have "fact_refused f (find_attempt db (f_attempt_id f)) \<noteq> None" by (simp add: fact_refused_def)
  with assms show ?thesis by (auto simp: appendFact_def split: validation.splits option.splits)
next
  case (Some a)
  with assms that show ?thesis
    by (auto simp: appendFact_def Let_def split: validation.splits option.splits if_splits)
qed

lemma appendFact_other:
  "\<forall>s. fst (appendFact redact sha now f policy resolver db) \<noteq> Append_accepted s \<Longrightarrow>
   snd (appendFact redact sha now f policy resolver db) = db"
  by (auto simp: appendFact_def Let_def split: validation.splits option.splits if_splits)

lemma next_snapshot_key:
  assumes "leases_ok db" and "f_attempt_id sf = a0"
    and "next_snapshot sha policy now resolver sf a (find_lease db a0) = Some s"
  shows "sn_attempt_id s = a0 \<and> (\<forall>l. find_lease db a0 = Some l \<longrightarrow> sn_high_water_sequence s = ls_high_water l + 1)"
proof (cases "find_lease db a0")
  case None
  with assms(2,3) show ?thesis
    by (auto simp: next_snapshot_def createInitialSnapshot_def Let_def)
next
  case (Some l)
  from leases_ok_lockstep [OF assms(1) Some] find_leaseD [OF Some]
  have "sn_attempt_id (ls_snapshot l) = a0" by (simp add: lockstep_def)
  with Some assms(3) show ?thesis
    by (auto simp: next_snapshot_def reduceFact_key split: if_splits)
qed

lemma leases_ok_appendFact:
  assumes ok: "leases_ok db"
  shows "leases_ok (snd (appendFact redact sha now f policy resolver db))"
proof (cases "\<exists>s. fst (appendFact redact sha now f policy resolver db) = Append_accepted s")
  case True
  then obtain s db' where eq: "appendFact redact sha now f policy resolver db = (Append_accepted s, db')"
    by (metis prod.collapse)
  from appendFact_accepted [OF eq] obtain sf a where
    sf: "sanitizeFact redact f = Some sf" and
    s: "next_snapshot sha policy now resolver sf a (find_lease db (f_attempt_id f)) = Some s" and
    db': "db' = record_fact sha now f sf s db" by metis
  from next_snapshot_key [OF ok _ s] sanitize_keys [OF sf] have k: "sn_attempt_id s = f_attempt_id f"
    "\<And>l. find_lease db (f_attempt_id f) = Some l \<Longrightarrow> sn_high_water_sequence s = ls_high_water l + 1" by auto
  have "leases_ok db'"
  proof (rule leases_ok_record [OF ok, of s])
    show "ls_high_water l \<le> sn_high_water_sequence s" if "find_lease db (sn_attempt_id s) = Some l" for l
      using that k by simp
    show "db_leases db' = db_leases (replace_lease s db)"
      by (simp add: db' record_fact_def Let_def)
    have "db_progress (replace_lease s db) = db_progress db" by (simp add: replace_lease_def)
    with set_pruneEvents set_insert_event
    show "set (db_progress db') \<subseteq> insert (fact_event sha now f sf s) (set (db_progress db))"
      unfolding db' record_fact_def Let_def lease_changed_tables by (metis subset_trans)
  qed (simp_all add: k fact_event_def)
  with eq show ?thesis by simp
next
  case False
  then have "snd (appendFact redact sha now f policy resolver db) = db" by (intro appendFact_other) blast
  with ok show ?thesis by simp
qed

lemma closeLease_cases:
  assumes "closeLease now a g why db = (r, db')"
  obtains "\<not> r" "db' = db"
  | at s where "r" "find_attempt db a = Some at" "at_id at = a" "at_generation at = g"
    "closing_snapshot at g now why (find_lease db a) = Some s"
    "db' = lease_changed (at_card_id at) (insert_event (closing_event a g now why s) (replace_lease s db))"
proof (cases "find_attempt db a")
  case None
  with assms that(1) show ?thesis by (simp add: closeLease_def)
next
  case (Some at)
  then have i: "at_id at = a" unfolding find_attempt_def by (auto dest: sql_first_SomeD)
  show ?thesis
  proof (cases "at_generation at = g \<and> closing_snapshot at g now why (find_lease db a) \<noteq> None")
    case True
    then obtain s where "at_generation at = g" "closing_snapshot at g now why (find_lease db a) = Some s" by blast
    moreover from this assms Some have "r" "db' = lease_changed (at_card_id at)
        (insert_event (closing_event a g now why s) (replace_lease s db))"
      by (simp_all add: closeLease_def)
    ultimately show ?thesis using that(2) Some i by blast
  next
    case False
    with assms Some have "\<not> r" "db' = db" by (auto simp: closeLease_def split: if_splits)
    with that(1) show ?thesis by blast
  qed
qed

lemma closing_snapshot_key:
  assumes "leases_ok db" and "at_id at = a" and "closing_snapshot at g now why (find_lease db a) = Some s"
  shows "sn_attempt_id s = a \<and> sn_closed_at s = Some now \<and>
    (\<forall>l. find_lease db a = Some l \<longrightarrow> sn_high_water_sequence s = ls_high_water l + 1)"
proof (cases "find_lease db a")
  case None
  with assms(2,3) show ?thesis
    by (auto simp: closing_snapshot_def blank_closed_def advance_sequence_def)
next
  case (Some l)
  from leases_ok_lockstep [OF assms(1) Some] find_leaseD [OF Some]
  have "sn_attempt_id (ls_snapshot l) = a" "sn_high_water_sequence (ls_snapshot l) = ls_high_water l"
    by (simp_all add: lockstep_def)
  with Some assms(3) show ?thesis
    by (auto simp: closing_snapshot_def close_snapshot_def advance_sequence_def split: if_splits)
qed

lemma leases_ok_closeLease:
  assumes ok: "leases_ok db"
  shows "leases_ok (snd (closeLease now a g why db))"
proof -
  obtain r db' where eq: "closeLease now a g why db = (r, db')" by (cases "closeLease now a g why db")
  from eq show ?thesis
  proof (cases rule: closeLease_cases)
    case 1
    with eq ok show ?thesis by simp
  next
    case (2 at s)
    note k = closing_snapshot_key [OF ok 2(3,5)]
    have "leases_ok db'"
    proof (rule leases_ok_record [OF ok, of s])
      show "ls_high_water l \<le> sn_high_water_sequence s" if "find_lease db (sn_attempt_id s) = Some l" for l
        using that k by simp
      show "db_leases db' = db_leases (replace_lease s db)" by (simp add: 2(6))
      show "set (db_progress db') \<subseteq> insert (closing_event a g now why s) (set (db_progress db))"
        unfolding 2(6) lease_changed_tables
        using set_insert_event [of _ "replace_lease s db"] by (auto simp: replace_lease_def)
    qed (use k in \<open>simp_all add: closing_event_def\<close>)
    with eq show ?thesis by simp
  qed
qed


text \<open>The three writes that compare versions, unfolded on a store with unique keys.\<close>

lemma updateEvaluation_eq:
  assumes keys: "lease_keys db" and row: "find_lease db a = Some l"
  shows "updateEvaluation now a phase expected nextAt db =
    (if (case expected of None \<Rightarrow> False | Some v \<Rightarrow> ls_state_version l \<noteq> v) \<or>
        ev_phase (sn_evaluation (ls_snapshot l)) = Cancel_requested \<and> phase \<noteq> Cancel_requested
     then (False, db)
     else (True, let s = evaluated now phase nextAt (ls_state_version l) (ls_snapshot l)
       in lease_changed (sn_card_id s) (db\<lparr> db_leases := sql_update (\<lambda>r. ls_attempt_id r = a)
         (\<lambda>r. r\<lparr> ls_snapshot := s, ls_state_version := ls_state_version r + 1,
              ls_next_evaluation_at := sn_next_evaluation_at s \<rparr>) (db_leases db) \<rparr>)))"
  by (simp add: updateEvaluation_def row update_lease_eq [OF keys row] Let_def)

definition cancelled_attempts :: "string \<Rightarrow> int \<Rightarrow> lease_reason \<Rightarrow> swarm_db \<Rightarrow> swarm_db" where
  "cancelled_attempts a g why db = db\<lparr> db_attempts := sql_update (cancel_target a g)
     (\<lambda>r. r\<lparr> at_lifecycle := L_cancel_requested, at_cancel_reason := Some (''lease:'' @ reason_name why) \<rparr>) (db_attempts db) \<rparr>"

lemma recordCancelIntent_eq:
  assumes keys: "lease_keys db" and row: "find_lease db a = Some l"
  shows "recordCancelIntent now a why g expected db =
    (if ls_state_version l \<noteq> expected \<or> sql_changes (cancel_target a g) (db_attempts db) = 0 then (False, db)
     else (True, (cancelled_attempts a g why db)\<lparr> db_leases := sql_update (\<lambda>r. ls_attempt_id r = a)
       (\<lambda>r. r\<lparr> ls_snapshot := cancel_requested now why (ls_state_version l) (ls_snapshot l),
              ls_state_version := ls_state_version r + 1, ls_next_evaluation_at := None \<rparr>) (db_leases db) \<rparr>))"
proof -
  have k: "lease_keys (cancelled_attempts a g why db)" "find_lease (cancelled_attempts a g why db) a = Some l"
    using keys row by (simp_all add: lease_keys_def find_lease_def cancelled_attempts_def)
  have u: "update_attempts (cancel_target a g)
      (\<lambda>r. r\<lparr> at_lifecycle := L_cancel_requested, at_cancel_reason := Some (''lease:'' @ reason_name why) \<rparr>) db =
      (sql_changes (cancel_target a g) (db_attempts db), cancelled_attempts a g why db)"
    by (simp add: update_attempts_def cancelled_attempts_def)
  have z: "sql_changes (cancel_target a g) (db_attempts db) = 0 \<Longrightarrow> cancelled_attempts a g why db = db"
    by (simp add: cancelled_attempts_def sql_update_id)
  have c: "db_leases (cancelled_attempts a g why db) = db_leases db" by (simp add: cancelled_attempts_def)
  show ?thesis
    unfolding recordCancelIntent_def row u by (auto simp: update_lease_eq [OF k] Let_def z c)
qed

lemma setUpcomingEvaluation_eq:
  assumes keys: "lease_keys db" and row: "find_lease db a = Some l"
  shows "setUpcomingEvaluation now a nextAt db =
    (if sn_closed_at (ls_snapshot l) \<noteq> None \<or> ev_phase (sn_evaluation (ls_snapshot l)) = Cancel_requested then db
     else db\<lparr> db_leases := sql_update (\<lambda>r. ls_attempt_id r = a)
       (\<lambda>r. r\<lparr> ls_snapshot := (ls_snapshot l)\<lparr> sn_next_evaluation_at := Some nextAt, sn_updated_at := now \<rparr>,
              ls_next_evaluation_at := Some nextAt \<rparr>) (db_leases db) \<rparr>)"
  by (simp add: setUpcomingEvaluation_def row update_lease_eq [OF keys row])

lemma leases_ok_write:
  assumes "leases_ok db" "find_lease db a = Some l" "lockstep (f l)"
    and "\<And>r. ls_attempt_id (f r) = ls_attempt_id r" "\<And>r. ls_high_water (f r) = ls_high_water r"
  shows "leases_ok (db\<lparr> db_leases := sql_update (\<lambda>r. ls_attempt_id r = a) f (db_leases db) \<rparr>)"
  by (rule leases_ok_update [OF assms(1,2) assms(4,5) assms(3)]) simp_all

lemma leases_ok_cong:
  "db_leases db' = db_leases db \<Longrightarrow> db_progress db' = db_progress db \<Longrightarrow> leases_ok db' = leases_ok db"
  by (simp add: leases_ok_def lease_keys_def events_below_def find_lease_def)

lemma leases_ok_frames [simp]:
  "leases_ok (lease_changed c db) = leases_ok db"
  "leases_ok (cancelled_attempts a g why db) = leases_ok db"
  by (rule leases_ok_cong; simp add: cancelled_attempts_def)+

lemma leases_ok_cas:
  assumes ok: "leases_ok db"
  shows "leases_ok (snd (updateEvaluation now a phase expected nextAt db))"
    and "leases_ok (snd (recordCancelIntent now a why g v db))"
    and "leases_ok (setUpcomingEvaluation now a t db)"
proof -
  have keys: "lease_keys db" using ok by (simp add: leases_ok_def)
  have three: "leases_ok (snd (updateEvaluation now a phase expected nextAt db)) \<and>
    leases_ok (snd (recordCancelIntent now a why g v db)) \<and> leases_ok (setUpcomingEvaluation now a t db)"
  proof (cases "find_lease db a")
    case None
    with ok show ?thesis by (simp add: updateEvaluation_def recordCancelIntent_def setUpcomingEvaluation_def)
  next
    case (Some l)
    note lock = leases_ok_lockstep [OF ok Some]
    note locked = lock [unfolded lockstep_def]
    have c: "find_lease (cancelled_attempts a g why db) a = Some l" "db_leases (cancelled_attempts a g why db) = db_leases db"
      using Some by (simp_all add: find_lease_def cancelled_attempts_def)
    have "leases_ok ((cancelled_attempts a g why db)\<lparr> db_leases := sql_update (\<lambda>r. ls_attempt_id r = a)
       (\<lambda>r. r\<lparr> ls_snapshot := cancel_requested now why (ls_state_version l) (ls_snapshot l),
              ls_state_version := ls_state_version r + 1, ls_next_evaluation_at := None \<rparr>) (db_leases db) \<rparr>)"
      unfolding c(2) [symmetric]
      by (rule leases_ok_write [OF _ c(1)]) (simp_all add: ok lockstep_def cancel_requested_def locked)
    moreover have "leases_ok (setUpcomingEvaluation now a t db)"
      unfolding setUpcomingEvaluation_eq [OF keys Some]
      by (auto simp: ok lockstep_def locked intro!: leases_ok_write [OF ok Some])
    moreover have "leases_ok (snd (updateEvaluation now a phase expected nextAt db))"
      unfolding updateEvaluation_eq [OF keys Some] Let_def
      by (auto simp: ok lockstep_def locked evaluated_def intro!: leases_ok_write [OF ok Some])
    ultimately show ?thesis
      unfolding recordCancelIntent_eq [OF keys Some] by (auto simp: ok)
  qed
  then show "leases_ok (snd (updateEvaluation now a phase expected nextAt db))"
    "leases_ok (snd (recordCancelIntent now a why g v db))" "leases_ok (setUpcomingEvaluation now a t db)" by auto
qed

section \<open>The lease table as a state machine\<close>

text \<open>
  Every operation of the store is a step, and so is any change elsewhere in the database (claims,
  settlements, board moves) that leaves the two lease tables alone.
\<close>

inductive lease_step :: "(string \<Rightarrow> string) \<Rightarrow> (string \<Rightarrow> string) \<Rightarrow> swarm_db \<Rightarrow> swarm_db \<Rightarrow> bool"
  for redact sha where
  append: "lease_step redact sha db (snd (appendFact redact sha now f policy resolver db))"
| close: "lease_step redact sha db (snd (closeLease now a g why db))"
| evaluate: "lease_step redact sha db (snd (updateEvaluation now a phase expected nextAt db))"
| cancel: "lease_step redact sha db (snd (recordCancelIntent now a why g v db))"
| upcoming: "lease_step redact sha db (setUpcomingEvaluation now a t db)"
| elsewhere: "db_leases db' = db_leases db \<Longrightarrow> db_progress db' = db_progress db \<Longrightarrow> lease_step redact sha db db'"

lemma leases_ok_steps:
  assumes "(lease_step redact sha)\<^sup>*\<^sup>* db db'" and "leases_ok db"
  shows "leases_ok db'"
  using assms
proof induction
  case (step x y)
  have ok: "leases_ok x" by (rule step(3) [OF step(4)])
  from step(2) show ?case
  proof cases
    case elsewhere
    with ok leases_ok_cong [of y x] show ?thesis by blast
  qed (use ok in \<open>simp_all add: leases_ok_appendFact leases_ok_closeLease leases_ok_cas\<close>)
qed

text \<open>
  C9: in every reachable state the lease columns and the snapshot JSON agree (version, next
  evaluation, closing, high water), attempts are a key of the table, and no progress event is
  ahead of its lease's high-water sequence.
\<close>

theorem leases_ok_invariant:
  assumes "(lease_step redact sha)\<^sup>*\<^sup>* db db'" and "leases_ok db"
  shows "leases_ok db'"
  by (rule leases_ok_steps [OF assms])

section \<open>Closed leases\<close>

definition closed_lease :: "swarm_db \<Rightarrow> string \<Rightarrow> bool" where
  "closed_lease db a \<longleftrightarrow> (\<exists>l. find_lease db a = Some l \<and> ls_closed_at l \<noteq> None)"

lemma closed_rejects:
  assumes "leases_ok db" and "closed_lease db (f_attempt_id f)"
  shows "fst (appendFact redact sha now f policy resolver db) \<noteq> Append_accepted s"
proof
  assume "fst (appendFact redact sha now f policy resolver db) = Append_accepted s"
  then obtain db' where "appendFact redact sha now f policy resolver db = (Append_accepted s, db')"
    by (metis prod.collapse)
  then obtain sf a where "next_snapshot sha policy now resolver sf a (find_lease db (f_attempt_id f)) = Some s"
    by (rule appendFact_accepted)
  moreover from assms obtain l where "find_lease db (f_attempt_id f) = Some l" "sn_closed_at (ls_snapshot l) \<noteq> None"
    using leases_ok_lockstep [OF assms(1)] by (auto simp: closed_lease_def lockstep_def)
  ultimately show False by (simp add: next_snapshot_def)
qed

lemma find_lease_cancelled:
  assumes "\<And>r. ls_attempt_id (h r) = ls_attempt_id r"
  shows "find_lease ((cancelled_attempts a g why db)\<lparr> db_leases := sql_update (\<lambda>r. ls_attempt_id r = a) h (db_leases db) \<rparr>) b =
    (if b = a then map_option h (find_lease db b) else find_lease db b)"
proof -
  have "find_lease ((cancelled_attempts a g why db)\<lparr> db_leases := sql_update (\<lambda>r. ls_attempt_id r = a) h (db_leases db) \<rparr>) b =
      find_lease (db\<lparr> db_leases := sql_update (\<lambda>r. ls_attempt_id r = a) h (db_leases db) \<rparr>) b"
    by (rule find_lease_cong) simp
  with find_lease_updated [where f = h, OF assms] show ?thesis by simp
qed

lemma find_lease_step:
  assumes ok: "leases_ok db" and step: "lease_step redact sha db db'" and cl: "closed_lease db a"
  shows "closed_lease db' a"
  using step
proof cases
  case (append now f policy resolver)
  show ?thesis
  proof (cases "\<exists>s. fst (appendFact redact sha now f policy resolver db) = Append_accepted s")
    case True
    then obtain s where eq: "appendFact redact sha now f policy resolver db = (Append_accepted s, db')"
      using append by (metis prod.collapse)
    with closed_rejects [OF ok] have other: "\<not> closed_lease db (f_attempt_id f)" by (metis fst_conv)
    from appendFact_accepted [OF eq] obtain sf at where
      sf: "sanitizeFact redact f = Some sf" and
      s: "next_snapshot sha policy now resolver sf at (find_lease db (f_attempt_id f)) = Some s" and
      db': "db' = record_fact sha now f sf s db" by metis
    from next_snapshot_key [OF ok _ s] sanitize_keys [OF sf] have "sn_attempt_id s = f_attempt_id f" by simp
    moreover have "db_leases db' = db_leases (replace_lease s db)" by (simp add: db' record_fact_def)
    ultimately have "find_lease db' a = find_lease db a"
      using other cl find_lease_cong [of db' "replace_lease s db" a] by (auto simp: find_lease_replace)
    with cl show ?thesis by (simp add: closed_lease_def)
  next
    case False
    then have "db' = db" unfolding append by (intro appendFact_other) blast
    with cl show ?thesis by simp
  qed
next
  case (close now b g why)
  then obtain r where eq: "closeLease now b g why db = (r, db')" by (cases "closeLease now b g why db") simp
  from eq show ?thesis
  proof (cases rule: closeLease_cases)
    case (2 at s)
    from closing_snapshot_key [OF ok 2(3,5)] have s: "sn_attempt_id s = b" "sn_closed_at s = Some now" by auto
    have "find_lease db' a = find_lease (replace_lease s db) a"
      by (rule find_lease_cong) (simp add: 2(6))
    with cl s show ?thesis by (auto simp: closed_lease_def find_lease_replace)
  qed (use cl in simp)
next
  case (evaluate now b phase expected nextAt)
  have keys: "lease_keys db" using ok by (simp add: leases_ok_def)
  show ?thesis
  proof (cases "find_lease db b")
    case (Some l)
    have "find_lease (lease_changed c d) a = find_lease d a" for c d by (rule find_lease_cong) simp
    with cl show ?thesis
      unfolding evaluate updateEvaluation_eq [OF keys Some] Let_def
      by (auto simp: closed_lease_def find_lease_updated)
  qed (use cl in \<open>simp add: evaluate updateEvaluation_def\<close>)
next
  case (cancel now b why g v)
  have keys: "lease_keys db" using ok by (simp add: leases_ok_def)
  show ?thesis
  proof (cases "find_lease db b")
    case (Some l)
    from cl show ?thesis
      unfolding cancel recordCancelIntent_eq [OF keys Some]
      by (auto simp: closed_lease_def find_lease_cancelled)
  qed (use cl in \<open>simp add: cancel recordCancelIntent_def\<close>)
next
  case (upcoming now b t)
  have keys: "lease_keys db" using ok by (simp add: leases_ok_def)
  show ?thesis
  proof (cases "find_lease db b")
    case (Some l)
    with cl show ?thesis
      unfolding upcoming setUpcomingEvaluation_eq [OF keys Some]
      by (auto simp: closed_lease_def find_lease_updated)
  qed (use cl in \<open>simp add: upcoming setUpcomingEvaluation_def\<close>)
next
  case elsewhere
  with cl show ?thesis by (simp add: closed_lease_def find_lease_def)
qed

lemma closed_lease_steps:
  assumes "(lease_step redact sha)\<^sup>*\<^sup>* db db'" and "leases_ok db" and "closed_lease db a"
  shows "leases_ok db' \<and> closed_lease db' a"
  using assms
proof induction
  case (step x y)
  then have "leases_ok y" using leases_ok_steps [of redact sha x y] by blast
  with step find_lease_step [of x redact sha y] show ?case by blast
qed simp

lemma closed_unscheduled:
  assumes ok: "leases_ok db" and cl: "closed_lease db a"
  shows "a \<notin> fst ` set (getEvaluationSchedule db)"
proof -
  from cl obtain l where l: "find_lease db a = Some l" "ls_closed_at l \<noteq> None"
    by (auto simp: closed_lease_def)
  have "r = l" if "r \<in> set (db_leases db)" "ls_attempt_id r = a" for r
    using ok find_leaseD [OF l(1)] that unfolding leases_ok_def lease_keys_def distinct_map inj_on_def by metis
  with l(2) show ?thesis by (auto simp: getEvaluationSchedule_def)
qed

text \<open>
  a closed lease stays closed through every later execution: from then on no fact of its
  attempt is accepted and no schedule lists it.
\<close>

theorem closed_lease_final:
  assumes "(lease_step redact sha)\<^sup>*\<^sup>* db db'" and "leases_ok db" and "closed_lease db (f_attempt_id f)"
  shows "closed_lease db' (f_attempt_id f) \<and>
    fst (appendFact redact sha now f policy resolver db') \<noteq> Append_accepted s \<and>
    f_attempt_id f \<notin> fst ` set (getEvaluationSchedule db')"
  using closed_lease_steps [OF assms] closed_rejects [of db' f] closed_unscheduled [of db' "f_attempt_id f"] by blast

section \<open>Writers that race on a version\<close>

datatype lease_writer =
  Write_phase int evaluation_phase "stamp option"
| Write_cancel int lease_reason int

fun lease_cas :: "string \<Rightarrow> int \<Rightarrow> lease_writer \<Rightarrow> swarm_db \<Rightarrow> bool \<times> swarm_db" where
  "lease_cas a v (Write_phase now phase nextAt) db = updateEvaluation now a phase (Some v) nextAt db"
| "lease_cas a v (Write_cancel now why g) db = recordCancelIntent now a why g v db"

definition lease_version :: "swarm_db \<Rightarrow> string \<Rightarrow> int option" where
  "lease_version db a = map_option ls_state_version (find_lease db a)"

lemma lease_cas_cases:
  assumes ok: "leases_ok db"
  shows "(\<not> fst (lease_cas a v w db) \<and> snd (lease_cas a v w db) = db) \<or>
    (fst (lease_cas a v w db) \<and> lease_version db a = Some v \<and>
      (\<forall>b. lease_version (snd (lease_cas a v w db)) b = (if b = a then Some (v + 1) else lease_version db b)))"
proof (cases "find_lease db a")
  case None
  then show ?thesis by (cases w) (simp_all add: updateEvaluation_def recordCancelIntent_def)
next
  case (Some l)
  have keys: "lease_keys db" using ok by (simp add: leases_ok_def)
  have frame: "find_lease (lease_changed c d) b = find_lease d b" for c d b by (rule find_lease_cong) simp
  show ?thesis
  proof (cases w)
    case (Write_phase now phase nextAt)
    with Some show ?thesis
      by (auto simp: updateEvaluation_eq [OF keys Some] Let_def lease_version_def frame find_lease_updated)
  next
    case (Write_cancel now why g)
    from Write_cancel Some show ?thesis
      by (auto simp: recordCancelIntent_eq [OF keys Some] lease_version_def find_lease_cancelled)
  qed
qed

interpretation lease: versioned_store leases_ok lease_version lease_cas
proof unfold_locales
  fix db k k' v w
  assume ok: "leases_ok db"
  note c = lease_cas_cases [OF ok, of k v w]
  show "leases_ok (snd (lease_cas k v w db))"
    by (cases w) (simp_all add: leases_ok_cas [OF ok])
  show "\<not> fst (lease_cas k v w db) \<Longrightarrow> snd (lease_cas k v w db) = db" using c by blast
  show "fst (lease_cas k v w db) \<Longrightarrow> lease_version db k = Some v \<and>
      lease_version (snd (lease_cas k v w db)) k = Some (v + 1)" using c by auto
  show "k' \<noteq> k \<Longrightarrow> lease_version (snd (lease_cas k v w db)) k' = lease_version db k'" using c by metis
qed

text \<open>
  C14: of any number of evaluations and cancellations that read the same version of a lease, at most
  one wins, whatever each of them writes and in whatever order they arrive.
\<close>

theorem one_lease_writer:
  "leases_ok db \<Longrightarrow> length (filter id (fst (write_all (lease_cas a v) ws db))) \<le> 1"
  by (rule lease.one_winner)

section \<open>Replayed facts\<close>

lemma insort_key_last:
  "f y \<le> f e \<Longrightarrow> (\<And>z. z \<in> set zs \<Longrightarrow> f z < f e) \<Longrightarrow> insort_key f y (zs @ [e]) = insort_key f y zs @ [e]"
  by (induction zs) (auto simp: less_imp_le)

lemma sort_key_snoc:
  assumes "\<And>y. y \<in> set ys \<Longrightarrow> f y < (f e :: int)"
  shows "sort_key f (ys @ [e]) = sort_key f ys @ [e]"
  using assms
proof (induction ys)
  case (Cons y ys)
  then have "sort_key f (ys @ [e]) = sort_key f ys @ [e]" by simp
  moreover have "insort_key f y (sort_key f ys @ [e]) = insort_key f y (sort_key f ys) @ [e]"
    using Cons.prems by (intro insort_key_last) (auto simp: less_imp_le)
  ultimately show ?case by simp
qed simp

text \<open>The newest event of an attempt survives the pruning.\<close>

lemma newest_survives:
  fixes db db' :: swarm_db and e :: progress_row
  assumes new: "db_progress db' = db_progress db @ [e]"
    and below: "\<And>x. x \<in> set (db_progress db) \<Longrightarrow> pe_attempt_id x = pe_attempt_id e \<Longrightarrow> pe_sequence x < pe_sequence e"
  shows "e \<in> set (db_progress (pruneEvents (pe_attempt_id e) (pe_claim_generation e) db'))"
proof -
  let ?o = "events_of db (pe_attempt_id e) (pe_claim_generation e)"
  have ev: "events_of db' (pe_attempt_id e) (pe_claim_generation e) = ?o @ [e]"
    by (simp add: events_of_def new)
  have lt: "pe_sequence y < pe_sequence e" if "y \<in> set ?o" for y
    using that below by (auto simp: events_of_def)
  have "e \<notin> set ?o" using lt by blast
  moreover have sk: "sort_key pe_sequence (?o @ [e]) = sort_key pe_sequence ?o @ [e]"
    by (rule sort_key_snoc) (rule lt)
  ultimately have "e \<notin> set (take (length (?o @ [e]) - MAX_EVENTS_PER_ATTEMPT) (sort_key pe_sequence (?o @ [e])))"
    unfolding sk by (auto simp: MAX_EVENTS_PER_ATTEMPT_def dest: in_set_takeD)
  then show ?thesis
    by (auto simp: pruneEvents_def ev new Let_def)
qed

lemma find_event_unique:
  assumes none: "find_event db a g i = None" and sub: "set (db_progress db') \<subseteq> insert e (set (db_progress db))"
    and e: "e \<in> set (db_progress db')" "pe_attempt_id e = a" "pe_claim_generation e = g" "pe_fact_id e = i"
  shows "find_event db' a g i = Some e"
proof -
  have only: "x = e" if "x \<in> set (db_progress db')" "pe_attempt_id x = a" "pe_claim_generation x = g" "pe_fact_id x = i" for x
    using that sub none unfolding find_event_def sql_first_None by blast
  have "find_event db' a g i \<noteq> None"
    unfolding find_event_def sql_first_None using e by blast
  then obtain x where x: "find_event db' a g i = Some x" by blast
  then have "x \<in> set (db_progress db') \<and> pe_attempt_id x = a \<and> pe_claim_generation x = g \<and> pe_fact_id x = i"
    unfolding find_event_def by (drule_tac sql_first_SomeD) simp
  with only have "x = e" by blast
  with x show ?thesis by simp
qed

text \<open>
  C13: delivering the same fact again is idempotent: once a fact was accepted, appending it again, at
  any later time and under any policy, reports the snapshot the first delivery produced and
  changes nothing, also when the event table was pruned in between.
\<close>

theorem appendFact_idempotent:
  assumes ok: "leases_ok db"
    and acc: "appendFact redact sha now f policy resolver db = (Append_accepted s, db')"
  shows "appendFact redact sha now' f policy' resolver' db' = (Append_idempotent s, db')"
proof -
  from appendFact_accepted [OF acc] obtain sf a where
    valid: "validateProgressEvent (fact_json f) = Valid" and sf: "sanitizeFact redact f = Some sf" and
    a: "find_attempt db (f_attempt_id f) = Some a" "fact_refused f (Some a) = None" and
    ev: "find_event db (f_attempt_id f) (f_claim_generation f) (f_fact_id f) = None" and
    s: "next_snapshot sha policy now resolver sf a (find_lease db (f_attempt_id f)) = Some s" and
    db': "db' = record_fact sha now f sf s db" by metis
  note keys = sanitize_keys [OF sf]
  from next_snapshot_key [OF ok _ s] keys have k: "sn_attempt_id s = f_attempt_id f"
    "\<And>l. find_lease db (f_attempt_id f) = Some l \<Longrightarrow> sn_high_water_sequence s = ls_high_water l + 1" by auto
  let ?e = "fact_event sha now f sf s"
  let ?r = "replace_lease s db"
  have e: "pe_attempt_id ?e = f_attempt_id f" "pe_claim_generation ?e = f_claim_generation f"
    "pe_fact_id ?e = f_fact_id f" "pe_sequence ?e = sn_high_water_sequence s"
    "pe_fingerprint ?e = computeSemanticFingerprint sha sf"
    by (simp_all add: fact_event_def keys)
  have prog: "db_progress ?r = db_progress db" by (simp add: replace_lease_def)
  have below: "pe_sequence x < pe_sequence ?e" if "x \<in> set (db_progress db)" "pe_attempt_id x = pe_attempt_id ?e" for x
  proof -
    from ok that obtain l where "find_lease db (f_attempt_id f) = Some l" "pe_sequence x \<le> ls_high_water l"
      unfolding leases_ok_def events_below_def e by metis
    with k show ?thesis by (simp add: e)
  qed
  have "\<not> (pe_attempt_id x = f_attempt_id f \<and> pe_claim_generation x = f_claim_generation f \<and>
      (pe_sequence x = pe_sequence ?e \<or> pe_fact_id x = f_fact_id f))" if "x \<in> set (db_progress db)" for x
    using that below [of x] ev unfolding find_event_def sql_first_None e by fastforce
  then have ins: "db_progress (insert_event ?e ?r) = db_progress db @ [?e]"
    by (auto simp: insert_event_def prog e list_ex_iff)
  have "?e \<in> set (db_progress db')"
    using newest_survives [of "insert_event ?e ?r" db ?e, OF ins below] by (simp add: db' record_fact_def e)
  moreover have "set (db_progress db') \<subseteq> insert ?e (set (db_progress db))"
    using set_pruneEvents [of "f_attempt_id f" "f_claim_generation f" "insert_event ?e ?r"] ins
    by (auto simp: db' record_fact_def)
  ultimately have found: "find_event db' (f_attempt_id f) (f_claim_generation f) (f_fact_id f) = Some ?e"
    using find_event_unique [OF ev] e by simp
  have "db_attempts db' = db_attempts db"
    by (simp add: db' record_fact_def pruneEvents_def insert_event_def replace_lease_def Let_def)
  with a have att: "find_attempt db' (f_attempt_id f) = Some a" by (simp add: find_attempt_def)
  have "find_lease db' (f_attempt_id f) = find_lease ?r (f_attempt_id f)"
    by (rule find_lease_cong) (simp add: db' record_fact_def)
  then have row: "find_lease db' (f_attempt_id f) = Some (lease_row_of s)" by (simp add: find_lease_replace k)
  show ?thesis
    by (simp add: appendFact_def valid sf att a(2) found row e)
qed

section \<open>Witnesses\<close>

definition sample_attempt :: "string \<Rightarrow> int \<Rightarrow> attempt_lifecycle \<Rightarrow> attempt" where
  "sample_attempt i ordinal l = \<lparr> at_id = i, at_card_id = 7, at_contract_id = ''c1'', at_ordinal = ordinal,
     at_executor_kind = Agent, at_executor_id = ''spin-local'', at_generation = 1, at_lifecycle = l,
     at_remote_task_id = None, at_status = ''pending'', at_claimed_at = None, at_started_at = 0,
     at_settled_at = None, at_hard_deadline_at = None, at_cancel_reason = None, at_source_attempt_id = None,
     at_retry_directive_id = None, at_earliest_claim_at = None, at_reserved_tokens = 0, at_input_tokens = None,
     at_output_tokens = None, at_charged_tokens = 0, at_usage_charged_at = None, at_resource_id = None,
     at_resource_generation = None, at_continuity = None, at_root_project_card_id = None,
     at_root_project_generation = None, at_scheduled_run_id = None \<rparr>"

definition running_db :: swarm_db where
  "running_db = empty_db\<lparr> db_attempts := [sample_attempt ''a1'' 1 L_running] \<rparr>"

definition leased_db :: swarm_db where
  "leased_db = running_db\<lparr> db_leases := [lease_row_of sample_snapshot] \<rparr>"

lemma running_leases_ok: "leases_ok running_db"
  by (simp add: leases_ok_def lease_keys_def events_below_def running_db_def empty_db_def)

lemma leased_leases_ok: "leases_ok leased_db"
  by (simp add: leases_ok_def lease_keys_def events_below_def leased_db_def running_db_def empty_db_def)

lemma sample_fact_valid: "validateProgressEvent (fact_json (sample_fact Alive no_payload)) = Valid"
  unfolding validate_fact_iff by code_simp

lemma sample_accepted:
  "\<exists>s db'. appendFact (\<lambda>s. s) (\<lambda>s. s) 1000 (sample_fact Alive no_payload) DEFAULT_LOCAL_POLICY None running_db =
     (Append_accepted s, db')"
  by (simp add: appendFact_def sample_fact_valid)
     (simp add: sample_fact_def no_payload_def sanitizeFact_def sanitize_payload_def upto_200_def natural_def
       max_safe_integer_def find_attempt_def running_db_def empty_db_def sample_attempt_def fact_refused_def
       terminal_lifecycle_def active_lifecycle_def find_event_def find_lease_def next_snapshot_def Let_def)

theorem appendFact_idempotent_witness:
  "\<exists>s db'. appendFact (\<lambda>s. s) (\<lambda>s. s) 9000 (sample_fact Alive no_payload) DEFAULT_PI_POLICY None db' =
     (Append_idempotent s, db')"
  using sample_accepted appendFact_idempotent [OF running_leases_ok] by blast

theorem leases_ok_invariant_witness:
  "leases_ok (snd (closeLease 2000 ''a1'' 1 ''x''
     (snd (appendFact (\<lambda>s. s) (\<lambda>s. s) 1000 (sample_fact Alive no_payload) DEFAULT_LOCAL_POLICY None running_db))))"
proof (rule leases_ok_invariant [of "\<lambda>s. s" "\<lambda>s. s", OF _ running_leases_ok])
  let ?db = "snd (appendFact (\<lambda>s. s) (\<lambda>s. s) 1000 (sample_fact Alive no_payload) DEFAULT_LOCAL_POLICY None running_db)"
  have "(lease_step (\<lambda>s. s) (\<lambda>s. s))\<^sup>*\<^sup>* running_db ?db"
    by (rule r_into_rtranclp) (rule lease_step.append)
  then show "(lease_step (\<lambda>s. s) (\<lambda>s. s))\<^sup>*\<^sup>* running_db (snd (closeLease 2000 ''a1'' 1 ''x'' ?db))"
    by (rule rtranclp.rtrancl_into_rtrancl) (rule lease_step.close)
qed

theorem closed_lease_final_witness:
  "fst (appendFact (\<lambda>s. s) (\<lambda>s. s) 9000 (sample_fact Alive no_payload) DEFAULT_LOCAL_POLICY None
      (snd (closeLease 2000 ''a1'' 1 ''x'' running_db))) \<noteq> Append_accepted sample_snapshot"
proof -
  let ?db = "snd (closeLease 2000 ''a1'' 1 ''x'' running_db)"
  have "closeLease 2000 ''a1'' 1 ''x'' running_db = (True, ?db)"
    by (simp add: closeLease_def find_attempt_def running_db_def empty_db_def sample_attempt_def
        find_lease_def closing_snapshot_def)
  then have "closed_lease ?db ''a1''"
  proof (cases rule: closeLease_cases)
    case (2 at s)
    have "find_lease ?db ''a1'' = find_lease (replace_lease s running_db) ''a1''"
      by (rule find_lease_cong, subst 2(6)) simp
    with closing_snapshot_key [OF running_leases_ok 2(3,5)] show ?thesis
      by (simp add: closed_lease_def find_lease_replace)
  qed simp
  moreover have "leases_ok ?db" by (rule leases_ok_closeLease [OF running_leases_ok])
  ultimately show ?thesis
    using closed_lease_final [OF rtranclp.rtrancl_refl, of ?db "sample_fact Alive no_payload" "\<lambda>s. s" "\<lambda>s. s"]
    by (simp add: sample_fact_def)
qed

theorem one_lease_writer_witness:
  "length (filter id (fst (write_all (lease_cas ''a1'' 1)
     [Write_phase 2000 Warning None, Write_cancel 2000 Hard_deadline 1, Write_phase 2000 Inspecting None] leased_db))) \<le> 1"
  by (rule one_lease_writer [OF leased_leases_ok])

end
