(* ===== verification/Attempts.thy ===== *)
theory Attempts
  imports Authority LeaseStore
begin

text \<open>
  \<open>src/src/components/worker-supervision-store.ts\<close>: the lifecycle of worker attempts, their claims
  (project authority, executor capacity, token budget, retry reservation), the binding of runtime
  resources, cancellation, deferral and the single terminal settlement. Every operation is one
  transaction. \<open>digest\<close> is the SHA-256 of an envelope's JSON text, \<open>redact\<close> as in the board, and
  \<open>joint\<close> the supervised successor hook (\<open>commitSupervisedOutcome\<close>) that the settlement calls last,
  inside a savepoint: \<open>None\<close> when it throws.
\<close>

section \<open>Reads\<close>

definition getLatestAttempt :: "swarm_db \<Rightarrow> int \<Rightarrow> attempt option" where
  "getLatestAttempt db c = sql_last_by at_ordinal (\<lambda>r. at_card_id r = c) (db_attempts db)"

definition isCardLatestAttempt :: "swarm_db \<Rightarrow> int \<Rightarrow> string \<Rightarrow> bool" where
  "isCardLatestAttempt db c a \<longleftrightarrow> map_option at_id (getLatestAttempt db c) = Some a"

definition isAttemptTerminal :: "attempt_lifecycle \<Rightarrow> bool" where
  "isAttemptTerminal l = terminal_lifecycle l"

definition hasLiveClaim :: "swarm_db \<Rightarrow> int \<Rightarrow> bool" where
  "hasLiveClaim db c = (case getLatestAttempt db c of
     None \<Rightarrow> False
   | Some a \<Rightarrow> at_lifecycle a \<noteq> L_pending \<and> \<not> isAttemptTerminal (at_lifecycle a))"

text \<open>The lifecycles that hold capacity and budget.\<close>

definition holds_claim :: "attempt_lifecycle \<Rightarrow> bool" where
  "holds_claim l \<longleftrightarrow> active_lifecycle l \<or> l = L_cancel_requested"

definition getActiveAttemptCountForExecutor :: "swarm_db \<Rightarrow> executor_kind \<Rightarrow> string \<Rightarrow> nat" where
  "getActiveAttemptCountForExecutor db k e = length (filter
     (\<lambda>r. at_executor_kind r = k \<and> at_executor_id r = e \<and> holds_claim (at_lifecycle r)) (db_attempts db))"

definition child_of :: "swarm_db \<Rightarrow> int \<Rightarrow> int \<Rightarrow> bool" where
  "child_of db p c = (case find_card db c of None \<Rightarrow> False | Some k \<Rightarrow> k_parent_id k = Some p)"

definition getActiveReservedTokensForProject :: "swarm_db \<Rightarrow> int \<Rightarrow> int" where
  "getActiveReservedTokensForProject db p = sum_list (map at_reserved_tokens (filter
     (\<lambda>r. child_of db p (at_card_id r) \<and> holds_claim (at_lifecycle r)) (db_attempts db)))"

definition find_contract :: "swarm_db \<Rightarrow> string \<Rightarrow> contract option" where
  "find_contract db c = sql_first (\<lambda>r. ct_id r = c) (db_contracts db)"

definition find_result :: "swarm_db \<Rightarrow> string \<Rightarrow> result_row option" where
  "find_result db a = sql_first (\<lambda>r. re_attempt_id r = a) (db_results db)"

definition nextOrdinal :: "swarm_db \<Rightarrow> int \<Rightarrow> int" where
  "nextOrdinal db c = (case getLatestAttempt db c of None \<Rightarrow> 1 | Some a \<Rightarrow> at_ordinal a + 1)"

section \<open>Authority of an attempt\<close>

datatype resolved_authority = Res_authority authority | Res_missing | Res_not_project

definition projectAuthorityForAttempt :: "swarm_db \<Rightarrow> attempt \<Rightarrow> resolved_authority" where
  "projectAuthorityForAttempt db a = (case (at_root_project_card_id a, at_root_project_generation a) of
     (Some c, Some g) \<Rightarrow> Res_authority \<lparr> pa_card_id = c, pa_generation = g, pa_scheduled_run_id = at_scheduled_run_id a \<rparr>
   | _ \<Rightarrow> (if cardIsSupervisedProjectChild db (at_card_id a) then Res_missing else Res_not_project))"

definition authorizeAttemptForProjectWork :: "swarm_db \<Rightarrow> attempt \<Rightarrow> authority_rejection option" where
  "authorizeAttemptForProjectWork db a = (case projectAuthorityForAttempt db a of
     Res_not_project \<Rightarrow> None
   | Res_missing \<Rightarrow> Some Missing_authority
   | Res_authority au \<Rightarrow> authorizeActiveProjectWork db (Some au))"

section \<open>Lifecycle transitions\<close>

text \<open>\<open>extra\<close> is the assignment of the co-written columns.\<close>

definition lifecycleTransition ::
    "string \<Rightarrow> attempt_lifecycle list \<Rightarrow> attempt_lifecycle \<Rightarrow> (attempt \<Rightarrow> attempt) \<Rightarrow> swarm_db \<Rightarrow> bool \<times> swarm_db" where
  "lifecycleTransition a fs l extra db =
     (let (n, db1) = update_attempts (\<lambda>r. at_id r = a \<and> at_lifecycle r \<in> set fs)
            (\<lambda>r. extra (r\<lparr> at_lifecycle := l \<rparr>)) db
      in (n > 0, db1))"

definition authorizedLifecycleTransition ::
    "string \<Rightarrow> attempt_lifecycle list \<Rightarrow> attempt_lifecycle \<Rightarrow> (attempt \<Rightarrow> attempt) \<Rightarrow> swarm_db \<Rightarrow> bool \<times> swarm_db" where
  "authorizedLifecycleTransition a fs l extra db = (case find_attempt db a of
     None \<Rightarrow> (False, db)
   | Some r \<Rightarrow>
       (if at_lifecycle r \<notin> set fs then (False, db)
        else if authorizeAttemptForProjectWork db r \<noteq> None then (False, db)
        else lifecycleTransition a fs l extra db))"

definition markAttemptStartObservable :: "string \<Rightarrow> swarm_db \<Rightarrow> bool \<times> swarm_db" where
  "markAttemptStartObservable a = authorizedLifecycleTransition a [L_claimed] L_starting (\<lambda>r. r)"

definition markAttemptRunning :: "string \<Rightarrow> swarm_db \<Rightarrow> bool \<times> swarm_db" where
  "markAttemptRunning a = authorizedLifecycleTransition a [L_claimed, L_starting] L_running (\<lambda>r. r)"

definition requestCancel :: "string \<Rightarrow> string \<Rightarrow> swarm_db \<Rightarrow> bool \<times> swarm_db" where
  "requestCancel a why = lifecycleTransition a [L_claimed, L_starting, L_running] L_cancel_requested
     (\<lambda>r. r\<lparr> at_cancel_reason := Some why \<rparr>)"

definition cancelPendingAttempt :: "int \<Rightarrow> string \<Rightarrow> string \<Rightarrow> swarm_db \<Rightarrow> bool \<times> swarm_db" where
  "cancelPendingAttempt now a why = lifecycleTransition a [L_pending] L_cancelled
     (\<lambda>r. r\<lparr> at_status := ''cancelled'', at_cancel_reason := Some why, at_settled_at := Some now \<rparr>)"

definition CLAIM_HOLDERS :: "attempt_lifecycle list" where
  "CLAIM_HOLDERS = [L_claimed, L_starting, L_running, L_cancel_requested]"

definition completeAttempt :: "int \<Rightarrow> string \<Rightarrow> swarm_db \<Rightarrow> bool \<times> swarm_db" where
  "completeAttempt now a = authorizedLifecycleTransition a CLAIM_HOLDERS L_completed
     (\<lambda>r. r\<lparr> at_status := ''settled'', at_settled_at := Some now \<rparr>)"

definition failAttempt :: "int \<Rightarrow> string \<Rightarrow> swarm_db \<Rightarrow> bool \<times> swarm_db" where
  "failAttempt now a = lifecycleTransition a CLAIM_HOLDERS L_failed
     (\<lambda>r. r\<lparr> at_status := ''failed'', at_settled_at := Some now \<rparr>)"

definition cancelAttempt :: "int \<Rightarrow> string \<Rightarrow> swarm_db \<Rightarrow> bool \<times> swarm_db" where
  "cancelAttempt now a = lifecycleTransition a CLAIM_HOLDERS L_cancelled
     (\<lambda>r. r\<lparr> at_status := ''cancelled'', at_settled_at := Some now \<rparr>)"

definition timeoutAttempt :: "int \<Rightarrow> string \<Rightarrow> swarm_db \<Rightarrow> bool \<times> swarm_db" where
  "timeoutAttempt now a = lifecycleTransition a CLAIM_HOLDERS L_timed_out
     (\<lambda>r. r\<lparr> at_status := ''timed_out'', at_settled_at := Some now \<rparr>)"

section \<open>Inserting\<close>

record new_attempt =
  na_id :: string
  na_card_id :: int
  na_contract_id :: string
  na_ordinal :: int
  na_executor_kind :: executor_kind
  na_executor_id :: string
  na_remote_task_id :: "int option"
  na_status :: string
  na_started_at :: int
  na_root_project_card_id :: "int option"
  na_root_project_generation :: "int option"
  na_scheduled_run_id :: "string option"

definition lifecycle_of_status :: "string \<Rightarrow> attempt_lifecycle" where
  "lifecycle_of_status s =
     (if s = ''running'' then L_running
      else if s = ''settled'' \<or> s = ''completed'' then L_completed
      else if s = ''failed'' then L_failed
      else if s = ''cancelled'' then L_cancelled
      else L_pending)"

text \<open>\<open>None\<close> is the constraint violation of the primary key or of (card, ordinal).\<close>

definition insertAttempt :: "new_attempt \<Rightarrow> swarm_db \<Rightarrow> swarm_db option" where
  "insertAttempt n db =
     (if list_ex (\<lambda>r. at_id r = na_id n \<or> at_card_id r = na_card_id n \<and> at_ordinal r = na_ordinal n) (db_attempts db)
      then None
      else Some (db\<lparr> db_attempts := db_attempts db @ [\<lparr> at_id = na_id n, at_card_id = na_card_id n,
        at_contract_id = na_contract_id n, at_ordinal = na_ordinal n, at_executor_kind = na_executor_kind n,
        at_executor_id = na_executor_id n, at_generation = 1, at_lifecycle = lifecycle_of_status (na_status n),
        at_remote_task_id = na_remote_task_id n, at_status = na_status n, at_claimed_at = None,
        at_started_at = na_started_at n, at_settled_at = None, at_hard_deadline_at = None, at_cancel_reason = None,
        at_source_attempt_id = None, at_retry_directive_id = None, at_earliest_claim_at = None,
        at_reserved_tokens = 0, at_input_tokens = None, at_output_tokens = None, at_charged_tokens = 0,
        at_usage_charged_at = None, at_resource_id = None, at_resource_generation = None, at_continuity = None,
        at_root_project_card_id = na_root_project_card_id n,
        at_root_project_generation = na_root_project_generation n,
        at_scheduled_run_id = na_scheduled_run_id n \<rparr>] \<rparr>))"

section \<open>Claims\<close>

record execution_claim =
  cl_attempt_id :: string
  cl_card_id :: int
  cl_contract_id :: string
  cl_executor_kind :: executor_kind
  cl_executor_id :: string
  cl_generation :: int
  cl_claimed_at :: int
  cl_hard_deadline_at :: "int option"

definition claimAttempt ::
    "int \<Rightarrow> int \<Rightarrow> string \<Rightarrow> executor_kind \<Rightarrow> string \<Rightarrow> int \<Rightarrow> int option \<Rightarrow> swarm_db \<Rightarrow>
       execution_claim option \<times> swarm_db" where
  "claimAttempt now c contractId k e g hard db = (case getLatestAttempt db c of
     None \<Rightarrow> (None, db)
   | Some latest \<Rightarrow>
       (if at_lifecycle latest \<noteq> L_pending then (None, db)
        else if at_executor_kind latest \<noteq> k \<or> at_executor_id latest \<noteq> e then (None, db)
        else if authorizeAttemptForProjectWork db latest \<noteq> None then (None, db)
        else
          (let (updated, db1) = lifecycleTransition (at_id latest) [L_pending] L_claimed
                 (\<lambda>r. r\<lparr> at_generation := g, at_claimed_at := Some now, at_hard_deadline_at := hard \<rparr>) db
           in (if updated then Some \<lparr> cl_attempt_id = at_id latest, cl_card_id = c, cl_contract_id = contractId,
                 cl_executor_kind = k, cl_executor_id = e, cl_generation = g, cl_claimed_at = now,
                 cl_hard_deadline_at = hard \<rparr> else None, db1))))"

definition update_reservations :: "(reservation \<Rightarrow> bool) \<Rightarrow> (reservation \<Rightarrow> reservation) \<Rightarrow> swarm_db \<Rightarrow> nat \<times> swarm_db" where
  "update_reservations p f db =
     (sql_changes p (db_reservations db), db\<lparr> db_reservations := sql_update p f (db_reservations db) \<rparr>)"

definition claim_columns :: "int \<Rightarrow> int \<Rightarrow> int option \<Rightarrow> attempt \<Rightarrow> attempt" where
  "claim_columns now g hard r = r\<lparr> at_lifecycle := L_claimed, at_claimed_at := Some now,
     at_generation := g, at_hard_deadline_at := hard \<rparr>"

text \<open>A retry reservation that is not active aborts the transaction; the caller sees no claim.\<close>

definition claimRetryAttempt ::
    "int \<Rightarrow> int \<Rightarrow> string \<Rightarrow> string \<Rightarrow> executor_kind \<Rightarrow> string \<Rightarrow> int \<Rightarrow> string \<Rightarrow> int option \<Rightarrow> swarm_db \<Rightarrow>
       execution_claim option \<times> swarm_db" where
  "claimRetryAttempt now c a contractId k e g src hard db = (case find_attempt db a of
     None \<Rightarrow> (None, db)
   | Some r \<Rightarrow>
       (if at_card_id r \<noteq> c \<or> \<not> isCardLatestAttempt db c a \<or> at_lifecycle r \<noteq> L_pending \<or>
           at_contract_id r \<noteq> contractId \<or> at_executor_kind r \<noteq> k \<or> at_executor_id r \<noteq> e \<or>
           at_source_attempt_id r \<noteq> Some src then (None, db)
        else if authorizeAttemptForProjectWork db r \<noteq> None then (None, db)
        else
          (let (n, db1) = update_attempts (\<lambda>r. at_id r = a \<and> at_lifecycle r = L_pending) (claim_columns now g hard) db
           in if n \<noteq> 1 then (None, db1)
              else
                (let (m, db2) = update_reservations
                       (\<lambda>s. rs_source_attempt_id s = src \<and> rs_target_attempt_id s = a \<and> rs_status s = Rs_active)
                       (\<lambda>s. s\<lparr> rs_status := Rs_claimed, rs_updated_at := now \<rparr>) db1
                 in if m \<noteq> 1 then (None, db)
                    else (Some \<lparr> cl_attempt_id = a, cl_card_id = c, cl_contract_id = contractId,
                      cl_executor_kind = k, cl_executor_id = e, cl_generation = g, cl_claimed_at = now,
                      cl_hard_deadline_at = hard \<rparr>, db2)))))"

text \<open>\<open>lm_reserved_tokens\<close> is \<open>None\<close> for \<open>NaN\<close>, which the \<open>NOT NULL\<close> column refuses.\<close>

record claim_input =
  lm_card_id :: int
  lm_attempt_id :: string
  lm_contract_id :: string
  lm_executor_kind :: executor_kind
  lm_executor_id :: string
  lm_generation :: int
  lm_executor_max :: int
  lm_hard_deadline_at :: "int option"
  lm_reserved_tokens :: "int option"
  lm_project_id :: int
  lm_source_attempt_id :: "string option"

datatype claim_refusal =
  Stale_claim | Executor_mismatch | Card_not_queued | Project_mismatch | Project_not_running
| Project_supervision_not_dispatchable | Capacity_full | Deadline_expired | Budget_reservation_missing
| Budget_exhausted | Budget_wait | Retry_reservation_missing | Claim_failed | Internal_error

text \<open>The admission checks, in order; \<open>None\<close> admits the claim.\<close>

definition budget_refusal :: "swarm_db \<Rightarrow> claim_input \<Rightarrow> card \<Rightarrow> claim_refusal option" where
  "budget_refusal db i project = (case k_max_tokens project of
     None \<Rightarrow> None
   | Some cap \<Rightarrow>
       (case lm_reserved_tokens i of
          None \<Rightarrow> Some Budget_reservation_missing
        | Some want \<Rightarrow>
            (if want \<le> 0 then Some Budget_reservation_missing
             else let committed = orelse (k_tokens_used project) 0
                  in if committed \<ge> cap then Some Budget_exhausted
                     else if committed + getActiveReservedTokensForProject db (lm_project_id i) + want > cap
                       then Some Budget_wait
                     else None)))"

definition active_reservation :: "swarm_db \<Rightarrow> string \<Rightarrow> string \<Rightarrow> bool" where
  "active_reservation db src a = list_ex
     (\<lambda>s. rs_source_attempt_id s = src \<and> rs_target_attempt_id s = a \<and> rs_status s = Rs_active) (db_reservations db)"

definition claim_refused :: "int \<Rightarrow> claim_input \<Rightarrow> swarm_db \<Rightarrow> claim_refusal option" where
  "claim_refused now i db = (case find_attempt db (lm_attempt_id i) of
     None \<Rightarrow> Some Stale_claim
   | Some a \<Rightarrow>
       (if at_card_id a \<noteq> lm_card_id i \<or> at_lifecycle a \<noteq> L_pending \<or>
           \<not> isCardLatestAttempt db (lm_card_id i) (lm_attempt_id i) \<or>
           authorizeAttemptForProjectWork db a \<noteq> None then Some Stale_claim
        else if at_executor_kind a \<noteq> lm_executor_kind i \<or> at_executor_id a \<noteq> lm_executor_id i then Some Executor_mismatch
        else case find_card db (lm_card_id i) of
          None \<Rightarrow> Some Card_not_queued
        | Some c \<Rightarrow>
            (if k_status c \<noteq> Queued then Some Card_not_queued
             else if k_parent_id c \<noteq> Some (lm_project_id i) then Some Project_mismatch
             else case find_card db (lm_project_id i) of
               None \<Rightarrow> Some Project_not_running
             | Some project \<Rightarrow>
                 (if k_status project \<noteq> Running then Some Project_not_running
                  else if (case find_supervision db (lm_project_id i) of None \<Rightarrow> False
                           | Some sv \<Rightarrow> ps_state sv \<noteq> Executing \<and> ps_state sv \<noteq> Repairing)
                    then Some Project_supervision_not_dispatchable
                  else if int (getActiveAttemptCountForExecutor db (lm_executor_kind i) (lm_executor_id i)) \<ge> lm_executor_max i
                    then Some Capacity_full
                  else if (case lm_hard_deadline_at i of None \<Rightarrow> False | Some d \<Rightarrow> d \<le> now) then Some Deadline_expired
                  else case budget_refusal db i project of
                    Some r \<Rightarrow> Some r
                  | None \<Rightarrow>
                      (if truthy (lm_source_attempt_id i) \<and>
                          \<not> active_reservation db (orelse (lm_source_attempt_id i) []) (lm_attempt_id i)
                       then Some Retry_reservation_missing else None)))))"

definition claimAttemptWithinLimits ::
    "int \<Rightarrow> claim_input \<Rightarrow> swarm_db \<Rightarrow> (claim_refusal + execution_claim) \<times> swarm_db" where
  "claimAttemptWithinLimits now i db = (case claim_refused now i db of
     Some why \<Rightarrow> (Inl why, db)
   | None \<Rightarrow>
       (let (n, db1) = update_attempts (\<lambda>r. at_id r = lm_attempt_id i \<and> at_lifecycle r = L_pending)
              (\<lambda>r. (claim_columns now (lm_generation i) (lm_hard_deadline_at i) r)
                 \<lparr> at_reserved_tokens := orelse (lm_reserved_tokens i) 0 \<rparr>) db
        in if lm_reserved_tokens i = None then (Inl Internal_error, db)
           else if n \<noteq> 1 then (Inl Claim_failed, db1)
           else
             (let db2 = (if truthy (lm_source_attempt_id i) then snd (update_reservations
                    (\<lambda>s. rs_source_attempt_id s = orelse (lm_source_attempt_id i) [] \<and>
                       rs_target_attempt_id s = lm_attempt_id i \<and> rs_status s = Rs_active)
                    (\<lambda>s. s\<lparr> rs_status := Rs_claimed, rs_updated_at := now \<rparr>) db1) else db1)
              in (Inr \<lparr> cl_attempt_id = lm_attempt_id i, cl_card_id = lm_card_id i, cl_contract_id = lm_contract_id i,
                   cl_executor_kind = lm_executor_kind i, cl_executor_id = lm_executor_id i,
                   cl_generation = lm_generation i, cl_claimed_at = now,
                   cl_hard_deadline_at = lm_hard_deadline_at i \<rparr>, db2))))"

section \<open>Runtime resources\<close>

record resource_binding =
  rb_attempt_id :: string
  rb_expected_generation :: int
  rb_executor_kind :: executor_kind
  rb_resource_id :: string
  rb_resource_generation :: int
  rb_continuity :: string

datatype bind_result = Bound | Bind_idempotent | Bind_stale | Bind_conflict

text \<open>
  The unique index on (kind, resource id, resource generation) makes a bind of a resource that
  another attempt owns throw; the transaction rolls back: \<open>None\<close>.
\<close>

definition bindExecutorResource :: "resource_binding \<Rightarrow> swarm_db \<Rightarrow> bind_result option \<times> swarm_db" where
  "bindExecutorResource b db = (case find_attempt db (rb_attempt_id b) of
     None \<Rightarrow> (Some Bind_stale, db)
   | Some a \<Rightarrow>
       (if at_generation a \<noteq> rb_expected_generation b then (Some Bind_stale, db)
        else if at_executor_kind a \<noteq> rb_executor_kind b then (Some Bind_conflict, db)
        else if at_lifecycle a \<noteq> L_claimed \<and> at_lifecycle a \<noteq> L_starting then (Some Bind_stale, db)
        else if at_resource_id a \<noteq> None \<and> at_resource_generation a \<noteq> None then
          (if at_resource_id a = Some (rb_resource_id b) \<and> at_resource_generation a = Some (rb_resource_generation b)
           then (Some Bind_idempotent, db) else (Some Bind_conflict, db))
        else if authorizeAttemptForProjectWork db a \<noteq> None then (Some Bind_stale, db)
        else
          (let hit = (\<lambda>r. at_id r = rb_attempt_id b \<and> at_generation r = rb_expected_generation b \<and>
                 (at_lifecycle r = L_claimed \<or> at_lifecycle r = L_starting) \<and> at_resource_id r = None);
               (n, db1) = update_attempts hit (\<lambda>r. r\<lparr> at_resource_id := Some (rb_resource_id b),
                 at_resource_generation := Some (rb_resource_generation b), at_continuity := Some (rb_continuity b) \<rparr>) db
           in if n > 0 \<and> list_ex (\<lambda>r. at_id r \<noteq> rb_attempt_id b \<and> at_executor_kind r = rb_executor_kind b \<and>
                   at_resource_id r = Some (rb_resource_id b) \<and>
                   at_resource_generation r = Some (rb_resource_generation b)) (db_attempts db)
              then (None, db)
              else (Some (if n = 1 then Bound else Bind_conflict), db1))))"

section \<open>Cancelling a child, deferring a claim\<close>

definition cancelProjectChild ::
    "(string \<Rightarrow> string) \<Rightarrow> int \<Rightarrow> int \<Rightarrow> authority \<Rightarrow> string \<Rightarrow> swarm_db \<Rightarrow> bool \<times> swarm_db" where
  "cancelProjectChild redact now c au why db = (case find_card db c of
     None \<Rightarrow> (False, db)
   | Some k \<Rightarrow>
       (if k_parent_id k \<noteq> Some (pa_card_id au) \<or> k_type k \<noteq> Some ''W'' then (False, db)
        else if k_status k \<noteq> Queued \<and> k_status k \<noteq> Running then (False, db)
        else if authorizeActiveProjectWork db (Some au) \<noteq> None then (False, db)
        else case getLatestAttempt db c of
          None \<Rightarrow> (False, db)
        | Some a \<Rightarrow>
            (if authorizeAttemptForProjectWork db a \<noteq> None then (False, db)
             else
               (let (ok, db1) =
                  (if at_lifecycle a = L_pending then cancelPendingAttempt now (at_id a) why db
                   else if active_lifecycle (at_lifecycle a) then requestCancel (at_id a) why db
                   else (at_lifecycle a = L_cancel_requested, db))
                in if \<not> ok then (False, db1)
                   else
                     (let (out, db2) = kanbanTransition redact now
                        ((move c [Queued, Running] Failed A_settle_failed (take 300 why))
                          \<lparr> tq_fields := [W_error (Some (take 1000 why)), W_completed_at (Some now)], tq_emit := False \<rparr>) db1
                      in (case out of Inr (Applied f) \<Rightarrow> True | Inr (Reasserted f) \<Rightarrow> True | _ \<Rightarrow> False, db2))))))"

datatype defer_reason = Df_capacity | Df_resource_busy

fun defer_reason_name :: "defer_reason \<Rightarrow> string" where
  "defer_reason_name Df_capacity = ''capacity''"
| "defer_reason_name Df_resource_busy = ''resource_busy''"

datatype defer_result = Deferred | Defer_stale | Defer_conflict

definition deferClaimAfterProvenNoStart ::
    "int \<Rightarrow> string \<Rightarrow> int \<Rightarrow> defer_reason \<Rightarrow> swarm_db \<Rightarrow> defer_result \<times> swarm_db" where
  "deferClaimAfterProvenNoStart now a g why db = (case find_attempt db a of
     None \<Rightarrow> (Defer_stale, db)
   | Some r \<Rightarrow>
       (if \<not> isCardLatestAttempt db (at_card_id r) a \<or> at_generation r \<noteq> g \<or> at_lifecycle r \<noteq> L_starting \<or>
           authorizeAttemptForProjectWork db r \<noteq> None then (Defer_stale, db)
        else
          (let (n, db1) = update_attempts (\<lambda>x. at_id x = a \<and> at_lifecycle x = L_starting)
                 (\<lambda>x. x\<lparr> at_lifecycle := L_pending, at_status := ''pending'', at_claimed_at := None,
                        at_hard_deadline_at := None, at_reserved_tokens := 0, at_earliest_claim_at := None \<rparr>) db
           in if n \<noteq> 1 then (Defer_conflict, db1)
              else
                (let db2 = snd (closeLease now a (at_generation r) (''deferred:'' @ defer_reason_name why) db1);
                     db3 = (if truthy (at_source_attempt_id r) then snd (update_reservations
                         (\<lambda>s. rs_source_attempt_id s = orelse (at_source_attempt_id r) [] \<and>
                            rs_target_attempt_id s = a \<and> rs_status s = Rs_claimed)
                         (\<lambda>s. s\<lparr> rs_status := Rs_active, rs_updated_at := sqliteNow now \<rparr>) db2) else db2)
                 in (Deferred, db3)))))"

section \<open>The fence of a cancelled run\<close>

text \<open>
  What \<open>cancelRun\<close> of \<open>orc-project/orc-workflow-store.ts\<close> does to attempts and reservations: every
  live attempt of the root is asked to cancel, a pending one included, and the active reservations
  of the root's attempts are released.
\<close>

definition cancelRun_fence :: "int \<Rightarrow> string \<Rightarrow> int \<Rightarrow> swarm_db \<Rightarrow> nat \<times> swarm_db" where
  "cancelRun_fence now run root db =
     (let (n, db1) = update_attempts
            (\<lambda>r. at_root_project_card_id r = Some root \<and> (at_lifecycle r = L_pending \<or> active_lifecycle (at_lifecycle r)))
            (\<lambda>r. r\<lparr> at_lifecycle := L_cancel_requested, at_cancel_reason := Some (''run-cancelled:'' @ run) \<rparr>) db
      in (n, snd (update_reservations (\<lambda>s. rs_status s = Rs_active \<and>
             list_ex (\<lambda>r. at_id r = rs_source_attempt_id s \<and> at_root_project_card_id r = Some root) (db_attempts db1))
           (\<lambda>s. s\<lparr> rs_status := Rs_released, rs_updated_at := sqliteNow now \<rparr>) db1)))"

section \<open>Terminal settlement\<close>

definition MAX_COMPLETION_GRACE_MS :: int where
  "MAX_COMPLETION_GRACE_MS = 5000"

definition FALLBACK_COMPLETION_GRACE_MS :: int where
  "FALLBACK_COMPLETION_GRACE_MS = 1000"

text \<open>
  Lateness is a whole number of milliseconds, so comparing it with \<open>duration * 0.01\<close> is comparing
  it with the quotient.
\<close>

definition completionGraceMs :: "swarm_db \<Rightarrow> attempt \<Rightarrow> int" where
  "completionGraceMs db a =
     (case find_contract db (at_contract_id a) of
        None \<Rightarrow> FALLBACK_COMPLETION_GRACE_MS
      | Some ct \<Rightarrow>
          (case orelse (ct_json ct) JNull of
             JObj ms \<Rightarrow>
               (case jget (JObj ms) ''limits'' of
                  Some (JObj ls) \<Rightarrow>
                    (case jget (JObj ls) ''max_duration_ms'' of
                       Some (JNum (NInt d)) \<Rightarrow>
                         (if d \<le> 0 then FALLBACK_COMPLETION_GRACE_MS else min (d div 100) MAX_COMPLETION_GRACE_MS)
                     | _ \<Rightarrow> FALLBACK_COMPLETION_GRACE_MS)
                | _ \<Rightarrow> FALLBACK_COMPLETION_GRACE_MS)
           | _ \<Rightarrow> FALLBACK_COMPLETION_GRACE_MS))"

datatype desired_state = D_completed | D_failed | D_cancelled | D_timed_out

fun desired_lifecycle :: "desired_state \<Rightarrow> attempt_lifecycle" where
  "desired_lifecycle D_completed = L_completed"
| "desired_lifecycle D_failed = L_failed"
| "desired_lifecycle D_cancelled = L_cancelled"
| "desired_lifecycle D_timed_out = L_timed_out"

text \<open>A usage count is \<open>None\<close> when the number is not finite.\<close>

record usage =
  us_input :: "int option"
  us_output :: "int option"
  us_trustworthy :: bool

record settle_input =
  st_attempt_id :: string
  st_expected_generation :: int
  st_desired :: desired_state
  st_reason :: string
  st_usage :: "usage option"
  st_envelope :: "json option"
  st_input_requested :: bool

datatype settle_kind = Settled | Replayed | Settle_stale | Settle_conflict | Budget_violation

record settle_result =
  sr_kind :: settle_kind
  sr_lifecycle :: "attempt_lifecycle option"
  sr_charged :: "int option"

definition settle_result :: "settle_kind \<Rightarrow> attempt_lifecycle option \<Rightarrow> int option \<Rightarrow> settle_result" where
  "settle_result k l c = \<lparr> sr_kind = k, sr_lifecycle = l, sr_charged = c \<rparr>"

text \<open>A usable count pair: both finite and non-negative.\<close>

definition valid_usage :: "usage option \<Rightarrow> (int \<times> int \<times> bool) option" where
  "valid_usage u = (case u of
     None \<Rightarrow> None
   | Some v \<Rightarrow>
       (case (us_input v, us_output v) of
          (Some i, Some j) \<Rightarrow> (if 0 \<le> i \<and> 0 \<le> j then Some (i, j, us_trustworthy v) else None)
        | _ \<Rightarrow> None))"

text \<open>The charge and whether it exceeds the reservation.\<close>

definition charge_of :: "attempt \<Rightarrow> settle_input \<Rightarrow> int \<times> bool" where
  "charge_of a i =
     (if st_input_requested i then (0, False)
      else case valid_usage (st_usage i) of
        Some (inp, out, True) \<Rightarrow> (inp + out, at_reserved_tokens a > 0 \<and> inp + out > at_reserved_tokens a)
      | _ \<Rightarrow> (if at_reserved_tokens a > 0 then at_reserved_tokens a else 0, False))"

definition late_state :: "swarm_db \<Rightarrow> int \<Rightarrow> attempt \<Rightarrow> settle_input \<Rightarrow> attempt_lifecycle" where
  "late_state db now a i =
     (if st_desired i = D_completed then
        (case at_hard_deadline_at a of
           None \<Rightarrow> L_completed
         | Some d \<Rightarrow>
             (let lateness = now - d;
                  withinGrace = st_envelope i \<noteq> None \<and> lateness \<le> completionGraceMs db a
              in if lateness \<ge> 0 \<and> \<not> withinGrace then L_timed_out else L_completed))
      else desired_lifecycle (st_desired i))"

definition effective_state :: "swarm_db \<Rightarrow> int \<Rightarrow> attempt \<Rightarrow> settle_input \<Rightarrow> attempt_lifecycle" where
  "effective_state db now a i =
     (if snd (charge_of a i) \<and> late_state db now a i = L_completed then L_failed else late_state db now a i)"

text \<open>Charging: once, to the attempt, its card, and the parent when that is a project.\<close>

definition add_tokens :: "int \<Rightarrow> int \<Rightarrow> card \<Rightarrow> card" where
  "add_tokens now n r = r\<lparr> k_tokens_used := Some (orelse (k_tokens_used r) 0 + n), k_updated_at := sqliteNow now \<rparr>"

definition charge_attempt :: "int \<Rightarrow> attempt \<Rightarrow> settle_input \<Rightarrow> swarm_db \<Rightarrow> swarm_db" where
  "charge_attempt now a i db =
     (if at_usage_charged_at a \<noteq> None then db
      else
        (let n = fst (charge_of a i); u = valid_usage (st_usage i);
             db1 = snd (update_attempts (\<lambda>r. at_id r = at_id a \<and> at_usage_charged_at r = None)
               (\<lambda>r. r\<lparr> at_input_tokens := map_option fst u, at_output_tokens := map_option (\<lambda>t. fst (snd t)) u,
                      at_charged_tokens := n, at_usage_charged_at := Some now \<rparr>) db);
             parent = (case find_card db1 (at_card_id a) of None \<Rightarrow> None | Some k \<Rightarrow> k_parent_id k);
             db2 = update_cards (\<lambda>r. k_id r = at_card_id a) (add_tokens now n) db1
         in case parent of
              None \<Rightarrow> db2
            | Some p \<Rightarrow>
                (if p = 0 then db2
                 else update_cards (\<lambda>r. k_id r = p \<and> k_type r = Some ''O'') (add_tokens now n) db2)))"

definition settled_reason :: "settle_input \<Rightarrow> bool \<Rightarrow> attempt_lifecycle \<Rightarrow> string" where
  "settled_reason i violation effective =
     (if violation then ''token_budget_exceeded: '' @ st_reason i
      else if effective \<noteq> desired_lifecycle (st_desired i) then ''late_completion_timed_out: '' @ st_reason i
      else st_reason i)"

definition close_attempt :: "int \<Rightarrow> attempt \<Rightarrow> attempt_lifecycle \<Rightarrow> string \<Rightarrow> swarm_db \<Rightarrow> swarm_db" where
  "close_attempt now a l why db = snd (update_attempts (\<lambda>r. at_id r = at_id a \<and> at_lifecycle r = at_lifecycle a)
     (\<lambda>r. r\<lparr> at_lifecycle := l, at_status := (if l = L_completed then ''settled'' else lifecycle_name l),
            at_settled_at := Some now, at_cancel_reason := Some why \<rparr>) db)"

definition consume_reservation :: "int \<Rightarrow> string \<Rightarrow> bool \<Rightarrow> swarm_db \<Rightarrow> swarm_db" where
  "consume_reservation now a released db = snd (update_reservations
     (\<lambda>s. rs_target_attempt_id s = a \<and> (rs_status s = Rs_active \<or> rs_status s = Rs_claimed))
     (\<lambda>s. s\<lparr> rs_status := (if released then Rs_released else Rs_consumed), rs_updated_at := sqliteNow now \<rparr>) db)"

text \<open>
  The evidence-of-absence envelope. Instants in the stored JSON are kept as numbers.
\<close>

definition criterion_ids :: "json option \<Rightarrow> string list" where
  "criterion_ids ct = (case ct of
     Some (JObj ms) \<Rightarrow>
       (case jget (JObj ms) ''criteria'' of
          Some (JArr cs) \<Rightarrow> List.map_filter (\<lambda>cr. case cr of
              JObj fs \<Rightarrow> (case jget (JObj fs) ''id'' of Some (JStr i) \<Rightarrow> Some i | _ \<Rightarrow> None)
            | _ \<Rightarrow> None) cs
        | _ \<Rightarrow> [])
   | _ \<Rightarrow> [])"

definition buildAbsenceEnvelope :: "swarm_db \<Rightarrow> int \<Rightarrow> attempt \<Rightarrow> attempt_lifecycle \<Rightarrow> json" where
  "buildAbsenceEnvelope db now a l =
     (let ct = find_contract db (at_contract_id a) in JObj
       [(''schema_version'', JNum (NInt 1)),
        (''attempt'', JObj
          [(''id'', JStr (at_id a)), (''ordinal'', JNum (NInt (at_ordinal a))),
           (''contract_id'', JStr (at_contract_id a)),
           (''contract_digest'', JStr (case ct of None \<Rightarrow> [] | Some c \<Rightarrow> ct_digest c)),
           (''executor_kind'', JStr (executor_kind_name (at_executor_kind a))),
           (''executor_id'', JStr (at_executor_id a)),
           (''started_at'', JNum (NInt (at_started_at a))), (''finished_at'', JNum (NInt now))]),
        (''outcome'', JStr (lifecycle_name l)),
        (''criteria'', JArr (map (\<lambda>i. JObj [(''criterion_id'', JStr i), (''status'', JStr ''not_run''),
           (''evidence_ids'', JArr [])]) (criterion_ids (case ct of None \<Rightarrow> None | Some c \<Rightarrow> ct_json c)))),
        (''checks'', JArr []), (''artifacts'', JArr []),
        (''worker_report'', JObj
          [(''summary'', JStr (''settled '' @ lifecycle_name l @ '' without a worker result'')),
           (''claims'', JArr []), (''unresolved_risks'', JArr [])])])"

definition store_result :: "(json \<Rightarrow> string) \<Rightarrow> string \<Rightarrow> json \<Rightarrow> swarm_db \<Rightarrow> swarm_db" where
  "store_result digest a env db = (case find_result db a of
     Some r \<Rightarrow> db
   | None \<Rightarrow> db\<lparr> db_results := db_results db @ [\<lparr> re_attempt_id = a, re_envelope = env, re_digest = digest env \<rparr>] \<rparr>)"

definition persist_result :: "(json \<Rightarrow> string) \<Rightarrow> int \<Rightarrow> attempt \<Rightarrow> attempt_lifecycle \<Rightarrow> json option \<Rightarrow> swarm_db \<Rightarrow> swarm_db" where
  "persist_result digest now a l env db =
     (if l = L_completed then (case env of None \<Rightarrow> db | Some e \<Rightarrow> store_result digest (at_id a) e db)
      else store_result digest (at_id a) (orelse env (buildAbsenceEnvelope db now a l)) db)"

record settled_attempt =
  sa_attempt_id :: string
  sa_card_id :: int
  sa_root_card_id :: int
  sa_lifecycle :: attempt_lifecycle
  sa_generation :: int
  sa_reason :: string

type_synonym joint_hook = "settled_attempt \<Rightarrow> swarm_db \<Rightarrow> swarm_db option"

definition joint_commit :: "joint_hook \<Rightarrow> attempt \<Rightarrow> attempt_lifecycle \<Rightarrow> string \<Rightarrow> swarm_db \<Rightarrow> swarm_db" where
  "joint_commit joint a l why db = (case at_root_project_card_id a of
     None \<Rightarrow> db
   | Some root \<Rightarrow> orelse (joint \<lparr> sa_attempt_id = at_id a, sa_card_id = at_card_id a, sa_root_card_id = root,
       sa_lifecycle = l, sa_generation = (if at_generation a = 0 then 1 else at_generation a), sa_reason = why \<rparr> db) db)"

text \<open>What a terminal attempt answers; it changes nothing.\<close>

definition replay_settlement :: "(json \<Rightarrow> string) \<Rightarrow> settle_input \<Rightarrow> attempt \<Rightarrow> swarm_db \<Rightarrow> settle_result" where
  "replay_settlement digest i a db =
     (let replayed = settle_result Replayed (Some (at_lifecycle a)) (Some (at_charged_tokens a))
      in case st_envelope i of
           None \<Rightarrow> replayed
         | Some e \<Rightarrow>
             (case find_result db (at_id a) of
                None \<Rightarrow> settle_result Settle_stale (Some (at_lifecycle a)) None
              | Some r \<Rightarrow> (if re_digest r \<noteq> digest e then settle_result Settle_conflict None None else replayed)))"

text \<open>The writes of a settlement that goes through, before the joint commit.\<close>

definition settle_writes :: "(json \<Rightarrow> string) \<Rightarrow> int \<Rightarrow> settle_input \<Rightarrow> attempt \<Rightarrow> swarm_db \<Rightarrow> swarm_db" where
  "settle_writes digest now i a db =
     (let violation = snd (charge_of a i); l = effective_state db now a i;
          db1 = charge_attempt now a i db;
          db2 = close_attempt now a l (settled_reason i violation l) db1;
          db3 = snd (closeLease now (at_id a) (at_generation a) (''terminal:'' @ lifecycle_name l) db2);
          db4 = consume_reservation now (at_id a) (st_input_requested i) db3
      in persist_result digest now a l (st_envelope i) db4)"

definition settle_allowed_from :: "desired_state \<Rightarrow> attempt_lifecycle \<Rightarrow> bool" where
  "settle_allowed_from d l \<longleftrightarrow> holds_claim l \<or> (d = D_timed_out \<or> d = D_cancelled) \<and> l = L_pending"

definition settleAttemptInTransaction ::
    "joint_hook \<Rightarrow> (json \<Rightarrow> string) \<Rightarrow> int \<Rightarrow> settle_input \<Rightarrow> swarm_db \<Rightarrow> settle_result \<times> swarm_db" where
  "settleAttemptInTransaction joint digest now i db = (case find_attempt db (st_attempt_id i) of
     None \<Rightarrow> (settle_result Settle_stale None None, db)
   | Some a \<Rightarrow>
       (if \<not> isCardLatestAttempt db (at_card_id a) (st_attempt_id i) then (settle_result Settle_stale None None, db)
        else if at_generation a \<noteq> st_expected_generation i then (settle_result Settle_stale None None, db)
        else if isAttemptTerminal (at_lifecycle a) then (replay_settlement digest i a db, db)
        else if st_desired i = D_completed \<and> authorizeAttemptForProjectWork db a \<noteq> None then
          (settle_result Settle_stale (Some (at_lifecycle a)) None, db)
        else if \<not> settle_allowed_from (st_desired i) (at_lifecycle a) then (settle_result Settle_stale None None, db)
        else
          (let l = effective_state db now a i; (n, violation) = charge_of a i
           in (settle_result (if violation then Budget_violation else Settled) (Some l) (Some n),
               joint_commit joint a l (st_reason i) (settle_writes digest now i a db)))))"

section \<open>Rows and frames\<close>

definition attempt_keys :: "swarm_db \<Rightarrow> bool" where
  "attempt_keys db \<longleftrightarrow> distinct (map at_id (db_attempts db))"

lemma find_attemptD: "find_attempt db a = Some r \<Longrightarrow> r \<in> set (db_attempts db) \<and> at_id r = a"
  unfolding find_attempt_def by (drule sql_first_SomeD) simp

lemma find_attempt_cong: "db_attempts db = db_attempts db' \<Longrightarrow> find_attempt db a = find_attempt db' a"
  by (simp add: find_attempt_def)

lemma find_attempt_update:
  assumes "\<And>r. at_id (f r) = at_id r"
  shows "find_attempt (snd (update_attempts p f db)) a =
    map_option (\<lambda>r. if p r then f r else r) (find_attempt db a)"
  unfolding find_attempt_def update_attempts_def by (simp add: sql_first_update [of at_id f, OF assms])

lemma attempt_keys_update:
  "(\<And>r. at_id (f r) = at_id r) \<Longrightarrow> attempt_keys (snd (update_attempts p f db)) = attempt_keys db"
  by (simp add: attempt_keys_def update_attempts_def map_key_update)

lemma attempts_changed:
  assumes "attempt_keys db" and "find_attempt db a = Some r"
  shows "fst (update_attempts (\<lambda>r. at_id r = a \<and> q r) f db) = (if q r then 1 else 0)"
  using sql_changes_key [of at_id "db_attempts db" a q] assms
  by (simp add: attempt_keys_def find_attempt_def update_attempts_def)

lemma update_reservations_frame [simp]:
  "db_attempts (snd (update_reservations p f db)) = db_attempts db"
  "db_cards (snd (update_reservations p f db)) = db_cards db"
  "db_supervision (snd (update_reservations p f db)) = db_supervision db"
  "db_leases (snd (update_reservations p f db)) = db_leases db"
  "db_progress (snd (update_reservations p f db)) = db_progress db"
  "db_results (snd (update_reservations p f db)) = db_results db"
  by (simp_all add: update_reservations_def)

lemma update_attempts_frame [simp]:
  "db_cards (snd (update_attempts p f db)) = db_cards db"
  "db_leases (snd (update_attempts p f db)) = db_leases db"
  "db_progress (snd (update_attempts p f db)) = db_progress db"
  "db_results (snd (update_attempts p f db)) = db_results db"
  by (simp_all add: update_attempts_def)

lemma replace_lease_frame [simp]:
  "db_attempts (replace_lease s db) = db_attempts db" "db_cards (replace_lease s db) = db_cards db"
  "db_results (replace_lease s db) = db_results db"
  by (simp_all add: replace_lease_def)

lemma insert_event_frame [simp]:
  "db_attempts (insert_event e db) = db_attempts db" "db_cards (insert_event e db) = db_cards db"
  "db_results (insert_event e db) = db_results db"
  by (simp_all add: insert_event_def)

lemma lease_changed_frame [simp]:
  "db_cards (lease_changed c db) = db_cards db" "db_results (lease_changed c db) = db_results db"
  by (simp_all add: lease_changed_def)

lemma closeLease_frame [simp]:
  "db_attempts (snd (closeLease now a g why db)) = db_attempts db"
  "db_cards (snd (closeLease now a g why db)) = db_cards db"
  "db_results (snd (closeLease now a g why db)) = db_results db"
  by (simp_all add: closeLease_def split: option.split)

lemma update_cards_attempts [simp]:
  "db_attempts (update_cards p f db) = db_attempts db" "db_results (update_cards p f db) = db_results db"
  by (simp_all add: update_cards_def)

lemma store_result_frame [simp]:
  "db_attempts (store_result digest a e db) = db_attempts db" "db_cards (store_result digest a e db) = db_cards db"
  by (simp_all add: store_result_def split: option.split)

lemma persist_result_frame [simp]:
  "db_attempts (persist_result digest now a l e db) = db_attempts db"
  "db_cards (persist_result digest now a l e db) = db_cards db"
  by (simp_all add: persist_result_def split: option.split)

lemma consume_reservation_frame [simp]:
  "db_attempts (consume_reservation now a b db) = db_attempts db"
  "db_cards (consume_reservation now a b db) = db_cards db"
  by (simp_all add: consume_reservation_def)

section \<open>Claims stay within the limits\<close>

lemma active_count_sum:
  "int (getActiveAttemptCountForExecutor db k e) = sum_list (map (\<lambda>r.
     if at_executor_kind r = k \<and> at_executor_id r = e \<and> holds_claim (at_lifecycle r) then 1 else 0) (db_attempts db))"
  by (simp add: getActiveAttemptCountForExecutor_def count_filter_int)

lemma reserved_sum:
  "getActiveReservedTokensForProject db p = sum_list (map (\<lambda>r.
     if child_of db p (at_card_id r) \<and> holds_claim (at_lifecycle r) then at_reserved_tokens r else 0) (db_attempts db))"
  by (simp add: getActiveReservedTokensForProject_def sum_filter_int)

lemma child_of_cong: "db_cards db = db_cards db' \<Longrightarrow> child_of db p c = child_of db' p c"
  by (simp add: child_of_def find_card_def)

lemma find_card_cong: "db_cards db = db_cards db' \<Longrightarrow> find_card db c = find_card db' c"
  by (simp add: find_card_def)

text \<open>What a claim that was admitted knows, and the one row it changes.\<close>

definition limits_row :: "int \<Rightarrow> claim_input \<Rightarrow> attempt \<Rightarrow> attempt" where
  "limits_row now i r = (claim_columns now (lm_generation i) (lm_hard_deadline_at i) r)
     \<lparr> at_reserved_tokens := orelse (lm_reserved_tokens i) 0 \<rparr>"

lemma limits_row_simps [simp]:
  "at_id (limits_row now i r) = at_id r" "at_lifecycle (limits_row now i r) = L_claimed"
  "at_card_id (limits_row now i r) = at_card_id r" "at_executor_kind (limits_row now i r) = at_executor_kind r"
  "at_executor_id (limits_row now i r) = at_executor_id r"
  "at_reserved_tokens (limits_row now i r) = orelse (lm_reserved_tokens i) 0"
  "at_generation (limits_row now i r) = lm_generation i"
  by (simp_all add: limits_row_def claim_columns_def)

lemma claim_refused_None:
  assumes "claim_refused now i db = None"
  obtains a c project where "find_attempt db (lm_attempt_id i) = Some a" "at_lifecycle a = L_pending"
    "at_card_id a = lm_card_id i" "isCardLatestAttempt db (lm_card_id i) (lm_attempt_id i)"
    "authorizeAttemptForProjectWork db a = None" "at_executor_kind a = lm_executor_kind i"
    "at_executor_id a = lm_executor_id i" "find_card db (lm_card_id i) = Some c" "k_status c = Queued"
    "k_parent_id c = Some (lm_project_id i)" "find_card db (lm_project_id i) = Some project" "k_status project = Running"
    "int (getActiveAttemptCountForExecutor db (lm_executor_kind i) (lm_executor_id i)) < lm_executor_max i"
    "budget_refusal db i project = None"
  using assms
  by (auto simp: claim_refused_def not_le split: option.splits if_splits)

lemma claim_within_limits_update:
  assumes keys: "attempt_keys db" and ok: "claimAttemptWithinLimits now i db = (Inr c, db')"
  shows "claim_refused now i db = None \<and> lm_reserved_tokens i \<noteq> None \<and> db_cards db' = db_cards db \<and>
    db_attempts db' = sql_update (\<lambda>r. at_id r = lm_attempt_id i) (limits_row now i) (db_attempts db)"
proof -
  from ok have none: "claim_refused now i db = None"
    by (auto simp: claimAttemptWithinLimits_def split: option.splits)
  from none obtain a where a: "find_attempt db (lm_attempt_id i) = Some a" "at_lifecycle a = L_pending"
    by (rule claim_refused_None)
  have u: "r = a" if "r \<in> set (db_attempts db)" "at_id r = lm_attempt_id i" for r
    using keys find_attemptD [OF a(1)] that unfolding attempt_keys_def distinct_map inj_on_def by metis
  have eq: "sql_update (\<lambda>r. at_id r = lm_attempt_id i \<and> at_lifecycle r = L_pending) (limits_row now i) (db_attempts db) =
      sql_update (\<lambda>r. at_id r = lm_attempt_id i) (limits_row now i) (db_attempts db)"
    unfolding sql_update_def by (intro map_cong) (auto dest!: u simp: a)
  have "lm_reserved_tokens i \<noteq> None"
    using ok none by (auto simp: claimAttemptWithinLimits_def Let_def case_prod_unfold split: if_splits)
  moreover have "db_attempts db' = sql_update (\<lambda>r. at_id r = lm_attempt_id i \<and> at_lifecycle r = L_pending)
        (limits_row now i) (db_attempts db) \<and> db_cards db' = db_cards db"
    using ok none unfolding claimAttemptWithinLimits_def limits_row_def [symmetric, abs_def]
    by (auto simp: update_attempts_def Let_def case_prod_unfold split: if_splits)
  moreover note eq
  ultimately show ?thesis using none by simp
qed

text \<open>
  C29: a claim that is admitted keeps the limits: afterwards the executor holds at most its maximum
  number of claims, a capped project's committed plus reserved tokens are within its cap, and the
  claimed attempt is the pending latest attempt of a queued child of the running project, authorised
  for it, now claimed at the new generation; a refused claim changes nothing.
\<close>

theorem claim_within_limits:
  assumes keys: "attempt_keys db" and ok: "claimAttemptWithinLimits now i db = (Inr cl, db')"
  shows "int (getActiveAttemptCountForExecutor db' (lm_executor_kind i) (lm_executor_id i)) \<le> lm_executor_max i \<and>
    (\<forall>project cap. find_card db' (lm_project_id i) = Some project \<longrightarrow> k_max_tokens project = Some cap \<longrightarrow>
       orelse (k_tokens_used project) 0 + getActiveReservedTokensForProject db' (lm_project_id i) \<le> cap) \<and>
    (\<exists>a. find_attempt db (lm_attempt_id i) = Some a \<and> at_lifecycle a = L_pending \<and>
       isCardLatestAttempt db (lm_card_id i) (lm_attempt_id i) \<and> authorizeAttemptForProjectWork db a = None \<and>
       find_attempt db' (lm_attempt_id i) = Some (limits_row now i a) \<and> child_of db (lm_project_id i) (at_card_id a))"
proof -
  from claim_within_limits_update [OF keys ok] have none: "claim_refused now i db = None"
    and want: "lm_reserved_tokens i \<noteq> None" and cards: "db_cards db' = db_cards db"
    and rows: "db_attempts db' = sql_update (\<lambda>r. at_id r = lm_attempt_id i) (limits_row now i) (db_attempts db)" by auto
  from none obtain a c project where a: "find_attempt db (lm_attempt_id i) = Some a" "at_lifecycle a = L_pending"
    "at_card_id a = lm_card_id i" "isCardLatestAttempt db (lm_card_id i) (lm_attempt_id i)"
    "authorizeAttemptForProjectWork db a = None" "at_executor_kind a = lm_executor_kind i"
    "at_executor_id a = lm_executor_id i" and card: "find_card db (lm_card_id i) = Some c"
    "k_parent_id c = Some (lm_project_id i)" and project: "find_card db (lm_project_id i) = Some project"
    and capacity: "int (getActiveAttemptCountForExecutor db (lm_executor_kind i) (lm_executor_id i)) < lm_executor_max i"
    and budget: "budget_refusal db i project = None"
    by (rule claim_refused_None)
  note total = sum_update_key [OF keys [unfolded attempt_keys_def] a(1) [unfolded find_attempt_def], of _ "limits_row now i"]
  have child: "child_of db (lm_project_id i) (at_card_id a)" using a card by (simp add: child_of_def)
  have "int (getActiveAttemptCountForExecutor db' (lm_executor_kind i) (lm_executor_id i)) =
      int (getActiveAttemptCountForExecutor db (lm_executor_kind i) (lm_executor_id i)) + 1"
    unfolding active_count_sum rows total by (simp add: a holds_claim_def active_lifecycle_def)
  moreover have "getActiveReservedTokensForProject db' (lm_project_id i) =
      getActiveReservedTokensForProject db (lm_project_id i) + orelse (lm_reserved_tokens i) 0"
    unfolding reserved_sum rows child_of_cong [OF cards] total
    by (simp add: a child [unfolded a] holds_claim_def active_lifecycle_def)
  moreover have "find_card db' (lm_project_id i) = Some project"
    using project find_card_cong [OF cards] by simp
  moreover have "find_attempt db' (lm_attempt_id i) = Some (limits_row now i a)"
    unfolding find_attempt_def rows using a(1) find_attemptD [OF a(1)]
    by (subst sql_first_update) (simp_all add: find_attempt_def)
  ultimately show ?thesis
    using capacity budget a child want by (auto simp: budget_refusal_def Let_def split: option.splits if_splits)
qed

section \<open>The lifecycle as a state machine\<close>

definition attempt_moves :: "attempt_lifecycle \<Rightarrow> attempt_lifecycle list" where
  "attempt_moves l = (case l of
     L_pending \<Rightarrow> [L_claimed, L_cancel_requested, L_cancelled, L_timed_out]
   | L_claimed \<Rightarrow> [L_starting, L_running, L_cancel_requested, L_completed, L_failed, L_cancelled, L_timed_out]
   | L_starting \<Rightarrow> [L_running, L_cancel_requested, L_pending, L_completed, L_failed, L_cancelled, L_timed_out]
   | L_running \<Rightarrow> [L_cancel_requested, L_completed, L_failed, L_cancelled, L_timed_out]
   | L_cancel_requested \<Rightarrow> [L_completed, L_failed, L_cancelled, L_timed_out]
   | _ \<Rightarrow> [])"

definition attempt_move :: "attempt_lifecycle \<Rightarrow> attempt_lifecycle \<Rightarrow> bool" where
  "attempt_move l l' \<longleftrightarrow> l' \<in> set (attempt_moves l)"

interpretation attempts: transition_table attempt_move terminal_lifecycle
  by unfold_locales (auto simp: attempt_move_def attempt_moves_def terminal_lifecycle_def)

text \<open>
  What a change may do to one attempt: a legal move or none; whose successor it is stays, and a charge
  is never revised.
\<close>

definition attempt_evolves :: "attempt \<Rightarrow> attempt \<Rightarrow> bool" where
  "attempt_evolves r r' \<longleftrightarrow> at_id r' = at_id r \<and> at_source_attempt_id r' = at_source_attempt_id r \<and>
     (at_lifecycle r' = at_lifecycle r \<or> attempt_move (at_lifecycle r) (at_lifecycle r')) \<and>
     (at_usage_charged_at r \<noteq> None \<longrightarrow> at_usage_charged_at r' = at_usage_charged_at r \<and>
        at_charged_tokens r' = at_charged_tokens r)"

definition evolves :: "swarm_db \<Rightarrow> swarm_db \<Rightarrow> bool" where
  "evolves db db' \<longleftrightarrow> (\<forall>a r. find_attempt db a = Some r \<longrightarrow>
     (\<exists>r'. find_attempt db' a = Some r' \<and> attempt_evolves r r'))"

lemma evolves_same: "db_attempts db' = db_attempts db \<Longrightarrow> evolves db db'"
  by (auto simp: evolves_def attempt_evolves_def find_attempt_def)

lemma evolves_refl [simp]: "evolves db db"
  by (rule evolves_same) simp

lemma evolves_cong_right: "evolves db d \<Longrightarrow> db_attempts db' = db_attempts d \<Longrightarrow> evolves db db'"
  by (auto simp: evolves_def find_attempt_def)

lemma evolves_update:
  assumes "\<And>r. at_id (f r) = at_id r" and "\<And>r. r \<in> set (db_attempts db) \<Longrightarrow> p r \<Longrightarrow> attempt_evolves r (f r)"
  shows "evolves db (snd (update_attempts p f db))"
  unfolding evolves_def find_attempt_update [of f, OF assms(1)]
  using assms(2) find_attemptD by (fastforce simp: attempt_evolves_def)

lemma evolves_transition:
  assumes "\<And>r. at_id (extra r) = at_id r" "\<And>r. at_lifecycle (extra r) = at_lifecycle r"
    "\<And>r. at_source_attempt_id (extra r) = at_source_attempt_id r"
    "\<And>r. at_usage_charged_at (extra r) = at_usage_charged_at r" "\<And>r. at_charged_tokens (extra r) = at_charged_tokens r"
    and "\<And>l'. l' \<in> set fs \<Longrightarrow> attempt_move l' l"
  shows "evolves db (snd (lifecycleTransition a fs l extra db))"
    and "evolves db (snd (authorizedLifecycleTransition a fs l extra db))"
proof -
  show l: "evolves db (snd (lifecycleTransition a fs l extra db))"
    unfolding lifecycleTransition_def case_prod_unfold Let_def snd_conv
    by (rule evolves_update) (simp_all add: assms attempt_evolves_def)
  show "evolves db (snd (authorizedLifecycleTransition a fs l extra db))"
    unfolding authorizedLifecycleTransition_def
    by (auto simp: l split: option.split)
qed

lemmas move_defs = attempt_move_def attempt_moves_def CLAIM_HOLDERS_def

lemma evolves_operations:
  "evolves db (snd (markAttemptStartObservable a db))" "evolves db (snd (markAttemptRunning a db))"
  "evolves db (snd (requestCancel a why db))" "evolves db (snd (cancelPendingAttempt now a why db))"
  "evolves db (snd (completeAttempt now a db))" "evolves db (snd (failAttempt now a db))"
  "evolves db (snd (cancelAttempt now a db))" "evolves db (snd (timeoutAttempt now a db))"
  unfolding markAttemptStartObservable_def markAttemptRunning_def requestCancel_def cancelPendingAttempt_def
    completeAttempt_def failAttempt_def cancelAttempt_def timeoutAttempt_def
  by (rule evolves_transition; auto simp: move_defs)+

lemma evolves_claims:
  "evolves db (snd (claimAttempt now c ct k e g hard db))"
  "evolves db (snd (claimRetryAttempt now c a ct k e g src hard db))"
  "evolves db (snd (claimAttemptWithinLimits now i db))"
proof -
  have "evolves db (snd (lifecycleTransition b [L_pending] L_claimed
      (\<lambda>r. r\<lparr> at_generation := g, at_claimed_at := Some now, at_hard_deadline_at := hard \<rparr>) db))" for b
    by (rule evolves_transition; auto simp: move_defs)
  then show "evolves db (snd (claimAttempt now c ct k e g hard db))"
    by (auto simp: claimAttempt_def case_prod_unfold Let_def split: option.split)
  have u: "evolves db (snd (update_attempts (\<lambda>r. at_id r = b \<and> at_lifecycle r = L_pending) (claim_columns now g hard) db))" for b
    by (rule evolves_update) (auto simp: claim_columns_def attempt_evolves_def move_defs)
  show "evolves db (snd (claimRetryAttempt now c a ct k e g src hard db))"
    by (auto simp: claimRetryAttempt_def case_prod_unfold Let_def u
        intro: evolves_cong_right [OF u] split: option.split)
  have v: "evolves db (snd (update_attempts (\<lambda>r. at_id r = lm_attempt_id i \<and> at_lifecycle r = L_pending) (\<lambda>r. (claim_columns now (lm_generation i) (lm_hard_deadline_at i) r)
     \<lparr> at_reserved_tokens := orelse (lm_reserved_tokens i) 0 \<rparr>) db))"
    by (rule evolves_update) (auto simp: claim_columns_def attempt_evolves_def move_defs)
  show "evolves db (snd (claimAttemptWithinLimits now i db))"
    by (auto simp: claimAttemptWithinLimits_def case_prod_unfold Let_def v
        intro: evolves_cong_right [OF v] split: option.split)
qed

lemma find_attempt_append: "find_attempt db a = Some r \<Longrightarrow>
    find_attempt (db\<lparr> db_attempts := db_attempts db @ rs \<rparr>) a = Some r"
  by (simp add: find_attempt_def sql_first_append)

lemma evolves_insert: "insertAttempt n db = Some db' \<Longrightarrow> evolves db db'"
  by (auto simp: insertAttempt_def evolves_def attempt_evolves_def find_attempt_append split: if_splits)

lemma evolves_bind: "evolves db (snd (bindExecutorResource b db))"
proof -
  have "evolves db (snd (update_attempts p (\<lambda>r. r\<lparr> at_resource_id := x, at_resource_generation := y, at_continuity := z \<rparr>) db))" for p x y z
    by (rule evolves_update) (auto simp: attempt_evolves_def)
  then show ?thesis
    by (auto simp: bindExecutorResource_def case_prod_unfold Let_def split: option.split)
qed

lemma kanbanTransition_attempts [simp]: "db_attempts (snd (kanbanTransition redact now rq db)) = db_attempts db"
  by (auto simp: kanbanTransition_def transition_tx_def commit_applied_def append_journal_def
      queuePeerCallbackInTx_def emit_transition_def update_cards_def Let_def case_prod_unfold
      split: option.split transition_outcome.split)

lemma evolves_board [simp]: "evolves db (snd (kanbanTransition redact now rq db))"
  by (rule evolves_same) simp

lemma evolves_cancel_child: "evolves db (snd (cancelProjectChild redact now c au why db))"
proof -
  note e = evolves_operations(3) [of db _ why] evolves_operations(4) [of db now _ why]
  show ?thesis
    by (auto simp: cancelProjectChild_def case_prod_unfold Let_def e
        intro: evolves_cong_right [OF e(1)] evolves_cong_right [OF e(2)] split: option.split)
qed

lemma evolves_defer: "evolves db (snd (deferClaimAfterProvenNoStart now a g why db))"
proof -
  have u: "evolves db (snd (update_attempts (\<lambda>x. at_id x = a \<and> at_lifecycle x = L_starting)
                 (\<lambda>x. x\<lparr> at_lifecycle := L_pending, at_status := ''pending'', at_claimed_at := None,
                        at_hard_deadline_at := None, at_reserved_tokens := 0, at_earliest_claim_at := None \<rparr>) db))"
    by (rule evolves_update) (auto simp: attempt_evolves_def move_defs)
  show ?thesis
    by (auto simp: deferClaimAfterProvenNoStart_def case_prod_unfold Let_def u
        intro: evolves_cong_right [OF u] split: option.split)
qed

lemma evolves_cancel_intent: "evolves db (snd (recordCancelIntent now a why g v db))"
proof -
  have u: "evolves db (snd (update_attempts (cancel_target a g)
     (\<lambda>r. r\<lparr> at_lifecycle := L_cancel_requested, at_cancel_reason := Some (''lease:'' @ reason_name why) \<rparr>) db))"
    by (rule evolves_update) (auto simp: attempt_evolves_def move_defs cancel_target_def active_lifecycle_def)
  have "db_attempts (snd (update_lease b w f d)) = db_attempts d" for b w f d
    by (simp add: update_lease_def Let_def)
  then show ?thesis
    by (auto simp: recordCancelIntent_def case_prod_unfold Let_def u
        intro: evolves_cong_right [OF u] split: option.split)
qed

lemma attempt_evolves_trans:
  assumes "attempt_evolves r s" "attempt_evolves s t" "at_lifecycle s = at_lifecycle r \<or> at_lifecycle t = at_lifecycle s"
  shows "attempt_evolves r t"
  using assms by (auto simp: attempt_evolves_def)

lemma evolves_fence: "evolves db (snd (cancelRun_fence now run root db))"
proof -
  have u: "evolves db (snd (update_attempts
      (\<lambda>r. at_root_project_card_id r = Some root \<and> (at_lifecycle r = L_pending \<or> active_lifecycle (at_lifecycle r)))
      (\<lambda>r. r\<lparr> at_lifecycle := L_cancel_requested, at_cancel_reason := Some (''run-cancelled:'' @ run) \<rparr>) db))"
    by (rule evolves_update) (auto simp: attempt_evolves_def move_defs active_lifecycle_def)
  show ?thesis
    by (auto simp: cancelRun_fence_def case_prod_unfold Let_def intro: evolves_cong_right [OF u])
qed

section \<open>What a settlement writes\<close>

lemma settle_move:
  assumes "settle_allowed_from (st_desired i) (at_lifecycle a)"
  shows "attempt_move (at_lifecycle a) (effective_state db now a i)"
  using assms
  by (cases "st_desired i"; cases "at_lifecycle a")
     (simp_all add: settle_allowed_from_def holds_claim_def active_lifecycle_def effective_state_def late_state_def
        move_defs Let_def split: option.split)

lemma effective_terminal: "terminal_lifecycle (effective_state db now a i)"
  by (cases "st_desired i") (simp_all add: effective_state_def late_state_def terminal_lifecycle_def Let_def split: option.split)

text \<open>The attempt's row after a settlement.\<close>

definition settled_row :: "int \<Rightarrow> settle_input \<Rightarrow> attempt_lifecycle \<Rightarrow> attempt \<Rightarrow> attempt" where
  "settled_row now i l a =
     (let u = valid_usage (st_usage i);
          b = (if at_usage_charged_at a \<noteq> None then a
               else a\<lparr> at_input_tokens := map_option fst u, at_output_tokens := map_option (\<lambda>t. fst (snd t)) u,
                      at_charged_tokens := fst (charge_of a i), at_usage_charged_at := Some now \<rparr>)
      in b\<lparr> at_lifecycle := l, at_status := (if l = L_completed then ''settled'' else lifecycle_name l),
            at_settled_at := Some now, at_cancel_reason := Some (settled_reason i (snd (charge_of a i)) l) \<rparr>)"

lemma settled_row_simps [simp]:
  "at_id (settled_row now i l a) = at_id a" "at_lifecycle (settled_row now i l a) = l"
  "at_card_id (settled_row now i l a) = at_card_id a" "at_generation (settled_row now i l a) = at_generation a"
  "at_ordinal (settled_row now i l a) = at_ordinal a" "at_source_attempt_id (settled_row now i l a) = at_source_attempt_id a"
  "at_usage_charged_at (settled_row now i l a) = (case at_usage_charged_at a of None \<Rightarrow> Some now | Some t \<Rightarrow> Some t)"
  "at_charged_tokens (settled_row now i l a) =
     (if at_usage_charged_at a = None then fst (charge_of a i) else at_charged_tokens a)"
  by (simp_all add: settled_row_def Let_def split: option.split)

lemma settled_row_evolves: "attempt_move (at_lifecycle a) l \<Longrightarrow> attempt_evolves a (settled_row now i l a)"
  by (auto simp: attempt_evolves_def)

lemma charge_attempt_attempts:
  "db_attempts (charge_attempt now a i db) = (if at_usage_charged_at a \<noteq> None then db_attempts db
     else sql_update (\<lambda>r. at_id r = at_id a \<and> at_usage_charged_at r = None)
       (\<lambda>r. r\<lparr> at_input_tokens := map_option fst (valid_usage (st_usage i)),
              at_output_tokens := map_option (\<lambda>t. fst (snd t)) (valid_usage (st_usage i)),
              at_charged_tokens := fst (charge_of a i), at_usage_charged_at := Some now \<rparr>) (db_attempts db))"
  by (simp add: charge_attempt_def Let_def update_attempts_def split: option.split)

lemma find_attempt_charged:
  assumes "find_attempt db (at_id a) = Some a"
  shows "find_attempt (charge_attempt now a i db) b = (if b = at_id a then Some
     (if at_usage_charged_at a \<noteq> None then a
      else a\<lparr> at_input_tokens := map_option fst (valid_usage (st_usage i)),
             at_output_tokens := map_option (\<lambda>t. fst (snd t)) (valid_usage (st_usage i)),
             at_charged_tokens := fst (charge_of a i), at_usage_charged_at := Some now \<rparr>)
     else find_attempt db b)"
  using assms
  by (auto simp: find_attempt_def charge_attempt_attempts sql_first_update [of at_id] option.map_id0 map_option_case
      dest!: sql_first_SomeD split: option.split)

lemma settle_writes_attempts:
  "db_attempts (settle_writes digest now i a db) =
     db_attempts (close_attempt now a (effective_state db now a i)
       (settled_reason i (snd (charge_of a i)) (effective_state db now a i)) (charge_attempt now a i db))"
  by (simp add: settle_writes_def Let_def)

lemma find_attempt_settled:
  assumes "find_attempt db (at_id a) = Some a"
  shows "find_attempt (settle_writes digest now i a db) b = (if b = at_id a
     then Some (settled_row now i (effective_state db now a i) a) else find_attempt db b)"
proof -
  have "find_attempt (settle_writes digest now i a db) b =
      find_attempt (close_attempt now a (effective_state db now a i)
       (settled_reason i (snd (charge_of a i)) (effective_state db now a i)) (charge_attempt now a i db)) b"
    by (rule find_attempt_cong) (rule settle_writes_attempts)
  also have "\<dots> = (if b = at_id a then Some (settled_row now i (effective_state db now a i) a) else find_attempt db b)"
    unfolding close_attempt_def
    by (subst find_attempt_update, simp, cases "find_attempt db b")
       (auto simp: find_attempt_charged [OF assms] settled_row_def Let_def assms
        dest: find_attemptD split: option.split)
  finally show ?thesis .
qed

lemma evolves_settle_writes:
  assumes "find_attempt db (at_id a) = Some a" "settle_allowed_from (st_desired i) (at_lifecycle a)"
  shows "evolves db (settle_writes digest now i a db)"
  unfolding evolves_def find_attempt_settled [OF assms(1)]
  using assms settled_row_evolves [OF settle_move] by (auto simp: attempt_evolves_def)


section \<open>Every operation on attempts\<close>

text \<open>The successor hook of the workflow runner may fence attempts, never move them otherwise.\<close>

definition hook_ok :: "joint_hook \<Rightarrow> bool" where
  "hook_ok joint \<longleftrightarrow> (\<forall>sa d d'. joint sa d = Some d' \<longrightarrow> evolves d d')"

inductive attempt_step :: "(string \<Rightarrow> string) \<Rightarrow> (json \<Rightarrow> string) \<Rightarrow> joint_hook \<Rightarrow> swarm_db \<Rightarrow> swarm_db \<Rightarrow> bool"
  for redact :: "string \<Rightarrow> string" and digest :: "json \<Rightarrow> string" and joint :: joint_hook where
  inserted: "insertAttempt n db = Some db' \<Longrightarrow> attempt_step redact digest joint db db'"
| claimed: "attempt_step redact digest joint db (snd (claimAttempt now c ct k e g hard db))"
| retry_claimed: "attempt_step redact digest joint db (snd (claimRetryAttempt now c a ct k e g src hard db))"
| admitted: "attempt_step redact digest joint db (snd (claimAttemptWithinLimits now ci db))"
| bound: "attempt_step redact digest joint db (snd (bindExecutorResource b db))"
| observable: "attempt_step redact digest joint db (snd (markAttemptStartObservable a db))"
| running: "attempt_step redact digest joint db (snd (markAttemptRunning a db))"
| cancel_asked: "attempt_step redact digest joint db (snd (requestCancel a why db))"
| pending_cancelled: "attempt_step redact digest joint db (snd (cancelPendingAttempt now a why db))"
| completed: "attempt_step redact digest joint db (snd (completeAttempt now a db))"
| failed: "attempt_step redact digest joint db (snd (failAttempt now a db))"
| cancelled: "attempt_step redact digest joint db (snd (cancelAttempt now a db))"
| timed_out: "attempt_step redact digest joint db (snd (timeoutAttempt now a db))"
| child_cancelled: "attempt_step redact digest joint db (snd (cancelProjectChild redact now c au why db))"
| deferred: "attempt_step redact digest joint db (snd (deferClaimAfterProvenNoStart now a g df db))"
| lease_cancel: "attempt_step redact digest joint db (snd (recordCancelIntent now a lr g v db))"
| fenced: "attempt_step redact digest joint db (snd (cancelRun_fence now run root db))"
| settled: "attempt_step redact digest joint db (snd (settleAttemptInTransaction joint digest now i db))"
| elsewhere: "db_attempts db' = db_attempts db \<Longrightarrow> attempt_step redact digest joint db db'"

lemma evolves_terminal:
  assumes "evolves db db'" "find_attempt db a = Some r" "terminal_lifecycle (at_lifecycle r)"
  obtains r' where "find_attempt db' a = Some r'" "at_lifecycle r' = at_lifecycle r" "attempt_evolves r r'"
  using assms attempts.final_stuck unfolding evolves_def attempt_evolves_def by metis

lemma evolves_then:
  assumes first: "\<And>b. find_attempt d b = (if b = a then Some s else find_attempt db b)"
    and a: "find_attempt db a = Some r" "attempt_evolves r s" "terminal_lifecycle (at_lifecycle s)"
    and second: "evolves d db'"
  shows "evolves db db'"
  unfolding evolves_def
proof (intro allI impI)
  fix b x assume x: "find_attempt db b = Some x"
  show "\<exists>r'. find_attempt db' b = Some r' \<and> attempt_evolves x r'"
  proof (cases "b = a")
    case True
    with first have "find_attempt d b = Some s" by simp
    then obtain r' where "find_attempt db' b = Some r'" "at_lifecycle r' = at_lifecycle s" "attempt_evolves s r'"
      using evolves_terminal [OF second _ a(3)] by blast
    with True x a show ?thesis using attempt_evolves_trans [of x s r'] by auto
  next
    case False
    with first x second show ?thesis by (simp add: evolves_def)
  qed
qed

lemma settle_cases:
  obtains (refused) k l c where "settleAttemptInTransaction joint digest now i db = (settle_result k l c, db)"
    "k \<noteq> Settled" "k \<noteq> Budget_violation"
  | (replayed) a where "find_attempt db (st_attempt_id i) = Some a" "terminal_lifecycle (at_lifecycle a)"
    "at_generation a = st_expected_generation i" "isCardLatestAttempt db (at_card_id a) (st_attempt_id i)"
    "settleAttemptInTransaction joint digest now i db = (replay_settlement digest i a db, db)"
  | (settled) a where "find_attempt db (st_attempt_id i) = Some a" "at_id a = st_attempt_id i"
    "isCardLatestAttempt db (at_card_id a) (st_attempt_id i)"
    "at_generation a = st_expected_generation i" "\<not> terminal_lifecycle (at_lifecycle a)"
    "st_desired i = D_completed \<longrightarrow> authorizeAttemptForProjectWork db a = None"
    "settle_allowed_from (st_desired i) (at_lifecycle a)"
    "settleAttemptInTransaction joint digest now i db =
       (settle_result (if snd (charge_of a i) then Budget_violation else Settled) (Some (effective_state db now a i))
          (Some (fst (charge_of a i))),
        joint_commit joint a (effective_state db now a i) (st_reason i) (settle_writes digest now i a db))"
proof (cases "find_attempt db (st_attempt_id i)")
  case None
  then show thesis by (intro refused [of Settle_stale None None]) (simp_all add: settleAttemptInTransaction_def)
next
  case (Some a)
  note def = settleAttemptInTransaction_def isAttemptTerminal_def
  show thesis
  proof (cases "isCardLatestAttempt db (at_card_id a) (st_attempt_id i) \<and> at_generation a = st_expected_generation i")
    case False
    with Some show thesis by (intro refused [of Settle_stale None None]) (auto simp: def)
  next
    case live: True
    consider "terminal_lifecycle (at_lifecycle a)"
      | "\<not> terminal_lifecycle (at_lifecycle a)" "st_desired i = D_completed \<and> authorizeAttemptForProjectWork db a \<noteq> None"
      | "\<not> terminal_lifecycle (at_lifecycle a)" "\<not> (st_desired i = D_completed \<and> authorizeAttemptForProjectWork db a \<noteq> None)"
        "\<not> settle_allowed_from (st_desired i) (at_lifecycle a)"
      | "\<not> terminal_lifecycle (at_lifecycle a)" "\<not> (st_desired i = D_completed \<and> authorizeAttemptForProjectWork db a \<noteq> None)"
        "settle_allowed_from (st_desired i) (at_lifecycle a)" by blast
    then show thesis
    proof cases
      case 1 with Some live show thesis by (intro replayed [of a]) (simp_all add: def)
    next
      case 2 with Some live show thesis
        by (intro refused [of Settle_stale "Some (at_lifecycle a)" None]) (simp_all add: def)
    next
      case 3 with Some live show thesis
        by (intro refused [of Settle_stale None None]) (auto simp: def)
    next
      case 4 with Some live show thesis
        by (intro settled [of a]) (auto simp: def case_prod_unfold Let_def dest: find_attemptD)
    qed
  qed
qed

lemma evolves_joint: "hook_ok joint \<Longrightarrow> evolves d (joint_commit joint a l why d)"
  by (auto simp: joint_commit_def hook_ok_def orelse_def split: option.split)

lemma evolves_settle:
  assumes "hook_ok joint"
  shows "evolves db (snd (settleAttemptInTransaction joint digest now i db))"
proof (cases joint digest now i db rule: settle_cases)
  case (settled a)
  have f: "find_attempt db (at_id a) = Some a" using settled by simp
  show ?thesis unfolding settled(8) snd_conv
    by (rule evolves_then [OF find_attempt_settled [OF f] f settled_row_evolves [OF settle_move [OF settled(7)]] _
          evolves_joint [OF assms]]) (simp add: effective_terminal)
qed simp_all

lemma evolves_step: "attempt_step redact digest joint db db' \<Longrightarrow> hook_ok joint \<Longrightarrow> evolves db db'"
  by (induction rule: attempt_step.induct)
     (simp_all add: evolves_insert evolves_claims evolves_bind evolves_operations evolves_cancel_child evolves_defer
       evolves_cancel_intent evolves_fence evolves_settle evolves_same)

text \<open>
  C28: an attempt is settled once: over any sequence of the operations on attempts, in any order
  and by any caller, an attempt that reached a terminal lifecycle keeps it, and once its usage was
  charged the charge is never revised.
\<close>

theorem terminal_attempt_final:
  assumes steps: "(attempt_step redact digest joint)\<^sup>*\<^sup>* db db'" and hook: "hook_ok joint"
    and r: "find_attempt db a = Some r" "terminal_lifecycle (at_lifecycle r)"
  shows "\<exists>r'. find_attempt db' a = Some r' \<and> at_lifecycle r' = at_lifecycle r \<and>
    (at_usage_charged_at r \<noteq> None \<longrightarrow> at_usage_charged_at r' = at_usage_charged_at r \<and>
       at_charged_tokens r' = at_charged_tokens r)"
  using steps
proof (induction rule: rtranclp_induct)
  case (step d d')
  then obtain x where x: "find_attempt d a = Some x" "at_lifecycle x = at_lifecycle r" and
    c: "at_usage_charged_at r \<noteq> None \<longrightarrow> at_usage_charged_at x = at_usage_charged_at r \<and>
       at_charged_tokens x = at_charged_tokens r" by blast
  obtain y where "find_attempt d' a = Some y" "at_lifecycle y = at_lifecycle x" "attempt_evolves x y"
    using evolves_terminal [OF evolves_step [OF step(2) hook] x(1)] x(2) r(2) by metis
  with x c show ?case by (auto simp: attempt_evolves_def)
qed (use r in blast)

section \<open>Charging\<close>

definition tokens_of :: "swarm_db \<Rightarrow> int \<Rightarrow> int" where
  "tokens_of db c = (case find_card db c of None \<Rightarrow> 0 | Some k \<Rightarrow> orelse (k_tokens_used k) 0)"

definition hook_keeps_tokens :: "joint_hook \<Rightarrow> bool" where
  "hook_keeps_tokens joint \<longleftrightarrow> (\<forall>sa d d' x. joint sa d = Some d' \<longrightarrow> tokens_of d' x = tokens_of d x)"

lemma joint_tokens: "hook_keeps_tokens joint \<Longrightarrow> tokens_of (joint_commit joint a l why d) x = tokens_of d x"
  by (auto simp: joint_commit_def hook_keeps_tokens_def orelse_def split: option.split)

lemma settle_writes_cards: "db_cards (settle_writes digest now i a db) = db_cards (charge_attempt now a i db)"
  by (simp add: settle_writes_def close_attempt_def Let_def)

lemma add_tokens_simps [simp]:
  "k_id (add_tokens now n r) = k_id r" "k_type (add_tokens now n r) = k_type r"
  "k_parent_id (add_tokens now n r) = k_parent_id r"
  "k_tokens_used (add_tokens now n r) = Some (orelse (k_tokens_used r) 0 + n)"
  by (simp_all add: add_tokens_def)

lemma tokens_add:
  "tokens_of (update_cards (\<lambda>r. k_id r = y \<and> q r) (add_tokens now n) db) x =
     tokens_of db x + (if x = y \<and> (\<exists>k. find_card db x = Some k \<and> q k) then n else 0)"
  unfolding tokens_of_def
  by (subst find_card_update, simp, cases "find_card db x") (auto simp: orelse_def dest: find_cardD split: option.split)

lemmas tokens_add_card = tokens_add [where q = "\<lambda>_. True", simplified]

text \<open>The cards that a charge for a card goes to: the card itself and a parent that is a project.\<close>

definition charged_card :: "swarm_db \<Rightarrow> int \<Rightarrow> int \<Rightarrow> bool" where
  "charged_card db c x \<longleftrightarrow> x = c \<and> find_card db c \<noteq> None"

definition charged_project :: "swarm_db \<Rightarrow> int \<Rightarrow> int \<Rightarrow> bool" where
  "charged_project db c x \<longleftrightarrow> x \<noteq> 0 \<and> child_of db x c \<and> (\<exists>k. find_card db x = Some k \<and> k_type k = Some ''O'')"

lemma tokens_charged:
  "tokens_of (charge_attempt now a i db) x = tokens_of db x +
     (if at_usage_charged_at a \<noteq> None then 0 else
        (if charged_card db (at_card_id a) x then fst (charge_of a i) else 0) +
        (if charged_project db (at_card_id a) x then fst (charge_of a i) else 0))"
proof -
  have u: "find_card (snd (update_attempts p f db)) y = find_card db y" for p f y
    by (rule find_card_cong) simp
  then have v: "tokens_of (snd (update_attempts p f db)) y = tokens_of db y" for p f y
    by (simp add: tokens_of_def)
  have w: "(\<exists>k. find_card (update_cards (\<lambda>r. k_id r = at_card_id a) (add_tokens now n) (snd (update_attempts p f db))) y = Some k \<and>
      k_type k = t) \<longleftrightarrow> (\<exists>k. find_card db y = Some k \<and> k_type k = t)" for n p f y t
    by (subst find_card_update, simp, cases "find_card db y") (auto simp: u)
  show ?thesis
  proof (cases "find_card db (at_card_id a)")
    case None
    then show ?thesis by (auto simp: charge_attempt_def Let_def u v tokens_add_card charged_card_def charged_project_def child_of_def)
  next
    case (Some c)
    then show ?thesis
      by (cases "k_parent_id c")
         (auto simp: charge_attempt_def Let_def u v w tokens_add tokens_add_card charged_card_def charged_project_def child_of_def)
  qed
qed

text \<open>
  C32: a settlement charges exactly: when an attempt settles, its card and the project above it
  gain the charge once each and no other card's total moves; nothing is charged again to an attempt
  that was charged before; the charge is what a trustworthy report says, the whole reservation
  when there is none, and nothing when the worker stopped to ask for input.
\<close>

theorem settlement_charges_exactly:
  assumes hook: "hook_keeps_tokens joint" and a: "find_attempt db (st_attempt_id i) = Some a"
    and res: "settleAttemptInTransaction joint digest now i db = (settle_result k l (Some n), db')"
    and k: "k = Settled \<or> k = Budget_violation"
  shows "(\<forall>x. tokens_of db' x = tokens_of db x + (if at_usage_charged_at a \<noteq> None then 0 else
      (if charged_card db (at_card_id a) x then n else 0) + (if charged_project db (at_card_id a) x then n else 0))) \<and>
    n = (if st_input_requested i then 0 else case valid_usage (st_usage i) of
           Some (inp, out, True) \<Rightarrow> inp + out | _ \<Rightarrow> max 0 (at_reserved_tokens a))"
proof (cases joint digest now i db rule: settle_cases)
  case (refused k' l' c)
  with res k show ?thesis by (auto simp: settle_result_def)
next
  case (replayed a')
  with res k show ?thesis
    by (auto simp: replay_settlement_def settle_result_def Let_def split: option.splits if_splits)
next
  case (settled b)
  have w: "tokens_of (settle_writes digest now i a db) x = tokens_of (charge_attempt now a i db) x" for x
    using find_card_cong [OF settle_writes_cards [of digest now i a db]] by (simp add: tokens_of_def)
  from settled have n: "n = fst (charge_of a i)" and "tokens_of db' x = tokens_of (charge_attempt now a i db) x" for x
    using a res joint_tokens [OF hook] w by (auto simp: settle_result_def)
  then show ?thesis
    by (auto simp: tokens_charged n) (auto simp: charge_of_def split: option.split prod.split bool.split)
qed

text \<open>
  C36: a completion is earned: an attempt that settles as completed was asked to complete, its
  project authority was in force, it held a claim, it arrived before its hard deadline or with a
  result within the grace, and it did not report more than it had reserved.
\<close>

theorem completion_is_earned:
  assumes "settleAttemptInTransaction joint digest now i db = (settle_result k (Some L_completed) c, db')"
    and "k = Settled \<or> k = Budget_violation"
  shows "k = Settled \<and> st_desired i = D_completed \<and> (\<exists>a. find_attempt db (st_attempt_id i) = Some a \<and>
    at_generation a = st_expected_generation i \<and> holds_claim (at_lifecycle a) \<and>
    authorizeAttemptForProjectWork db a = None \<and>
    (\<forall>d. at_hard_deadline_at a = Some d \<longrightarrow>
       now < d \<or> st_envelope i \<noteq> None \<and> now \<le> d + min 5000 (completionGraceMs db a)) \<and>
    (\<forall>inp out. \<not> st_input_requested i \<longrightarrow> valid_usage (st_usage i) = Some (inp, out, True) \<longrightarrow>
       0 < at_reserved_tokens a \<longrightarrow> inp + out \<le> at_reserved_tokens a))"
proof (cases joint digest now i db rule: settle_cases)
  case (refused k' l' c')
  with assms show ?thesis by (auto simp: settle_result_def)
next
  case (replayed a)
  with assms show ?thesis
    by (auto simp: replay_settlement_def settle_result_def Let_def split: option.splits if_splits)
next
  case (settled a)
  have grace: "completionGraceMs db a \<le> 5000"
    by (auto simp: completionGraceMs_def FALLBACK_COMPLETION_GRACE_MS_def MAX_COMPLETION_GRACE_MS_def
        split: option.split json.split jnum.split)
  from settled assms(1) have l: "effective_state db now a i = L_completed"
    and k: "k = (if snd (charge_of a i) then Budget_violation else Settled)" by (auto simp: settle_result_def)
  then have v: "\<not> snd (charge_of a i)" "late_state db now a i = L_completed"
    by (auto simp: effective_state_def split: if_splits)
  have d: "st_desired i = D_completed"
    using v(2) by (cases "st_desired i") (auto simp: late_state_def)
  show ?thesis
    using settled k v d grace
    by (auto simp: settle_allowed_from_def late_state_def charge_of_def Let_def min_def not_le not_less split: if_splits)
qed

section \<open>A deferred claim\<close>

lemma closeLease_closes:
  assumes ok: "leases_ok db" and r: "find_attempt db a = Some r" "at_generation r = g"
  shows "closed_lease (snd (closeLease now a g why db)) a"
proof (cases "closing_snapshot r g now why (find_lease db a)")
  case None
  then obtain l where "find_lease db a = Some l" "sn_closed_at (ls_snapshot l) \<noteq> None"
    by (auto simp: closing_snapshot_def split: option.splits if_splits)
  with leases_ok_lockstep [OF ok] have "closed_lease db a" by (auto simp: closed_lease_def lockstep_def)
  with r None show ?thesis by (simp add: closeLease_def)
next
  case (Some s)
  with closing_snapshot_key [OF ok] find_attemptD [OF r(1)] have s: "sn_attempt_id s = a" "sn_closed_at s = Some now" by auto
  have "snd (closeLease now a g why db) =
      lease_changed (at_card_id r) (insert_event (closing_event a g now why s) (replace_lease s db))"
    using r Some by (simp add: closeLease_def)
  then have "find_lease (snd (closeLease now a g why db)) a = find_lease (replace_lease s db) a"
    by (intro find_lease_cong) simp
  with s show ?thesis by (simp add: closed_lease_def find_lease_replace)
qed

lemma deferred_state:
  assumes ok: "leases_ok db" and res: "deferClaimAfterProvenNoStart now a g why db = (Deferred, db')"
  shows "leases_ok db' \<and> closed_lease db' a \<and>
    (\<exists>r. find_attempt db' a = Some r \<and> at_lifecycle r = L_pending \<and> at_generation r = g \<and>
       isCardLatestAttempt db' (at_card_id r) a \<and> at_reserved_tokens r = 0)"
proof -
  let ?p = "\<lambda>x. at_id x = a \<and> at_lifecycle x = L_starting"
  let ?f = "\<lambda>x. x\<lparr> at_lifecycle := L_pending, at_status := ''pending'', at_claimed_at := None,
    at_hard_deadline_at := None, at_reserved_tokens := 0, at_earliest_claim_at := None \<rparr>"
  let ?u = "snd (update_attempts ?p ?f db)"
  let ?c = "snd (closeLease now a g (''deferred:'' @ defer_reason_name why) ?u)"
  from res obtain r where r: "find_attempt db a = Some r" "at_lifecycle r = L_starting" "at_generation r = g"
    "isCardLatestAttempt db (at_card_id r) a"
    by (auto simp: deferClaimAfterProvenNoStart_def Let_def case_prod_unfold split: option.splits if_splits)
  have db': "db' = ?c \<or> (\<exists>p f. db' = snd (update_reservations p f ?c))"
    using res r by (auto simp: deferClaimAfterProvenNoStart_def Let_def case_prod_unfold split: if_splits)
  have fa: "find_attempt ?u b = map_option (\<lambda>x. if ?p x then ?f x else x) (find_attempt db b)" for b
    by (rule find_attempt_update) simp
  have au: "find_attempt ?u a = Some (?f r)" using r find_attemptD [OF r(1)] by (simp add: fa)
  have ku: "leases_ok ?u" using leases_ok_cong [of ?u db] ok by simp
  from closeLease_closes [OF ku au, of g] r have cl: "closed_lease ?c a" by simp
  note kc = leases_ok_closeLease [OF ku, of now a g "''deferred:'' @ defer_reason_name why"]
  have rows: "db_leases db' = db_leases ?c" "db_progress db' = db_progress ?c" "db_attempts db' = db_attempts ?u"
    using db' by auto
  have "leases_ok db'" using leases_ok_cong [OF rows(1,2)] kc by simp
  moreover have "closed_lease db' a" using cl find_lease_cong [OF rows(1)] by (simp add: closed_lease_def)
  moreover have "find_attempt db' a = Some (?f r)" using au find_attempt_cong [OF rows(3)] by simp
  moreover have "isCardLatestAttempt db' c a = isCardLatestAttempt db c a" for c
    unfolding isCardLatestAttempt_def getLatestAttempt_def rows(3)
    by (cases "sql_last_by at_ordinal (\<lambda>r. at_card_id r = c) (db_attempts db)")
       (simp_all add: update_attempts_def sql_last_by_update)
  ultimately show ?thesis using r by auto
qed

text \<open>
  a deferred claim loses its lease: after \<open>deferClaimAfterProvenNoStart\<close> the attempt is
  pending again at the same generation and can be claimed again, but its lease is closed, and in
  every later execution of the store no progress fact of that attempt is accepted and no evaluation
  is ever scheduled for it.
\<close>

theorem deferred_claim_loses_lease:
  assumes ok: "leases_ok db" and res: "deferClaimAfterProvenNoStart now a g why db = (Deferred, db1)"
    and steps: "(lease_step redact sha)\<^sup>*\<^sup>* db1 db2" and f: "f_attempt_id f = a"
  shows "(\<exists>r. find_attempt db1 a = Some r \<and> at_lifecycle r = L_pending \<and> at_generation r = g \<and>
       isCardLatestAttempt db1 (at_card_id r) a) \<and>
    fst (appendFact redact sha t f policy resolver db2) \<noteq> Append_accepted s \<and>
    a \<notin> fst ` set (getEvaluationSchedule db2)"
proof -
  from deferred_state [OF ok res] have d: "leases_ok db1" "closed_lease db1 a"
    "\<exists>r. find_attempt db1 a = Some r \<and> at_lifecycle r = L_pending \<and> at_generation r = g \<and>
       isCardLatestAttempt db1 (at_card_id r) a" by auto
  from closed_lease_steps [OF steps d(1,2)] have "leases_ok db2" "closed_lease db2 a" by auto
  with closed_rejects [of db2 f] closed_unscheduled [of db2 a] f d(3) show ?thesis by simp
qed

section \<open>Witnesses\<close>

text \<open>A running project, card 1, with one child, card 7, and the child's attempt.\<close>

definition project_db :: "card_status \<Rightarrow> (attempt \<Rightarrow> attempt) \<Rightarrow> swarm_db" where
  "project_db st f = empty_db\<lparr> db_cards := [(default_card 1 ''p'' ''agent'' 0)\<lparr> k_type := Some ''O'', k_status := Running,
       k_max_tokens := Some 1000 \<rparr>, (default_card 7 ''w'' ''agent'' 0)\<lparr> k_type := Some ''W'', k_parent_id := Some 1, k_status := st \<rparr>],
     db_attempts := [f (sample_attempt ''a1'' 1 L_pending)] \<rparr>"

lemmas project_samples = project_db_def empty_db_def default_card_def sample_attempt_def

definition sample_claim :: claim_input where
  "sample_claim = \<lparr> lm_card_id = 7, lm_attempt_id = ''a1'', lm_contract_id = ''c1'', lm_executor_kind = Agent,
     lm_executor_id = ''spin-local'', lm_generation = 1, lm_executor_max = 2, lm_hard_deadline_at = Some 90000,
     lm_reserved_tokens = Some 400, lm_project_id = 1, lm_source_attempt_id = None \<rparr>"

lemma unsupervised [simp]: "db_supervision db = [] \<Longrightarrow> \<not> cardIsSupervisedProjectChild db c"
  by (simp add: cardIsSupervisedProjectChild_def find_supervision_def list_ex_iff split: option.split)

lemma project_unsupervised [simp]:
  "at_root_project_card_id a = None \<Longrightarrow> db_supervision db = [] \<Longrightarrow> authorizeAttemptForProjectWork db a = None"
  by (simp add: authorizeAttemptForProjectWork_def projectAuthorityForAttempt_def)

theorem claim_within_limits_witness:
  "\<exists>cl db'. claimAttemptWithinLimits 1000 sample_claim (project_db Queued (\<lambda>r. r)) = (Inr cl, db') \<and>
     int (getActiveAttemptCountForExecutor db' Agent ''spin-local'') \<le> 2"
proof -
  let ?db = "project_db Queued (\<lambda>r. r)"
  have keys: "attempt_keys ?db" by (simp add: attempt_keys_def project_samples)
  have "\<exists>cl. fst (claimAttemptWithinLimits 1000 sample_claim ?db) = Inr cl"
    by (simp add: claimAttemptWithinLimits_def claim_refused_def sample_claim_def project_samples find_attempt_def
        isCardLatestAttempt_def getLatestAttempt_def sql_last_by_def find_card_def find_supervision_def
        getActiveAttemptCountForExecutor_def holds_claim_def active_lifecycle_def budget_refusal_def
        getActiveReservedTokensForProject_def update_attempts_def sql_changes_def Let_def)
  then obtain cl db' where "claimAttemptWithinLimits 1000 sample_claim ?db = (Inr cl, db')"
    by (metis prod.collapse)
  with claim_within_limits [OF keys this] show ?thesis by (simp add: sample_claim_def)
qed

definition no_hook :: joint_hook where
  "no_hook sa db = Some db"

definition no_digest :: "json \<Rightarrow> string" where
  "no_digest j = []"

lemma no_hook_ok: "hook_ok no_hook" and no_hook_tokens: "hook_keeps_tokens no_hook"
  by (auto simp: hook_ok_def hook_keeps_tokens_def no_hook_def)

definition sample_settle :: settle_input where
  "sample_settle = \<lparr> st_attempt_id = ''a1'', st_expected_generation = 1, st_desired = D_completed, st_reason = ''ok'',
     st_usage = Some \<lparr> us_input = Some 100, us_output = Some 20, us_trustworthy = True \<rparr>, st_envelope = Some JNull,
     st_input_requested = False \<rparr>"

definition live_db :: swarm_db where
  "live_db = project_db Running (\<lambda>r. r\<lparr> at_lifecycle := L_running, at_reserved_tokens := 400 \<rparr>)"

lemma live_attempt: "find_attempt live_db ''a1'' = Some
    ((sample_attempt ''a1'' 1 L_running)\<lparr> at_reserved_tokens := 400 \<rparr>)"
  by (simp add: live_db_def project_samples find_attempt_def)

lemma live_settles: "fst (settleAttemptInTransaction no_hook no_digest 1000 sample_settle live_db) =
    settle_result Settled (Some L_completed) (Some 120)"
  by (simp add: settleAttemptInTransaction_def sample_settle_def live_db_def project_samples find_attempt_def
      isCardLatestAttempt_def getLatestAttempt_def sql_last_by_def isAttemptTerminal_def terminal_lifecycle_def
      settle_allowed_from_def holds_claim_def active_lifecycle_def charge_of_def valid_usage_def effective_state_def late_state_def)

theorem terminal_attempt_final_witness:
  "\<exists>r'. find_attempt (snd (timeoutAttempt 9000 ''a1'' (snd (settleAttemptInTransaction no_hook no_digest 1000 sample_settle live_db)))) ''a1'' = Some r' \<and>
     at_lifecycle r' = L_completed"
proof -
  let ?db = "snd (settleAttemptInTransaction no_hook no_digest 1000 sample_settle live_db)"
  let ?a = "(sample_attempt ''a1'' 1 L_running)\<lparr> at_reserved_tokens := 400 \<rparr>"
  have "find_attempt live_db (at_id ?a) = Some ?a" by (simp add: live_attempt sample_attempt_def)
  note f = find_attempt_settled [OF this]
  have e: "effective_state live_db 1000 ?a sample_settle = L_completed"
    by (simp add: effective_state_def late_state_def charge_of_def valid_usage_def sample_settle_def sample_attempt_def)
  have "find_attempt ?db ''a1'' = Some (settled_row 1000 sample_settle L_completed ?a)"
    using f [of no_digest 1000 sample_settle "''a1''"] e
  proof (cases no_hook no_digest "1000 :: int" sample_settle live_db rule: settle_cases)
    case (settled a)
    then have "a = ?a" by (simp add: live_attempt sample_settle_def)
    with settled f [of no_digest 1000 sample_settle "''a1''"] e show ?thesis
      by (simp add: joint_commit_def sample_attempt_def)
  qed (use live_settles live_attempt in \<open>auto simp: settle_result_def sample_settle_def sample_attempt_def terminal_lifecycle_def\<close>)
  moreover have "(attempt_step (\<lambda>s. s) no_digest no_hook)\<^sup>*\<^sup>* ?db (snd (timeoutAttempt 9000 ''a1'' ?db))"
    by (rule r_into_rtranclp) (rule attempt_step.timed_out)
  ultimately show ?thesis
    using terminal_attempt_final [OF _ no_hook_ok, of "\<lambda>s. s" no_digest ?db "snd (timeoutAttempt 9000 ''a1'' ?db)" "''a1''"]
    by (fastforce simp: terminal_lifecycle_def)
qed

theorem settlement_charges_exactly_witness:
  "tokens_of (snd (settleAttemptInTransaction no_hook no_digest 1000 sample_settle live_db)) 1 = 120"
proof -
  let ?db = "snd (settleAttemptInTransaction no_hook no_digest 1000 sample_settle live_db)"
  have f: "find_attempt live_db (st_attempt_id sample_settle) = Some ((sample_attempt ''a1'' 1 L_running)\<lparr> at_reserved_tokens := 400 \<rparr>)"
    by (simp add: live_attempt sample_settle_def)
  have r: "settleAttemptInTransaction no_hook no_digest 1000 sample_settle live_db =
      (settle_result Settled (Some L_completed) (Some 120), ?db)" by (simp flip: live_settles)
  show ?thesis
    using conjunct1 [OF settlement_charges_exactly [OF no_hook_tokens f r, simplified], THEN spec, of 1]
    by (simp add: tokens_of_def live_db_def project_samples find_card_def charged_card_def charged_project_def child_of_def)
qed

theorem completion_is_earned_witness:
  "authorizeAttemptForProjectWork live_db ((sample_attempt ''a1'' 1 L_running)\<lparr> at_reserved_tokens := 400 \<rparr>) = None"
proof -
  have "settleAttemptInTransaction no_hook no_digest 1000 sample_settle live_db =
      (settle_result Settled (Some L_completed) (Some 120),
       snd (settleAttemptInTransaction no_hook no_digest 1000 sample_settle live_db))" by (simp flip: live_settles)
  from completion_is_earned [OF this] live_attempt show ?thesis by (simp add: sample_settle_def)
qed

definition starting_db :: swarm_db where
  "starting_db = project_db Queued (\<lambda>r. r\<lparr> at_lifecycle := L_starting \<rparr>)"

theorem deferred_claim_loses_lease_witness:
  "\<exists>db1. deferClaimAfterProvenNoStart 1000 ''a1'' 1 Df_capacity starting_db = (Deferred, db1) \<and>
     fst (appendFact (\<lambda>s. s) (\<lambda>s. s) 9000 (sample_fact Alive no_payload) DEFAULT_LOCAL_POLICY None db1) \<noteq>
       Append_accepted sample_snapshot"
proof -
  have ok: "leases_ok starting_db"
    by (simp add: leases_ok_def lease_keys_def events_below_def starting_db_def project_samples)
  have "fst (deferClaimAfterProvenNoStart 1000 ''a1'' 1 Df_capacity starting_db) = Deferred"
    by (simp add: deferClaimAfterProvenNoStart_def starting_db_def project_samples find_attempt_def isCardLatestAttempt_def
        getLatestAttempt_def sql_last_by_def update_attempts_def sql_changes_def Let_def)
  then obtain db1 where d: "deferClaimAfterProvenNoStart 1000 ''a1'' 1 Df_capacity starting_db = (Deferred, db1)"
    by (metis prod.collapse)
  with deferred_claim_loses_lease [OF ok d rtranclp.rtrancl_refl, of "sample_fact Alive no_payload" "\<lambda>s. s" "\<lambda>s. s"]
  show ?thesis by (auto simp: sample_fact_def)
qed

section \<open>Contracts, results and reservations\<close>

text \<open>
  \<open>None\<close> is a constraint violation: of the primary key, of (card, revision), of (card, digest) or of
  the source attempt.
\<close>

definition contract_clash :: "contract \<Rightarrow> contract \<Rightarrow> bool" where
  "contract_clash ct r \<longleftrightarrow> ct_id r = ct_id ct \<or>
     ct_card_id r = ct_card_id ct \<and> (ct_revision r = ct_revision ct \<or> ct_digest r = ct_digest ct) \<or>
     ct_source_attempt_id r \<noteq> None \<and> ct_source_attempt_id r = ct_source_attempt_id ct"

definition insertContract :: "contract \<Rightarrow> swarm_db \<Rightarrow> swarm_db option" where
  "insertContract ct db = (if list_ex (contract_clash ct) (db_contracts db) then None
     else Some (db\<lparr> db_contracts := db_contracts db @ [ct] \<rparr>))"

text \<open>The revision fields come from \<open>revision_meta\<close> when the contract has one.\<close>

definition contract_row :: "string \<Rightarrow> json \<Rightarrow> string \<Rightarrow> int \<Rightarrow> (int \<times> string \<times> string option \<times> string option) option \<Rightarrow> contract" where
  "contract_row i j d c meta = \<lparr> ct_id = i, ct_card_id = c,
     ct_revision = (case meta of None \<Rightarrow> 1 | Some m \<Rightarrow> fst m),
     ct_root_contract_id = (case meta of None \<Rightarrow> i | Some m \<Rightarrow> fst (snd m)),
     ct_parent_contract_id = (case meta of None \<Rightarrow> None | Some m \<Rightarrow> fst (snd (snd m))),
     ct_source_attempt_id = (case meta of None \<Rightarrow> None | Some m \<Rightarrow> snd (snd (snd m))),
     ct_json = Some j, ct_digest = d \<rparr>"

definition getLatestContractForCard :: "swarm_db \<Rightarrow> int \<Rightarrow> contract option" where
  "getLatestContractForCard db c = sql_last_by ct_revision (\<lambda>r. ct_card_id r = c) (db_contracts db)"

definition contractExists :: "swarm_db \<Rightarrow> int \<Rightarrow> bool" where
  "contractExists db c = list_ex (\<lambda>r. ct_card_id r = c) (db_contracts db)"

definition getNextRevision :: "swarm_db \<Rightarrow> int \<Rightarrow> int" where
  "getNextRevision db c = (case getLatestContractForCard db c of None \<Rightarrow> 1 | Some r \<Rightarrow> ct_revision r + 1)"

definition insertResult :: "(json \<Rightarrow> string) \<Rightarrow> string \<Rightarrow> json \<Rightarrow> swarm_db \<Rightarrow> swarm_db option" where
  "insertResult digest a env db = (if find_result db a \<noteq> None then None
     else Some (db\<lparr> db_results := db_results db @ [\<lparr> re_attempt_id = a, re_envelope = env, re_digest = digest env \<rparr>] \<rparr>))"

datatype replay = Replay_none | Replay_conflict | Replay_result json

definition replayResult :: "swarm_db \<Rightarrow> string \<Rightarrow> string \<Rightarrow> replay" where
  "replayResult db a d = (case find_result db a of
     None \<Rightarrow> Replay_none
   | Some r \<Rightarrow> (if re_digest r \<noteq> d then Replay_conflict else Replay_result (re_envelope r)))"

definition cardHasSettledAttempts :: "swarm_db \<Rightarrow> int \<Rightarrow> bool" where
  "cardHasSettledAttempts db c = list_ex (\<lambda>r. at_card_id r = c \<and> (at_status r = ''settled'' \<or> at_status r = ''failed'')) (db_attempts db)"

text \<open>The source is the primary key and the target is unique.\<close>

definition insertReservation :: "int \<Rightarrow> string \<Rightarrow> string \<Rightarrow> int \<Rightarrow> int \<Rightarrow> int \<Rightarrow> swarm_db \<Rightarrow> bool \<times> swarm_db" where
  "insertReservation now src target tokens cost switches db =
     (if list_ex (\<lambda>s. rs_source_attempt_id s = src \<or> rs_target_attempt_id s = target) (db_reservations db)
      then (False, db)
      else (True, db\<lparr> db_reservations := db_reservations db @ [\<lparr> rs_source_attempt_id = src,
        rs_target_attempt_id = target, rs_tokens = tokens, rs_cost = cost, rs_switches = switches,
        rs_status = Rs_active, rs_updated_at = now \<rparr>] \<rparr>))"

definition getReservation :: "swarm_db \<Rightarrow> string \<Rightarrow> reservation option" where
  "getReservation db src = sql_first (\<lambda>s. rs_source_attempt_id s = src) (db_reservations db)"

definition updateReservationStatus :: "int \<Rightarrow> string \<Rightarrow> reservation_status \<Rightarrow> swarm_db \<Rightarrow> bool \<times> swarm_db" where
  "updateReservationStatus now src st db =
     (let (n, db1) = update_reservations (\<lambda>s. rs_source_attempt_id s = src)
            (\<lambda>s. s\<lparr> rs_status := st, rs_updated_at := now \<rparr>) db
      in (n > 0, db1))"

definition getActiveReservationsForCard :: "swarm_db \<Rightarrow> int \<Rightarrow> reservation list" where
  "getActiveReservationsForCard db c = filter
     (\<lambda>s. list_ex (\<lambda>r. at_card_id r = c \<and> at_id r = rs_source_attempt_id s) (db_attempts db) \<and>
          (rs_status s = Rs_active \<or> rs_status s = Rs_claimed)) (db_reservations db)"

definition getExecutorResourceBinding :: "swarm_db \<Rightarrow> string \<Rightarrow> (string \<times> int \<times> string) option" where
  "getExecutorResourceBinding db a = (case find_attempt db a of
     None \<Rightarrow> None
   | Some r \<Rightarrow>
       (case (at_resource_id r, at_resource_generation r) of
          (Some i, Some g) \<Rightarrow> Some (i, g, if at_continuity r = Some ''resumed'' then ''resumed''
             else if at_continuity r = Some ''fresh'' then ''fresh'' else ''initial'')
        | _ \<Rightarrow> None))"

section \<open>Bindings are exclusive\<close>

text \<open>Two attempts never own the same resource generation of a kind.\<close>

definition same_resource :: "attempt \<Rightarrow> attempt \<Rightarrow> bool" where
  "same_resource r s \<longleftrightarrow> at_executor_kind r = at_executor_kind s \<and>
     at_resource_id r \<noteq> None \<and> at_resource_id r = at_resource_id s \<and>
     at_resource_generation r \<noteq> None \<and> at_resource_generation r = at_resource_generation s"

definition bindings_ok :: "swarm_db \<Rightarrow> bool" where
  "bindings_ok db \<longleftrightarrow> attempt_keys db \<and> (\<forall>r \<in> set (db_attempts db). \<forall>s \<in> set (db_attempts db).
     same_resource r s \<longrightarrow> at_id r = at_id s)"

definition bound_row :: "resource_binding \<Rightarrow> attempt \<Rightarrow> attempt" where
  "bound_row b r = r\<lparr> at_resource_id := Some (rb_resource_id b),
     at_resource_generation := Some (rb_resource_generation b), at_continuity := Some (rb_continuity b) \<rparr>"

definition owns :: "resource_binding \<Rightarrow> attempt \<Rightarrow> bool" where
  "owns b r \<longleftrightarrow> at_executor_kind r = rb_executor_kind b \<and> at_resource_id r = Some (rb_resource_id b) \<and>
     at_resource_generation r = Some (rb_resource_generation b)"

lemma bind_cases:
  obtains (none) r where "bindExecutorResource b db = (r, db)" "r \<noteq> Some Bound" "r \<noteq> Some Bind_idempotent"
  | (same) a where "bindExecutorResource b db = (Some Bind_idempotent, db)" "find_attempt db (rb_attempt_id b) = Some a" "owns b a"
  | (wrote) a p where "find_attempt db (rb_attempt_id b) = Some a" "at_executor_kind a = rb_executor_kind b"
    "at_resource_id a = None \<or> at_resource_generation a = None"
    "\<And>r. p r \<longleftrightarrow> at_id r = rb_attempt_id b \<and> at_generation r = rb_expected_generation b \<and>
       (at_lifecycle r = L_claimed \<or> at_lifecycle r = L_starting) \<and> at_resource_id r = None"
    "sql_changes p (db_attempts db) > 0 \<longrightarrow> \<not> list_ex (\<lambda>r. at_id r \<noteq> rb_attempt_id b \<and> owns b r) (db_attempts db)"
    "bindExecutorResource b db = (Some (if sql_changes p (db_attempts db) = 1 then Bound else Bind_conflict),
       snd (update_attempts p (bound_row b) db))"
proof (cases "find_attempt db (rb_attempt_id b)")
  case None
  then show thesis by (intro none [of "Some Bind_stale"]) (simp_all add: bindExecutorResource_def)
next
  case (Some a)
  let ?p = "\<lambda>r. at_id r = rb_attempt_id b \<and> at_generation r = rb_expected_generation b \<and>
       (at_lifecycle r = L_claimed \<or> at_lifecycle r = L_starting) \<and> at_resource_id r = None"
  note def = bindExecutorResource_def Some
  let ?fresh = "at_resource_id a = None \<or> at_resource_generation a = None"
  consider (stale) "at_generation a \<noteq> rb_expected_generation b \<or> at_executor_kind a \<noteq> rb_executor_kind b \<or>
      at_lifecycle a \<noteq> L_claimed \<and> at_lifecycle a \<noteq> L_starting \<or>
      (?fresh \<and> authorizeAttemptForProjectWork db a \<noteq> None) \<or> (\<not> ?fresh \<and> \<not> owns b a)"
    | (mine) "at_generation a = rb_expected_generation b" "at_executor_kind a = rb_executor_kind b"
      "at_lifecycle a = L_claimed \<or> at_lifecycle a = L_starting" "\<not> ?fresh" "owns b a"
    | (go) "at_generation a = rb_expected_generation b" "at_executor_kind a = rb_executor_kind b"
      "at_lifecycle a = L_claimed \<or> at_lifecycle a = L_starting" "?fresh" "authorizeAttemptForProjectWork db a = None"
    by argo
  then show thesis
  proof cases
    case stale
    then have "\<exists>r. bindExecutorResource b db = (Some r, db) \<and> r \<noteq> Bound \<and> r \<noteq> Bind_idempotent"
      by (auto simp: def owns_def)
    then show thesis using none by blast
  next
    case mine
    then show thesis using Some by (intro same [of a]) (auto simp: def owns_def)
  next
    case go
    then have "bindExecutorResource b db =
       (if sql_changes ?p (db_attempts db) > 0 \<and> list_ex (\<lambda>r. at_id r \<noteq> rb_attempt_id b \<and> owns b r) (db_attempts db)
        then (None, db) else (Some (if sql_changes ?p (db_attempts db) = 1 then Bound else Bind_conflict),
          snd (update_attempts ?p (bound_row b) db)))"
    proof -
      have e: "(at_resource_id a \<noteq> None \<and> at_resource_generation a \<noteq> None) = False" using go(4) by argo
      have l: "(at_lifecycle a \<noteq> L_claimed \<and> at_lifecycle a \<noteq> L_starting) = False" using go(3) by argo
      show ?thesis
        unfolding bindExecutorResource_def Some option.case e l if_False go(1,2,5) owns_def bound_row_def [abs_def]
          update_attempts_def Let_def prod.case snd_conv by simp
    qed
    then have eq: "bindExecutorResource b db =
       (if sql_changes ?p (db_attempts db) > 0 \<and> list_ex (\<lambda>r. at_id r \<noteq> rb_attempt_id b \<and> owns b r) (db_attempts db)
        then (None, db) else (Some (if sql_changes ?p (db_attempts db) = 1 then Bound else Bind_conflict),
          snd (update_attempts ?p (bound_row b) db)))" .
    show thesis
    proof (cases "sql_changes ?p (db_attempts db) > 0 \<and> list_ex (\<lambda>r. at_id r \<noteq> rb_attempt_id b \<and> owns b r) (db_attempts db)")
      case True
      with eq have "bindExecutorResource b db = (None, db)" by (simp only: if_True HOL.simp_thms)
      then show thesis by (rule none) simp_all
    next
      case False
      with eq have "bindExecutorResource b db = (Some (if sql_changes ?p (db_attempts db) = 1 then Bound else Bind_conflict),
          snd (update_attempts ?p (bound_row b) db))" by (simp only: if_False HOL.simp_thms)
      with False go Some show thesis by (intro wrote [of a ?p]) blast+
    qed
  qed
qed

text \<open>
  C37: a runtime resource serves one attempt: whatever is bound, no two attempts own the same
  resource generation of a kind; a bind that reports success leaves the resource with its attempt,
  and a resource already bound is never exchanged for another.
\<close>

theorem bind_is_exclusive:
  assumes ok: "bindings_ok db" and res: "bindExecutorResource b db = (out, db')"
  shows "bindings_ok db' \<and>
    (out = Some Bound \<or> out = Some Bind_idempotent \<longrightarrow>
       (\<exists>r. find_attempt db' (rb_attempt_id b) = Some r \<and> owns b r)) \<and>
    (\<forall>a r. find_attempt db a = Some r \<longrightarrow> at_resource_id r \<noteq> None \<longrightarrow> find_attempt db' a = Some r)"
proof (cases b db rule: bind_cases)
  case (none r)
  with ok res show ?thesis by auto
next
  case (same a)
  with ok res show ?thesis by auto
next
  case (wrote a p)
  have keys: "attempt_keys db" using ok by (simp add: bindings_ok_def)
  have db': "db' = snd (update_attempts p (bound_row b) db)" using res wrote(6) by simp
  have idb: "at_id (bound_row b r) = at_id r" for r by (simp add: bound_row_def)
  note found = find_attempt_update [of "bound_row b", OF idb]
  have u: "r = a" if "r \<in> set (db_attempts db)" "at_id r = rb_attempt_id b" for r
    using keys find_attemptD [OF wrote(1)] that unfolding attempt_keys_def distinct_map inj_on_def by metis
  have rows: "set (db_attempts db') = (\<lambda>r. if p r then bound_row b r else r) ` set (db_attempts db)"
    by (simp add: db' update_attempts_def sql_update_def)
  have alone: "\<not> same_resource (bound_row b r) s \<and> \<not> same_resource s (bound_row b r)"
    if "r \<in> set (db_attempts db)" "s \<in> set (db_attempts db)" "p r" "\<not> p s" for r s
  proof -
    have "sql_changes p (db_attempts db) > 0"
      using that(1,3) by (auto simp: sql_changes_def filter_empty_conv)
    with wrote(5) that(2) have s: "at_id s \<noteq> rb_attempt_id b \<longrightarrow> \<not> owns b s" by (auto simp: list_ex_iff)
    have r: "r = a" using u [OF that(1)] that(3) wrote(4) by blast
    then have "at_id s \<noteq> rb_attempt_id b" using u [OF that(2)] that(3,4) by blast
    with s r wrote(2) show ?thesis by (auto simp: same_resource_def owns_def bound_row_def)
  qed
  have "at_id r' = at_id s'" if "r' \<in> set (db_attempts db')" "s' \<in> set (db_attempts db')" "same_resource r' s'" for r' s'
  proof -
    from that(1,2) obtain r s where rs: "r \<in> set (db_attempts db)" "s \<in> set (db_attempts db)"
      and r': "r' = (if p r then bound_row b r else r)" and s': "s' = (if p s then bound_row b s else s)"
      unfolding rows by blast
    show ?thesis
    proof (cases "p r = p s")
      case True
      then show ?thesis using rs that(3) ok wrote(4) by (auto simp: r' s' idb bindings_ok_def split: if_splits)
    next
      case False
      with alone [OF rs] alone [OF rs(2,1)] that(3) show ?thesis by (auto simp: r' s' split: if_splits)
    qed
  qed
  moreover have "attempt_keys db'" using keys attempt_keys_update [OF idb] by (simp add: db')
  moreover have "\<exists>r. find_attempt db' (rb_attempt_id b) = Some r \<and> owns b r" if "out = Some Bound"
  proof -
    have "sql_changes p (db_attempts db) = 1" using that res wrote(6) by (auto split: if_splits)
    then have "filter p (db_attempts db) \<noteq> []" by (auto simp: sql_changes_def)
    then obtain r where "r \<in> set (db_attempts db)" "p r" unfolding filter_empty_conv by blast
    then have "p a" using u [of r] wrote(4) by simp
    then show ?thesis using wrote(1,2) by (auto simp: db' found owns_def bound_row_def)
  qed
  moreover have "out \<noteq> Some Bind_idempotent" using res wrote(6) by (auto split: if_splits)
  ultimately show ?thesis by (auto simp: bindings_ok_def db' found wrote(4))
qed

definition sample_binding :: resource_binding where
  "sample_binding = \<lparr> rb_attempt_id = ''a1'', rb_expected_generation = 1, rb_executor_kind = Agent,
     rb_resource_id = ''session-9'', rb_resource_generation = 3, rb_continuity = ''initial'' \<rparr>"

theorem bind_is_exclusive_witness:
  "\<exists>r. find_attempt (snd (bindExecutorResource sample_binding starting_db)) ''a1'' = Some r \<and> owns sample_binding r"
proof -
  have ok: "bindings_ok starting_db"
    by (simp add: bindings_ok_def attempt_keys_def starting_db_def project_samples same_resource_def)
  have "fst (bindExecutorResource sample_binding starting_db) = Some Bound"
    by (simp add: bindExecutorResource_def sample_binding_def starting_db_def project_samples find_attempt_def
        update_attempts_def sql_changes_def Let_def)
  then obtain db' where "bindExecutorResource sample_binding starting_db = (Some Bound, db')"
    by (metis prod.collapse)
  with bind_is_exclusive [OF ok this] show ?thesis by (simp add: sample_binding_def)
qed

end
