(* ===== verification/LeaseReconciler.thy ===== *)
theory LeaseReconciler
  imports Attempts
begin

text \<open>
  \<open>src/src/components/executor-lease-reconciler.ts\<close>: what the service does with the decision on a
  due lease. The two adapter calls are asynchronous: \<open>evaluateAndAct\<close> returns the calls it started
  as effects, and the continuations of \<open>adapter.inspect\<close> are operations of their own
  (\<open>inspection_fulfilled\<close>, \<open>inspection_rejected\<close>) that run at any later time on whatever the database
  is then. \<open>resolve\<close> says whether an executor has an adapter, \<open>hooked\<close> whether the terminal
  notification hook is installed.
\<close>

section \<open>Operations\<close>

datatype cancel_reason = Cancel_operator | Cancel_deadline | Cancel_project_abort | Cancel_shutdown
  | Cancel_superseded | Cancel_session_end

datatype lease_effect =
  Inspect_started attempt int
| Cancel_sent attempt cancel_reason
| Terminal_notified int string int

definition gen_or_1 :: "int \<Rightarrow> int" where
  "gen_or_1 g = (if g = 0 then 1 else g)"

definition notifyIfTerminal :: "bool \<Rightarrow> swarm_db \<Rightarrow> int \<Rightarrow> string \<Rightarrow> int \<Rightarrow> lease_effect list" where
  "notifyIfTerminal hooked db c a g =
     (if \<not> hooked then []
      else case getLatestAttempt db c of
        None \<Rightarrow> []
      | Some l \<Rightarrow>
          (if at_id l \<noteq> a then []
           else if gen_or_1 (at_generation l) \<noteq> gen_or_1 g then []
           else if \<not> isAttemptTerminal (at_lifecycle l) then []
           else [Terminal_notified c (at_id l) (gen_or_1 (at_generation l))]))"

type_synonym adapters = "executor_kind \<Rightarrow> string \<Rightarrow> bool"

text \<open>The version stays the one the evaluation read: the continuation of a rejected call uses it.\<close>

definition performInspection :: "adapters \<Rightarrow> int \<Rightarrow> snapshot \<Rightarrow> string \<Rightarrow> int \<Rightarrow> swarm_db \<Rightarrow> swarm_db \<times> lease_effect list" where
  "performInspection resolve now s a v db =
     (if ev_phase (sn_evaluation s) = Inspecting then (db, [])
      else
        (let (won, db1) = updateEvaluation now a Inspecting (Some v) None db
         in if \<not> won then (db1, [])
            else case find_attempt db1 a of
              None \<Rightarrow> (db1, [])
            | Some r \<Rightarrow>
                (if \<not> resolve (at_executor_kind r) (at_executor_id r)
                 then (snd (updateEvaluation now a Inspect_due None None db1), [])
                 else (db1, [Inspect_started r v]))))"

definition deadline_settlement :: "string \<Rightarrow> int \<Rightarrow> settle_input" where
  "deadline_settlement a g = \<lparr> st_attempt_id = a, st_expected_generation = gen_or_1 g, st_desired = D_timed_out,
     st_reason = ''hard_deadline_expired'', st_usage = None, st_envelope = None, st_input_requested = False \<rparr>"

definition performCancellation ::
    "joint_hook \<Rightarrow> (json \<Rightarrow> string) \<Rightarrow> bool \<Rightarrow> adapters \<Rightarrow> int \<Rightarrow> string \<Rightarrow> int \<Rightarrow> lease_reason \<Rightarrow> int \<Rightarrow> swarm_db \<Rightarrow>
       swarm_db \<times> lease_effect list" where
  "performCancellation joint digest hooked resolve now a c why v db = (case find_attempt db a of
     None \<Rightarrow> (db, [])
   | Some r \<Rightarrow>
       (let (committed, db1) = recordCancelIntent now a why (at_generation r) v db
        in if \<not> committed then (db1, [])
           else if why = Hard_deadline then
             (let db2 = snd (settleAttemptInTransaction joint digest now (deadline_settlement a (at_generation r)) db1)
              in (db2, notifyIfTerminal hooked db2 c a (gen_or_1 (at_generation r))))
           else if \<not> resolve (at_executor_kind r) (at_executor_id r)
             then (db1, notifyIfTerminal hooked db1 c a (gen_or_1 (at_generation r)))
           else (db1, [Cancel_sent r Cancel_operator])))"

definition evaluateAndAct ::
    "joint_hook \<Rightarrow> (json \<Rightarrow> string) \<Rightarrow> bool \<Rightarrow> adapters \<Rightarrow> lease_policy \<Rightarrow> int \<Rightarrow> string \<Rightarrow> int \<Rightarrow> swarm_db \<Rightarrow>
       swarm_db \<times> lease_effect list" where
  "evaluateAndAct joint digest hooked resolve policy now a c db = (case getSnapshot db a of
     None \<Rightarrow> (db, [])
   | Some s \<Rightarrow>
       (if sn_closed_at s \<noteq> None \<or> ev_phase (sn_evaluation s) = Closed \<or> ev_phase (sn_evaluation s) = Cancel_requested
        then (db, [])
        else case find_attempt db a of
          None \<Rightarrow> (db, [])
        | Some r \<Rightarrow>
            (let d = evaluateLease s now policy (at_hard_deadline_at r); v = sn_state_version s;
                 rearm_at = (\<lambda>x. case ld_next_at d of None \<Rightarrow> x | Some t \<Rightarrow> setUpcomingEvaluation now a (At t) x)
             in case ld_action d of
                  La_healthy \<Rightarrow>
                    (rearm_at (if ev_phase (sn_evaluation s) \<noteq> Healthy
                               then snd (updateEvaluation now a Healthy (Some v) None db) else db), [])
                | La_warning \<Rightarrow>
                    (rearm_at (if ev_phase (sn_evaluation s) \<noteq> Warning
                               then snd (updateEvaluation now a Warning (Some v) None db) else db), [])
                | La_inspect \<Rightarrow> performInspection resolve now s a v db
                | La_cancel \<Rightarrow> performCancellation joint digest hooked resolve now a c
                    (orelse (ld_reason d) Liveness_expired) v db
                | La_closed \<Rightarrow> (db, []))))"

text \<open>The continuations of \<open>adapter.inspect\<close>; \<open>r\<close> and \<open>v\<close> are what the closure captured.\<close>

datatype execution_observation = Obs_running | Obs_terminal | Obs_unknown

definition inspection_fulfilled :: "lease_policy \<Rightarrow> int \<Rightarrow> attempt \<Rightarrow> execution_observation \<Rightarrow> swarm_db \<Rightarrow> swarm_db" where
  "inspection_fulfilled policy now r obs db = (case getSnapshot db (at_id r) of
     None \<Rightarrow> db
   | Some s \<Rightarrow>
       (if sn_closed_at s \<noteq> None then db
        else if obs = Obs_terminal
          then snd (closeLease now (at_id r) (at_generation r) ''inspection_terminal'' db)
        else
          (let u = applyInspectionOutcome s (if obs = Obs_running then Insp_running else Insp_unknown) now policy
                 (at_hard_deadline_at r);
               (won, db1) = updateEvaluation now (at_id r) (ev_phase (sn_evaluation u)) (Some (sn_state_version s))
                 (sn_next_evaluation_at u) db
           in if won \<and> sn_closed_at u \<noteq> None
              then snd (closeLease now (at_id r) (at_generation r) (orelse (sn_close_reason u) ''inspection_complete'') db1)
              else db1)))"

definition inspection_rejected :: "int \<Rightarrow> attempt \<Rightarrow> int \<Rightarrow> swarm_db \<Rightarrow> swarm_db" where
  "inspection_rejected now r v db = snd (updateEvaluation now (at_id r) Inspect_due (Some v) None db)"

text \<open>The continuations of \<open>adapter.cancel\<close>, fulfilled or rejected alike.\<close>

definition cancellation_finished :: "bool \<Rightarrow> swarm_db \<Rightarrow> int \<Rightarrow> attempt \<Rightarrow> lease_effect list" where
  "cancellation_finished hooked db c r = notifyIfTerminal hooked db c (at_id r) (gen_or_1 (at_generation r))"

section \<open>The hard deadline\<close>

lemma hard_deadline_decision:
  assumes "ev_phase (sn_evaluation s) \<noteq> Closed" "ev_phase (sn_evaluation s) \<noteq> Cancel_requested" "sn_closed_at s = None"
    and "ev_reason (sn_evaluation s) \<noteq> Some Inspection_unknown_exhausted" "h \<le> now"
  shows "evaluateLease s now policy (Some h) = decide La_cancel (Some Hard_deadline) None"
  using assms by (simp add: evaluateLease_def Let_def)

text \<open>
  C26: a hard deadline ends the attempt: evaluating the open lease of a live latest attempt once its
  hard deadline has passed records the cancellation and settles the attempt as timed out, in one
  call, whatever the executor reports and whether or not it has an adapter.
\<close>

theorem hard_deadline_times_out:
  assumes ok: "leases_ok db" and keys: "attempt_keys db" and hook: "hook_ok joint"
    and l: "find_lease db a = Some l" "ls_closed_at l = None"
      "ev_phase (sn_evaluation (ls_snapshot l)) \<noteq> Closed" "ev_phase (sn_evaluation (ls_snapshot l)) \<noteq> Cancel_requested"
      "ev_reason (sn_evaluation (ls_snapshot l)) \<noteq> Some Inspection_unknown_exhausted"
    and r: "find_attempt db a = Some r" "active_lifecycle (at_lifecycle r)" "isCardLatestAttempt db (at_card_id r) a"
      "at_generation r \<noteq> 0" "at_hard_deadline_at r = Some h" and late: "h \<le> now"
  shows "\<exists>r'. find_attempt (fst (evaluateAndAct joint digest hooked resolve policy now a c db)) a = Some r' \<and>
    at_lifecycle r' = L_timed_out"
proof -
  let ?s = "ls_snapshot l"
  let ?i = "deadline_settlement a (at_generation r)"
  let ?req = "\<lambda>x. x\<lparr> at_lifecycle := L_cancel_requested, at_cancel_reason := Some (''lease:'' @ reason_name Hard_deadline) \<rparr>"
  let ?db1 = "snd (recordCancelIntent now a Hard_deadline (at_generation r) (sn_state_version ?s) db)"
  have lk: "lease_keys db" and lock: "lockstep l" using ok leases_ok_lockstep [OF ok l(1)] by (simp_all add: leases_ok_def)
  have s: "getSnapshot db a = Some ?s" "sn_closed_at ?s = None" "ls_state_version l = sn_state_version ?s"
    using l lock by (simp_all add: getSnapshot_def lockstep_def)
  have target: "cancel_target a (at_generation r) r" using r find_attemptD [OF r(1)] by (simp add: cancel_target_def)
  then have "sql_changes (cancel_target a (at_generation r)) (db_attempts db) \<noteq> 0"
    using find_attemptD [OF r(1)] by (auto simp: sql_changes_def filter_empty_conv)
  then have rec: "recordCancelIntent now a Hard_deadline (at_generation r) (sn_state_version ?s) db = (True, ?db1)"
    and rows: "db_attempts ?db1 = sql_update (cancel_target a (at_generation r)) ?req (db_attempts db)"
    unfolding recordCancelIntent_eq [OF lk l(1)] by (simp_all add: s cancelled_attempts_def)
  have "find_attempt ?db1 a = map_option (\<lambda>x. if cancel_target a (at_generation r) x then ?req x else x) (find_attempt db a)"
    unfolding find_attempt_def rows by (rule sql_first_update) simp
  with r target have r1: "find_attempt ?db1 a = Some (?req r)" by simp
  have "isCardLatestAttempt ?db1 k a = isCardLatestAttempt db k a" for k
    unfolding isCardLatestAttempt_def getLatestAttempt_def rows
    by (cases "sql_last_by at_ordinal (\<lambda>r. at_card_id r = k) (db_attempts db)") (simp_all add: sql_last_by_update)
  with r have latest: "isCardLatestAttempt ?db1 (at_card_id (?req r)) a" by simp
  let ?db2 = "snd (settleAttemptInTransaction joint digest now ?i ?db1)"
  have ended: "\<exists>r'. find_attempt ?db2 a = Some r' \<and> at_lifecycle r' = L_timed_out"
  proof -
    have i: "st_attempt_id ?i = a" "st_expected_generation ?i = at_generation r" "st_desired ?i = D_timed_out"
      "st_input_requested ?i = False" using r by (simp_all add: deadline_settlement_def gen_or_1_def)
    have eff: "effective_state ?db1 now x ?i = L_timed_out" for x
      by (simp add: effective_state_def late_state_def i)
    have w: "?db2 = joint_commit joint (?req r) L_timed_out (st_reason ?i) (settle_writes digest now ?i (?req r) ?db1)"
      by (simp add: settleAttemptInTransaction_def i r1 latest [simplified] isAttemptTerminal_def terminal_lifecycle_def
          settle_allowed_from_def holds_claim_def case_prod_unfold Let_def eff)
    have at: "at_id (?req r) = a" using find_attemptD [OF r(1)] by simp
    have "find_attempt (settle_writes digest now ?i (?req r) ?db1) a = Some (settled_row now ?i L_timed_out (?req r))"
      using find_attempt_settled [of ?db1 "?req r" digest now ?i a] r1 at by (simp add: eff)
    then show ?thesis
      unfolding w by (rule evolves_terminal [OF evolves_joint [OF hook]]) (auto simp: terminal_lifecycle_def)
  qed
  have "evaluateAndAct joint digest hooked resolve policy now a c db =
      performCancellation joint digest hooked resolve now a c Hard_deadline (sn_state_version ?s) db"
    using l s r by (simp add: evaluateAndAct_def hard_deadline_decision [OF l(3,4) s(2) l(5) late] Let_def orelse_def)
  moreover have "fst (performCancellation joint digest hooked resolve now a c Hard_deadline (sn_state_version ?s) db) = ?db2"
    unfolding performCancellation_def r(1) option.case by (subst rec) (simp add: Let_def)
  ultimately show ?thesis using ended by simp
qed


section \<open>What inspections leave behind\<close>

text \<open>
  \<open>updateEvaluation\<close> stores a phase and an instant only: the inspection count, the last outcome and
  the grace deadline that \<open>applyInspectionOutcome\<close> computes are never written.
\<close>

definition uninspected :: "snapshot \<Rightarrow> bool" where
  "uninspected s \<longleftrightarrow> ev_inspection_count (sn_evaluation s) = 0 \<and> ev_last_outcome (sn_evaluation s) = None \<and>
     ev_grace_deadline_at (sn_evaluation s) = None"

definition all_uninspected :: "swarm_db \<Rightarrow> bool" where
  "all_uninspected db \<longleftrightarrow> (\<forall>l \<in> set (db_leases db). uninspected (ls_snapshot l))"

lemma uninspected_ops [simp]:
  "uninspected (evaluated now phase nextAt v s) = uninspected s"
  "uninspected (cancel_requested now why v s) = uninspected s"
  "uninspected (close_snapshot now y s) = uninspected s"
  "uninspected (advance_sequence s) = uninspected s"
  "uninspected (s\<lparr> sn_next_evaluation_at := x, sn_updated_at := now \<rparr>) = uninspected s"
  "uninspected (s\<lparr> sn_high_water_sequence := n \<rparr>) = uninspected s"
  "uninspected (blank_closed a g now y)"
  "uninspected (createInitialSnapshot sha f c p now h)"
  by (simp_all add: uninspected_def evaluated_def cancel_requested_def close_snapshot_def advance_sequence_def
      blank_closed_def createInitialSnapshot_def Let_def)

lemma uninspected_reduce [simp]: "uninspected (reduceFact sha s f p now h resolver) = uninspected s"
  using same_lease_reduceFact [of s sha f p now h resolver] by (simp add: uninspected_def same_lease_def)

lemma uninspected_next:
  "next_snapshot sha p now resolver sf a row = Some s \<Longrightarrow> (\<And>l. row = Some l \<Longrightarrow> uninspected (ls_snapshot l)) \<Longrightarrow> uninspected s"
  by (auto simp: next_snapshot_def split: option.splits if_splits)

lemma uninspected_closing:
  "closing_snapshot a g now y row = Some s \<Longrightarrow> (\<And>l. row = Some l \<Longrightarrow> uninspected (ls_snapshot l)) \<Longrightarrow> uninspected s"
  by (auto simp: closing_snapshot_def split: option.splits if_splits)

lemma all_uninspected_cong: "db_leases d' = db_leases d \<Longrightarrow> all_uninspected d' = all_uninspected d"
  by (simp add: all_uninspected_def)

lemma all_uninspected_replace: "all_uninspected db \<Longrightarrow> uninspected s \<Longrightarrow> all_uninspected (replace_lease s db)"
  by (auto simp: all_uninspected_def replace_lease_def)

lemma all_uninspected_update:
  "all_uninspected db \<Longrightarrow> (\<And>r. uninspected (ls_snapshot (f r))) \<Longrightarrow>
   all_uninspected (snd (update_lease a v f db))"
  by (auto simp: all_uninspected_def update_lease_def sql_update_def Let_def)

lemma uninspected_found: "all_uninspected db \<Longrightarrow> find_lease db a = Some l \<Longrightarrow> uninspected (ls_snapshot l)"
  using find_leaseD by (fastforce simp: all_uninspected_def)

lemma uninspected_step:
  assumes "lease_step redact sha db db'" and all: "all_uninspected db"
  shows "all_uninspected db'"
  using assms(1)
proof cases
  case (append now f policy resolver)
  show ?thesis
  proof (cases "\<exists>s. fst (appendFact redact sha now f policy resolver db) = Append_accepted s")
    case True
    then obtain s where eq: "appendFact redact sha now f policy resolver db = (Append_accepted s, db')"
      using append by (metis prod.collapse)
    from appendFact_accepted [OF eq] obtain sf a where
      s: "next_snapshot sha policy now resolver sf a (find_lease db (f_attempt_id f)) = Some s" and
      db': "db' = record_fact sha now f sf s db" by metis
    have "uninspected s" using uninspected_next [OF s] uninspected_found [OF all] by blast
    with all all_uninspected_replace [of db s] all_uninspected_cong [of db' "replace_lease s db"]
    show ?thesis by (simp add: db' record_fact_def)
  next
    case False
    then show ?thesis using append all appendFact_other by metis
  qed
next
  case (close now a g why)
  then obtain r where eq: "closeLease now a g why db = (r, db')" by (cases "closeLease now a g why db") simp
  from eq show ?thesis
  proof (cases rule: closeLease_cases)
    case (2 at s)
    have "uninspected s" using uninspected_closing [OF 2(5)] uninspected_found [OF all] by blast
    with all all_uninspected_replace [of db s] all_uninspected_cong [of db' "replace_lease s db"]
    show ?thesis by (simp add: 2(6))
  qed (use all in simp)
next
  case (evaluate now a phase expected nextAt)
  show ?thesis
    unfolding evaluate updateEvaluation_def
    using all uninspected_found [OF all] all_uninspected_cong [of "lease_changed c d" d for c d]
    by (auto simp: Let_def case_prod_unfold intro!: all_uninspected_update split: option.split)
next
  case (cancel now a why g v)
  have "all_uninspected (snd (update_attempts p f db))" for p f
    using all all_uninspected_cong [of "snd (update_attempts p f db)" db] by (simp add: update_attempts_def)
  then show ?thesis
    unfolding cancel recordCancelIntent_def
    using all uninspected_found [OF all]
    by (auto simp: Let_def case_prod_unfold intro!: all_uninspected_update split: option.split)
next
  case (upcoming now a t)
  show ?thesis
    unfolding upcoming setUpcomingEvaluation_def
    using all uninspected_found [OF all]
    by (auto intro!: all_uninspected_update split: option.split)
qed (use all in \<open>simp add: all_uninspected_def\<close>)

text \<open>
  inspection evidence is lost: however facts, inspections and evaluations interleave on a store
  that starts without inspections, the stored leases never count one; hence the limit on unknown
  inspections never decides a cancellation, and an expired lease in its inspection grace is
  cancelled at the next evaluation, before the grace that was granted has run out.
\<close>

theorem inspection_evidence_lost:
  assumes steps: "(lease_step redact sha)\<^sup>*\<^sup>* db db'" and start: "all_uninspected db"
    and l: "find_lease db' a = Some l" and limit: "1 \<le> lp_max_unknown_inspections policy"
  shows "(ev_phase (sn_evaluation (ls_snapshot l)) \<noteq> Cancel_requested \<longrightarrow>
       ld_reason (evaluateLease (ls_snapshot l) now policy hard) \<noteq> Some Inspection_unknown_exhausted) \<and>
    (ev_phase (sn_evaluation (ls_snapshot l)) = Inspect_grace \<longrightarrow>
       escalate (ls_snapshot l) now why = decide La_cancel (Some why) None)"
proof -
  from steps start have "all_uninspected db'"
    by (induction rule: rtranclp_induct) (auto intro: uninspected_step)
  then have u: "uninspected (ls_snapshot l)" by (rule uninspected_found) (rule l)
  have e: "ld_reason (escalate s now x) \<in> {None, Some x}" for s x
    by (cases "ev_phase (sn_evaluation s)") (simp_all add: escalate_def Let_def)
  have d: "ld_reason (evaluate_deadlines (ls_snapshot l) now policy hard) \<noteq> Some Inspection_unknown_exhausted"
    using e [of "ls_snapshot l" Progress_expired] e [of "ls_snapshot l" Liveness_expired]
    by (auto simp: evaluate_deadlines_def Let_def)
  show ?thesis
    using u limit d
    by (auto simp: evaluateLease_def uninspected_def escalate_def Let_def orelse_def split: option.split)
qed

text \<open>
  A rejected inspection is never retried: after \<open>adapter.inspect\<close> was started and rejects, the
  lease stays in phase inspecting, since the rejection compares a version that starting the
  inspection itself has advanced; and as long as no other write intervenes every later evaluation
  that would inspect does nothing at all.
\<close>

theorem rejected_inspection_sticks:
  assumes ok: "leases_ok db"
    and start: "performInspection resolve now s a (sn_state_version s) db = (db1, [Inspect_started r v])"
    and s: "getSnapshot db a = Some s"
  shows "inspection_rejected t r v db1 = db1 \<and>
    (\<forall>s1 c t'. getSnapshot db1 a = Some s1 \<longrightarrow> ev_phase (sn_evaluation s1) = Inspecting \<and>
      (ld_action (evaluateLease s1 t' policy (at_hard_deadline_at r)) = La_inspect \<longrightarrow>
         evaluateAndAct joint digest hooked resolve policy t' a c db1 = (db1, [])))"
proof -
  from s obtain l where l: "find_lease db a = Some l" "ls_snapshot l = s" by (auto simp: getSnapshot_def)
  have keys: "lease_keys db" and lock: "ls_state_version l = sn_state_version s"
    using ok leases_ok_lockstep [OF ok l(1)] l by (simp_all add: leases_ok_def lockstep_def)
  let ?new = "evaluated now Inspecting None (sn_state_version s) s"
  from start have v: "v = sn_state_version s" "find_attempt db1 a = Some r" and
    w: "updateEvaluation now a Inspecting (Some (sn_state_version s)) None db = (True, db1)"
    by (auto simp: performInspection_def Let_def case_prod_unfold prod_eq_iff split: if_splits option.splits)
  have "\<exists>c. db1 = lease_changed c (db\<lparr> db_leases := sql_update (\<lambda>r. ls_attempt_id r = a)
         (\<lambda>r. r\<lparr> ls_snapshot := ?new, ls_state_version := ls_state_version r + 1,
              ls_next_evaluation_at := sn_next_evaluation_at ?new \<rparr>) (db_leases db) \<rparr>)"
    using w unfolding updateEvaluation_eq [OF keys l(1)] by (auto simp: l(2) lock Let_def split: if_splits)
  then have "find_lease db1 a = Some (l\<lparr> ls_snapshot := ?new, ls_state_version := ls_state_version l + 1,
              ls_next_evaluation_at := sn_next_evaluation_at ?new \<rparr>)"
    using l by (auto simp: find_lease_updated find_lease_cong [of "lease_changed c d" d for c d])
  then have l1: "getSnapshot db1 a = Some ?new"
    and v1: "\<exists>l1. find_lease db1 a = Some l1 \<and> ls_state_version l1 = sn_state_version s + 1"
    by (simp_all add: getSnapshot_def lock)
  have id: "at_id r = a" using find_attemptD [OF v(2)] by simp
  have "inspection_rejected t r v db1 = db1"
    using v1 by (auto simp: inspection_rejected_def updateEvaluation_def v id)
  moreover have "ev_phase (sn_evaluation ?new) = Inspecting" by (simp add: evaluated_def)
  ultimately show ?thesis
    using l1 v(2) by (auto simp: evaluateAndAct_def performInspection_def Let_def)
qed


section \<open>Witnesses\<close>

definition doomed_db :: swarm_db where
  "doomed_db = leased_db\<lparr> db_attempts := [(sample_attempt ''a1'' 1 L_running)\<lparr> at_hard_deadline_at := Some 5000 \<rparr>] \<rparr>"

lemmas leased_samples = doomed_db_def leased_db_def running_db_def empty_db_def

lemma sample_snapshot_simps [simp]:
  "sn_attempt_id sample_snapshot = ''a1''" "sn_state_version sample_snapshot = 1" "sn_closed_at sample_snapshot = None"
  "uninspected sample_snapshot" "ev_phase (sn_evaluation sample_snapshot) = Healthy"
  "ev_reason (sn_evaluation sample_snapshot) = None"
  by (simp_all add: sample_defs uninspected_def Let_def)

lemma doomed_leases_ok: "leases_ok doomed_db"
  using leases_ok_cong [of doomed_db leased_db] leased_leases_ok by (simp add: leased_samples)

theorem hard_deadline_times_out_witness:
  "\<exists>r'. find_attempt (fst (evaluateAndAct no_hook no_digest True (\<lambda>k i. False) DEFAULT_LOCAL_POLICY 5000 ''a1'' 7 doomed_db)) ''a1'' = Some r' \<and>
     at_lifecycle r' = L_timed_out"
proof (rule hard_deadline_times_out [where h = 5000, OF doomed_leases_ok _ no_hook_ok])
  show "find_lease doomed_db ''a1'' = Some (lease_row_of sample_snapshot)"
    by (simp add: find_lease_def leased_samples)
  show "find_attempt doomed_db ''a1'' = Some ((sample_attempt ''a1'' 1 L_running)\<lparr> at_hard_deadline_at := Some 5000 \<rparr>)"
    by (simp add: find_attempt_def leased_samples sample_attempt_def)
qed (simp_all add: attempt_keys_def leased_samples sample_attempt_def active_lifecycle_def
    isCardLatestAttempt_def getLatestAttempt_def sql_last_by_def)

theorem inspection_evidence_lost_witness:
  "ld_reason (evaluateLease sample_snapshot 900000 DEFAULT_LOCAL_POLICY None) \<noteq> Some Inspection_unknown_exhausted"
proof -
  have a: "all_uninspected leased_db"
    by (simp add: all_uninspected_def leased_samples)
  have f: "find_lease leased_db ''a1'' = Some (lease_row_of sample_snapshot)"
    by (simp add: find_lease_def leased_samples)
  have lim: "1 \<le> lp_max_unknown_inspections DEFAULT_LOCAL_POLICY" by (simp add: DEFAULT_LOCAL_POLICY_def)
  show ?thesis
    using inspection_evidence_lost [OF rtranclp.rtrancl_refl a f lim, of 900000 None] by simp
qed

theorem rejected_inspection_sticks_witness:
  "\<exists>db1. performInspection (\<lambda>k i. True) 1000 sample_snapshot ''a1'' 1 leased_db =
      (db1, [Inspect_started (sample_attempt ''a1'' 1 L_running) 1]) \<and>
     inspection_rejected 2000 (sample_attempt ''a1'' 1 L_running) 1 db1 = db1"
proof -
  have s: "getSnapshot leased_db ''a1'' = Some sample_snapshot"
    by (simp add: getSnapshot_def find_lease_def leased_samples)
  have "\<exists>db1. performInspection (\<lambda>k i. True) 1000 sample_snapshot ''a1'' (sn_state_version sample_snapshot) leased_db =
      (db1, [Inspect_started (sample_attempt ''a1'' 1 L_running) 1])"
    by (simp add: performInspection_def updateEvaluation_def update_lease_def sql_changes_def find_lease_def find_attempt_def
        lease_changed_def leased_samples sample_attempt_def Let_def)
  then obtain db1 where p: "performInspection (\<lambda>k i. True) 1000 sample_snapshot ''a1'' (sn_state_version sample_snapshot) leased_db =
      (db1, [Inspect_started (sample_attempt ''a1'' 1 L_running) 1])" by blast
  with rejected_inspection_sticks [OF leased_leases_ok p s] show ?thesis by simp
qed

end
