(* ===== verification/WorkerContract.thy ===== *)
theory WorkerContract
  imports Json "HOL-Library.Sublist" "HOL-Library.List_Lexorder"
begin

text \<open>
  Worker contracts and result envelopes (\<open>worker-contract.ts\<close>): the validators, the normaliser and its
  digest. A contract is the JSON value that is stored. A validator returns its issues, the empty list
  being acceptance; an issue is its tag and its path, the wording being display. \<open>sha\<close> is the SHA-256 of
  the canonical text of a value, \<open>instant\<close> the current instant as text and \<open>fresh\<close> a generated id.
\<close>

section \<open>Bounds\<close>

definition MAX_GOAL_LENGTH :: nat where "MAX_GOAL_LENGTH = 4000"
definition MAX_CRITERIA_COUNT :: nat where "MAX_CRITERIA_COUNT = 20"
definition MAX_CRITERION_DESC_LENGTH :: nat where "MAX_CRITERION_DESC_LENGTH = 500"
definition MAX_ARTIFACTS_COUNT :: nat where "MAX_ARTIFACTS_COUNT = 20"
definition MAX_ARTIFACT_REF_LENGTH :: nat where "MAX_ARTIFACT_REF_LENGTH = 500"
definition MAX_COMMANDS_COUNT :: nat where "MAX_COMMANDS_COUNT = 20"
definition MAX_ARGV_LENGTH :: nat where "MAX_ARGV_LENGTH = 200"
definition MAX_ARGS_COUNT :: nat where "MAX_ARGS_COUNT = 50"
definition MAX_CAPABILITIES_COUNT :: nat where "MAX_CAPABILITIES_COUNT = 20"
definition MAX_CAPABILITY_LENGTH :: nat where "MAX_CAPABILITY_LENGTH = 100"
definition MAX_COMMAND_TIMEOUT_MS :: int where "MAX_COMMAND_TIMEOUT_MS = 300000"
definition MAX_CRITERIA_IDS_PER_ITEM :: nat where "MAX_CRITERIA_IDS_PER_ITEM = 10"
definition MAX_CONTRACT_JSON_BYTES :: nat where "MAX_CONTRACT_JSON_BYTES = 50000"
definition MAX_ENVELOPE_JSON_BYTES :: nat where "MAX_ENVELOPE_JSON_BYTES = 150000"
definition MAX_WORKSPACE_ALIAS_LENGTH :: nat where "MAX_WORKSPACE_ALIAS_LENGTH = 128"

lemmas max_defs = MAX_GOAL_LENGTH_def MAX_CRITERIA_COUNT_def MAX_CRITERION_DESC_LENGTH_def MAX_ARTIFACTS_COUNT_def
  MAX_ARTIFACT_REF_LENGTH_def MAX_COMMANDS_COUNT_def MAX_ARGV_LENGTH_def MAX_ARGS_COUNT_def MAX_CAPABILITIES_COUNT_def
  MAX_CAPABILITY_LENGTH_def MAX_COMMAND_TIMEOUT_MS_def MAX_CRITERIA_IDS_PER_ITEM_def MAX_CONTRACT_JSON_BYTES_def
  MAX_ENVELOPE_JSON_BYTES_def MAX_WORKSPACE_ALIAS_LENGTH_def

section \<open>Paths and names\<close>

definition code_of :: "char \<Rightarrow> nat" where
  "code_of c = of_char c"

definition is_letter :: "char \<Rightarrow> bool" where
  "is_letter c \<longleftrightarrow> (let n = code_of c in 65 \<le> n \<and> n \<le> 90 \<or> 97 \<le> n \<and> n \<le> 122)"

definition is_slash :: "char \<Rightarrow> bool" where
  "is_slash c \<longleftrightarrow> c = CHR ''/'' \<or> code_of c = 92"

text \<open>\<open>/^[a-zA-Z]:[\\/]/\<close>\<close>

definition drive_form :: "string \<Rightarrow> bool" where
  "drive_form p \<longleftrightarrow> (case p of a # b # c # _ \<Rightarrow> is_letter a \<and> b = CHR '':'' \<and> is_slash c | _ \<Rightarrow> False)"

definition hasControlChars :: "string \<Rightarrow> bool" where
  "hasControlChars p \<longleftrightarrow> list_ex (\<lambda>c. code_of c < 32 \<or> code_of c = 127) p"

definition isValidWorkspaceAlias :: "string \<Rightarrow> bool" where
  "isValidWorkspaceAlias a \<longleftrightarrow> a \<noteq> [] \<and> length a \<le> MAX_WORKSPACE_ALIAS_LENGTH \<and> \<not> hasControlChars a \<and> \<not> list_ex is_slash a \<and>
     \<not> sublist ''..'' a \<and> \<not> prefix ''/'' a \<and> \<not> drive_form a"

definition isShellString :: "string \<Rightarrow> bool" where
  "isShellString s \<longleftrightarrow> list_ex (\<lambda>c. c \<in> set '';&|`$(){}<>'') s"

definition backslash :: char where
  "backslash = char_of (92 :: nat)"

definition isAbsolutePath :: "string \<Rightarrow> bool" where
  "isAbsolutePath p \<longleftrightarrow> prefix ''/'' p \<or> drive_form p \<or> prefix [backslash, backslash] p"

text \<open>\<open>s.split(c)\<close>\<close>

fun split_on :: "char \<Rightarrow> string \<Rightarrow> string list" where
  "split_on c [] = [[]]"
| "split_on c (x # xs) = (case split_on c xs of
     [] \<Rightarrow> [[x]] | w # ws \<Rightarrow> if x = c then [] # w # ws else (x # w) # ws)"

definition slashed :: "string \<Rightarrow> string" where
  "slashed p = map (\<lambda>c. if c = backslash then CHR ''/'' else c) p"

definition hasTraversalComponent :: "string \<Rightarrow> bool" where
  "hasTraversalComponent p \<longleftrightarrow> ''..'' \<in> set (split_on (CHR ''/'') (slashed p))"

definition hasHomeForm :: "string \<Rightarrow> bool" where
  "hasHomeForm p \<longleftrightarrow> p = ''~'' \<or> prefix ''~/'' p \<or> prefix [CHR ''~'', backslash] p"

datatype path_issue = Absolute | Traversal | Home_form | Control_chars

definition workspacePathIssues :: "string \<Rightarrow> path_issue list" where
  "workspacePathIssues p = (if isAbsolutePath p then [Absolute] else []) @ (if hasTraversalComponent p then [Traversal] else []) @
     (if hasHomeForm p then [Home_form] else []) @ (if hasControlChars p then [Control_chars] else [])"

section \<open>Issues\<close>

datatype issue_tag =
  T_missing_field | T_type_error | T_too_long | T_too_many | T_too_few | T_out_of_range | T_unknown_version
| T_duplicate_id | T_bad_reference | T_traversal | T_shell_string | T_empty_string | T_bad_format

type_synonym contract_issue = "issue_tag \<times> string"

definition when_so :: "bool \<Rightarrow> issue_tag \<Rightarrow> string \<Rightarrow> contract_issue list" where
  "when_so b t p = (if b then [(t, p)] else [])"

definition isNonEmptyString :: "json option \<Rightarrow> bool" where
  "isNonEmptyString v \<longleftrightarrow> (case v of Some (JStr s) \<Rightarrow> s \<noteq> [] | _ \<Rightarrow> False)"

definition nth_path :: "string \<Rightarrow> nat \<Rightarrow> string" where
  "nth_path p i = p @ ''['' @ show_nat i @ '']''"

text \<open>\<open>errCollect\<close>, and the loops over an array, with the sets that the callback fills.\<close>

fun errCollect :: "(nat \<Rightarrow> 's \<Rightarrow> json \<Rightarrow> contract_issue list \<times> 's) \<Rightarrow> nat \<Rightarrow> 's \<Rightarrow> json list \<Rightarrow> contract_issue list \<times> 's" where
  "errCollect f i s [] = ([], s)"
| "errCollect f i s (x # xs) = (case f i s x of (e, s1) \<Rightarrow> (case errCollect f (Suc i) s1 xs of (es, s2) \<Rightarrow> (e @ es, s2)))"

text \<open>A required text of bounded length.\<close>

definition text_issues :: "json \<Rightarrow> string \<Rightarrow> nat \<Rightarrow> string \<Rightarrow> contract_issue list" where
  "text_issues v k n path = (if \<not> isNonEmptyString (jget v k) then [(T_missing_field, path)]
     else when_so (length (text_at v k) > n) T_too_long path)"

text \<open>An id that has to be new; the ids seen so far with the index of their item.\<close>

definition id_issues :: "nat \<Rightarrow> (string \<times> nat) list \<Rightarrow> json \<Rightarrow> string \<Rightarrow> contract_issue list \<times> (string \<times> nat) list" where
  "id_issues i seen v path = (if \<not> isNonEmptyString (jget v ''id'') then ([(T_missing_field, path)], seen)
     else if text_at v ''id'' \<in> set (map fst seen) then ([(T_duplicate_id, path)], seen)
     else ([], seen @ [(text_at v ''id'', i)]))"

section \<open>Contracts\<close>

definition criterion_issues :: "nat \<Rightarrow> (string \<times> nat) list \<Rightarrow> json \<Rightarrow> contract_issue list \<times> (string \<times> nat) list" where
  "criterion_issues i seen c = (let path = nth_path ''$.criteria'' i in
     if \<not> is_object c then ([(T_type_error, path)], seen)
     else (case id_issues i seen c (path @ ''.id'') of (e, seen1) \<Rightarrow>
       (e @ text_issues c ''description'' MAX_CRITERION_DESC_LENGTH (path @ ''.description''), seen1)))"

definition criteria_issues :: "json \<Rightarrow> contract_issue list \<times> (string \<times> nat) list" where
  "criteria_issues v = (case jget v ''criteria'' of
     Some (JArr cs) \<Rightarrow> (case errCollect criterion_issues 0 [] cs of (es, ids) \<Rightarrow>
       (when_so (cs = []) T_too_few ''$.criteria'' @ when_so (length cs > MAX_CRITERIA_COUNT) T_too_many ''$.criteria'' @ es, ids))
   | _ \<Rightarrow> ([(T_missing_field, ''$.criteria'')], []))"

definition names_id :: "string list \<Rightarrow> json \<Rightarrow> bool" where
  "names_id ids r \<longleftrightarrow> (case r of JStr s \<Rightarrow> s \<in> set ids | _ \<Rightarrow> False)"

definition reference_issues :: "string list \<Rightarrow> json \<Rightarrow> string \<Rightarrow> contract_issue list" where
  "reference_issues ids v path = (case jget v ''criterion_ids'' of
     None \<Rightarrow> []
   | Some (JArr rs) \<Rightarrow>
       (if length rs > MAX_CRITERIA_IDS_PER_ITEM then [(T_too_many, path)]
        else if ids = [] then [] else concat (map (\<lambda>r. when_so (\<not> names_id ids r) T_bad_reference path) rs))
   | Some _ \<Rightarrow> [(T_type_error, path)])"

fun named_ids :: "string list \<Rightarrow> json list \<Rightarrow> string list" where
  "named_ids ids [] = []"
| "named_ids ids (r # rs) = (case r of JStr s \<Rightarrow> if s \<in> set ids then [s] else [] | _ \<Rightarrow> []) @ named_ids ids rs"

definition path_member_issues :: "string \<Rightarrow> string \<Rightarrow> contract_issue list" where
  "path_member_issues p path = map (\<lambda>_. (T_traversal, path)) (workspacePathIssues p)"

definition ARTIFACT_KINDS :: "string list" where
  "ARTIFACT_KINDS = [''file'', ''directory'', ''report'', ''logical'']"

definition is_bool :: "json option \<Rightarrow> bool" where
  "is_bool v \<longleftrightarrow> (case v of Some (JBool _) \<Rightarrow> True | _ \<Rightarrow> False)"

definition is_number :: "json option \<Rightarrow> bool" where
  "is_number v \<longleftrightarrow> (case v of Some (JNum _) \<Rightarrow> True | _ \<Rightarrow> False)"

definition one_of :: "string list \<Rightarrow> json option \<Rightarrow> bool" where
  "one_of ks v \<longleftrightarrow> (case v of Some (JStr s) \<Rightarrow> s \<in> set ks | _ \<Rightarrow> False)"

type_synonym found = "(string \<times> nat) list \<times> string list"

text \<open>The state: the ids of the artifacts so far, and the criteria that a required artifact names.\<close>

definition artifact_issues :: "string list \<Rightarrow> nat \<Rightarrow> found \<Rightarrow> json \<Rightarrow> contract_issue list \<times> found" where
  "artifact_issues ids i st a = (let path = nth_path ''$.expected_artifacts'' i in
     if \<not> is_object a then ([(T_type_error, path)], st)
     else (case id_issues i (fst st) a (path @ ''.id'') of (e, seen) \<Rightarrow>
       (e @ when_so (\<not> one_of ARTIFACT_KINDS (jget a ''kind'')) T_type_error (path @ ''.kind'') @
        (if \<not> isNonEmptyString (jget a ''ref'') then [(T_missing_field, path @ ''.ref'')]
         else when_so (length (text_at a ''ref'') > MAX_ARTIFACT_REF_LENGTH) T_too_long (path @ ''.ref'') @
              path_member_issues (text_at a ''ref'') (path @ ''.ref'')) @
        when_so (\<not> is_bool (jget a ''required'')) T_type_error (path @ ''.required'') @
        reference_issues ids a (path @ ''.criterion_ids''),
        (seen, snd st @ (if jget a ''required'' = Some (JBool True) then named_ids ids (items_at a ''criterion_ids'') else [])))))"

definition arg_issues :: "string \<Rightarrow> nat \<times> json \<Rightarrow> contract_issue list" where
  "arg_issues path = (\<lambda>(j, v). let p = nth_path path j in case v of
     JStr s \<Rightarrow> (if length s > MAX_ARGV_LENGTH then [(T_too_long, p)] else if isShellString s then [(T_shell_string, p)]
       else when_so (hasHomeForm s) T_bad_format p)
   | _ \<Rightarrow> [(T_type_error, p)])"

definition argv_issues :: "json \<Rightarrow> string \<Rightarrow> contract_issue list" where
  "argv_issues v path = (case jget v ''argv'' of
     Some (JArr xs) \<Rightarrow> when_so (xs = []) T_too_few path @ when_so (length xs > MAX_ARGS_COUNT) T_too_many path @
       concat (map (arg_issues path) (enumerate 0 xs))
   | _ \<Rightarrow> [(T_missing_field, path)])"

text \<open>
  A finite non-integer is below \<open>2 ^ 53\<close>, so its text has an exponent only when it is below one;
  \<open>whole_part\<close> is the integer below its absolute value.
\<close>

definition digits_value :: "string \<Rightarrow> nat" where
  "digits_value s = foldl (\<lambda>n c. 10 * n + (code_of c - 48)) 0 s"

definition negative_text :: "string \<Rightarrow> bool" where
  "negative_text s \<longleftrightarrow> prefix ''-'' s"

definition whole_part :: "string \<Rightarrow> nat" where
  "whole_part s = (if CHR ''e'' \<in> set s then 0 else digits_value (takeWhile (\<lambda>c. c \<noteq> CHR ''.'') (dropWhile (\<lambda>c. c = CHR ''-'') s)))"

definition positive_number :: "json option \<Rightarrow> bool" where
  "positive_number v \<longleftrightarrow> (case v of Some (JNum (NInt i)) \<Rightarrow> i > 0 | Some (JNum (NFrac s)) \<Rightarrow> \<not> negative_text s | _ \<Rightarrow> False)"

definition exceeds :: "int \<Rightarrow> json option \<Rightarrow> bool" where
  "exceeds m v \<longleftrightarrow> (case v of Some (JNum (NInt i)) \<Rightarrow> i > m | Some (JNum (NFrac s)) \<Rightarrow> \<not> negative_text s \<and> int (whole_part s) \<ge> m | _ \<Rightarrow> False)"

definition positive_integer :: "json option \<Rightarrow> bool" where
  "positive_integer v \<longleftrightarrow> (case v of Some (JNum (NInt i)) \<Rightarrow> i > 0 | _ \<Rightarrow> False)"

definition timeout_issues :: "json \<Rightarrow> string \<Rightarrow> contract_issue list" where
  "timeout_issues v path = (if \<not> positive_number (jget v ''timeout_ms'') then [(T_type_error, path)]
     else when_so (exceeds MAX_COMMAND_TIMEOUT_MS (jget v ''timeout_ms'')) T_out_of_range path)"

definition cwd_issues :: "json \<Rightarrow> string \<Rightarrow> contract_issue list" where
  "cwd_issues v path = (case jget v ''cwd'' of None \<Rightarrow> []
     | Some w \<Rightarrow> if \<not> isNonEmptyString (Some w) then [(T_type_error, path)] else path_member_issues (text_at v ''cwd'') path)"

definition command_issues :: "string list \<Rightarrow> nat \<Rightarrow> found \<Rightarrow> json \<Rightarrow> contract_issue list \<times> found" where
  "command_issues ids i st c = (let path = nth_path ''$.verification_commands'' i in
     if \<not> is_object c then ([(T_type_error, path)], st)
     else (case id_issues i (fst st) c (path @ ''.id'') of (e, seen) \<Rightarrow>
       (e @ argv_issues c (path @ ''.argv'') @ cwd_issues c (path @ ''.cwd'') @ timeout_issues c (path @ ''.timeout_ms'') @
        reference_issues ids c (path @ ''.criterion_ids''),
        (seen, snd st @ named_ids ids (items_at c ''criterion_ids'')))))"

text \<open>An optional array of items.\<close>

definition array_issues :: "string \<Rightarrow> string \<Rightarrow> nat \<Rightarrow> (nat \<Rightarrow> found \<Rightarrow> json \<Rightarrow> contract_issue list \<times> found) \<Rightarrow> json \<Rightarrow> contract_issue list \<times> string list" where
  "array_issues k path n f v = (case jget v k of
     None \<Rightarrow> ([], [])
   | Some (JArr xs) \<Rightarrow> (case errCollect f 0 ([], []) xs of (es, _, refs) \<Rightarrow> (when_so (length xs > n) T_too_many path @ es, refs))
   | Some _ \<Rightarrow> ([(T_type_error, path)], []))"

definition capability_issues :: "json \<Rightarrow> contract_issue list" where
  "capability_issues v = (case jget v ''required_capabilities'' of
     None \<Rightarrow> []
   | Some (JArr xs) \<Rightarrow> when_so (length xs > MAX_CAPABILITIES_COUNT) T_too_many ''$.required_capabilities'' @
       concat (map (\<lambda>(i, x). let p = nth_path ''$.required_capabilities'' i in
         case x of JStr s \<Rightarrow> (if s = [] then [(T_type_error, p)] else when_so (length s > MAX_CAPABILITY_LENGTH) T_too_long p)
         | _ \<Rightarrow> [(T_type_error, p)]) (enumerate 0 xs))
   | Some _ \<Rightarrow> [(T_type_error, ''$.required_capabilities'')])"

fun root_ref_issues :: "nat \<Rightarrow> string list \<Rightarrow> json list \<Rightarrow> contract_issue list" where
  "root_ref_issues i seen [] = []"
| "root_ref_issues i seen (x # xs) = (let p = nth_path ''$.supports_root_criteria'' i in case x of
     JStr s \<Rightarrow> (if s = [] then (T_type_error, p) # root_ref_issues (Suc i) seen xs
       else if s \<in> set seen then (T_duplicate_id, p) # root_ref_issues (Suc i) seen xs
       else root_ref_issues (Suc i) (s # seen) xs)
   | _ \<Rightarrow> (T_type_error, p) # root_ref_issues (Suc i) seen xs)"

definition root_criteria_issues :: "json \<Rightarrow> contract_issue list" where
  "root_criteria_issues v = (case jget v ''supports_root_criteria'' of
     None \<Rightarrow> [] | Some (JArr xs) \<Rightarrow> root_ref_issues 0 [] xs | Some _ \<Rightarrow> [(T_type_error, ''$.supports_root_criteria'')])"

definition js_space :: "char \<Rightarrow> bool" where
  "js_space c \<longleftrightarrow> (let n = code_of c in n = 32 \<or> 9 \<le> n \<and> n \<le> 13 \<or> n = 160)"

definition js_trim :: "string \<Rightarrow> string" where
  "js_trim s = rev (dropWhile js_space (rev (dropWhile js_space s)))"

definition alias_issues :: "json \<Rightarrow> contract_issue list" where
  "alias_issues v = (case jget v ''workspace_alias'' of
     None \<Rightarrow> []
   | Some (JStr s) \<Rightarrow> when_so (js_trim s = [] \<or> \<not> isValidWorkspaceAlias (js_trim s)) T_bad_format ''$.workspace_alias''
   | Some _ \<Rightarrow> [(T_type_error, ''$.workspace_alias'')])"

definition limit_issues :: "json \<Rightarrow> contract_issue list" where
  "limit_issues v = (case jget v ''limits'' of None \<Rightarrow> []
     | Some l \<Rightarrow> if \<not> is_object l then [(T_type_error, ''$.limits'')] else
         when_so (jget l ''max_duration_ms'' \<noteq> None \<and> \<not> positive_integer (jget l ''max_duration_ms'')) T_type_error ''$.limits.max_duration_ms'' @
         when_so (jget l ''max_tokens'' \<noteq> None \<and> \<not> positive_integer (jget l ''max_tokens'')) T_type_error ''$.limits.max_tokens'' @
         when_so (jget l ''max_cost'' \<noteq> None \<and> \<not> positive_number (jget l ''max_cost'')) T_type_error ''$.limits.max_cost'')"

definition provenance_issues :: "json \<Rightarrow> contract_issue list" where
  "provenance_issues v = (case jget v ''provenance'' of
     None \<Rightarrow> [(T_missing_field, ''$.provenance'')]
   | Some p \<Rightarrow> if \<not> is_object p then [(T_type_error, ''$.provenance'')] else
       when_so (\<not> is_number (jget p ''root_card_id'')) T_type_error ''$.provenance.root_card_id'' @
       when_so (\<not> is_number (jget p ''card_id'')) T_type_error ''$.provenance.card_id'' @
       when_so (\<not> isNonEmptyString (jget p ''authored_by'')) T_missing_field ''$.provenance.authored_by'' @
       when_so (\<not> isNonEmptyString (jget p ''created_at'')) T_missing_field ''$.provenance.created_at'')"

text \<open>The structural part: its issues, the criteria, and those an artifact or a command gives evidence for.\<close>

definition structure_issues :: "json \<Rightarrow> contract_issue list \<times> (string \<times> nat) list \<times> string list" where
  "structure_issues v = (case criteria_issues v of (ce, ids) \<Rightarrow>
     (case array_issues ''expected_artifacts'' ''$.expected_artifacts'' MAX_ARTIFACTS_COUNT (artifact_issues (map fst ids)) v of (ae, arefs) \<Rightarrow>
     (case array_issues ''verification_commands'' ''$.verification_commands'' MAX_COMMANDS_COUNT (command_issues (map fst ids)) v of (me, mrefs) \<Rightarrow>
       (when_so (\<not> isNonEmptyString (jget v ''id'')) T_missing_field ''$.id'' @
        text_issues v ''goal'' MAX_GOAL_LENGTH ''$.goal'' @ ce @ ae @ me @ capability_issues v @ root_criteria_issues v @
        alias_issues v @ limit_issues v @ provenance_issues v, ids, mrefs @ arefs))))"

definition evidence_issues :: "(string \<times> nat) list \<Rightarrow> string list \<Rightarrow> contract_issue list" where
  "evidence_issues ids refs = concat (map (\<lambda>(c, i). when_so (c \<notin> set refs) T_missing_field (nth_path ''$.criteria'' i)) ids)"

definition validateContract :: "json \<Rightarrow> contract_issue list" where
  "validateContract v =
     (if \<not> is_object v then [(T_type_error, ''$'')]
      else if jget v ''schema_version'' \<noteq> Some (JNum (NInt 1)) then [(T_unknown_version, ''$.schema_version'')]
      else case structure_issues v of (es, ids, refs) \<Rightarrow>
        (if es \<noteq> [] then es
         else if json_size v > MAX_CONTRACT_JSON_BYTES then [(T_too_long, ''$'')]
         else evidence_issues ids refs))"

section \<open>What a valid contract is\<close>

definition path_ok :: "string \<Rightarrow> bool" where
  "path_ok p \<longleftrightarrow> \<not> isAbsolutePath p \<and> \<not> hasTraversalComponent p \<and> \<not> hasHomeForm p \<and> \<not> hasControlChars p"

definition text_ok :: "json \<Rightarrow> string \<Rightarrow> nat \<Rightarrow> bool" where
  "text_ok v k n \<longleftrightarrow> isNonEmptyString (jget v k) \<and> length (text_at v k) \<le> n"

abbreviation id_of :: "json \<Rightarrow> string" where
  "id_of \<equiv> \<lambda>v. text_at v ''id''"

definition references_ok :: "string list \<Rightarrow> json \<Rightarrow> bool" where
  "references_ok ids v \<longleftrightarrow> (case jget v ''criterion_ids'' of
     None \<Rightarrow> True
   | Some (JArr rs) \<Rightarrow> length rs \<le> MAX_CRITERIA_IDS_PER_ITEM \<and> set rs \<subseteq> JStr ` set ids
   | Some _ \<Rightarrow> False)"

definition criterion_ok :: "json \<Rightarrow> bool" where
  "criterion_ok c \<longleftrightarrow> is_object c \<and> isNonEmptyString (jget c ''id'') \<and> text_ok c ''description'' MAX_CRITERION_DESC_LENGTH"

definition artifact_ok :: "string list \<Rightarrow> json \<Rightarrow> bool" where
  "artifact_ok ids a \<longleftrightarrow> is_object a \<and> isNonEmptyString (jget a ''id'') \<and> one_of ARTIFACT_KINDS (jget a ''kind'') \<and>
     text_ok a ''ref'' MAX_ARTIFACT_REF_LENGTH \<and> path_ok (text_at a ''ref'') \<and> is_bool (jget a ''required'') \<and> references_ok ids a"

definition arg_ok :: "json \<Rightarrow> bool" where
  "arg_ok v \<longleftrightarrow> (case v of JStr s \<Rightarrow> length s \<le> MAX_ARGV_LENGTH \<and> \<not> isShellString s \<and> \<not> hasHomeForm s | _ \<Rightarrow> False)"

definition argv_ok :: "json \<Rightarrow> bool" where
  "argv_ok c \<longleftrightarrow> (case jget c ''argv'' of
     Some (JArr xs) \<Rightarrow> xs \<noteq> [] \<and> length xs \<le> MAX_ARGS_COUNT \<and> (\<forall>x \<in> set xs. arg_ok x) | _ \<Rightarrow> False)"

text \<open>More than zero and at most the limit; a fraction is below the limit when its whole part is.\<close>

definition timeout_ok :: "json \<Rightarrow> bool" where
  "timeout_ok c \<longleftrightarrow> (case jget c ''timeout_ms'' of
     Some (JNum (NInt i)) \<Rightarrow> 0 < i \<and> i \<le> MAX_COMMAND_TIMEOUT_MS
   | Some (JNum (NFrac s)) \<Rightarrow> \<not> negative_text s \<and> int (whole_part s) < MAX_COMMAND_TIMEOUT_MS
   | _ \<Rightarrow> False)"

definition command_ok :: "string list \<Rightarrow> json \<Rightarrow> bool" where
  "command_ok ids c \<longleftrightarrow> is_object c \<and> isNonEmptyString (jget c ''id'') \<and> argv_ok c \<and>
     (jget c ''cwd'' = None \<or> isNonEmptyString (jget c ''cwd'') \<and> path_ok (text_at c ''cwd'')) \<and>
     timeout_ok c \<and> references_ok ids c"

text \<open>An optional array of bounded length whose items are in order and have different ids.\<close>

definition array_ok :: "string \<Rightarrow> nat \<Rightarrow> (json \<Rightarrow> bool) \<Rightarrow> json \<Rightarrow> bool" where
  "array_ok k n P v \<longleftrightarrow> (case jget v k of
     None \<Rightarrow> True
   | Some (JArr xs) \<Rightarrow> length xs \<le> n \<and> (\<forall>x \<in> set xs. P x) \<and> distinct (map id_of xs)
   | Some _ \<Rightarrow> False)"

definition contract_criteria :: "json \<Rightarrow> string list" where
  "contract_criteria ct = map (\<lambda>c. text_at c ''id'') (items_at ct ''criteria'')"

definition criteria_ok :: "json \<Rightarrow> bool" where
  "criteria_ok v \<longleftrightarrow> jget v ''criteria'' \<noteq> None \<and> items_at v ''criteria'' \<noteq> [] \<and> array_ok ''criteria'' MAX_CRITERIA_COUNT criterion_ok v"

definition supports :: "json \<Rightarrow> string \<Rightarrow> bool" where
  "supports x c \<longleftrightarrow> JStr c \<in> set (items_at x ''criterion_ids'')"

definition has_evidence :: "json \<Rightarrow> string \<Rightarrow> bool" where
  "has_evidence v c \<longleftrightarrow> (\<exists>m \<in> set (items_at v ''verification_commands''). supports m c) \<or>
     (\<exists>a \<in> set (items_at v ''expected_artifacts''). jget a ''required'' = Some (JBool True) \<and> supports a c)"

definition capabilities_ok :: "json \<Rightarrow> bool" where
  "capabilities_ok v \<longleftrightarrow> (case jget v ''required_capabilities'' of
     None \<Rightarrow> True
   | Some (JArr xs) \<Rightarrow> length xs \<le> MAX_CAPABILITIES_COUNT \<and>
       (\<forall>x \<in> set xs. case x of JStr s \<Rightarrow> s \<noteq> [] \<and> length s \<le> MAX_CAPABILITY_LENGTH | _ \<Rightarrow> False)
   | Some _ \<Rightarrow> False)"

definition root_criteria_ok :: "json \<Rightarrow> bool" where
  "root_criteria_ok v \<longleftrightarrow> (case jget v ''supports_root_criteria'' of
     None \<Rightarrow> True
   | Some (JArr xs) \<Rightarrow> (\<forall>x \<in> set xs. case x of JStr s \<Rightarrow> s \<noteq> [] | _ \<Rightarrow> False) \<and> distinct xs
   | Some _ \<Rightarrow> False)"

definition alias_ok :: "json \<Rightarrow> bool" where
  "alias_ok v \<longleftrightarrow> (case jget v ''workspace_alias'' of
     None \<Rightarrow> True
   | Some (JStr s) \<Rightarrow> js_trim s \<noteq> [] \<and> isValidWorkspaceAlias (js_trim s)
   | Some _ \<Rightarrow> False)"

definition whole_limit_ok :: "json option \<Rightarrow> bool" where
  "whole_limit_ok v \<longleftrightarrow> (case v of None \<Rightarrow> True | Some (JNum (NInt i)) \<Rightarrow> 0 < i | Some _ \<Rightarrow> False)"

definition cost_limit_ok :: "json option \<Rightarrow> bool" where
  "cost_limit_ok v \<longleftrightarrow> (case v of None \<Rightarrow> True | Some (JNum (NInt i)) \<Rightarrow> 0 < i | Some (JNum (NFrac s)) \<Rightarrow> \<not> negative_text s
     | Some _ \<Rightarrow> False)"

definition limits_ok :: "json \<Rightarrow> bool" where
  "limits_ok v \<longleftrightarrow> (case jget v ''limits'' of
     None \<Rightarrow> True
   | Some l \<Rightarrow> is_object l \<and> whole_limit_ok (jget l ''max_duration_ms'') \<and> whole_limit_ok (jget l ''max_tokens'') \<and>
       cost_limit_ok (jget l ''max_cost''))"

definition provenance_ok :: "json \<Rightarrow> bool" where
  "provenance_ok v \<longleftrightarrow> (case jget v ''provenance'' of
     None \<Rightarrow> False
   | Some p \<Rightarrow> is_object p \<and> is_number (jget p ''root_card_id'') \<and> is_number (jget p ''card_id'') \<and>
       isNonEmptyString (jget p ''authored_by'') \<and> isNonEmptyString (jget p ''created_at''))"

definition contract_ok :: "json \<Rightarrow> bool" where
  "contract_ok v \<longleftrightarrow> is_object v \<and> jget v ''schema_version'' = Some (JNum (NInt 1)) \<and> isNonEmptyString (jget v ''id'') \<and>
     text_ok v ''goal'' MAX_GOAL_LENGTH \<and> criteria_ok v \<and>
     array_ok ''expected_artifacts'' MAX_ARTIFACTS_COUNT (artifact_ok (contract_criteria v)) v \<and>
     array_ok ''verification_commands'' MAX_COMMANDS_COUNT (command_ok (contract_criteria v)) v \<and>
     capabilities_ok v \<and> root_criteria_ok v \<and> alias_ok v \<and> limits_ok v \<and> provenance_ok v \<and>
     json_size v \<le> MAX_CONTRACT_JSON_BYTES \<and> (\<forall>c \<in> set (contract_criteria v). has_evidence v c)"

lemma when_so_Nil [simp]: "when_so b t p = [] \<longleftrightarrow> \<not> b"
  by (simp add: when_so_def)

lemma text_issues_Nil: "text_issues v k n p = [] \<longleftrightarrow> text_ok v k n"
  by (auto simp: text_issues_def text_ok_def)

lemma path_issues_Nil: "workspacePathIssues p = [] \<longleftrightarrow> path_ok p"
  by (auto simp: workspacePathIssues_def path_ok_def)

lemma id_issues_Nil: "fst (id_issues i seen v p) = [] \<longleftrightarrow> isNonEmptyString (jget v ''id'') \<and> id_of v \<notin> fst ` set seen"
  "fst (id_issues i seen v p) = [] \<Longrightarrow> snd (id_issues i seen v p) = seen @ [(id_of v, i)]"
  by (auto simp: id_issues_def split: if_splits)

lemma reference_issues_Nil:
  assumes "ids \<noteq> []"
  shows "reference_issues ids v p = [] \<longleftrightarrow> references_ok ids v"
proof -
  have "names_id ids r \<longleftrightarrow> r \<in> JStr ` set ids" for r by (cases r) (auto simp: names_id_def)
  with assms show ?thesis
    by (auto simp: reference_issues_def references_ok_def split: option.split json.split)
qed

lemma named_ids_eq: "named_ids ids rs = concat (map (\<lambda>r. case r of JStr s \<Rightarrow> if s \<in> set ids then [s] else [] | _ \<Rightarrow> []) rs)"
  by (induction ids rs rule: named_ids.induct) auto

lemma set_named_ids: "set (named_ids ids rs) = {s \<in> set ids. JStr s \<in> set rs}"
  by (auto simp: named_ids_eq split: json.splits if_splits)

text \<open>The loops: with no issue all items are in order, their ids are new, and the state is what they add up to.\<close>

lemma collect_loop:
  fixes p :: "'s \<Rightarrow> (string \<times> nat) list" and q :: "'s \<Rightarrow> string list"
  assumes f: "\<And>i st x. fst (f i st x) = [] \<longleftrightarrow> Q x \<and> id_of x \<notin> fst ` set (p st)"
    and s: "\<And>i st x. fst (f i st x) = [] \<Longrightarrow> p (snd (f i st x)) = p st @ [(id_of x, i)] \<and> q (snd (f i st x)) = q st @ g x"
  shows "fst (errCollect f i st xs) = [] \<longleftrightarrow> (\<forall>x \<in> set xs. Q x) \<and> distinct (map id_of xs) \<and> (\<forall>x \<in> set xs. id_of x \<notin> fst ` set (p st))"
    and "fst (errCollect f i st xs) = [] \<Longrightarrow> p (snd (errCollect f i st xs)) = p st @ map (\<lambda>(j, x). (id_of x, j)) (enumerate i xs) \<and>
      q (snd (errCollect f i st xs)) = q st @ concat (map g xs)"
proof (induction xs arbitrary: i st)
  case (Cons x xs)
  {
    case 1
    show ?case
    proof (cases "fst (f i st x) = []")
      case True
      note p = conjunct1 [OF s [OF True]]
      have "fst ` set (p (snd (f i st x))) = insert (id_of x) (fst ` set (p st))" by (simp add: p)
      with Cons(1) [of "Suc i" "snd (f i st x)"] True f [of i st x] show ?thesis
        by (auto simp: case_prod_unfold) (metis rev_image_eqI)+
    next
      case False
      with f [of i st x] show ?thesis by (auto simp: case_prod_unfold)
    qed
  next
    case 2
    then show ?case
      using Cons(2) [of "Suc i" "snd (f i st x)"] s [of i st x]
      by (auto simp: case_prod_unfold)
  }
qed simp_all

lemma criterion_Nil:
  "fst (criterion_issues i st c) = [] \<longleftrightarrow> criterion_ok c \<and> id_of c \<notin> fst ` set st"
  "fst (criterion_issues i st c) = [] \<Longrightarrow> snd (criterion_issues i st c) = st @ [(id_of c, i)]"
  using id_issues_Nil [of i st c "nth_path ''$.criteria'' i @ ''.id''"]
  by (auto simp: criterion_issues_def Let_def case_prod_unfold criterion_ok_def text_issues_Nil split: if_splits)

lemma criteria_Nil:
  assumes "criteria_issues v = (es, ids)"
  shows "es = [] \<longleftrightarrow> criteria_ok v" and "es = [] \<Longrightarrow> map fst ids = contract_criteria v \<and> ids \<noteq> []"
    and "es = [] \<Longrightarrow> ids = map (\<lambda>(j, c). (id_of c, j)) (enumerate 0 (items_at v ''criteria''))"
proof -
  note c = collect_loop [where f = criterion_issues and p = id and q = "\<lambda>_. []" and g = "\<lambda>_. []" and Q = criterion_ok]
  have a: "fst (errCollect criterion_issues 0 [] cs) = [] \<longleftrightarrow> (\<forall>x \<in> set cs. criterion_ok x) \<and> distinct (map id_of cs)" for cs
    by (subst c(1)) (auto simp: criterion_Nil)
  have b: "fst (errCollect criterion_issues 0 [] cs) = [] \<Longrightarrow>
      snd (errCollect criterion_issues 0 [] cs) = map (\<lambda>(j, x). (id_of x, j)) (enumerate 0 cs)" for cs
    using c(2) [of 0 "[]" cs] by (simp add: criterion_Nil)
  have m: "map (fst \<circ> (\<lambda>(j, x). (id_of x, j))) (enumerate n cs) = map id_of cs" for n cs
    by (induction cs arbitrary: n) auto
  show "es = [] \<longleftrightarrow> criteria_ok v"
    using assms a by (auto simp: criteria_issues_def criteria_ok_def array_ok_def items_at_def case_prod_unfold
        split: option.splits json.splits)
  show e: "ids = map (\<lambda>(j, c). (id_of c, j)) (enumerate 0 (items_at v ''criteria''))" if "es = []"
    using that assms b by (auto simp: criteria_issues_def items_at_def case_prod_unfold split: option.splits json.splits)
  show "map fst ids = contract_criteria v \<and> ids \<noteq> []" if "es = []"
    using e [OF that] m [of 0 "items_at v ''criteria''"] \<open>es = [] \<longleftrightarrow> criteria_ok v\<close> that
    by (auto simp: contract_criteria_def criteria_ok_def simp del: enumerate_eq_zip)
qed

definition artifact_refs :: "string list \<Rightarrow> json \<Rightarrow> string list" where
  "artifact_refs ids a = (if jget a ''required'' = Some (JBool True) then named_ids ids (items_at a ''criterion_ids'') else [])"

lemma artifact_Nil:
  assumes "ids \<noteq> []"
  shows "fst (artifact_issues ids i st a) = [] \<longleftrightarrow> artifact_ok ids a \<and> id_of a \<notin> fst ` set (fst st)"
    and "fst (artifact_issues ids i st a) = [] \<Longrightarrow> fst (snd (artifact_issues ids i st a)) = fst st @ [(id_of a, i)] \<and>
      snd (snd (artifact_issues ids i st a)) = snd st @ artifact_refs ids a"
  using id_issues_Nil [of i "fst st" a "nth_path ''$.expected_artifacts'' i @ ''.id''"]
  by (auto simp: artifact_issues_def Let_def case_prod_unfold artifact_ok_def text_ok_def path_member_issues_def path_issues_Nil
      reference_issues_Nil [OF assms] artifact_refs_def split: if_splits)

lemma argv_Nil: "argv_issues v p = [] \<longleftrightarrow> argv_ok v"
proof -
  have one: "arg_issues p (j, x) = [] \<longleftrightarrow> arg_ok x" for j x
    by (cases x) (auto simp: arg_issues_def arg_ok_def Let_def)
  have "(\<forall>(j, x) \<in> set (enumerate n xs). arg_issues p (j, x) = []) \<longleftrightarrow> (\<forall>x \<in> set xs. arg_ok x)" for n xs
    by (induction xs arbitrary: n) (auto simp: one simp del: enumerate_eq_zip)
  from this [of 0] show ?thesis
    by (auto simp: argv_issues_def argv_ok_def split: option.split json.split)
qed

lemma timeout_Nil: "timeout_issues v p = [] \<longleftrightarrow> timeout_ok v"
  by (auto simp: timeout_issues_def timeout_ok_def positive_number_def exceeds_def split: option.splits json.splits jnum.splits)

lemma command_Nil:
  assumes "ids \<noteq> []"
  shows "fst (command_issues ids i st c) = [] \<longleftrightarrow> command_ok ids c \<and> id_of c \<notin> fst ` set (fst st)"
    and "fst (command_issues ids i st c) = [] \<Longrightarrow> fst (snd (command_issues ids i st c)) = fst st @ [(id_of c, i)] \<and>
      snd (snd (command_issues ids i st c)) = snd st @ named_ids ids (items_at c ''criterion_ids'')"
  using id_issues_Nil [of i "fst st" c "nth_path ''$.verification_commands'' i @ ''.id''"]
  by (auto simp: command_issues_def Let_def case_prod_unfold command_ok_def argv_Nil timeout_Nil cwd_issues_def
      path_member_issues_def path_issues_Nil reference_issues_Nil [OF assms] split: if_splits option.splits)

lemma array_Nil:
  assumes f: "\<And>i st x. fst (f i st x) = [] \<longleftrightarrow> Q x \<and> id_of x \<notin> fst ` set (fst st)"
    and s: "\<And>i st x. fst (f i st x) = [] \<Longrightarrow> fst (snd (f i st x)) = fst st @ [(id_of x, i)] \<and> snd (snd (f i st x)) = snd st @ g x"
  shows "fst (array_issues k path n f v) = [] \<longleftrightarrow> array_ok k n Q v"
    and "fst (array_issues k path n f v) = [] \<Longrightarrow> snd (array_issues k path n f v) = concat (map g (items_at v k))"
  using collect_loop(1) [where f = f and p = fst and q = snd and Q = Q and g = g and i = 0 and st = "([], [])", OF f s]
    collect_loop(2) [where f = f and p = fst and q = snd and Q = Q and g = g and i = 0 and st = "([], [])", OF f s]
  by (auto simp: array_issues_def array_ok_def items_at_def case_prod_unfold split: option.splits json.splits)

lemma artifacts_Nil:
  assumes "ids \<noteq> []"
  shows "fst (array_issues k path n (artifact_issues ids) v) = [] \<longleftrightarrow> array_ok k n (artifact_ok ids) v"
    and "fst (array_issues k path n (artifact_issues ids) v) = [] \<Longrightarrow>
      snd (array_issues k path n (artifact_issues ids) v) = concat (map (artifact_refs ids) (items_at v k))"
  using array_Nil [where f = "artifact_issues ids" and Q = "artifact_ok ids" and g = "artifact_refs ids", OF artifact_Nil [OF assms]]
  by blast+

lemma commands_Nil:
  assumes "ids \<noteq> []"
  shows "fst (array_issues k path n (command_issues ids) v) = [] \<longleftrightarrow> array_ok k n (command_ok ids) v"
    and "fst (array_issues k path n (command_issues ids) v) = [] \<Longrightarrow>
      snd (array_issues k path n (command_issues ids) v) = concat (map (\<lambda>c. named_ids ids (items_at c ''criterion_ids'')) (items_at v k))"
  using array_Nil [where f = "command_issues ids" and Q = "command_ok ids"
      and g = "\<lambda>c. named_ids ids (items_at c ''criterion_ids'')", OF command_Nil [OF assms]]
  by blast+

lemma evidence_Nil: "evidence_issues ids refs = [] \<longleftrightarrow> set (map fst ids) \<subseteq> set refs"
  by (force simp: evidence_issues_def)

lemma enumerated_Nil: "(\<forall>y \<in> set (enumerate i xs). P (snd y)) \<longleftrightarrow> (\<forall>x \<in> set xs. P x)"
  by (induction xs arbitrary: i) auto

lemma root_refs_Nil:
  "root_ref_issues i seen xs = [] \<longleftrightarrow> (\<forall>x \<in> set xs. case x of JStr s \<Rightarrow> s \<noteq> [] \<and> s \<notin> set seen | _ \<Rightarrow> False) \<and> distinct xs"
proof (induction xs arbitrary: i seen)
  case (Cons x xs)
  show ?case
  proof (cases x)
    case (JStr s)
    have e: "(\<forall>y \<in> set xs. case y of JStr t \<Rightarrow> t \<noteq> [] \<and> t \<notin> set (s # seen) | _ \<Rightarrow> False) \<longleftrightarrow>
        (\<forall>y \<in> set xs. case y of JStr t \<Rightarrow> t \<noteq> [] \<and> t \<notin> set seen | _ \<Rightarrow> False) \<and> JStr s \<notin> set xs"
      by (fastforce split: json.splits)
    from Cons.IH [of "Suc i" "s # seen", unfolded e] Cons.IH [of "Suc i" seen] show ?thesis by (simp add: JStr Let_def)
  qed simp_all
qed simp

lemma member_issues_Nil:
  "capability_issues v = [] \<longleftrightarrow> capabilities_ok v" "root_criteria_issues v = [] \<longleftrightarrow> root_criteria_ok v"
  "alias_issues v = [] \<longleftrightarrow> alias_ok v" "limit_issues v = [] \<longleftrightarrow> limits_ok v" "provenance_issues v = [] \<longleftrightarrow> provenance_ok v"
proof -
  have "concat (map (\<lambda>(i, x). let p = nth_path ''$.required_capabilities'' i in
         case x of JStr s \<Rightarrow> (if s = [] then [(T_type_error, p)] else when_so (length s > MAX_CAPABILITY_LENGTH) T_too_long p)
         | _ \<Rightarrow> [(T_type_error, p)]) (enumerate 0 xs)) = [] \<longleftrightarrow>
      (\<forall>y \<in> set (enumerate 0 xs). case snd y of JStr s \<Rightarrow> s \<noteq> [] \<and> length s \<le> MAX_CAPABILITY_LENGTH | _ \<Rightarrow> False)" for xs
    unfolding concat_map_Nil by (intro ball_cong) (auto simp: Let_def split: json.splits if_splits)
  then show "capability_issues v = [] \<longleftrightarrow> capabilities_ok v"
    using enumerated_Nil [of 0 _ "\<lambda>x. case x of JStr s \<Rightarrow> s \<noteq> [] \<and> length s \<le> MAX_CAPABILITY_LENGTH | _ \<Rightarrow> False"]
    by (auto simp: capability_issues_def capabilities_ok_def simp del: concat_eq_Nil_conv split: option.split json.split)
  show "root_criteria_issues v = [] \<longleftrightarrow> root_criteria_ok v"
    by (simp add: root_criteria_issues_def root_criteria_ok_def root_refs_Nil cong: json.case_cong split: option.split json.split)
  show "alias_issues v = [] \<longleftrightarrow> alias_ok v"
    by (simp add: alias_issues_def alias_ok_def split: option.split json.split)
  have w: "x = None \<or> positive_integer x \<longleftrightarrow> whole_limit_ok x" "x = None \<or> positive_number x \<longleftrightarrow> cost_limit_ok x" for x
    by (auto simp: positive_integer_def positive_number_def whole_limit_ok_def cost_limit_ok_def split: option.splits json.splits jnum.splits)
  show "limit_issues v = [] \<longleftrightarrow> limits_ok v"
    unfolding limit_issues_def limits_ok_def w [symmetric] by (auto split: option.split)
  show "provenance_issues v = [] \<longleftrightarrow> provenance_ok v"
    by (auto simp: provenance_issues_def provenance_ok_def split: option.split)
qed

lemma validateContract_ok: "validateContract v = [] \<longleftrightarrow> contract_ok v"
proof (cases "is_object v \<and> jget v ''schema_version'' = Some (JNum (NInt 1))")
  case False
  then show ?thesis by (auto simp: validateContract_def contract_ok_def)
next
  case True
  obtain ce ids where c: "criteria_issues v = (ce, ids)" by fastforce
  note cr = criteria_Nil [OF c]
  show ?thesis
  proof (cases "ce = []")
    case False
    have e: "fst (structure_issues v) \<noteq> []" using False by (simp add: structure_issues_def c case_prod_unfold)
    obtain E js refs where st: "structure_issues v = (E, js, refs)" by (cases "structure_issues v") auto
    have "validateContract v \<noteq> []" using True e unfolding validateContract_def st by simp
    moreover have "\<not> contract_ok v" using cr(1) False unfolding contract_ok_def by simp
    ultimately show ?thesis by simp
  next
    case ok: True
    let ?ids = "map fst ids" and ?A = "array_issues ''expected_artifacts'' ''$.expected_artifacts'' MAX_ARTIFACTS_COUNT (artifact_issues (map fst ids)) v"
      and ?M = "array_issues ''verification_commands'' ''$.verification_commands'' MAX_COMMANDS_COUNT (command_issues (map fst ids)) v"
    from cr(2) [OF ok] have i: "?ids = contract_criteria v" "?ids \<noteq> []" by auto
    have ev: "evidence_issues ids (snd ?M @ snd ?A) = [] \<longleftrightarrow> (\<forall>c \<in> set (contract_criteria v). has_evidence v c)"
      if "fst ?A = []" "fst ?M = []"
    proof -
      have "set (snd ?M @ snd ?A) = {c \<in> set ?ids. has_evidence v c}"
        using artifacts_Nil(2) [OF i(2) that(1)] commands_Nil(2) [OF i(2) that(2)]
        by (auto simp: set_named_ids artifact_refs_def has_evidence_def supports_def split: if_splits)
      then have "set (map fst ids) \<subseteq> set (snd ?M @ snd ?A) \<longleftrightarrow> (\<forall>c \<in> set (map fst ids). has_evidence v c)" by blast
      then show ?thesis unfolding evidence_Nil i(1) .
    qed
    obtain E refs where st: "structure_issues v = (E, ids, refs)" and refs: "refs = snd ?M @ snd ?A"
      by (simp add: structure_issues_def c case_prod_unfold)
    have E: "E = [] \<longleftrightarrow> isNonEmptyString (jget v ''id'') \<and> text_ok v ''goal'' MAX_GOAL_LENGTH \<and> fst ?A = [] \<and> fst ?M = [] \<and>
        capabilities_ok v \<and> root_criteria_ok v \<and> alias_ok v \<and> limits_ok v \<and> provenance_ok v"
      using st ok by (auto simp: structure_issues_def c case_prod_unfold text_issues_Nil member_issues_Nil)
    note parts = artifacts_Nil(1) [OF i(2)] commands_Nil(1) [OF i(2)] i(1)
    have k: "criteria_ok v" using cr(1) ok by simp
    show ?thesis
    proof (cases "E = []")
      case False
      with E [unfolded parts(1,2), unfolded i(1)] have "\<not> contract_ok v" unfolding contract_ok_def by blast
      moreover have "validateContract v \<noteq> []" using True False unfolding validateContract_def st by simp
      ultimately show ?thesis by simp
    next
      case fine: True
      with E have a: "fst ?A = []" "fst ?M = []" by simp_all
      note b = a [unfolded parts(1,2)] a [unfolded parts(1,2), unfolded i(1)]
      have "validateContract v = (if json_size v > MAX_CONTRACT_JSON_BYTES then [(T_too_long, ''$'')] else evidence_issues ids refs)"
        using True fine by (simp add: validateContract_def st)
      then have "validateContract v = [] \<longleftrightarrow> json_size v \<le> MAX_CONTRACT_JSON_BYTES \<and> (\<forall>c \<in> set (contract_criteria v). has_evidence v c)"
        using ev [OF a] by (simp add: refs)
      with E fine k True b show ?thesis unfolding contract_ok_def by simp
    qed
  qed
qed

text \<open>
  C12: The validator accepts exactly the well-formed contracts: version, id and goal, one to twenty
  criteria with different ids, artifacts and commands with different ids whose paths stay inside a
  workspace, whose arguments have no shell characters and which name only criteria of the contract,
  bounded capabilities, different root criteria, a well-formed workspace alias, positive limits, a bounded size,
  a provenance, and for every criterion a command or a required artifact that gives evidence for it.
\<close>

theorem validateContract_iff: "validateContract v = [] \<longleftrightarrow> contract_ok v"
  by (rule validateContract_ok)

text \<open>A contract with one criterion that one command checks.\<close>

definition passing_contract :: json where
  "passing_contract = JObj [(''schema_version'', JNum (NInt 1)), (''id'', JStr ''k''), (''digest'', JStr ''d''), (''goal'', JStr ''build''),
     (''criteria'', JArr [JObj [(''id'', JStr ''c1''), (''description'', JStr ''builds'')]]),
     (''expected_artifacts'', JArr []),
     (''verification_commands'', JArr [JObj [(''id'', JStr ''v1''), (''argv'', JArr [JStr ''make'']), (''timeout_ms'', JNum (NInt 30000)),
        (''criterion_ids'', JArr [JStr ''c1''])]]),
     (''required_capabilities'', JArr []), (''limits'', JObj []),
     (''provenance'', JObj [(''root_card_id'', JNum (NInt 3)), (''card_id'', JNum (NInt 7)), (''authored_by'', JStr ''orc''), (''created_at'', JStr ''t'')])]"

lemma passing_contract_ok: "contract_ok passing_contract"
proof -
  have "json_bound passing_contract \<le> 50000" by (simp add: passing_contract_def show_int_def show_nat.simps)
  then have z: "json_size passing_contract \<le> 50000" by (rule order_trans [OF json_size_le])
  have a: "array_ok ''criteria'' MAX_CRITERIA_COUNT criterion_ok passing_contract"
    by (simp add: passing_contract_def array_ok_def criterion_ok_def text_ok_def isNonEmptyString_def text_at_def max_defs)
  have b: "array_ok ''verification_commands'' MAX_COMMANDS_COUNT (command_ok [''c1'']) passing_contract"
    by (simp add: passing_contract_def array_ok_def command_ok_def argv_ok_def arg_ok_def isShellString_def hasHomeForm_def timeout_ok_def references_ok_def
      text_ok_def isNonEmptyString_def text_at_def max_defs)
  have c: "contract_criteria passing_contract = [''c1'']"
    by (simp add: passing_contract_def contract_criteria_def items_at_def text_at_def)
  show ?thesis unfolding contract_ok_def c
    using z a b
    by (simp add: criteria_ok_def array_ok_def passing_contract_def capabilities_ok_def root_criteria_ok_def alias_ok_def limits_ok_def whole_limit_ok_def cost_limit_ok_def
      provenance_ok_def text_ok_def isNonEmptyString_def text_at_def is_number_def max_defs has_evidence_def supports_def items_at_def)
qed

section \<open>Normalisation\<close>

text \<open>
  \<open>canonicalJson\<close>: the text that is hashed, members by key and \<open>undefined\<close> as \<open>null\<close>. A value is
  built in two forms that differ in the members that are \<open>undefined\<close>: with \<open>null\<close> in their place,
  as the digest sees them (\<open>opt_mem True\<close>), and without them, as they are validated and stored.
\<close>

definition hex_digit :: "nat \<Rightarrow> char" where
  "hex_digit n = char_of (if n < 10 then 48 + n else 87 + n)"

definition escape :: "char \<Rightarrow> string" where
  "escape c = (let n = code_of c in
     if n = 34 \<or> n = 92 then [backslash, c]
     else if n = 8 then [backslash, CHR ''b''] else if n = 9 then [backslash, CHR ''t''] else if n = 10 then [backslash, CHR ''n'']
     else if n = 12 then [backslash, CHR ''f''] else if n = 13 then [backslash, CHR ''r'']
     else if n < 32 then backslash # ''u00'' @ [hex_digit (n div 16), hex_digit (n mod 16)]
     else [c])"

definition quoted :: "string \<Rightarrow> string" where
  "quoted s = [char_of (34 :: nat)] @ concat (map escape s) @ [char_of (34 :: nat)]"

fun num_text :: "jnum \<Rightarrow> string" where
  "num_text (NInt i) = show_int i"
| "num_text (NFrac s) = s"
| "num_text NNaN = ''NaN''"
| "num_text NInf = ''Infinity''"

definition by_key :: "(string \<times> string) list \<Rightarrow> (string \<times> string) list" where
  "by_key ms = sort_key (\<lambda>m. map code_of (fst m)) ms"

fun canonicalJson :: "json \<Rightarrow> string" where
  "canonicalJson JNull = ''null''"
| "canonicalJson (JBool b) = (if b then ''true'' else ''false'')"
| "canonicalJson (JNum n) = num_text n"
| "canonicalJson (JStr s) = quoted s"
| "canonicalJson (JArr xs) = ''['' @ join_with '','' (map canonicalJson xs) @ '']''"
| "canonicalJson (JObj ms) = ''{'' @ join_with '','' (map (\<lambda>(k, t). quoted k @ '':'' @ t)
     (by_key (map (\<lambda>(k, v). (k, canonicalJson v)) ms))) @ ''}''"

definition stripDigest :: "json \<Rightarrow> json" where
  "stripDigest v = (case v of JObj ms \<Rightarrow> JObj (filter (\<lambda>m. fst m \<noteq> ''digest'') ms) | _ \<Rightarrow> v)"

definition computeDigest :: "(string \<Rightarrow> string) \<Rightarrow> json \<Rightarrow> string" where
  "computeDigest sha v = sha (canonicalJson (stripDigest v))"

definition opt_mem :: "bool \<Rightarrow> string \<Rightarrow> json option \<Rightarrow> (string \<times> json) list" where
  "opt_mem b k v = (case v of Some x \<Rightarrow> [(k, x)] | None \<Rightarrow> if b then [(k, JNull)] else [])"

definition norm_criterion :: "bool \<Rightarrow> json \<Rightarrow> json" where
  "norm_criterion b c = JObj (opt_mem b ''id'' (jget c ''id'') @ opt_mem b ''description'' (jget c ''description''))"

definition norm_artifact :: "bool \<Rightarrow> json \<Rightarrow> json" where
  "norm_artifact b a = JObj (opt_mem b ''id'' (jget a ''id'') @ opt_mem b ''kind'' (jget a ''kind'') @ opt_mem b ''ref'' (jget a ''ref'') @
     [(''required'', JBool (jget a ''required'' = Some (JBool True))), (''criterion_ids'', JArr (items_at a ''criterion_ids''))])"

definition norm_timeout :: "json \<Rightarrow> json" where
  "norm_timeout c = (case jget c ''timeout_ms'' of None \<Rightarrow> JNum (NInt 30000) | Some JNull \<Rightarrow> JNum (NInt 30000) | Some v \<Rightarrow> v)"

definition norm_command :: "bool \<Rightarrow> json \<Rightarrow> json" where
  "norm_command b c = JObj (opt_mem b ''id'' (jget c ''id'') @ [(''argv'', JArr (items_at c ''argv''))] @ opt_mem b ''cwd'' (jget c ''cwd'') @
     [(''timeout_ms'', norm_timeout c), (''criterion_ids'', JArr (items_at c ''criterion_ids''))])"

definition no_members :: "json \<Rightarrow> bool" where
  "no_members v \<longleftrightarrow> (case v of JObj ms \<Rightarrow> ms = [] | JArr xs \<Rightarrow> xs = [] | _ \<Rightarrow> True)"

definition norm_limits :: "bool \<Rightarrow> json \<Rightarrow> json" where
  "norm_limits b v = (let l = (case jget v ''limits'' of Some x \<Rightarrow> if is_object x then x else JObj [] | None \<Rightarrow> JObj []) in
     if no_members l then JObj []
     else JObj (opt_mem b ''max_duration_ms'' (jget l ''max_duration_ms'') @ opt_mem b ''max_tokens'' (jget l ''max_tokens'') @
       opt_mem b ''max_cost'' (jget l ''max_cost'')))"

definition text_or :: "string \<Rightarrow> json option \<Rightarrow> json" where
  "text_or d v = (case v of Some (JStr s) \<Rightarrow> JStr s | _ \<Rightarrow> JStr d)"

definition number_or_zero :: "json option \<Rightarrow> json" where
  "number_or_zero v = (case v of Some (JNum n) \<Rightarrow> JNum n | _ \<Rightarrow> JNum (NInt 0))"

definition norm_provenance :: "string \<Rightarrow> json \<Rightarrow> json" where
  "norm_provenance instant v = (let p = (case jget v ''provenance'' of Some x \<Rightarrow> if is_object x then x else JNull | None \<Rightarrow> JNull) in
     JObj [(''root_card_id'', number_or_zero (jget p ''root_card_id'')), (''card_id'', number_or_zero (jget p ''card_id'')),
       (''authored_by'', text_or ''unknown'' (jget p ''authored_by'')), (''created_at'', text_or instant (jget p ''created_at''))])"

definition norm_alias :: "json \<Rightarrow> json option" where
  "norm_alias v = map_option (\<lambda>w. case w of JStr s \<Rightarrow> JStr (js_trim s) | _ \<Rightarrow> w) (jget v ''workspace_alias'')"

definition norm_items :: "(json \<Rightarrow> json) \<Rightarrow> string \<Rightarrow> json \<Rightarrow> json" where
  "norm_items f k v = JArr (map f (items_at v k))"

text \<open>The object \<open>built\<close>, with the digest \<open>d\<close>.\<close>

definition built :: "bool \<Rightarrow> string \<Rightarrow> string \<Rightarrow> string \<Rightarrow> json \<Rightarrow> json" where
  "built b instant fresh d v = JObj
     ([(''schema_version'', JNum (NInt 1)),
       (''id'', JStr (if isNonEmptyString (jget v ''id'') then text_at v ''id'' else fresh)),
       (''digest'', JStr d), (''goal'', JStr (text_at v ''goal'')),
       (''criteria'', norm_items (norm_criterion b) ''criteria'' v),
       (''expected_artifacts'', norm_items (norm_artifact b) ''expected_artifacts'' v),
       (''verification_commands'', norm_items (norm_command b) ''verification_commands'' v),
       (''required_capabilities'', JArr (items_at v ''required_capabilities'')),
       (''limits'', norm_limits b v), (''provenance'', norm_provenance instant v)] @
      (if items_at v ''supports_root_criteria'' \<noteq> []
         then [(''supports_root_criteria'', JArr (items_at v ''supports_root_criteria''))] else []) @
      opt_mem False ''revision_meta'' (if is_object (member_at v ''revision_meta'') then jget v ''revision_meta'' else None) @
      opt_mem False ''workspace_alias'' (norm_alias v))"

datatype normalized = Norm_ok json | Norm_issues "contract_issue list" | Norm_throws

text \<open>Reading a member of a \<open>null\<close> item throws.\<close>

definition null_item :: "json \<Rightarrow> bool" where
  "null_item v \<longleftrightarrow> list_ex (\<lambda>k. list_ex (\<lambda>x. x = JNull) (items_at v k)) [''criteria'', ''expected_artifacts'', ''verification_commands'']"

definition normalizeContract :: "(string \<Rightarrow> string) \<Rightarrow> string \<Rightarrow> string \<Rightarrow> json \<Rightarrow> normalized" where
  "normalizeContract sha instant fresh v =
     (if \<not> is_object v then Norm_issues [(T_type_error, ''$'')]
      else if null_item v then Norm_throws
      else let c = built False instant fresh (computeDigest sha (built True instant fresh [] v)) v in
        (case validateContract c of [] \<Rightarrow> Norm_ok c | es \<Rightarrow> Norm_issues es))"

subsection \<open>Normalising again\<close>

lemma map_of_opt_mem: "map_of (opt_mem False k x) j = (if j = k then x else None)"
  by (auto simp: opt_mem_def split: option.split)

lemma items_at_JArr: "jget v k = Some (JArr xs) \<Longrightarrow> items_at v k = xs"
  by (simp add: items_at_def)

lemma js_trim_idem: "js_trim (js_trim s) = js_trim s"
proof -
  have d: "dropWhile P (List.rev (dropWhile P (List.rev t))) = List.rev (dropWhile P (List.rev t))" if "dropWhile P t = t" for P and t :: string
  proof (cases "List.rev (dropWhile P (List.rev t))")
    case (Cons x xs)
    have "List.rev t = takeWhile P (List.rev t) @ dropWhile P (List.rev t)" by simp
    then have "List.rev (List.rev t) = List.rev (takeWhile P (List.rev t) @ dropWhile P (List.rev t))" by (rule arg_cong)
    then have "t = List.rev (dropWhile P (List.rev t)) @ List.rev (takeWhile P (List.rev t))"
      unfolding rev_rev_ident rev_append .
    with Cons have "t = x # xs @ List.rev (takeWhile P (List.rev t))" by simp
    with that have "\<not> P x" by (metis dropWhile.simps(2) hd_dropWhile list.sel(1) list.distinct(1))
    with Cons show ?thesis by simp
  next
    case Nil
    then show ?thesis by (simp only: dropWhile.simps)
  qed
  have "dropWhile js_space (js_trim s) = js_trim s" unfolding js_trim_def by (rule d) simp
  then show ?thesis by (simp add: js_trim_def)
qed

lemmas again = map_of_opt_mem map_add_def items_at_def

lemma norm_criterion_again: "norm_criterion b (norm_criterion False c) = norm_criterion b c"
  by (auto simp: norm_criterion_def again split: option.split)

lemma norm_artifact_again: "norm_artifact b (norm_artifact False a) = norm_artifact b a"
  by (auto simp: norm_artifact_def again split: option.split)

lemma norm_command_again: "norm_command b (norm_command False c) = norm_command b c"
  by (auto simp: norm_command_def norm_timeout_def again split: option.split json.split)

text \<open>Limits that are an object with members, none of them a limit.\<close>

definition unknown_limits :: "json \<Rightarrow> bool" where
  "unknown_limits v \<longleftrightarrow> (let l = member_at v ''limits'' in is_object l \<and> \<not> no_members l \<and> jget l ''max_duration_ms'' = None \<and>
     jget l ''max_tokens'' = None \<and> jget l ''max_cost'' = None)"

definition limit_members :: "bool \<Rightarrow> json \<Rightarrow> (string \<times> json) list" where
  "limit_members b l = opt_mem b ''max_duration_ms'' (jget l ''max_duration_ms'') @ opt_mem b ''max_tokens'' (jget l ''max_tokens'') @
     opt_mem b ''max_cost'' (jget l ''max_cost'')"

lemma limit_members_again: "limit_members b (JObj (limit_members False l)) = limit_members b l"
  by (auto simp: limit_members_def again split: option.split)

lemma limit_members_Nil: "limit_members False l = [] \<longleftrightarrow>
    jget l ''max_duration_ms'' = None \<and> jget l ''max_tokens'' = None \<and> jget l ''max_cost'' = None"
  by (auto simp: limit_members_def opt_mem_def split: option.split)

lemma norm_limits_eq: "norm_limits b v = (let l = member_at v ''limits'' in
    if \<not> is_object l \<or> no_members l then JObj [] else JObj (limit_members b l))"
  by (auto simp: norm_limits_def limit_members_def member_at_def no_members_def Let_def split: option.split)

lemma norm_limits_again:
  assumes "jget w ''limits'' = Some (norm_limits False v)" and "\<not> b \<or> \<not> unknown_limits v"
  shows "norm_limits b w = norm_limits b v"
proof -
  let ?l = "member_at v ''limits''"
  have m: "member_at w ''limits'' = norm_limits False v" using assms(1) by (simp add: member_at_def)
  show ?thesis
  proof (cases "\<not> is_object ?l \<or> no_members ?l")
    case True
    then have n: "norm_limits c v = JObj []" for c by (simp add: norm_limits_eq)
    show ?thesis unfolding norm_limits_eq [of b w] m n by (simp add: no_members_def)
  next
    case False
    then have n: "norm_limits c v = JObj (limit_members c ?l)" for c by (simp add: norm_limits_eq)
    show ?thesis
    proof (cases "limit_members False ?l = []")
      case True
      with False assms(2) have "\<not> b" by (simp add: unknown_limits_def limit_members_Nil Let_def)
      with True show ?thesis unfolding norm_limits_eq [of b w] m n by (simp add: no_members_def)
    next
      case False
      then show ?thesis unfolding norm_limits_eq [of b w] m n by (simp add: no_members_def limit_members_again)
    qed
  qed
qed

lemma text_or_again: "text_or t' (Some (text_or t x)) = text_or t x"
  by (simp add: text_or_def split: option.split json.split)

lemma number_or_zero_again: "number_or_zero (Some (number_or_zero x)) = number_or_zero x"
  by (simp add: number_or_zero_def split: option.split json.split)

lemma norm_provenance_again:
  assumes "jget w ''provenance'' = Some (norm_provenance t v)"
  shows "norm_provenance t' w = norm_provenance t v"
  using assms by (simp add: norm_provenance_def Let_def number_or_zero_again text_or_again)

lemma norm_alias_again:
  assumes "jget w ''workspace_alias'' = norm_alias v"
  shows "norm_alias w = norm_alias v"
  using assms by (cases "jget v ''workspace_alias''") (auto simp: norm_alias_def js_trim_idem split: json.split)

lemma norm_items_again:
  assumes "jget w k = Some (norm_items (f False) k v)" and "\<And>x. f b (f False x) = f b x"
  shows "norm_items (f b) k w = norm_items (f b) k v"
  using assms by (simp add: norm_items_def items_at_def)

lemma built_members:
  "jget (built b t g d v) ''id'' = Some (JStr (if isNonEmptyString (jget v ''id'') then text_at v ''id'' else g))"
  "jget (built b t g d v) ''goal'' = Some (JStr (text_at v ''goal''))"
  "jget (built b t g d v) ''digest'' = Some (JStr d)"
  "jget (built b t g d v) ''criteria'' = Some (norm_items (norm_criterion b) ''criteria'' v)"
  "jget (built b t g d v) ''expected_artifacts'' = Some (norm_items (norm_artifact b) ''expected_artifacts'' v)"
  "jget (built b t g d v) ''verification_commands'' = Some (norm_items (norm_command b) ''verification_commands'' v)"
  "jget (built b t g d v) ''required_capabilities'' = Some (JArr (items_at v ''required_capabilities''))"
  "jget (built b t g d v) ''limits'' = Some (norm_limits b v)"
  "jget (built b t g d v) ''provenance'' = Some (norm_provenance t v)"
  by (simp_all add: built_def map_of_opt_mem)

lemma built_options:
  "jget (built b t g d v) ''supports_root_criteria'' =
     (if items_at v ''supports_root_criteria'' = [] then None else Some (JArr (items_at v ''supports_root_criteria'')))"
  "jget (built b t g d v) ''revision_meta'' = (if is_object (member_at v ''revision_meta'') then jget v ''revision_meta'' else None)"
  "jget (built b t g d v) ''workspace_alias'' = norm_alias v"
  by (auto simp: built_def map_of_opt_mem map_add_def split: option.split)

lemma built_again:
  assumes c: "c = built False t g d v" and i: "isNonEmptyString (jget c ''id'')" and b: "\<not> b \<or> \<not> unknown_limits v"
  shows "built b t' g' d' c = built b t g d' v"
proof -
  note m = built_members [of False t g d v, folded c] and o = built_options [of False t g d v, folded c]
  have "items_at c ''required_capabilities'' = items_at v ''required_capabilities''"
    "items_at c ''supports_root_criteria'' = items_at v ''supports_root_criteria''"
    by (simp_all add: items_at_def m(7) o(1))
  moreover have "(if is_object (member_at c ''revision_meta'') then jget c ''revision_meta'' else None) =
      (if is_object (member_at v ''revision_meta'') then jget v ''revision_meta'' else None)"
    by (auto simp: member_at_def o(2) split: option.split)
  moreover have "text_at c ''id'' = (if isNonEmptyString (jget v ''id'') then text_at v ''id'' else g)" "text_at c ''goal'' = text_at v ''goal''"
    by (simp_all add: text_at_def m(1,2))
  moreover note norm_items_again [where f = norm_criterion and b = b, OF m(4) norm_criterion_again] norm_items_again [where f = norm_artifact and b = b, OF m(5) norm_artifact_again]
    norm_items_again [where f = norm_command and b = b, OF m(6) norm_command_again] norm_limits_again [OF m(8) b] norm_provenance_again [OF m(9), of t']
    norm_alias_again [OF o(3)]
  ultimately show ?thesis using i unfolding built_def by simp
qed

lemma null_item_built: "\<not> null_item (built b t g d v)"
  by (auto simp: null_item_def items_at_def built_members norm_items_def list_ex_iff norm_criterion_def norm_artifact_def norm_command_def)

lemma normalized_valid:
  assumes "normalizeContract sha t g v = Norm_ok c"
  shows "contract_ok c" and "c = built False t g (computeDigest sha (built True t g [] v)) v"
  using assms by (simp_all add: normalizeContract_def validateContract_ok [symmetric] Let_def split: if_splits list.splits)

lemma digest_ignored: "computeDigest sha (built b t g d v) = computeDigest sha (built b t g d' v)"
  by (simp add: computeDigest_def stripDigest_def built_def)

text \<open>
  C27: Normalising is stable. What \<open>normalizeContract\<close> returned is returned unchanged, digest included,
  when it is normalised again, at any time and with any fresh id; unless the raw contract had limits
  none of which is a known one.
\<close>

theorem normalized_again:
  assumes n: "normalizeContract sha t g v = Norm_ok c" and l: "\<not> unknown_limits v"
  shows "normalizeContract sha t' g' c = Norm_ok c"
proof -
  note c = normalized_valid(2) [OF n] and ok = normalized_valid(1) [OF n]
  from ok have i: "isNonEmptyString (jget c ''id'')" and o: "is_object c" by (simp_all add: contract_ok_def)
  have "built True t' g' [] c = built True t g [] v" by (rule built_again [OF c i]) (simp add: l)
  moreover have "built False t' g' (computeDigest sha (built True t g [] v)) c = c"
    by (subst built_again [OF c i]) (simp_all add: c)
  moreover have "\<not> null_item c" by (simp add: c null_item_built)
  moreover have "validateContract c = []" using ok by (simp add: validateContract_ok)
  ultimately show ?thesis using o by (simp add: normalizeContract_def)
qed

lemma passing_contract_normal: "normalizeContract (\<lambda>_. ''d'') t g passing_contract = Norm_ok passing_contract"
proof -
  have "built False t g ''d'' passing_contract = passing_contract"
    by (simp add: built_def passing_contract_def isNonEmptyString_def text_at_def items_at_def norm_items_def norm_criterion_def norm_command_def
        norm_timeout_def opt_mem_def norm_limits_def no_members_def norm_provenance_def number_or_zero_def text_or_def member_at_def norm_alias_def)
  moreover have "is_object passing_contract" "\<not> null_item passing_contract"
    by (simp_all add: passing_contract_def null_item_def items_at_def)
  moreover have "validateContract passing_contract = []" by (simp add: validateContract_ok passing_contract_ok)
  ultimately show ?thesis by (simp add: normalizeContract_def computeDigest_def)
qed

lemma normalized_again_witness:
  "\<exists>c. normalizeContract (\<lambda>_. ''d'') ''t'' ''g'' passing_contract = Norm_ok c \<and> normalizeContract (\<lambda>_. ''d'') ''later'' ''h'' c = Norm_ok c"
proof -
  have "\<not> unknown_limits passing_contract"
    by (simp add: unknown_limits_def passing_contract_def member_at_def no_members_def)
  from passing_contract_normal normalized_again [OF passing_contract_normal this] show ?thesis by blast
qed

text \<open>Limits without a known one are hashed with three members and stored without any.\<close>

lemma unknown_limits_rehashed:
  assumes "normalizeContract sha t g v = Norm_ok c" and "unknown_limits v"
  shows "jget (built True t g d v) ''limits'' = Some (JObj [(''max_duration_ms'', JNull), (''max_tokens'', JNull), (''max_cost'', JNull)])"
    and "jget (built True t g d c) ''limits'' = Some (JObj [])"
proof -
  have n: "norm_limits b v = JObj (limit_members b (member_at v ''limits''))" for b
    using assms(2) by (simp add: norm_limits_eq unknown_limits_def Let_def)
  have "limit_members False (member_at v ''limits'') = []" "limit_members True (member_at v ''limits'') =
      [(''max_duration_ms'', JNull), (''max_tokens'', JNull), (''max_cost'', JNull)]"
    using assms(2) by (simp_all add: unknown_limits_def Let_def limit_members_def opt_mem_def)
  note m = n this
  show "jget (built True t g d v) ''limits'' = Some (JObj [(''max_duration_ms'', JNull), (''max_tokens'', JNull), (''max_cost'', JNull)])"
    by (simp add: built_members m)
  have "jget c ''limits'' = Some (JObj [])"
    unfolding normalized_valid(2) [OF assms(1)] built_members m ..
  then have "member_at c ''limits'' = JObj []" by (simp add: member_at_def)
  then show "jget (built True t g d c) ''limits'' = Some (JObj [])" by (simp add: built_members norm_limits_eq no_members_def)
qed

end
