(* ===== verification/RetryDecision.thy ===== *)
theory RetryDecision
  imports LeaseStore "HOL-Library.List_Lexorder" "HOL-Library.Product_Lexorder"
begin

text \<open>
  What happens after an attempt failed: the classification of the failure
  (\<open>retry/failure-classifier.ts\<close>), the retry policy (\<open>retry/retry-policy.ts\<close>) and the choice of an
  executor (\<open>retry/executor-selector.ts\<close>). All three are functions of their input and the clock.
  \<open>sha_json\<close> is the SHA-256 of a value's JSON text and \<open>sha\<close> that of a text; \<open>ckey\<close> is the sort
  key of the locale's collation, by which \<open>localeCompare\<close> orders identifiers. In the texts of
  recommended actions \<open>--\<close> stands for the em dash of the source.
\<close>

section \<open>The failure classifier\<close>

datatype failure_class =
  F_transient_transport | F_executor_unavailable | F_capability_mismatch | F_lease_expired | F_hard_deadline
| F_resource_or_budget_exhausted | F_tool_or_verification_failure | F_missing_or_invalid_artifact
| F_acceptance_unmet | F_strategy_failure | F_awaiting_input_expired | F_operator_cancelled
| F_policy_or_security_denied | F_invalid_contract | F_input_requested | F_unknown

fun class_name :: "failure_class \<Rightarrow> string" where
  "class_name F_transient_transport = ''transient_transport''"
| "class_name F_executor_unavailable = ''executor_unavailable''"
| "class_name F_capability_mismatch = ''capability_mismatch''"
| "class_name F_lease_expired = ''lease_expired''"
| "class_name F_hard_deadline = ''hard_deadline''"
| "class_name F_resource_or_budget_exhausted = ''resource_or_budget_exhausted''"
| "class_name F_tool_or_verification_failure = ''tool_or_verification_failure''"
| "class_name F_missing_or_invalid_artifact = ''missing_or_invalid_artifact''"
| "class_name F_acceptance_unmet = ''acceptance_unmet''"
| "class_name F_strategy_failure = ''strategy_failure''"
| "class_name F_awaiting_input_expired = ''awaiting_input_expired''"
| "class_name F_operator_cancelled = ''operator_cancelled''"
| "class_name F_policy_or_security_denied = ''policy_or_security_denied''"
| "class_name F_invalid_contract = ''invalid_contract''"
| "class_name F_input_requested = ''input_requested''"
| "class_name F_unknown = ''unknown''"

datatype confidence = Observed | Derived | Inferred | Ambiguous
datatype retryability = Automatic | Review_required | Needs_input | Never

datatype worker_outcome = Out_completed | Out_failed | Out_cancelled | Out_timed_out
datatype criterion_status = Cr_passed | Cr_failed | Cr_not_run | Cr_inconclusive
datatype artifact_kind = Af_file | Af_directory | Af_report | Af_logical

record worker_error =
  er_code :: string
  er_message :: string
  er_retryable :: "bool option"

text \<open>The parts of a result envelope that the classifier reads: exit code and timeout of a check.\<close>

record envelope =
  we_attempt_id :: string
  we_outcome :: worker_outcome
  we_criteria :: "criterion_status list"
  we_checks :: "(int option \<times> bool) list"
  we_artifacts :: "(bool \<times> artifact_kind) list"
  we_error :: "worker_error option"

record classify_input =
  ci_attempt_id :: string
  ci_envelope :: "envelope option"
  ci_lease :: "snapshot option"
  ci_lifecycle :: string
  ci_lifecycle_reason :: "string option"
  ci_cancel_reason :: "string option"
  ci_pending_input :: "bool option"

text \<open>The verdict under construction, field by field as the local variables of \<open>classify\<close>.\<close>

record verdict =
  vd_primary :: failure_class
  vd_factors :: "failure_class list"
  vd_evidence :: "string list"
  vd_codes :: "string list"
  vd_confidence :: confidence
  vd_retry :: retryability
  vd_actions :: "string list"

definition no_verdict :: verdict where
  "no_verdict = \<lparr> vd_primary = F_unknown, vd_factors = [], vd_evidence = [], vd_codes = [],
     vd_confidence = Ambiguous, vd_retry = Review_required, vd_actions = [] \<rparr>"

definition rule_as :: "failure_class \<Rightarrow> confidence \<Rightarrow> retryability \<Rightarrow> string \<Rightarrow> verdict \<Rightarrow> verdict" where
  "rule_as p c r act v = v\<lparr> vd_primary := p, vd_confidence := c, vd_retry := r, vd_actions := vd_actions v @ [act] \<rparr>"

definition if_unknown :: "bool \<Rightarrow> (verdict \<Rightarrow> verdict) \<Rightarrow> verdict \<Rightarrow> verdict" where
  "if_unknown b f v = (if b \<and> vd_primary v = F_unknown then f v else v)"

definition add_factor :: "bool \<Rightarrow> failure_class \<Rightarrow> verdict \<Rightarrow> verdict" where
  "add_factor b f v = (if b then v\<lparr> vd_factors := vd_factors v @ [f] \<rparr> else v)"

definition add_evidence :: "bool \<Rightarrow> string \<Rightarrow> verdict \<Rightarrow> verdict" where
  "add_evidence b e v = (if b then v\<lparr> vd_evidence := vd_evidence v @ [e] \<rparr> else v)"

definition add_code :: "bool \<Rightarrow> string \<Rightarrow> verdict \<Rightarrow> verdict" where
  "add_code b e v = (if b then v\<lparr> vd_codes := vd_codes v @ [e] \<rparr> else v)"

text \<open>Phase 1: terminal reason codes.\<close>

definition classify_reasons :: "classify_input \<Rightarrow> verdict \<Rightarrow> verdict" where
  "classify_reasons i v =
     (let cr = orelse (ci_cancel_reason i) []; lr = orelse (ci_lifecycle_reason i) [];
          v1 = (if truthy (ci_cancel_reason i) then
                  (let w = add_evidence True (''cancel:'' @ cr) (add_code True (''cancel:'' @ cr) v)
                   in if cr = ''operator''
                        then rule_as F_operator_cancelled Observed Never ''operator cancelled -- no retry'' w
                      else if cr = ''project_abort'' \<or> cr = ''superseded''
                        then rule_as F_operator_cancelled Derived Never ''project aborted or superseded -- no retry'' w
                      else if cr = ''shutdown''
                        then rule_as F_transient_transport Observed Automatic ''shutdown -- clean rerun'' w
                      else w)
                else v)
      in if truthy (ci_lifecycle_reason i)
         then add_evidence True (''lifecycle:'' @ lr) (add_code True (''lifecycle:'' @ lr) v1) else v1)"

text \<open>Phase 2: the lease.\<close>

definition classify_lease :: "classify_input \<Rightarrow> verdict \<Rightarrow> verdict" where
  "classify_lease i v = (case ci_lease i of
     None \<Rightarrow> v
   | Some s \<Rightarrow>
       (let w = add_evidence True (''lease:'' @ sn_attempt_id s) v
        in if ev_phase (sn_evaluation s) = Cancel_requested then
             if_unknown True
               (if sn_semantic_state s = Stalled
                then rule_as F_lease_expired Derived Automatic ''stalled -- clean rerun or executor switch''
                else rule_as F_lease_expired Derived Review_required ''lease expired -- inspect and retry'')
               (add_factor True F_lease_expired w)
           else w))"

text \<open>Phase 3: the envelope.\<close>

definition error_code :: "envelope \<Rightarrow> string option" where
  "error_code e = map_option er_code (we_error e)"

definition code_is :: "envelope \<Rightarrow> string list \<Rightarrow> bool" where
  "code_is e cs \<longleftrightarrow> (case error_code e of None \<Rightarrow> False | Some c \<Rightarrow> c \<in> set cs)"

definition classify_retryable :: "envelope \<Rightarrow> verdict \<Rightarrow> verdict" where
  "classify_retryable e v =
     (if code_is e [''TRANSPORT'', ''CONNECTION'']
        then rule_as F_transient_transport Observed Automatic ''transient transport error -- clean rerun with backoff'' v
      else if code_is e [''DEADLINE'', ''TIMEOUT'']
        then rule_as F_hard_deadline Observed Never ''deadline exceeded -- no retry'' v
      else if code_is e [''CAPABILITY'']
        then rule_as F_capability_mismatch Observed Review_required ''capability mismatch -- switch executor'' v
      else if code_is e [''BUDGET'', ''QUOTA'']
        then rule_as F_resource_or_budget_exhausted Observed Never ''budget exhausted -- no retry'' v
      else v)"

definition classify_failed_envelope :: "envelope \<Rightarrow> verdict \<Rightarrow> verdict" where
  "classify_failed_envelope e v =
     (let criteriaFailed = (Cr_failed \<in> set (we_criteria e));
          anyCheckFailed = list_ex (\<lambda>(code, timedOut). code \<noteq> Some 0 \<or> timedOut) (we_checks e);
          anyArtifactMissing = list_ex (\<lambda>(there, k). \<not> there \<and> k \<noteq> Af_logical) (we_artifacts e);
          retryable = (case we_error e of None \<Rightarrow> False | Some x \<Rightarrow> er_retryable x = Some True);
          strategic = code_is e [''STRATEGY'', ''PLANNING''];
          v1 = add_code (truthy (error_code e)) (''error:'' @ orelse (error_code e) []) v;
          v2 = add_factor criteriaFailed F_acceptance_unmet v1;
          v3 = add_evidence anyCheckFailed ''checks_failed'' (add_factor anyCheckFailed F_tool_or_verification_failure v2);
          v4 = add_evidence anyArtifactMissing ''artifacts_missing'' (add_factor anyArtifactMissing F_missing_or_invalid_artifact v3);
          v5 = if_unknown retryable (classify_retryable e) v4;
          v6 = if_unknown (criteriaFailed \<and> anyCheckFailed)
                 (rule_as F_tool_or_verification_failure Derived Review_required ''checks failed -- review and repair strategy'') v5;
          v7 = if_unknown (criteriaFailed \<and> \<not> anyCheckFailed)
                 (rule_as F_acceptance_unmet Derived Review_required ''acceptance criteria not met -- review and repair'') v6;
          v8 = if_unknown anyArtifactMissing
                 (rule_as F_missing_or_invalid_artifact Derived Review_required ''artifacts missing -- review and fix'') v7;
          v9 = if_unknown strategic
                 (rule_as F_strategy_failure Inferred Review_required ''strategy failure -- Orc repair directive required'')
                 (add_factor strategic F_strategy_failure v8)
      in if_unknown (we_outcome e = Out_cancelled)
           (rule_as F_operator_cancelled Observed Never ''worker cancelled -- no retry'') v9)"

definition classify_envelope :: "classify_input \<Rightarrow> verdict \<Rightarrow> verdict" where
  "classify_envelope i v = (case ci_envelope i of
     None \<Rightarrow> v
   | Some e \<Rightarrow>
       (let w = add_evidence True (''envelope:'' @ we_attempt_id e) v
        in if we_outcome e = Out_completed
           then if_unknown True (rule_as F_unknown Ambiguous Review_required
                  ''worker completed but reconciler classified -- review'') w
           else classify_failed_envelope e w))"

text \<open>Phases 4 and 5: the lifecycle, pending input.\<close>

definition classify_lifecycle :: "classify_input \<Rightarrow> verdict \<Rightarrow> verdict" where
  "classify_lifecycle i v =
     (let v1 = if_unknown (ci_lifecycle i = ''cancelled'')
            (rule_as F_operator_cancelled Derived Never ''attempt cancelled -- no retry'') v;
          late = (ci_lifecycle i = ''timed_out'')
      in if_unknown late (rule_as F_hard_deadline Observed Never ''attempt timed out -- no retry'')
           (add_factor late F_hard_deadline v1))"

definition classify_input_wait :: "classify_input \<Rightarrow> verdict \<Rightarrow> verdict" where
  "classify_input_wait i v =
     (if ci_pending_input i = Some True then
        (if vd_primary v = F_unknown
         then rule_as F_awaiting_input_expired Derived Needs_input ''awaiting input expired -- fresh input required'' v
         else add_factor True F_awaiting_input_expired v)
      else v)"

text \<open>The codes that override whatever was found.\<close>

definition override_as :: "bool \<Rightarrow> failure_class \<Rightarrow> retryability \<Rightarrow> string \<Rightarrow> string \<Rightarrow> verdict \<Rightarrow> verdict" where
  "override_as b p r code act v =
     (if b then v\<lparr> vd_primary := p, vd_confidence := Observed, vd_retry := r, vd_codes := vd_codes v @ [code],
        vd_factors := [], vd_actions := [act] \<rparr> else v)"

definition input_code_is :: "classify_input \<Rightarrow> string list \<Rightarrow> bool" where
  "input_code_is i cs \<longleftrightarrow> (case ci_envelope i of None \<Rightarrow> False | Some e \<Rightarrow> code_is e cs)"

definition classify_overrides :: "classify_input \<Rightarrow> verdict \<Rightarrow> verdict" where
  "classify_overrides i v =
     override_as (input_code_is i [''INPUT_REQUESTED'']) F_input_requested Review_required ''input_requested''
       ''live question pending -- Orc must answer before retry''
     (override_as (input_code_is i [''INVALID_CONTRACT'']) F_invalid_contract Never ''invalid_contract''
       ''invalid contract -- no retry''
     (override_as (input_code_is i [''POLICY'', ''SECURITY'']) F_policy_or_security_denied Never ''policy_denied''
       ''policy or security denied -- no retry'' v))"

definition judge :: "classify_input \<Rightarrow> verdict" where
  "judge i = classify_overrides i (classify_input_wait i (classify_lifecycle i
     (classify_envelope i (classify_lease i (classify_reasons i no_verdict)))))"

fun evaluation_phase_name :: "evaluation_phase \<Rightarrow> string" where
  "evaluation_phase_name Healthy = ''healthy''"
| "evaluation_phase_name Warning = ''warning''"
| "evaluation_phase_name Inspect_due = ''inspect_due''"
| "evaluation_phase_name Inspecting = ''inspecting''"
| "evaluation_phase_name Inspect_grace = ''inspect_grace''"
| "evaluation_phase_name Cancel_requested = ''cancel_requested''"
| "evaluation_phase_name Closed = ''closed''"

fun inspection_name :: "inspection_outcome \<Rightarrow> string" where
  "inspection_name Insp_running = ''running''"
| "inspection_name Insp_terminal = ''terminal''"
| "inspection_name Insp_unknown = ''unknown''"

fun outcome_name :: "worker_outcome \<Rightarrow> string" where
  "outcome_name Out_completed = ''completed''"
| "outcome_name Out_failed = ''failed''"
| "outcome_name Out_cancelled = ''cancelled''"
| "outcome_name Out_timed_out = ''timed_out''"

definition member_opt :: "string \<Rightarrow> json option \<Rightarrow> (string \<times> json) list" where
  "member_opt k v = (case v of None \<Rightarrow> [] | Some j \<Rightarrow> [(k, j)])"

text \<open>The canonical input; members that are undefined are left out, as \<open>JSON.stringify\<close> does.\<close>

definition evaluation_json :: "lease_evaluation \<Rightarrow> json" where
  "evaluation_json e = JObj ([(''phase'', JStr (evaluation_phase_name (ev_phase e)))] @
     member_opt ''reason'' (map_option (\<lambda>r. JStr (reason_name r)) (ev_reason e)) @
     [(''inspectionCount'', JNum (NInt (ev_inspection_count e)))] @
     member_opt ''lastInspectionOutcome'' (map_option (\<lambda>x. JStr (inspection_name x)) (ev_last_outcome e)) @
     member_opt ''graceDeadlineAt'' (map_option (\<lambda>t. JNum (NInt t)) (ev_grace_deadline_at e)) @
     [(''version'', JNum (NInt (ev_version e)))])"

definition error_json :: "worker_error \<Rightarrow> json" where
  "error_json e = JObj ([(''code'', JStr (er_code e)), (''message'', JStr (er_message e))] @
     member_opt ''retryable'' (map_option JBool (er_retryable e)))"

definition canonical_input :: "classify_input \<Rightarrow> json" where
  "canonical_input i = JObj (
     [(''e'', case ci_envelope i of None \<Rightarrow> JNull | Some e \<Rightarrow>
         JObj ((''outcome'', JStr (outcome_name (we_outcome e))) # member_opt ''error'' (map_option error_json (we_error e)))),
      (''l'', case ci_lease i of None \<Rightarrow> JNull | Some s \<Rightarrow>
         JObj [(''evaluation'', evaluation_json (sn_evaluation s)), (''semanticState'', JStr (kind_name (sn_semantic_state s)))]),
      (''lc'', JStr (ci_lifecycle i))] @
     member_opt ''lr'' (map_option JStr (ci_lifecycle_reason i)) @
     member_opt ''cr'' (map_option JStr (ci_cancel_reason i)) @
     member_opt ''pi'' (map_option JBool (ci_pending_input i)))"

definition computeInputDigest :: "(json \<Rightarrow> string) \<Rightarrow> classify_input \<Rightarrow> string" where
  "computeInputDigest sha_json i = sha_json (canonical_input i)"

definition makeId :: "(string \<Rightarrow> string) \<Rightarrow> string \<Rightarrow> string \<Rightarrow> string" where
  "makeId sha a d = ''fc_'' @ take 16 (sha (a @ '':'' @ d))"

text \<open>\<open>[...new Set(xs)]\<close> keeps first occurrences.\<close>

definition js_set :: "'a list \<Rightarrow> 'a list" where
  "js_set xs = rev (remdups (rev xs))"

definition CLASSIFIER_VERSION :: string where
  "CLASSIFIER_VERSION = ''v1.0.0''"

record classification =
  fc_id :: string
  fc_attempt_id :: string
  fc_input_digest :: string
  fc_primary :: failure_class
  fc_factors :: "failure_class list"
  fc_evidence_ids :: "string list"
  fc_stable_codes :: "string list"
  fc_confidence :: confidence
  fc_retryability :: retryability
  fc_recommended_actions :: "string list"
  fc_classifier_version :: string
  fc_created_at :: int

definition classify :: "(json \<Rightarrow> string) \<Rightarrow> (string \<Rightarrow> string) \<Rightarrow> int \<Rightarrow> classify_input \<Rightarrow> classification" where
  "classify sha_json sha now i = (let v = judge i; d = computeInputDigest sha_json i in
     \<lparr> fc_id = makeId sha (ci_attempt_id i) d, fc_attempt_id = ci_attempt_id i, fc_input_digest = d,
       fc_primary = vd_primary v, fc_factors = js_set (vd_factors v), fc_evidence_ids = js_set (vd_evidence v),
       fc_stable_codes = js_set (vd_codes v), fc_confidence = vd_confidence v, fc_retryability = vd_retry v,
       fc_recommended_actions = take 5 (vd_actions v), fc_classifier_version = CLASSIFIER_VERSION,
       fc_created_at = now \<rparr>)"

section \<open>The retry policy\<close>

datatype retry_disposition = Automatic_retry | Orc_review | Retry_needs_input | Stop_retry

record retry_budget =
  bg_attempts_used :: nat
  bg_attempts_remaining :: int
  bg_same_class :: nat
  bg_same_executor :: nat
  bg_switches :: nat
  bg_elapsed_ms :: int
  bg_tokens :: int
  bg_cost :: int
  bg_hard_deadline_at :: "int option"

record retry_limits =
  lim_attempts :: nat
  lim_same_class :: nat
  lim_same_executor :: nat
  lim_switches :: nat
  lim_elapsed_ms :: int
  lim_tokens :: int
  lim_cost :: int
  lim_planner_calls :: nat
  lim_review_deadline_ms :: int
  lim_backoff_base_ms :: int
  lim_backoff_max_ms :: int

definition GLOBAL_LIMITS :: retry_limits where
  "GLOBAL_LIMITS = \<lparr> lim_attempts = 5, lim_same_class = 3, lim_same_executor = 2, lim_switches = 3,
     lim_elapsed_ms = 60 * 60 * 1000, lim_tokens = 1000000, lim_cost = 100, lim_planner_calls = 3,
     lim_review_deadline_ms = 30 * 60 * 1000, lim_backoff_base_ms = 5000, lim_backoff_max_ms = 60000 \<rparr>"

definition POLICY_VERSION :: string where
  "POLICY_VERSION = ''v1.0.0''"

record policy_input =
  pi_source_attempt_id :: string
  pi_primary :: failure_class
  pi_retryability :: retryability
  pi_factors :: "failure_class list"
  pi_budgets :: retry_budget
  pi_candidates :: "string list"
  pi_previous_executors :: "string list"

record policy_decision =
  pd_source_attempt_id :: string
  pd_disposition :: retry_disposition
  pd_reason_code :: string
  pd_earliest_at :: "int option"
  pd_remaining :: retry_budget
  pd_changes :: "string list"
  pd_candidates :: "string list"
  pd_input_digest :: string
  pd_policy_version :: string
  pd_created_at :: int

definition buildDecision ::
    "int \<Rightarrow> policy_input \<Rightarrow> retry_disposition \<Rightarrow> string \<Rightarrow> int option \<Rightarrow> string list \<Rightarrow> policy_decision" where
  "buildDecision now i d reason earliest changes = \<lparr> pd_source_attempt_id = pi_source_attempt_id i,
     pd_disposition = d, pd_reason_code = reason, pd_earliest_at = earliest,
     pd_remaining = (pi_budgets i)\<lparr> bg_attempts_remaining :=
       (if d = Stop_retry then 0 else bg_attempts_remaining (pi_budgets i) - 1) \<rparr>,
     pd_changes = changes, pd_candidates = pi_candidates i, pd_input_digest = pi_source_attempt_id i,
     pd_policy_version = POLICY_VERSION, pd_created_at = now \<rparr>"

definition computeBackoff :: "nat \<Rightarrow> int" where
  "computeBackoff k = min (lim_backoff_base_ms GLOBAL_LIMITS * 2 ^ k) (lim_backoff_max_ms GLOBAL_LIMITS)"

text \<open>Phases 1 and 2: the hard stops and the budgets, the first that applies.\<close>

definition early_decision :: "int \<Rightarrow> policy_input \<Rightarrow> (retry_disposition \<times> string) option" where
  "early_decision now i =
     (let b = pi_budgets i; name = class_name (pi_primary i) in
      if pi_retryability i = Never then Some (Stop_retry, name @ '':policy_denies_retry'')
      else if pi_retryability i = Needs_input then Some (Retry_needs_input, name @ '':requires_operator_input'')
      else if bg_attempts_remaining b \<le> 0 then Some (Stop_retry, ''budget_exhausted:max_attempts'')
      else if (case bg_hard_deadline_at b of None \<Rightarrow> False | Some h \<Rightarrow> now \<ge> h)
        then Some (Stop_retry, ''budget_exhausted:hard_deadline'')
      else if bg_elapsed_ms b \<ge> lim_elapsed_ms GLOBAL_LIMITS then Some (Stop_retry, ''budget_exhausted:wall_clock'')
      else if bg_tokens b \<ge> lim_tokens GLOBAL_LIMITS then Some (Stop_retry, ''budget_exhausted:token_budget'')
      else if bg_same_class b \<ge> lim_same_class GLOBAL_LIMITS
        then Some (Stop_retry, ''budget_exhausted:same_class_'' @ name)
      else if bg_switches b \<ge> lim_switches GLOBAL_LIMITS then Some (Stop_retry, ''budget_exhausted:executor_switches'')
      else None)"

text \<open>Phase 3: disposition, reason, required changes and earliest instant by class.\<close>

definition class_decision :: "int \<Rightarrow> policy_input \<Rightarrow> retry_disposition \<times> string \<times> string list \<times> int option" where
  "class_decision now i =
     (let name = class_name (pi_primary i); later = Some (now + computeBackoff (bg_same_class (pi_budgets i))) in
      case pi_primary i of
        F_transient_transport \<Rightarrow> (Automatic_retry, name @ '':transient_failure'', [''clean_execution_context''], later)
      | F_executor_unavailable \<Rightarrow> (Automatic_retry, name @ '':transient_failure'', [''clean_execution_context''], later)
      | F_capability_mismatch \<Rightarrow>
          (if pi_candidates i \<noteq> [] then (Automatic_retry, ''capability_mismatch:switch_executor'', [''switch_executor''], None)
           else (Orc_review, ''capability_mismatch:no_capable_executor'', [], None))
      | F_lease_expired \<Rightarrow>
          (Automatic_retry, ''lease_expired:schedule_retry'', [''clean_session'', ''prefer_fresh_executor''], later)
      | F_tool_or_verification_failure \<Rightarrow> (Orc_review, name @ '':semantic_failure'', [''repair_strategy''], None)
      | F_missing_or_invalid_artifact \<Rightarrow> (Orc_review, name @ '':semantic_failure'', [''repair_strategy''], None)
      | F_acceptance_unmet \<Rightarrow> (Orc_review, name @ '':semantic_failure'', [''repair_strategy''], None)
      | F_strategy_failure \<Rightarrow> (Orc_review, name @ '':semantic_failure'', [''repair_strategy''], None)
      | F_hard_deadline \<Rightarrow> (Stop_retry, ''hard_deadline:exceeded'', [], None)
      | F_resource_or_budget_exhausted \<Rightarrow> (Stop_retry, ''budget_exhausted:project_limit'', [], None)
      | F_awaiting_input_expired \<Rightarrow> (Retry_needs_input, ''awaiting_input_expired:requires_fresh_input'', [], None)
      | F_operator_cancelled \<Rightarrow> (Stop_retry, name @ '':no_retry'', [], None)
      | F_policy_or_security_denied \<Rightarrow> (Stop_retry, name @ '':no_retry'', [], None)
      | F_invalid_contract \<Rightarrow> (Stop_retry, name @ '':no_retry'', [], None)
      | _ \<Rightarrow> (Orc_review, ''unknown:needs_review'', [], None))"

text \<open>Phase 4: whether an escalation to another executor is due and possible.\<close>

definition escalation_due :: "policy_input \<Rightarrow> bool" where
  "escalation_due i \<longleftrightarrow> pi_previous_executors i \<noteq> [] \<and>
     bg_same_executor (pi_budgets i) \<ge> lim_same_executor GLOBAL_LIMITS \<and>
     filter (\<lambda>x. x \<noteq> last (pi_previous_executors i)) (pi_candidates i) \<noteq> []"

definition evaluatePolicy :: "int \<Rightarrow> policy_input \<Rightarrow> policy_decision" where
  "evaluatePolicy now i = (case early_decision now i of
     Some (d, reason) \<Rightarrow> buildDecision now i d reason None []
   | None \<Rightarrow>
       (let (d, reason, changes, earliest) = class_decision now i in
        if escalation_due i
        then buildDecision now i d (if d = Automatic_retry then reason @ '':escalate_executor'' else reason) earliest
               (changes @ [''executor_escalation''])
        else buildDecision now i d reason earliest changes))"

definition computeBudget :: "nat \<Rightarrow> nat \<Rightarrow> nat \<Rightarrow> nat \<Rightarrow> int \<Rightarrow> int \<Rightarrow> int \<Rightarrow> int option \<Rightarrow> retry_budget" where
  "computeBudget used same exec switches elapsed tokens cost hard = \<lparr> bg_attempts_used = used,
     bg_attempts_remaining = max 0 (int (lim_attempts GLOBAL_LIMITS) - int used), bg_same_class = same,
     bg_same_executor = exec, bg_switches = switches, bg_elapsed_ms = elapsed, bg_tokens = tokens,
     bg_cost = cost, bg_hard_deadline_at = hard \<rparr>"

definition computeElapsedMs :: "int \<Rightarrow> int \<Rightarrow> int" where
  "computeElapsedMs now started = now - started"

section \<open>The executor selector\<close>

record executor_candidate =
  ec_id :: string
  ec_kind :: executor_kind
  ec_capabilities :: "string list"
  ec_healthy :: bool
  ec_last_seen_at :: "int option"
  ec_locality :: "string option"
  ec_load :: "int option"

record selection_constraints =
  sc_required_capabilities :: "string list"
  sc_required_locality :: "string option"
  sc_excluded_ids :: "string list option"
  sc_preferred_id :: "string option"
  sc_enforce_no_relay :: "bool option"
  sc_source_peer_id :: "string option"

text \<open>Why a candidate is rejected, the first reason that applies.\<close>

definition rejection :: "selection_constraints \<Rightarrow> executor_candidate \<Rightarrow> string option" where
  "rejection k c =
     (let missing = filter (\<lambda>x. x \<notin> set (ec_capabilities c) \<and> x \<noteq> ''*'') (sc_required_capabilities k) in
      if \<not> ec_healthy c then Some ''unhealthy''
      else if ec_id c \<in> set (orelse (sc_excluded_ids k) []) then Some ''explicitly excluded''
      else if missing \<noteq> [] then Some (''missing capabilities: '' @ join_with '', '' missing)
      else if truthy (sc_required_locality k) \<and> ec_locality c \<noteq> sc_required_locality k
        then Some (''wrong locality: expected '' @ orelse (sc_required_locality k) [] @ '', got '' @
          orelse (ec_locality c) ''undefined'')
      else if sc_enforce_no_relay k = Some True \<and> truthy (sc_source_peer_id k) \<and> Some (ec_id c) = sc_source_peer_id k
        then Some ''no-relay: would relay back to source peer''
      else if ec_kind c = Remote \<and> sc_source_peer_id k = Some (ec_id c) then Some ''cannot relay to source peer''
      else None)"

definition filterCandidates ::
    "executor_candidate list \<Rightarrow> selection_constraints \<Rightarrow> executor_candidate list \<times> (string \<times> string) list" where
  "filterCandidates cs k = (filter (\<lambda>c. rejection k c = None) cs,
     List.map_filter (\<lambda>c. map_option (\<lambda>why. (ec_id c, why)) (rejection k c)) cs)"

definition candidate_score :: "selection_constraints \<Rightarrow> string list \<Rightarrow> executor_candidate \<Rightarrow> int" where
  "candidate_score k failed c = max 0
     ((if truthy (sc_preferred_id k) \<and> Some (ec_id c) = sc_preferred_id k then 100 else 0) +
      (if truthy (sc_required_locality k) \<and> ec_locality c = sc_required_locality k then 50 else 0) +
      (case ec_load c of None \<Rightarrow> 0 | Some l \<Rightarrow> max 0 (50 - l * 10)) -
      int (length (filter (\<lambda>x. x = ec_id c) failed)) * 30)"

datatype selection_strategy = By_preferred | By_locality | By_load | By_random

record selection_rationale =
  sr_selected_id :: string
  sr_selected_kind :: executor_kind
  sr_eligible_count :: nat
  sr_rejected :: "(string \<times> string) list"
  sr_score :: int
  sr_strategy :: selection_strategy

definition selectExecutor ::
    "(string \<Rightarrow> nat list) \<Rightarrow> executor_candidate list \<Rightarrow> selection_constraints \<Rightarrow> string list \<Rightarrow>
       executor_candidate option \<times> selection_rationale" where
  "selectExecutor ckey cs k failed = (let (eligible, rejected) = filterCandidates cs k in
     case sort_key (\<lambda>c. (- candidate_score k failed c, ckey (ec_id c))) eligible of
       [] \<Rightarrow> (None, \<lparr> sr_selected_id = [], sr_selected_kind = Agent, sr_eligible_count = 0,
               sr_rejected = rejected, sr_score = 0, sr_strategy = By_random \<rparr>)
     | best # _ \<Rightarrow> (Some best, \<lparr> sr_selected_id = ec_id best, sr_selected_kind = ec_kind best,
               sr_eligible_count = length eligible, sr_rejected = rejected,
               sr_score = candidate_score k failed best,
               sr_strategy = (if truthy (sc_preferred_id k) then By_preferred
                 else if truthy (sc_required_locality k) then By_locality else By_load) \<rparr>))"

section \<open>What keeps a verdict\<close>

lemma rule_as_simps [simp]:
  "vd_primary (rule_as p c r x v) = p" "vd_retry (rule_as p c r x v) = r"
  by (simp_all add: rule_as_def)

lemma collect_simps [simp]:
  "vd_primary (add_factor b f v) = vd_primary v" "vd_retry (add_factor b f v) = vd_retry v"
  "vd_primary (add_evidence b e v) = vd_primary v" "vd_retry (add_evidence b e v) = vd_retry v"
  "vd_primary (add_code b e v) = vd_primary v" "vd_retry (add_code b e v) = vd_retry v"
  by (simp_all add: add_factor_def add_evidence_def add_code_def)

lemma override_simps [simp]:
  "vd_primary (override_as b p r c x v) = (if b then p else vd_primary v)"
  "vd_retry (override_as b p r c x v) = (if b then r else vd_retry v)"
  by (simp_all add: override_as_def)

lemma if_unknown_known: "vd_primary v \<noteq> F_unknown \<Longrightarrow> if_unknown b f v = v"
  by (simp add: if_unknown_def)

definition same_verdict :: "verdict \<Rightarrow> verdict \<Rightarrow> bool" where
  "same_verdict v w \<longleftrightarrow> vd_primary w = vd_primary v \<and> vd_retry w = vd_retry v"

text \<open>Once a class is found only the overriding codes change it.\<close>

lemma known_kept:
  assumes "vd_primary v \<noteq> F_unknown"
  shows "same_verdict v (classify_lease i v)" "same_verdict v (classify_envelope i v)"
    "same_verdict v (classify_lifecycle i v)" "same_verdict v (classify_input_wait i v)"
  using assms
  by (simp_all add: same_verdict_def classify_lease_def classify_envelope_def classify_failed_envelope_def
      classify_lifecycle_def classify_input_wait_def if_unknown_known Let_def split: option.split)

lemma judge_known:
  assumes "vd_primary (classify_reasons i no_verdict) \<noteq> F_unknown"
    and "\<not> input_code_is i [''POLICY'', ''SECURITY'']" "\<not> input_code_is i [''INVALID_CONTRACT'']"
      "\<not> input_code_is i [''INPUT_REQUESTED'']"
  shows "vd_primary (judge i) = vd_primary (classify_reasons i no_verdict) \<and>
    vd_retry (judge i) = vd_retry (classify_reasons i no_verdict)"
proof -
  let ?a = "classify_reasons i no_verdict"
  let ?b = "classify_lease i ?a" let ?c = "classify_envelope i ?b" let ?d = "classify_lifecycle i ?c"
  have b: "same_verdict ?a ?b" by (rule known_kept) (rule assms(1))
  then have c: "same_verdict ?b ?c" using assms(1) by (intro known_kept) (simp add: same_verdict_def)
  then have d: "same_verdict ?c ?d" using b assms(1) by (intro known_kept) (simp add: same_verdict_def)
  then have "same_verdict ?d (classify_input_wait i ?d)" using b c assms(1) by (intro known_kept) (simp add: same_verdict_def)
  with b c d assms(2-4) show ?thesis by (simp add: same_verdict_def judge_def classify_overrides_def)
qed

lemma judge_override:
  "input_code_is i [''POLICY'', ''SECURITY''] \<or> input_code_is i [''INVALID_CONTRACT''] \<or> input_code_is i [''INPUT_REQUESTED'']
   \<Longrightarrow> vd_retry (judge i) = Never \<or> vd_primary (judge i) = F_input_requested"
  by (auto simp: judge_def classify_overrides_def)

lemma judge_cancelled:
  assumes "ci_cancel_reason i \<in> {Some ''operator'', Some ''project_abort'', Some ''superseded''}"
  shows "vd_retry (judge i) = Never \<or> vd_primary (judge i) = F_input_requested"
proof (cases "input_code_is i [''POLICY'', ''SECURITY''] \<or> input_code_is i [''INVALID_CONTRACT''] \<or> input_code_is i [''INPUT_REQUESTED'']")
  case False
  have "vd_primary (classify_reasons i no_verdict) = F_operator_cancelled \<and> vd_retry (classify_reasons i no_verdict) = Never"
    using assms by (auto simp: classify_reasons_def Let_def orelse_def)
  with False judge_known [of i] show ?thesis by simp
qed (rule judge_override)

section \<open>Automatic retries\<close>

definition policy_input_of :: "classification \<Rightarrow> retry_budget \<Rightarrow> string list \<Rightarrow> string list \<Rightarrow> policy_input" where
  "policy_input_of c b cands prev = \<lparr> pi_source_attempt_id = fc_attempt_id c, pi_primary = fc_primary c,
     pi_retryability = fc_retryability c, pi_factors = fc_factors c, pi_budgets = b, pi_candidates = cands,
     pi_previous_executors = prev \<rparr>"

lemma policy_input_of_simps [simp]:
  "pi_primary (policy_input_of c b cs p) = fc_primary c" "pi_retryability (policy_input_of c b cs p) = fc_retryability c"
  "pi_budgets (policy_input_of c b cs p) = b" "pi_candidates (policy_input_of c b cs p) = cs"
  by (simp_all add: policy_input_of_def)

lemma classify_simps [simp]:
  "fc_primary (classify sj sha now i) = vd_primary (judge i)"
  "fc_retryability (classify sj sha now i) = vd_retry (judge i)"
  by (simp_all add: classify_def Let_def)

lemma buildDecision_simps [simp]:
  "pd_disposition (buildDecision now i d r e ch) = d" "pd_earliest_at (buildDecision now i d r e ch) = e"
  "bg_attempts_remaining (pd_remaining (buildDecision now i d r e ch)) =
     (if d = Stop_retry then 0 else bg_attempts_remaining (pi_budgets i) - 1)"
  by (simp_all add: buildDecision_def)

lemma computeBackoff_bounds: "0 < computeBackoff k \<and> computeBackoff k \<le> 60000"
  by (simp add: computeBackoff_def GLOBAL_LIMITS_def)

definition within_budget :: "int \<Rightarrow> retry_budget \<Rightarrow> bool" where
  "within_budget now b \<longleftrightarrow> 0 < bg_attempts_remaining b \<and> bg_same_class b < 3 \<and> bg_switches b < 3 \<and>
     bg_elapsed_ms b < 3600000 \<and> bg_tokens b < 1000000 \<and> (\<forall>h. bg_hard_deadline_at b = Some h \<longrightarrow> now < h)"

lemma early_none:
  "early_decision now i = None \<longleftrightarrow> pi_retryability i \<noteq> Never \<and> pi_retryability i \<noteq> Needs_input \<and> within_budget now (pi_budgets i)"
  by (auto simp: early_decision_def within_budget_def GLOBAL_LIMITS_def Let_def not_le split: option.splits)

lemma early_not_automatic: "early_decision now i = Some (d, r) \<Longrightarrow> d = Stop_retry \<or> d = Retry_needs_input"
  by (auto simp: early_decision_def Let_def split: if_splits)

lemma disposition_eq:
  "pd_disposition (evaluatePolicy now i) = (case early_decision now i of Some (d, r) \<Rightarrow> d | None \<Rightarrow> fst (class_decision now i))"
  by (auto simp: evaluatePolicy_def case_prod_unfold Let_def split: option.split)

lemma earliest_eq:
  "pd_earliest_at (evaluatePolicy now i) = (case early_decision now i of Some (d, r) \<Rightarrow> None | None \<Rightarrow> snd (snd (snd (class_decision now i))))"
  by (auto simp: evaluatePolicy_def case_prod_unfold Let_def split: option.split)

definition retried_class :: "failure_class \<Rightarrow> bool" where
  "retried_class p \<longleftrightarrow> p = F_transient_transport \<or> p = F_executor_unavailable \<or> p = F_capability_mismatch \<or> p = F_lease_expired"

lemma class_automatic: "fst (class_decision now i) = Automatic_retry \<Longrightarrow> retried_class (pi_primary i)"
  by (cases "pi_primary i") (simp_all add: class_decision_def retried_class_def Let_def)

lemma class_earliest: "snd (snd (snd (class_decision now i))) = Some t \<Longrightarrow> now < t \<and> t \<le> now + 60000"
  using computeBackoff_bounds [of "bg_same_class (pi_budgets i)"]
  by (cases "pi_primary i") (auto simp: class_decision_def Let_def split: if_splits)

text \<open>
  C21: an automatic retry is justified. A failed attempt is scheduled again without review exactly when the
  classifier did not rule a retry out, its class is a transient failure, an unavailable executor, an expired
  lease, or a capability mismatch with another candidate, at least one attempt is left, there were fewer than
  three failures of the class and three switches of the executor, less than an hour and a million tokens were
  spent, and the hard deadline is ahead (the limit on costs is not looked at). Then the cancel reason is not
  \<open>operator\<close>, \<open>project_abort\<close> or \<open>superseded\<close>, the failure code is none of \<open>POLICY\<close>, \<open>SECURITY\<close>,
  \<open>INVALID_CONTRACT\<close> and \<open>INPUT_REQUESTED\<close>, one attempt is charged, and the retry waits at most a minute. Other
  cancellations, and a pending question without the code, may be retried.
\<close>

theorem automatic_retry_is_justified:
  assumes "classify sha_json sha at i = c" "evaluatePolicy now (policy_input_of c b cands prev) = d"
  shows "(pd_disposition d = Automatic_retry \<longleftrightarrow>
      fc_retryability c \<noteq> Never \<and> fc_retryability c \<noteq> Needs_input \<and>
      (fc_primary c = F_transient_transport \<or> fc_primary c = F_executor_unavailable \<or> fc_primary c = F_lease_expired \<or>
       fc_primary c = F_capability_mismatch \<and> cands \<noteq> []) \<and>
      0 < bg_attempts_remaining b \<and> bg_same_class b < 3 \<and> bg_switches b < 3 \<and> bg_elapsed_ms b < 3600000 \<and>
      bg_tokens b < 1000000 \<and> (\<forall>h. bg_hard_deadline_at b = Some h \<longrightarrow> now < h)) \<and>
    (pd_disposition d = Automatic_retry \<longrightarrow>
      bg_attempts_remaining (pd_remaining d) = bg_attempts_remaining b - 1 \<and>
      (\<forall>t. pd_earliest_at d = Some t \<longrightarrow> now < t \<and> t \<le> now + 60000) \<and>
      ci_cancel_reason i \<notin> {Some ''operator'', Some ''project_abort'', Some ''superseded''} \<and>
      \<not> input_code_is i [''POLICY'', ''SECURITY''] \<and> \<not> input_code_is i [''INVALID_CONTRACT''] \<and>
      \<not> input_code_is i [''INPUT_REQUESTED''])"
proof -
  let ?p = "policy_input_of c b cands prev"
  have iff: "pd_disposition (evaluatePolicy now ?p) = Automatic_retry \<longleftrightarrow>
      early_decision now ?p = None \<and> fst (class_decision now ?p) = Automatic_retry"
    using early_not_automatic [of now ?p] by (auto simp: disposition_eq split: option.split)
  have cls: "fst (class_decision now ?p) = Automatic_retry \<longleftrightarrow>
      fc_primary c = F_transient_transport \<or> fc_primary c = F_executor_unavailable \<or> fc_primary c = F_lease_expired \<or>
      fc_primary c = F_capability_mismatch \<and> cands \<noteq> []"
    by (cases "fc_primary c") (simp_all add: class_decision_def Let_def)
  note d = iff [unfolded cls early_none within_budget_def assms(2)]
  have rest: "bg_attempts_remaining (pd_remaining d) = bg_attempts_remaining b - 1 \<and>
      (\<forall>t. pd_earliest_at d = Some t \<longrightarrow> now < t \<and> t \<le> now + 60000) \<and>
      ci_cancel_reason i \<notin> {Some ''operator'', Some ''project_abort'', Some ''superseded''} \<and>
      \<not> input_code_is i [''POLICY'', ''SECURITY''] \<and> \<not> input_code_is i [''INVALID_CONTRACT''] \<and>
      \<not> input_code_is i [''INPUT_REQUESTED'']"
    if a: "pd_disposition d = Automatic_retry"
  proof -
    from a assms(2) iff have none: "early_decision now ?p = None" and auto_class: "fst (class_decision now ?p) = Automatic_retry"
      by simp_all
    have judged: "vd_retry (judge i) \<noteq> Never" "vd_primary (judge i) \<noteq> F_input_requested"
      using none class_automatic [OF auto_class]
      by (auto simp: early_none assms(1) [symmetric] retried_class_def)
    have codes: "\<not> input_code_is i [''POLICY'', ''SECURITY'']" "\<not> input_code_is i [''INVALID_CONTRACT'']"
      "\<not> input_code_is i [''INPUT_REQUESTED'']" "ci_cancel_reason i \<notin> {Some ''operator'', Some ''project_abort'', Some ''superseded''}"
      using judged judge_override [of i] judge_cancelled [of i] by blast+
    have charged: "bg_attempts_remaining (pd_remaining d) = bg_attempts_remaining b - 1"
      using none auto_class by (auto simp: assms(2) [symmetric] evaluatePolicy_def case_prod_unfold Let_def)
    have "\<forall>t. pd_earliest_at d = Some t \<longrightarrow> now < t \<and> t \<le> now + 60000"
      using none class_earliest [of now ?p] by (simp add: assms(2) [symmetric] earliest_eq)
    with codes charged show ?thesis by (intro conjI)
  qed
  have "pd_disposition d = Automatic_retry \<longleftrightarrow>
      fc_retryability c \<noteq> Never \<and> fc_retryability c \<noteq> Needs_input \<and>
      (fc_primary c = F_transient_transport \<or> fc_primary c = F_executor_unavailable \<or> fc_primary c = F_lease_expired \<or>
       fc_primary c = F_capability_mismatch \<and> cands \<noteq> []) \<and>
      0 < bg_attempts_remaining b \<and> bg_same_class b < 3 \<and> bg_switches b < 3 \<and> bg_elapsed_ms b < 3600000 \<and>
      bg_tokens b < 1000000 \<and> (\<forall>h. bg_hard_deadline_at b = Some h \<longrightarrow> now < h)"
    unfolding d by (simp add: policy_input_of_def conj_ac)
  then show ?thesis by (rule conjI) (rule impI, erule rest)
qed

text \<open>
  the policy overrides the classifier's caution: an expired lease that was not stalled is
  classified as \<open>review_required\<close>, yet while budgets are open the policy schedules it for an
  automatic retry; the same holds of a capability mismatch with a candidate executor.
\<close>

theorem review_required_is_retried:
  assumes "fc_retryability c = Review_required" and "within_budget now b"
    and "fc_primary c = F_lease_expired \<or> fc_primary c = F_capability_mismatch \<and> cands \<noteq> []"
  shows "pd_disposition (evaluatePolicy now (policy_input_of c b cands prev)) = Automatic_retry"
  using assms early_none [of now "policy_input_of c b cands prev"]
  by (auto simp: disposition_eq class_decision_def Let_def)

section \<open>The choice of an executor\<close>

text \<open>
  the selector picks a best eligible executor: it selects none exactly when every candidate is
  rejected, and otherwise a candidate that passes every constraint, with the highest score among
  those that do, the first in collation order of those that share it; and it accounts for every
  candidate as eligible or rejected.
\<close>

theorem selectExecutor_best:
  assumes "selectExecutor ckey cs k failed = (sel, rat)"
  shows "(sel = None \<longleftrightarrow> (\<forall>c \<in> set cs. rejection k c \<noteq> None)) \<and>
    (\<forall>c. sel = Some c \<longrightarrow> c \<in> set cs \<and> rejection k c = None \<and> sr_selected_id rat = ec_id c \<and>
       (\<forall>c' \<in> set cs. rejection k c' = None \<longrightarrow> candidate_score k failed c' < candidate_score k failed c \<or>
          candidate_score k failed c' = candidate_score k failed c \<and> ckey (ec_id c) \<le> ckey (ec_id c'))) \<and>
    sr_eligible_count rat + length (sr_rejected rat) = length cs"
proof -
  let ?key = "\<lambda>c. (- candidate_score k failed c, ckey (ec_id c))"
  let ?ok = "filter (\<lambda>c. rejection k c = None) cs"
  have total: "length ?ok + length (snd (filterCandidates cs k)) = length cs"
    by (induction cs) (auto simp: filterCandidates_def map_filter_simps split: option.split)
  have fst: "fst (filterCandidates cs k) = ?ok" by (simp add: filterCandidates_def)
  show ?thesis
  proof (cases "sort_key ?key ?ok")
    case Nil
    then have "set (sort_key ?key ?ok) = {}" by (simp only: list.set)
    then have e: "?ok = []" by simp
    then have "sel = None \<and> sr_eligible_count rat = 0 \<and> sr_rejected rat = snd (filterCandidates cs k)"
      using assms by (auto simp: selectExecutor_def case_prod_unfold fst Let_def)
    with e total show ?thesis by (auto simp: filter_empty_conv)
  next
    case (Cons best rest)
    have sorted: "sorted (map ?key (best # rest))" using sorted_sort_key [of ?key ?ok] Cons by simp
    have members: "set ?ok = set (best # rest)" using set_sort [of ?key ?ok] Cons by simp
    have r: "sel = Some best" "sr_selected_id rat = ec_id best" "sr_eligible_count rat = length ?ok"
      "sr_rejected rat = snd (filterCandidates cs k)"
      using assms Cons by (auto simp: selectExecutor_def case_prod_unfold fst Let_def)
    have "?key best \<le> ?key c'" if "c' \<in> set ?ok" for c'
      using that sorted unfolding members by auto
    then have "candidate_score k failed c' < candidate_score k failed best \<or>
        candidate_score k failed c' = candidate_score k failed best \<and> ckey (ec_id best) \<le> ckey (ec_id c')"
      if "c' \<in> set cs" "rejection k c' = None" for c'
      using that by (fastforce simp: less_eq_prod_def)
    moreover have "best \<in> set cs \<and> rejection k best = None" using members by auto
    ultimately show ?thesis using r total by auto
  qed
qed


section \<open>Witnesses\<close>

definition open_budget :: retry_budget where
  "open_budget = computeBudget 1 1 1 0 60000 5000 0 (Some 900000)"

lemma open_within: "within_budget 1000 open_budget"
  by (simp add: within_budget_def open_budget_def computeBudget_def GLOBAL_LIMITS_def)

definition shutdown_input :: classify_input where
  "shutdown_input = \<lparr> ci_attempt_id = ''a1'', ci_envelope = None, ci_lease = None, ci_lifecycle = ''cancelled'',
     ci_lifecycle_reason = None, ci_cancel_reason = Some ''shutdown'', ci_pending_input = None \<rparr>"

theorem automatic_retry_is_justified_witness:
  "\<exists>d. evaluatePolicy 1000 (policy_input_of (classify (\<lambda>j. []) (\<lambda>s. s) 0 shutdown_input) open_budget [''spin''] []) = d \<and>
     pd_disposition d = Automatic_retry \<and> bg_attempts_remaining (pd_remaining d) = 3"
proof -
  let ?c = "classify (\<lambda>j. []) (\<lambda>s. s) 0 shutdown_input"
  have "vd_primary (judge shutdown_input) = F_transient_transport \<and> vd_retry (judge shutdown_input) = Automatic"
    by (simp add: judge_known classify_reasons_def shutdown_input_def input_code_is_def orelse_def Let_def)
  then have "pd_disposition (evaluatePolicy 1000 (policy_input_of ?c open_budget [''spin''] [])) = Automatic_retry"
    using early_none [of 1000 "policy_input_of ?c open_budget [''spin''] []"] open_within
    by (simp add: disposition_eq class_decision_def Let_def)
  with automatic_retry_is_justified [where c = ?c and d = "evaluatePolicy 1000 (policy_input_of ?c open_budget [''spin''] [])", OF refl refl]
  show ?thesis by (simp add: open_budget_def computeBudget_def GLOBAL_LIMITS_def)
qed

definition silent_lease :: snapshot where
  "silent_lease = sample_snapshot\<lparr> sn_evaluation := (sn_evaluation sample_snapshot)\<lparr> ev_phase := Cancel_requested \<rparr> \<rparr>"

theorem review_required_is_retried_witness:
  "pd_disposition (evaluatePolicy 1000 (policy_input_of (classify (\<lambda>j. []) (\<lambda>s. s) 0
     (shutdown_input\<lparr> ci_cancel_reason := None, ci_lease := Some silent_lease \<rparr>)) open_budget [] [])) = Automatic_retry"
proof (rule review_required_is_retried)
  let ?i = "shutdown_input\<lparr> ci_cancel_reason := None, ci_lease := Some silent_lease \<rparr>"
  have "vd_primary (judge ?i) = F_lease_expired \<and> vd_retry (judge ?i) = Review_required"
    by (simp add: judge_def classify_reasons_def classify_lease_def classify_envelope_def classify_lifecycle_def
        classify_input_wait_def classify_overrides_def shutdown_input_def silent_lease_def input_code_is_def
        sample_defs if_unknown_def no_verdict_def Let_def)
  then show "fc_retryability (classify (\<lambda>j. []) (\<lambda>s. s) 0 ?i) = Review_required"
    "fc_primary (classify (\<lambda>j. []) (\<lambda>s. s) 0 ?i) = F_lease_expired \<or>
     fc_primary (classify (\<lambda>j. []) (\<lambda>s. s) 0 ?i) = F_capability_mismatch \<and> [] \<noteq> []" by simp_all
qed (rule open_within)

definition sample_candidate :: "string \<Rightarrow> int \<Rightarrow> executor_candidate" where
  "sample_candidate i l = \<lparr> ec_id = i, ec_kind = Agent, ec_capabilities = [''*''], ec_healthy = True,
     ec_last_seen_at = None, ec_locality = None, ec_load = Some l \<rparr>"

definition no_constraints :: selection_constraints where
  "no_constraints = \<lparr> sc_required_capabilities = [], sc_required_locality = None, sc_excluded_ids = None,
     sc_preferred_id = None, sc_enforce_no_relay = None, sc_source_peer_id = None \<rparr>"

theorem selectExecutor_best_witness:
  "\<exists>c. fst (selectExecutor (\<lambda>s. []) [sample_candidate ''x'' 3, sample_candidate ''y'' 1] no_constraints []) = Some c \<and>
     rejection no_constraints c = None"
proof -
  let ?cs = "[sample_candidate ''x'' 3, sample_candidate ''y'' 1]"
  obtain sel rat where s: "selectExecutor (\<lambda>s. []) ?cs no_constraints [] = (sel, rat)" by fastforce
  have "rejection no_constraints (sample_candidate ''x'' 3) = None"
    by (simp add: rejection_def no_constraints_def sample_candidate_def orelse_def)
  with selectExecutor_best [OF s] have "sel \<noteq> None" by auto
  with selectExecutor_best [OF s] s show ?thesis by auto
qed

end
