(* ===== verification/RetryDirective.thy ===== *)
theory RetryDirective
  imports WorkerContract RetryDecision "HOL-Library.Monad_Syntax"
begin

text \<open>
  Retry directives (\<open>retry/retry-directive.ts\<close>): what a successor is told to do differently, and the
  revision of the worker contract it runs under. \<open>sha\<close> is the SHA-256 of a text, \<open>fresh\<close> a generated id
  and \<open>instant\<close> the current instant as text. Contracts are JSON values as they are read back from the
  store; \<open>None\<close> is a \<open>TypeError\<close> on a malformed one.
\<close>

section \<open>Directives\<close>

datatype retry_mode = Clean_rerun | Strategy_change | Executor_escalation | Repair

fun mode_name :: "retry_mode \<Rightarrow> string" where
  "mode_name Clean_rerun = ''clean_rerun''"
| "mode_name Strategy_change = ''strategy_change''"
| "mode_name Executor_escalation = ''executor_escalation''"
| "mode_name Repair = ''repair''"

datatype directive_author = By_policy | By_orc

fun author_name :: "directive_author \<Rightarrow> string" where
  "author_name By_policy = ''policy''"
| "author_name By_orc = ''orc''"

record directive =
  rd_id :: string
  rd_root_contract_id :: string
  rd_source_attempt_id :: string
  rd_target_ordinal :: int
  rd_classification_id :: string
  rd_decision_id :: string
  rd_mode :: retry_mode
  rd_instruction :: string
  rd_do_not_repeat :: "string list"
  rd_added_inputs :: "(string \<times> string) list"
  rd_added_checks :: "string list"
  rd_selected_id :: string
  rd_selected_kind :: executor_kind
  rd_rationale :: string
  rd_evidence_ids :: "string list"
  rd_failed_criteria :: "string list"
  rd_risks :: "string list"
  rd_summary :: string
  rd_fingerprint :: string
  rd_author :: directive_author
  rd_created_at :: string

definition texts :: "string list \<Rightarrow> json" where
  "texts ss = JArr (map JStr ss)"

definition directive_json :: "directive \<Rightarrow> json" where
  "directive_json d = JObj
     [(''schema_version'', JNum (NInt 1)), (''id'', JStr (rd_id d)),
      (''root_contract_id'', JStr (rd_root_contract_id d)), (''source_attempt_id'', JStr (rd_source_attempt_id d)),
      (''target_ordinal'', JNum (NInt (rd_target_ordinal d))), (''classification_id'', JStr (rd_classification_id d)),
      (''decision_id'', JStr (rd_decision_id d)), (''mode'', JStr (mode_name (rd_mode d))),
      (''strategy'', JObj [(''instruction'', JStr (rd_instruction d)), (''do_not_repeat'', texts (rd_do_not_repeat d)),
         (''added_inputs'', JArr (map (\<lambda>(i, r). JObj [(''id'', JStr i), (''ref'', JStr r)]) (rd_added_inputs d))),
         (''added_checks'', texts (rd_added_checks d))]),
      (''executor'', JObj [(''selected_id'', JStr (rd_selected_id d)),
         (''selected_kind'', JStr (executor_kind_name (rd_selected_kind d))), (''selection_rationale'', JStr (rd_rationale d))]),
      (''prior_context'', JObj [(''evidence_ids'', texts (rd_evidence_ids d)),
         (''failed_criterion_ids'', texts (rd_failed_criteria d)), (''unresolved_risks'', texts (rd_risks d)),
         (''bounded_summary'', JStr (rd_summary d))]),
      (''semantic_change_fingerprint'', JStr (rd_fingerprint d)), (''authored_by'', JStr (author_name (rd_author d))),
      (''created_at'', JStr (rd_created_at d))]"

definition computeDirectiveFingerprint :: "(string \<Rightarrow> string) \<Rightarrow> directive \<Rightarrow> string" where
  "computeDirectiveFingerprint sha d = take 32 (sha (canonicalJson
     (directive_json (d\<lparr> rd_id := [], rd_fingerprint := [], rd_created_at := [] \<rparr>))))"

text \<open>The options of \<open>buildDirective\<close>.\<close>

record directive_opts =
  op_mode :: retry_mode
  op_instruction :: string
  op_do_not_repeat :: "string list option"
  op_added_inputs :: "(string \<times> string) list option"
  op_added_checks :: "string list option"
  op_author :: directive_author
  op_evidence_ids :: "string list option"
  op_failed_criteria :: "string list option"
  op_risks :: "string list option"
  op_summary :: "string option"

fun strategy_name :: "selection_strategy \<Rightarrow> string" where
  "strategy_name By_preferred = ''preferred''"
| "strategy_name By_locality = ''locality''"
| "strategy_name By_load = ''load''"
| "strategy_name By_random = ''random''"

definition buildDirective ::
    "(string \<Rightarrow> string) \<Rightarrow> string \<Rightarrow> string \<Rightarrow> json \<Rightarrow> string \<Rightarrow> int \<Rightarrow> classification \<Rightarrow> policy_decision \<Rightarrow>
       selection_rationale \<Rightarrow> directive_opts \<Rightarrow> directive" where
  "buildDirective sha fresh instant ct source n c p r opts =
     (let d = \<lparr> rd_id = fresh, rd_root_contract_id = text_at ct ''id'', rd_source_attempt_id = source,
        rd_target_ordinal = n, rd_classification_id = fc_id c, rd_decision_id = pd_source_attempt_id p,
        rd_mode = op_mode opts, rd_instruction = take 2000 (op_instruction opts),
        rd_do_not_repeat = take 10 (orelse (op_do_not_repeat opts) []),
        rd_added_inputs = take 10 (orelse (op_added_inputs opts) []),
        rd_added_checks = take 10 (orelse (op_added_checks opts) []),
        rd_selected_id = sr_selected_id r, rd_selected_kind = sr_selected_kind r,
        rd_rationale = strategy_name (sr_strategy r) @ '' score='' @ show_int (sr_score r) @
          '' eligible='' @ show_nat (sr_eligible_count r),
        rd_evidence_ids = take 20 (orelse (op_evidence_ids opts) (fc_evidence_ids c)),
        rd_failed_criteria = take 20 (orelse (op_failed_criteria opts) []),
        rd_risks = take 10 (orelse (op_risks opts) []),
        rd_summary = take 500 (orelse (op_summary opts) (join_with ''; '' (fc_recommended_actions c))),
        rd_fingerprint = [], rd_author = op_author opts, rd_created_at = instant \<rparr>
      in d\<lparr> rd_fingerprint := computeDirectiveFingerprint sha d \<rparr>)"

text \<open>\<open>validateDirective\<close>; an issue stands for its wording.\<close>

datatype directive_issue =
  Dr_schema_version | Dr_root_contract | Dr_source_attempt | Dr_ordinal | Dr_mode_required | Dr_executor | Dr_invalid_mode

definition below_one :: "json \<Rightarrow> bool" where
  "below_one v \<longleftrightarrow> (case v of
     JNum (NInt i) \<Rightarrow> i < 1
   | JNum (NFrac s) \<Rightarrow> negative_text s \<or> whole_part s = 0
   | JNum _ \<Rightarrow> False
   | _ \<Rightarrow> True)"

definition MODES :: "json list" where
  "MODES = map (\<lambda>m. JStr (mode_name m)) [Clean_rerun, Strategy_change, Executor_escalation, Repair]"

definition issue_when :: "bool \<Rightarrow> 'i \<Rightarrow> 'i list" where
  "issue_when b i = (if b then [i] else [])"

definition validateDirective :: "json \<Rightarrow> directive_issue list" where
  "validateDirective v =
     issue_when (jget v ''schema_version'' \<noteq> Some (JNum (NInt 1))) Dr_schema_version @
     issue_when (\<not> truthy_json (jget v ''root_contract_id'')) Dr_root_contract @
     issue_when (\<not> truthy_json (jget v ''source_attempt_id'')) Dr_source_attempt @
     issue_when (below_one (member_at v ''target_ordinal'')) Dr_ordinal @
     issue_when (\<not> truthy_json (jget v ''mode'')) Dr_mode_required @
     issue_when (\<not> truthy_json (jget v ''executor'') \<or> \<not> truthy_json (jget (member_at v ''executor'') ''selected_id'')) Dr_executor @
     issue_when (member_at v ''mode'' \<notin> set MODES) Dr_invalid_mode"

section \<open>Contract revisions\<close>

text \<open>
  \<open>[...v]\<close>, \<open>v.map(f)\<close> and \<open>{...v}\<close>. As with the normaliser, a revision has two forms that differ in
  the members that are \<open>undefined\<close>: the hashed one (\<open>b\<close>) with \<open>null\<close> in their place, the stored one
  without them.
\<close>

definition spread :: "json option \<Rightarrow> json list option" where
  "spread v = (case v of Some (JArr xs) \<Rightarrow> Some xs | Some (JStr s) \<Rightarrow> Some (map (\<lambda>c. JStr [c]) s) | _ \<Rightarrow> None)"

definition array_map :: "(json \<Rightarrow> json option) \<Rightarrow> json option \<Rightarrow> json option" where
  "array_map f v = (case v of Some (JArr xs) \<Rightarrow> map_option JArr (those (map f xs)) | _ \<Rightarrow> None)"

definition indexed :: "json list \<Rightarrow> (string \<times> json) list" where
  "indexed xs = map (\<lambda>(i, x). (show_nat i, x)) (zip [0..<length xs] xs)"

definition spread_object :: "json option \<Rightarrow> json" where
  "spread_object v = (case v of
     Some (JObj ms) \<Rightarrow> JObj ms
   | Some (JArr xs) \<Rightarrow> JObj (indexed xs)
   | Some (JStr s) \<Rightarrow> JObj (indexed (map (\<lambda>c. JStr [c]) s))
   | _ \<Rightarrow> JObj [])"

definition copy_criterion :: "bool \<Rightarrow> json \<Rightarrow> json option" where
  "copy_criterion b c = (if c = JNull then None else
     Some (JObj (opt_mem b ''id'' (jget c ''id'') @ opt_mem b ''description'' (jget c ''description''))))"

definition copy_artifact :: "bool \<Rightarrow> json \<Rightarrow> json option" where
  "copy_artifact b a = (if a = JNull then None else do {
     ids \<leftarrow> spread (jget a ''criterion_ids'');
     Some (JObj (opt_mem b ''id'' (jget a ''id'') @ opt_mem b ''kind'' (jget a ''kind'') @ opt_mem b ''ref'' (jget a ''ref'') @
       opt_mem b ''required'' (jget a ''required'') @ [(''criterion_ids'', JArr ids)])) })"

definition copy_command :: "bool \<Rightarrow> json \<Rightarrow> json option" where
  "copy_command b c = (if c = JNull then None else do {
     argv \<leftarrow> spread (jget c ''argv'');
     ids \<leftarrow> spread (jget c ''criterion_ids'');
     Some (JObj (opt_mem b ''id'' (jget c ''id'') @ [(''argv'', JArr argv)] @ opt_mem b ''cwd'' (jget c ''cwd'') @
       opt_mem b ''timeout_ms'' (jget c ''timeout_ms'') @ [(''criterion_ids'', JArr ids)])) })"

definition retry_context :: "directive \<Rightarrow> json" where
  "retry_context d = JObj [(''directive_id'', JStr (rd_id d)), (''mode'', JStr (mode_name (rd_mode d))),
     (''instruction'', JStr (rd_instruction d)), (''do_not_repeat'', texts (rd_do_not_repeat d)),
     (''prior_evidence_ids'', texts (rd_evidence_ids d)), (''failed_criterion_ids'', texts (rd_failed_criteria d)),
     (''unresolved_risks'', texts (rd_risks d))]"

text \<open>\<open>v ?? d\<close> on a member that may also be \<open>null\<close>.\<close>

definition nullish :: "json option \<Rightarrow> json option \<Rightarrow> json option" where
  "nullish v d = (if v = None \<or> v = Some JNull then d else v)"

definition revision_meta :: "bool \<Rightarrow> json \<Rightarrow> directive \<Rightarrow> int \<Rightarrow> json" where
  "revision_meta b ct d n = JObj
     ([(''revision'', JNum (NInt n))] @
      opt_mem b ''root_contract_id'' (nullish (jget (member_at ct ''revision_meta'') ''root_contract_id'') (jget ct ''id'')) @
      opt_mem b ''parent_contract_id'' (jget ct ''id'') @
      [(''source_attempt_id'', JStr (rd_source_attempt_id d)), (''retry_context'', retry_context d)])"

definition copy_root_criteria :: "json \<Rightarrow> json option option" where
  "copy_root_criteria ct = (if truthy_json (jget ct ''supports_root_criteria'')
     then map_option (\<lambda>xs. Some (JArr xs)) (spread (jget ct ''supports_root_criteria'')) else Some None)"

definition revised_contract :: "bool \<Rightarrow> string \<Rightarrow> string \<Rightarrow> json \<Rightarrow> directive \<Rightarrow> int \<Rightarrow> json option" where
  "revised_contract b fresh digest ct d n = do {
     criteria \<leftarrow> array_map (copy_criterion b) (jget ct ''criteria'');
     artifacts \<leftarrow> array_map (copy_artifact b) (jget ct ''expected_artifacts'');
     commands \<leftarrow> array_map (copy_command b) (jget ct ''verification_commands'');
     capabilities \<leftarrow> spread (jget ct ''required_capabilities'');
     roots \<leftarrow> copy_root_criteria ct;
     Some (JObj ([(''schema_version'', JNum (NInt 1)), (''id'', JStr fresh), (''digest'', JStr digest),
       (''revision_meta'', revision_meta b ct d n)] @ opt_mem b ''goal'' (jget ct ''goal'') @
       [(''criteria'', criteria), (''expected_artifacts'', artifacts), (''verification_commands'', commands),
        (''required_capabilities'', JArr capabilities)] @
       opt_mem b ''supports_root_criteria'' roots @ opt_mem b ''workspace_alias'' (jget ct ''workspace_alias'') @
       [(''limits'', spread_object (jget ct ''limits'')), (''provenance'', spread_object (jget ct ''provenance''))])) }"

definition computeContractDigest :: "(string \<Rightarrow> string) \<Rightarrow> json \<Rightarrow> string" where
  "computeContractDigest sha v = sha (canonicalJson (stripDigest v))"

definition deriveContractRevision ::
    "(string \<Rightarrow> string) \<Rightarrow> string \<Rightarrow> json \<Rightarrow> directive \<Rightarrow> int \<Rightarrow> json option" where
  "deriveContractRevision sha fresh ct d n = do {
     hashed \<leftarrow> revised_contract True fresh [] ct d n;
     revised_contract False fresh (computeContractDigest sha hashed) ct d n }"

datatype revision_issue = Rv_criteria_fewer | Rv_description json | Rv_capabilities | Rv_goal | Rv_limits | Rv_alias

definition description_issues :: "json \<Rightarrow> json \<Rightarrow> revision_issue list" where
  "description_issues orig revised =
     (let known = map_of (rev (map (\<lambda>c. (jget c ''id'', c)) (items_at orig ''criteria''))) in
      concat (map (\<lambda>rc. case known (jget rc ''id'') of
          None \<Rightarrow> []
        | Some oc \<Rightarrow> issue_when (jget rc ''description'' \<noteq> jget oc ''description'') (Rv_description (member_at rc ''id'')))
        (items_at revised ''criteria'')))"

definition validateContractRevision :: "json \<Rightarrow> json \<Rightarrow> revision_issue list" where
  "validateContractRevision orig revised =
     (if length (items_at revised ''criteria'') < length (items_at orig ''criteria'') then [Rv_criteria_fewer]
      else description_issues orig revised) @
     issue_when (length (items_at revised ''required_capabilities'') < length (items_at orig ''required_capabilities'')) Rv_capabilities @
     issue_when (jget revised ''goal'' \<noteq> jget orig ''goal'') Rv_goal @
     issue_when (jget revised ''limits'' \<noteq> jget orig ''limits'') Rv_limits @
     issue_when (nullish (jget revised ''workspace_alias'') None \<noteq> nullish (jget orig ''workspace_alias'') None) Rv_alias"

section \<open>Revisions of normalised contracts\<close>

lemma spread_array [simp]: "spread (Some (JArr xs)) = Some xs"
  by (simp add: spread_def)

text \<open>What the normaliser stored is copied as it is.\<close>

lemma copies:
  "copy_criterion False (norm_criterion False x) = Some (norm_criterion False x)"
  "copy_artifact False (norm_artifact False x) = Some (norm_artifact False x)"
  "copy_command False (norm_command False x) = Some (norm_command False x)"
  by (simp_all add: copy_criterion_def copy_artifact_def copy_command_def norm_criterion_def norm_artifact_def norm_command_def
      spread_def again opt_mem_def split: option.split)

lemma copies_defined:
  "copy_criterion b (norm_criterion c x) \<noteq> None" "copy_artifact b (norm_artifact c x) \<noteq> None"
  "copy_command b (norm_command c x) \<noteq> None"
  by (auto simp: copy_criterion_def copy_artifact_def copy_command_def norm_criterion_def norm_artifact_def norm_command_def
      spread_def map_add_def opt_mem_def split: option.split)

lemma those_map_Some: "(\<And>x. f (h x) = Some (h x)) \<Longrightarrow> those (map f (map h xs)) = Some (map h xs)"
  by (induction xs) simp_all

lemma those_defined: "(\<And>x. f (h x) \<noteq> None) \<Longrightarrow> those (map f (map h xs)) \<noteq> None"
proof (induction xs)
  case (Cons x xs)
  moreover obtain y where "f (h x) = Some y" using Cons.prems [of x] by blast
  ultimately show ?case by simp
qed simp

lemma array_map_copies: "(\<And>x. f (h x) = Some (h x)) \<Longrightarrow> array_map f (Some (norm_items h k v)) = Some (norm_items h k v)"
  by (simp add: array_map_def norm_items_def those_map_Some del: map_map)

lemma array_map_defined: "(\<And>x. f (h x) \<noteq> None) \<Longrightarrow> array_map f (Some (norm_items h k v)) \<noteq> None"
  using those_defined [of f h "items_at v k"] by (simp add: array_map_def norm_items_def del: map_map)

text \<open>The keys a revision takes over, and the contract with its three other members replaced.\<close>

definition KEPT :: "string list" where
  "KEPT = [''goal'', ''criteria'', ''expected_artifacts'', ''verification_commands'', ''required_capabilities'',
     ''supports_root_criteria'', ''workspace_alias'', ''limits'', ''provenance'']"

lemma spread_object_norm:
  "spread_object (Some (norm_limits b v)) = norm_limits b v" "spread_object (Some (norm_provenance t v)) = norm_provenance t v"
  by (simp_all add: spread_object_def norm_limits_def norm_provenance_def Let_def)

text \<open>Whatever agrees with a normalised contract on the kept members is copied as it is.\<close>

definition kept_like :: "json \<Rightarrow> json \<Rightarrow> bool" where
  "kept_like c c' \<longleftrightarrow> (\<forall>m \<in> set KEPT. jget c' m = jget c m)"

lemma kept_likeD:
  assumes "kept_like c c'"
  shows "jget c' ''goal'' = jget c ''goal''" "jget c' ''criteria'' = jget c ''criteria''"
    "jget c' ''expected_artifacts'' = jget c ''expected_artifacts''" "jget c' ''verification_commands'' = jget c ''verification_commands''"
    "jget c' ''required_capabilities'' = jget c ''required_capabilities''"
    "jget c' ''supports_root_criteria'' = jget c ''supports_root_criteria''" "jget c' ''workspace_alias'' = jget c ''workspace_alias''"
    "jget c' ''limits'' = jget c ''limits''" "jget c' ''provenance'' = jget c ''provenance''"
  using assms by (simp_all add: kept_like_def KEPT_def)

lemma revised_built:
  assumes "c0 = built False t g dg v" "kept_like c0 c"
  shows "revised_contract True fresh x c d n \<noteq> None"
    and "\<exists>r. revised_contract False fresh x c d n = Some r \<and> is_object r \<and> kept_like c r \<and>
      jget r ''schema_version'' = Some (JNum (NInt 1)) \<and> jget r ''id'' = Some (JStr fresh) \<and> jget r ''digest'' = Some (JStr x) \<and>
      jget r ''revision_meta'' = Some (revision_meta False c d n)"
proof -
  note m = built_members(4-9) [of False t g dg v, folded assms(1), folded kept_likeD [OF assms(2)]]
  have root: "copy_root_criteria c = Some (jget c ''supports_root_criteria'')"
    unfolding copy_root_criteria_def kept_likeD(6) [OF assms(2)] assms(1) built_options by (simp add: spread_def truthy_json_def)
  have cap: "spread (jget c ''required_capabilities'') = Some (items_at v ''required_capabilities'')"
    by (simp add: m spread_def)
  show "revised_contract True fresh x c d n \<noteq> None"
    using array_map_defined [where f = "copy_criterion True" and h = "norm_criterion False" and k = "''criteria''" and v = v, OF copies_defined(1)]
      array_map_defined [where f = "copy_artifact True" and h = "norm_artifact False" and k = "''expected_artifacts''" and v = v, OF copies_defined(2)]
      array_map_defined [where f = "copy_command True" and h = "norm_command False" and k = "''verification_commands''" and v = v, OF copies_defined(3)]
    by (auto simp: revised_contract_def m cap root)
  have "revised_contract False fresh x c d n = Some (JObj ([(''schema_version'', JNum (NInt 1)), (''id'', JStr fresh), (''digest'', JStr x),
       (''revision_meta'', revision_meta False c d n)] @ opt_mem False ''goal'' (jget c ''goal'') @
       [(''criteria'', the (jget c ''criteria'')), (''expected_artifacts'', the (jget c ''expected_artifacts'')),
        (''verification_commands'', the (jget c ''verification_commands'')),
        (''required_capabilities'', the (jget c ''required_capabilities''))] @
       opt_mem False ''supports_root_criteria'' (jget c ''supports_root_criteria'') @
       opt_mem False ''workspace_alias'' (jget c ''workspace_alias'') @
       [(''limits'', the (jget c ''limits'')), (''provenance'', the (jget c ''provenance''))]))"
    by (simp add: revised_contract_def cap root m array_map_copies copies spread_object_norm)
  then show "\<exists>r. revised_contract False fresh x c d n = Some r \<and> is_object r \<and> kept_like c r \<and>
      jget r ''schema_version'' = Some (JNum (NInt 1)) \<and> jget r ''id'' = Some (JStr fresh) \<and> jget r ''digest'' = Some (JStr x) \<and>
      jget r ''revision_meta'' = Some (revision_meta False c d n)"
    by (intro exI conjI, assumption) (auto simp: kept_like_def KEPT_def map_of_opt_mem map_add_def m split: option.split)
qed

text \<open>Validity looks at the kept members, the version, the id and the size.\<close>

lemma contract_ok_kept:
  assumes k: "\<And>k. k \<in> set KEPT \<Longrightarrow> jget r k = jget c k" and ok: "contract_ok c"
    and r: "is_object r" "jget r ''schema_version'' = Some (JNum (NInt 1))" "isNonEmptyString (jget r ''id'')"
  shows "contract_ok r \<longleftrightarrow> json_size r \<le> MAX_CONTRACT_JSON_BYTES"
proof -
  have e: "jget r ''goal'' = jget c ''goal''" "jget r ''criteria'' = jget c ''criteria''"
    "jget r ''expected_artifacts'' = jget c ''expected_artifacts''" "jget r ''verification_commands'' = jget c ''verification_commands''"
    "jget r ''required_capabilities'' = jget c ''required_capabilities''"
    "jget r ''supports_root_criteria'' = jget c ''supports_root_criteria''" "jget r ''workspace_alias'' = jget c ''workspace_alias''"
    "jget r ''limits'' = jget c ''limits''" "jget r ''provenance'' = jget c ''provenance''"
    by (rule k, simp add: KEPT_def)+
  have i: "items_at r ''criteria'' = items_at c ''criteria''" "items_at r ''verification_commands'' = items_at c ''verification_commands''"
    "items_at r ''expected_artifacts'' = items_at c ''expected_artifacts''" "text_at r ''goal'' = text_at c ''goal''"
    by (simp_all add: items_at_def text_at_def e)
  have cc: "contract_criteria r = contract_criteria c" by (simp add: contract_criteria_def i)
  have a: "array_ok k n P r = array_ok k n P c" if "jget r k = jget c k" for k n P by (simp add: array_ok_def that)
  have "text_ok r ''goal'' n = text_ok c ''goal'' n" "criteria_ok r = criteria_ok c"
    "capabilities_ok r = capabilities_ok c" "root_criteria_ok r = root_criteria_ok c" "alias_ok r = alias_ok c"
    "limits_ok r = limits_ok c" "provenance_ok r = provenance_ok c" "has_evidence r x = has_evidence c x" for n x
    by (simp_all add: text_ok_def criteria_ok_def capabilities_ok_def root_criteria_ok_def alias_ok_def limits_ok_def whole_limit_ok_def cost_limit_ok_def
      provenance_ok_def has_evidence_def e i a)
  with ok r show ?thesis by (simp add: contract_ok_def cc a e)
qed

lemma distinct_description: 
  assumes "distinct (map id_of (items_at c ''criteria''))" and "\<forall>x \<in> set (items_at c ''criteria''). isNonEmptyString (jget x ''id'')"
    and "items_at r ''criteria'' = items_at c ''criteria''"
  shows "description_issues c r = []"
proof -
  let ?xs = "items_at c ''criteria''"
  have id: "jget x ''id'' = Some (JStr (id_of x))" if "x \<in> set ?xs" for x
    using bspec [OF assms(2) that] by (auto simp: isNonEmptyString_def text_at_def split: option.splits json.splits)
  have inj: "inj_on id_of (set ?xs)" using assms(1) by (simp add: distinct_map)
  have "map_of (rev (map (\<lambda>c. (jget c ''id'', c)) ?xs)) (jget x ''id'') = Some x" if x: "x \<in> set ?xs" for x
  proof (rule map_of_is_SomeI)
    have "map fst (rev (map (\<lambda>c. (jget c ''id'', c)) ?xs)) = rev (map (\<lambda>c. jget c ''id'') ?xs)" by (simp add: rev_map comp_def)
    also have "distinct \<dots>" using assms(1) id inj by (auto simp: distinct_map inj_on_def)
    finally show "distinct (map fst (rev (map (\<lambda>c. (jget c ''id'', c)) ?xs)))" .
    show "(jget x ''id'', x) \<in> set (rev (map (\<lambda>c. (jget c ''id'', c)) ?xs))" using x by auto
  qed
  then show ?thesis by (simp add: description_issues_def assms(3) issue_when_def)
qed

lemma revision_of_kept:
  assumes n: "normalizeContract sha t g v = Norm_ok c0" and k: "kept_like c0 c" and f: "fresh \<noteq> []"
  shows "\<exists>r. deriveContractRevision sha' fresh c d n = Some r \<and> kept_like c r \<and>
    jget r ''id'' = Some (JStr fresh) \<and> jget r ''revision_meta'' = Some (revision_meta False c d n) \<and>
    (\<exists>x. jget r ''digest'' = Some (JStr (sha' x))) \<and> validateContractRevision c r = [] \<and> (validateContract r = [] \<longleftrightarrow> json_size r \<le> MAX_CONTRACT_JSON_BYTES)"
proof -
  note c0 = normalized_valid(2) [OF n] and ok = normalized_valid(1) [OF n]
  from revised_built(1) [OF c0 k] obtain h where h: "revised_contract True fresh [] c d n = Some h" by blast
  let ?dg = "computeContractDigest sha' h"
  from revised_built(2) [OF c0 k, of fresh ?dg d n] obtain r where r: "revised_contract False fresh ?dg c d n = Some r"
    and m: "is_object r" "kept_like c r" "jget r ''schema_version'' = Some (JNum (NInt 1))"
      "jget r ''id'' = Some (JStr fresh)" "jget r ''revision_meta'' = Some (revision_meta False c d n)"
      "jget r ''digest'' = Some (JStr ?dg)" by blast
  have e: "jget r ''goal'' = jget c ''goal''" "jget r ''limits'' = jget c ''limits''" "jget r ''workspace_alias'' = jget c ''workspace_alias''"
    "items_at r ''criteria'' = items_at c ''criteria''" "items_at r ''required_capabilities'' = items_at c ''required_capabilities''"
    by (simp_all add: items_at_def kept_likeD [OF m(2)])
  have "items_at c ''criteria'' = items_at c0 ''criteria''" by (simp add: items_at_def kept_likeD [OF k])
  then have cs: "distinct (map id_of (items_at c ''criteria''))" "\<forall>x \<in> set (items_at c ''criteria''). isNonEmptyString (jget x ''id'')"
    using ok by (auto simp: contract_ok_def criteria_ok_def array_ok_def criterion_ok_def items_at_def split: option.splits json.splits)
  have "validateContractRevision c r = []"
    using distinct_description [OF cs e(4)] by (simp add: validateContractRevision_def e issue_when_def)
  moreover have "contract_ok r \<longleftrightarrow> json_size r \<le> MAX_CONTRACT_JSON_BYTES"
    by (rule contract_ok_kept [OF _ ok m(1) m(3)]) (use m(2,4) k f in \<open>simp_all add: kept_like_def isNonEmptyString_def\<close>)
  moreover have "deriveContractRevision sha' fresh c d n = Some r" using h r by (simp add: deriveContractRevision_def)
  moreover have "\<exists>x. jget r ''digest'' = Some (JStr (sha' x))" using m(6) unfolding computeContractDigest_def by blast
  ultimately show ?thesis using m(2,4,5) by (intro exI [of _ r]) (simp add: validateContract_ok)
qed

lemma kept_like_refl [simp]: "kept_like c c"
  by (simp add: kept_like_def)

lemma kept_like_trans: "kept_like c d \<Longrightarrow> kept_like d e \<Longrightarrow> kept_like c e"
  by (simp add: kept_like_def)

lemmas revision_kept = revision_of_kept [OF _ kept_like_refl]

text \<open>The contracts that work is issued under: normalised ones, and their revisions, any number of times.\<close>

inductive issued :: "json \<Rightarrow> bool" where
  normal: "normalizeContract sha t g v = Norm_ok c \<Longrightarrow> issued c"
| revised: "issued c \<Longrightarrow> fresh \<noteq> [] \<Longrightarrow> deriveContractRevision sha fresh c d n = Some r \<Longrightarrow> issued r"

lemma issued_like: "issued c \<Longrightarrow> \<exists>sha t g v c0. normalizeContract sha t g v = Norm_ok c0 \<and> kept_like c0 c"
proof (induction rule: issued.induct)
  case (normal sha t g v c)
  then show ?case using kept_like_refl by blast
next
  case (revised c fresh sha d n r)
  then obtain sha0 t g v c0 where c0: "normalizeContract sha0 t g v = Norm_ok c0" "kept_like c0 c" by blast
  from revision_of_kept [OF c0 revised.hyps(2), of sha d n] revised.hyps(3) have "kept_like c r" by auto
  with c0 kept_like_trans show ?case by blast
qed

text \<open>
  C39: A retry never changes what was promised. From a contract the normaliser accepted a revision is always
  derived: it has the same goal, criteria, artifacts, commands, capabilities, root criteria, workspace,
  limits and provenance under the new id, its own validation finds nothing, and the only thing that can
  make it an invalid contract is its size, which nothing checks.
\<close>

theorem revision_keeps_contract:
  assumes n: "normalizeContract sha t g v = Norm_ok c" and f: "fresh \<noteq> []"
  shows "\<exists>r. deriveContractRevision sha' fresh c d k = Some r \<and> (\<forall>m \<in> set KEPT. jget r m = jget c m) \<and>
    jget r ''id'' = Some (JStr fresh) \<and> jget r ''revision_meta'' = Some (revision_meta False c d k) \<and>
    (\<exists>x. jget r ''digest'' = Some (JStr (sha' x))) \<and> validateContractRevision c r = [] \<and> (validateContract r = [] \<longleftrightarrow> json_size r \<le> MAX_CONTRACT_JSON_BYTES)"
  using revision_kept [OF n f] unfolding kept_like_def .

section \<open>Samples\<close>

definition sample_directive :: "string list \<Rightarrow> directive" where
  "sample_directive dont = \<lparr> rd_id = ''d1'', rd_root_contract_id = ''k'', rd_source_attempt_id = ''a1'', rd_target_ordinal = 2,
     rd_classification_id = ''fc'', rd_decision_id = ''a1'', rd_mode = Clean_rerun, rd_instruction = ''again'',
     rd_do_not_repeat = dont, rd_added_inputs = [], rd_added_checks = [], rd_selected_id = ''spin-local'',
     rd_selected_kind = Agent, rd_rationale = ''r'', rd_evidence_ids = [], rd_failed_criteria = [], rd_risks = [],
     rd_summary = ''s'', rd_fingerprint = ''f'', rd_author = By_policy, rd_created_at = ''t'' \<rparr>"

theorem revision_keeps_contract_witness:
  "\<exists>r. deriveContractRevision (\<lambda>_. ''e'') ''n'' passing_contract (sample_directive []) 2 = Some r \<and> validateContractRevision passing_contract r = []"
  using revision_keeps_contract [OF passing_contract_normal, of "''n''" "\<lambda>_. ''e''" "sample_directive []" 2] by auto

text \<open>A valid contract of almost the largest size.\<close>

definition long_command :: "string \<Rightarrow> json" where
  "long_command i = JObj [(''id'', JStr i), (''argv'', JArr (replicate 50 (JStr (replicate 189 (CHR ''x''))))),
     (''timeout_ms'', JNum (NInt 30000)), (''criterion_ids'', JArr [])]"

definition long_commands :: "json list" where
  "long_commands = map long_command [''l1'', ''l2'', ''l3'', ''l4'', ''l5'']"

definition long_contract :: json where
  "long_contract = JObj [(''schema_version'', JNum (NInt 1)), (''id'', JStr ''k''), (''digest'', JStr ''d''), (''goal'', JStr ''build''),
     (''criteria'', JArr [JObj [(''id'', JStr ''c1''), (''description'', JStr ''builds'')]]),
     (''expected_artifacts'', JArr []),
     (''verification_commands'', JArr (JObj [(''id'', JStr ''v1''), (''argv'', JArr [JStr ''make'']), (''timeout_ms'', JNum (NInt 30000)),
        (''criterion_ids'', JArr [JStr ''c1''])] # long_commands)),
     (''required_capabilities'', JArr []), (''limits'', JObj []),
     (''provenance'', JObj [(''root_card_id'', JNum (NInt 3)), (''card_id'', JNum (NInt 7)), (''authored_by'', JStr ''orc''), (''created_at'', JStr ''t'')])]"

lemma string_size_xs: "string_size (replicate n (CHR ''x'')) = n + 2"
  by (simp add: string_size_def escape_size_def Let_def sum_list_replicate)

lemma long_command_size: "json_size (long_command i) = string_size i + 9654"
proof -
  define args where "args = JArr (replicate 50 (JStr (replicate 189 (CHR ''x''))))"
  have e: "json_size (JStr (replicate 189 (CHR ''x''))) = 191" by (simp only: json_size.simps string_size_xs)
  have a: "json_size args = 9601"
    unfolding args_def json_size.simps(8) map_replicate e by (simp add: sum_list_replicate)
  show ?thesis unfolding long_command_def args_def [symmetric] json_size.simps(9) list.map prod.case a
    by (simp add: string_size_def escape_size_def Let_def show_int_def show_nat.simps)
qed

lemma long_commands_size: "json_size (JArr (m # long_commands)) = json_size m + 48297"
proof -
  have "string_size [CHR ''l'', c] = 4" if "c \<in> set ''12345''" for c
    using that by (auto simp: string_size_def escape_size_def Let_def)
  then show ?thesis by (simp add: long_commands_def long_command_size)
qed

lemma long_contract_size: "json_size long_contract \<le> MAX_CONTRACT_JSON_BYTES"
proof -
  note s = string_size_def escape_size_def Let_def show_int_def show_nat.simps
  have "json_size long_contract \<le> 50000"
    unfolding long_contract_def json_size.simps(9) list.map prod.case long_commands_size by (simp add: s)
  then show ?thesis by (simp add: max_defs)
qed

lemma long_contract_ok: "contract_ok long_contract"
proof -
  have a: "array_ok ''criteria'' MAX_CRITERIA_COUNT criterion_ok long_contract"
    by (simp add: long_contract_def array_ok_def criterion_ok_def text_ok_def isNonEmptyString_def text_at_def max_defs)
  have "replicate 189 (CHR ''x'') = CHR ''x'' # replicate 188 (CHR ''x'')" using replicate_Suc [of 188 "CHR ''x''"] by simp
  then have "\<not> hasHomeForm (replicate 189 (CHR ''x''))" by (simp add: hasHomeForm_def)
  then have x: "arg_ok (JStr (replicate 189 (CHR ''x'')))"
    by (simp add: arg_ok_def isShellString_def list_ex_iff max_defs)
  have l: "command_ok [''c1''] (long_command i)" if "i \<noteq> []" for i
    using x that by (simp add: long_command_def command_ok_def argv_ok_def timeout_ok_def references_ok_def
      isNonEmptyString_def max_defs)
  have m: "command_ok [''c1''] (JObj [(''id'', JStr ''v1''), (''argv'', JArr [JStr ''make'']), (''timeout_ms'', JNum (NInt 30000)),
      (''criterion_ids'', JArr [JStr ''c1''])])"
    by (simp add: command_ok_def argv_ok_def arg_ok_def isShellString_def hasHomeForm_def timeout_ok_def references_ok_def
      isNonEmptyString_def max_defs)
  have "id_of (long_command i) = i" for i by (simp add: long_command_def text_at_def)
  with l m have b: "array_ok ''verification_commands'' MAX_COMMANDS_COUNT (command_ok [''c1'']) long_contract"
    by (simp add: long_contract_def long_commands_def array_ok_def text_at_def max_defs)
  have c: "contract_criteria long_contract = [''c1'']"
    by (simp add: long_contract_def contract_criteria_def items_at_def text_at_def)
  show ?thesis unfolding contract_ok_def c
    using long_contract_size a b
    by (simp add: criteria_ok_def array_ok_def long_contract_def capabilities_ok_def root_criteria_ok_def alias_ok_def limits_ok_def whole_limit_ok_def cost_limit_ok_def
      provenance_ok_def text_ok_def isNonEmptyString_def text_at_def is_number_def max_defs has_evidence_def supports_def items_at_def)
qed

lemma long_contract_normal: "normalizeContract (\<lambda>_. ''d'') t g long_contract = Norm_ok long_contract"
proof -
  have l: "map (norm_command False) long_commands = long_commands"
    by (simp add: long_commands_def long_command_def norm_command_def norm_timeout_def items_at_def opt_mem_def)
  have "built False t g ''d'' long_contract = long_contract"
    by (simp add: built_def long_contract_def isNonEmptyString_def text_at_def items_at_def norm_items_def norm_criterion_def norm_command_def l
        norm_timeout_def opt_mem_def norm_limits_def no_members_def norm_provenance_def number_or_zero_def text_or_def member_at_def norm_alias_def
        del: map_replicate)
  moreover have "is_object long_contract" "\<not> null_item long_contract"
    by (simp_all add: long_contract_def long_commands_def long_command_def null_item_def items_at_def)
  moreover have "validateContract long_contract = []" by (simp add: validateContract_ok long_contract_ok)
  ultimately show ?thesis by (simp add: normalizeContract_def computeDigest_def)
qed

lemma two_members_size:
  assumes "map_of ms i = Some v" "map_of ms j = Some w" "i \<noteq> j"
  shows "json_size v + json_size w \<le> json_size (JObj ms)"
proof -
  from assms have m: "(i, v) \<in> set ms" "(j, w) \<in> set ms" by (auto dest: map_of_SomeD)
  let ?f = "\<lambda>(k, v). string_size k + 1 + json_size v"
  obtain xs ys where e: "ms = xs @ (i, v) # ys" using m(1) by (auto simp: in_set_conv_decomp)
  with m(2) assms(3) have "(j, w) \<in> set (xs @ ys)" by auto
  then have "?f (j, w) \<le> sum_list (map ?f (xs @ ys))" by (intro member_le_sum_list) auto
  then show ?thesis by (simp add: e)
qed

lemma member_size: "(k, v) \<in> set ms \<Longrightarrow> json_size v \<le> json_size (JObj ms)"
proof -
  let ?f = "\<lambda>(k, v). string_size k + 1 + json_size v"
  assume "(k, v) \<in> set ms"
  then have "?f (k, v) \<le> sum_list (map ?f ms)" by (intro member_le_sum_list) auto
  then show ?thesis by simp
qed

lemma revision_meta_size: "length x \<le> json_size (revision_meta False c (sample_directive [x]) n)"
proof -
  let ?d = "sample_directive [x]"
  have "length x \<le> string_size x"
    by (induction x) (auto simp: string_size_def escape_size_def Let_def)
  then have "length x \<le> json_size (texts (rd_do_not_repeat ?d))" by (simp add: texts_def sample_directive_def)
  also have "\<dots> \<le> json_size (retry_context ?d)" unfolding retry_context_def by (rule member_size [of "''do_not_repeat''"]) simp
  also have "\<dots> \<le> json_size (revision_meta False c ?d n)" unfolding revision_meta_def by (rule member_size [of "''retry_context''"]) simp
  finally show ?thesis .
qed

text \<open>
  The last clause is not idle: a valid contract and a directive whose revision is not valid any more.
\<close>

theorem revision_can_be_invalid:
  "\<exists>r. deriveContractRevision sha ''n'' long_contract (sample_directive [replicate 2000 (CHR ''x'')]) 2 = Some r \<and>
    validateContractRevision long_contract r = [] \<and> validateContract r \<noteq> []"
proof -
  let ?x = "replicate 2000 (CHR ''x'')" let ?m = "revision_meta False long_contract (sample_directive [?x]) 2"
  from revision_kept [OF long_contract_normal, of "''n''" sha "sample_directive [?x]" 2]
  obtain r where r: "deriveContractRevision sha ''n'' long_contract (sample_directive [?x]) 2 = Some r" 
    "jget r ''revision_meta'' = Some ?m" "\<forall>m \<in> set KEPT. jget r m = jget long_contract m"
    "validateContractRevision long_contract r = []" "validateContract r = [] \<longleftrightarrow> json_size r \<le> MAX_CONTRACT_JSON_BYTES"
    unfolding kept_like_def by auto
  then obtain ms where ms: "r = JObj ms" by (cases r) (auto simp: jget_def)
  let ?v = "JArr (JObj [(''id'', JStr ''v1''), (''argv'', JArr [JStr ''make'']), (''timeout_ms'', JNum (NInt 30000)),
        (''criterion_ids'', JArr [JStr ''c1''])] # long_commands)"
  have "jget r ''verification_commands'' = Some ?v" using r(3) by (simp add: KEPT_def long_contract_def)
  then have "json_size ?v + json_size ?m \<le> json_size r"
    using r(2) unfolding ms jget_JObj by (intro two_members_size [of ms "''verification_commands''" _ "''revision_meta''"]) simp_all
  moreover have "2000 \<le> json_size ?m" using revision_meta_size [of ?x long_contract 2] by simp
  ultimately have "\<not> json_size r \<le> MAX_CONTRACT_JSON_BYTES" unfolding long_commands_size by (simp add: max_defs)
  with r show ?thesis by blast
qed

end
