(* ===== verification/RetryStore.thy ===== *)
theory RetryStore
  imports Attempts RetryDirective
begin

text \<open>
  The durable side of retries (\<open>retry/retry-store.ts\<close>): the classification and the policy decision of
  a failed attempt, the directive of its successor, and the one transaction that allocates a successor.
  The three tables live beside the swarm tables of \<open>swarm_db\<close> in the same database. A stored JSON text is
  the value it was written from. \<open>None\<close> inside a transaction is an exception, after which it is rolled
  back. \<open>redact\<close> as in the board.
\<close>

section \<open>Tables\<close>

datatype decision_status = Ds_review_required | Ds_needs_input | Ds_scheduled | Ds_consumed | Ds_stopped

text \<open>\<open>id\<close> and \<open>source_attempt_id\<close> of a decision row are the same value; \<open>[]\<close> is the empty digest.\<close>

record decision_row =
  dr_source :: string
  dr_decision :: policy_decision
  dr_status :: decision_status
  dr_digest :: string
  dr_deadline :: "int option"
  dr_updated_at :: int

record directive_row =
  dv_directive :: directive
  dv_target :: "string option"

record retry_db =
  rt_db :: swarm_db
  rt_classifications :: "classification list"
  rt_decisions :: "decision_row list"
  rt_directives :: "directive_row list"

definition REVIEW_DEADLINE_MS :: int where
  "REVIEW_DEADLINE_MS = 30 * 60 * 1000"

definition ALLOWED_TRANSITIONS :: "decision_status \<Rightarrow> decision_status list" where
  "ALLOWED_TRANSITIONS s = (case s of
     Ds_review_required \<Rightarrow> [Ds_scheduled, Ds_stopped, Ds_needs_input]
   | Ds_needs_input \<Rightarrow> [Ds_review_required, Ds_stopped]
   | Ds_scheduled \<Rightarrow> [Ds_consumed, Ds_stopped]
   | Ds_stopped \<Rightarrow> []
   | Ds_consumed \<Rightarrow> [])"

definition isValidTransition :: "decision_status \<Rightarrow> decision_status \<Rightarrow> bool" where
  "isValidTransition s t \<longleftrightarrow> t \<in> set (ALLOWED_TRANSITIONS s)"

datatype insert_result = Ins_created | Ins_idempotent | Ins_conflict

section \<open>Classifications\<close>

definition find_classification :: "retry_db \<Rightarrow> string \<Rightarrow> classification option" where
  "find_classification r a = sql_first (\<lambda>c. fc_attempt_id c = a) (rt_classifications r)"

definition insertClassification :: "classification \<Rightarrow> retry_db \<Rightarrow> insert_result \<times> retry_db" where
  "insertClassification c r = (case find_classification r (fc_attempt_id c) of
     Some e \<Rightarrow> (if fc_input_digest e = fc_input_digest c then Ins_idempotent else Ins_conflict, r)
   | None \<Rightarrow>
       (if list_ex (\<lambda>x. fc_id x = fc_id c) (rt_classifications r) then (Ins_conflict, r)
        else (Ins_created, r\<lparr> rt_classifications := rt_classifications r @ [c] \<rparr>)))"

definition getClassification :: "retry_db \<Rightarrow> string \<Rightarrow> classification option" where
  "getClassification r a = find_classification r a"

section \<open>Decisions\<close>

definition find_decision :: "retry_db \<Rightarrow> string \<Rightarrow> decision_row option" where
  "find_decision r a = sql_first (\<lambda>d. dr_source d = a) (rt_decisions r)"

definition closed_decision :: "decision_status \<Rightarrow> bool" where
  "closed_decision s \<longleftrightarrow> s = Ds_consumed \<or> s = Ds_stopped"

definition update_decisions :: "(decision_row \<Rightarrow> bool) \<Rightarrow> (decision_row \<Rightarrow> decision_row) \<Rightarrow> retry_db \<Rightarrow> nat \<times> retry_db" where
  "update_decisions p f r = (sql_changes p (rt_decisions r), r\<lparr> rt_decisions := sql_update p f (rt_decisions r) \<rparr>)"

text \<open>The \<open>INSERT\<close>, with the \<open>DO UPDATE\<close> of its conflict clause on the source.\<close>

definition upsert_decision :: "decision_row \<Rightarrow> retry_db \<Rightarrow> retry_db" where
  "upsert_decision d r =
     (if find_decision r (dr_source d) = None then r\<lparr> rt_decisions := rt_decisions r @ [d] \<rparr>
      else snd (update_decisions (\<lambda>e. dr_source e = dr_source d \<and> \<not> closed_decision (dr_status e))
        (\<lambda>e. e\<lparr> dr_decision := dr_decision d, dr_status := dr_status d,
           dr_digest := (if dr_digest e = [] then dr_digest d else dr_digest e),
           dr_deadline := dr_deadline d, dr_updated_at := dr_updated_at d \<rparr>) r))"

definition insertDecision ::
    "int \<Rightarrow> policy_decision \<Rightarrow> decision_status \<Rightarrow> string option \<Rightarrow> retry_db \<Rightarrow> insert_result \<times> retry_db" where
  "insertDecision now p s digest r =
     (let g = orelse digest [];
          d = \<lparr> dr_source = pd_source_attempt_id p, dr_decision = p, dr_status = s, dr_digest = g,
            dr_deadline = (if s = Ds_review_required then Some (now + REVIEW_DEADLINE_MS) else None),
            dr_updated_at = pd_created_at p \<rparr>
      in case find_decision r (pd_source_attempt_id p) of
        None \<Rightarrow> (Ins_created, upsert_decision d r)
      | Some e \<Rightarrow>
          (if closed_decision (dr_status e) then (Ins_conflict, r)
           else if dr_digest e \<noteq> [] \<and> dr_digest e = g then (Ins_idempotent, r)
           else if dr_digest e \<noteq> [] \<and> dr_digest e \<noteq> g then (Ins_conflict, r)
           else (Ins_created, upsert_decision d r)))"

definition getDecision :: "retry_db \<Rightarrow> string \<Rightarrow> decision_row option" where
  "getDecision r a = find_decision r a"

definition set_decision_status ::
    "int \<Rightarrow> string \<Rightarrow> decision_status \<Rightarrow> decision_status \<Rightarrow> retry_db \<Rightarrow> nat \<times> retry_db" where
  "set_decision_status now a s t = update_decisions (\<lambda>d. dr_source d = a \<and> dr_status d = s)
     (\<lambda>d. d\<lparr> dr_status := t, dr_updated_at := now \<rparr>)"

definition compareAndSetDecisionStatus ::
    "int \<Rightarrow> string \<Rightarrow> decision_status \<Rightarrow> decision_status \<Rightarrow> retry_db \<Rightarrow> bool \<times> retry_db" where
  "compareAndSetDecisionStatus now a s t r =
     (if \<not> isValidTransition s t then (False, r)
      else let (n, r1) = set_decision_status now a s t r in (n > 0, r1))"

text \<open>
  Whether the project lineage of an attempt still authorizes a change: against the caller's authority,
  else against the tuple the attempt carries, else the card must not belong to a supervised project.
\<close>

definition store_authorizes :: "swarm_db \<Rightarrow> int \<Rightarrow> int option \<Rightarrow> string option \<Rightarrow> authority_rejection option" where
  "store_authorizes db root gen run = (case gen of
     None \<Rightarrow> Some Missing_authority
   | Some g \<Rightarrow> authorizeActiveProjectWork db (Some \<lparr> pa_card_id = root, pa_generation = g, pa_scheduled_run_id = run \<rparr>))"

definition lineage_rejection :: "swarm_db \<Rightarrow> attempt \<Rightarrow> int \<Rightarrow> authority option \<Rightarrow> authority_rejection option" where
  "lineage_rejection db a c au = (case au of
     Some u \<Rightarrow>
       (if at_root_project_card_id a = None \<or> at_root_project_generation a = None then Some Missing_authority
        else if at_root_project_card_id a \<noteq> Some (pa_card_id u) then Some Missing_authority
        else if at_root_project_generation a \<noteq> Some (pa_generation u) then Some Generation_mismatch
        else if at_scheduled_run_id a \<noteq> pa_scheduled_run_id u then Some Run_mismatch
        else authorizeActiveProjectWork db (Some u))
   | None \<Rightarrow>
       (case at_root_project_card_id a of
          Some root \<Rightarrow> store_authorizes db root (at_root_project_generation a) (at_scheduled_run_id a)
        | None \<Rightarrow> (if cardIsSupervisedProjectChild db c then Some Missing_authority else None)))"

definition compareAndSetProjectDecisionStatus ::
    "int \<Rightarrow> string \<Rightarrow> int \<Rightarrow> decision_status \<Rightarrow> decision_status \<Rightarrow> authority option \<Rightarrow> retry_db \<Rightarrow> bool \<times> retry_db" where
  "compareAndSetProjectDecisionStatus now a c s t au r =
     (if \<not> isValidTransition s t then (False, r)
      else case find_attempt (rt_db r) a of
        None \<Rightarrow> (False, r)
      | Some row \<Rightarrow>
          (if at_card_id row \<noteq> c then (False, r)
           else if lineage_rejection (rt_db r) row c au \<noteq> None then (False, r)
           else let (n, r1) = set_decision_status now a s t r in (n = 1, r1)))"

section \<open>Directives\<close>

definition find_directive :: "retry_db \<Rightarrow> string \<Rightarrow> directive_row option" where
  "find_directive r a = sql_first (\<lambda>d. rd_source_attempt_id (dv_directive d) = a) (rt_directives r)"

text \<open>The \<open>INSERT\<close>: the id, the source and the target are unique.\<close>

definition add_directive :: "directive \<Rightarrow> string option \<Rightarrow> retry_db \<Rightarrow> retry_db option" where
  "add_directive d target r =
     (if list_ex (\<lambda>x. rd_id (dv_directive x) = rd_id d \<or> rd_source_attempt_id (dv_directive x) = rd_source_attempt_id d \<or>
           target \<noteq> None \<and> dv_target x = target) (rt_directives r) then None
      else Some (r\<lparr> rt_directives := rt_directives r @ [\<lparr> dv_directive = d, dv_target = target \<rparr>] \<rparr>))"

definition insertDirective :: "directive \<Rightarrow> string option \<Rightarrow> retry_db \<Rightarrow> insert_result \<times> retry_db" where
  "insertDirective d target r = (case find_directive r (rd_source_attempt_id d) of
     Some e \<Rightarrow> (if rd_id (dv_directive e) = rd_id d then Ins_idempotent else Ins_conflict, r)
   | None \<Rightarrow> (case add_directive d target r of None \<Rightarrow> (Ins_conflict, r) | Some r1 \<Rightarrow> (Ins_created, r1)))"

definition getDirective :: "retry_db \<Rightarrow> string \<Rightarrow> directive option" where
  "getDirective r a = map_option dv_directive (find_directive r a)"

definition getDirectiveById :: "retry_db \<Rightarrow> string \<Rightarrow> directive option" where
  "getDirectiveById r i = map_option dv_directive (sql_first (\<lambda>d. rd_id (dv_directive d) = i) (rt_directives r))"

section \<open>Allocating a successor\<close>

text \<open>
  The arguments of \<open>acceptDirectiveAndAllocateTarget\<close>: \<open>rq_insert\<close> are the columns of \<open>attemptInsert\<close>,
  \<open>rq_tokens\<close> and the next two the budget reservation.
\<close>

record retry_attempt =
  ra_id :: string
  ra_card_id :: int
  ra_contract_id :: string
  ra_ordinal :: int
  ra_executor_kind :: executor_kind
  ra_executor_id :: string
  ra_status :: string
  ra_started_at :: int
  ra_source_attempt_id :: string
  ra_earliest_claim_at :: int

record retry_request =
  rq_source :: string
  rq_card_id :: int
  rq_decision :: policy_decision
  rq_directive :: directive
  rq_contract :: json
  rq_target :: string
  rq_tokens :: int
  rq_cost :: int
  rq_switches :: int
  rq_insert :: retry_attempt
  rq_authority :: "authority option"

datatype accept_outcome =
  Ac_created | Ac_idempotent string | Ac_conflict | Ac_stale_source | Ac_budget_exhausted

text \<open>A member of \<open>revision_meta\<close>; the columns of the contract row.\<close>

definition meta_member :: "json \<Rightarrow> string \<Rightarrow> json option" where
  "meta_member ct k = nullish (jget (member_at ct ''revision_meta'') k) None"

definition text_value :: "json option \<Rightarrow> string option" where
  "text_value v = (case v of Some (JStr s) \<Rightarrow> Some s | _ \<Rightarrow> None)"

definition int_value :: "int \<Rightarrow> json option \<Rightarrow> int" where
  "int_value d v = (case v of Some (JNum (NInt i)) \<Rightarrow> i | _ \<Rightarrow> d)"

definition revision_row :: "string \<Rightarrow> int \<Rightarrow> json \<Rightarrow> contract" where
  "revision_row source c ct = \<lparr> ct_id = text_at ct ''id'', ct_card_id = c, ct_revision = int_value 1 (meta_member ct ''revision''),
     ct_root_contract_id = orelse (text_value (meta_member ct ''root_contract_id'')) (text_at ct ''id''),
     ct_parent_contract_id = text_value (meta_member ct ''parent_contract_id''), ct_source_attempt_id = Some source,
     ct_json = Some ct, ct_digest = text_at ct ''digest'' \<rparr>"

text \<open>The successor's row: the lineage is the source's.\<close>

definition successor_row :: "retry_attempt \<Rightarrow> attempt \<Rightarrow> attempt" where
  "successor_row n source = \<lparr> at_id = ra_id n, at_card_id = ra_card_id n, at_contract_id = ra_contract_id n,
     at_ordinal = ra_ordinal n, at_executor_kind = ra_executor_kind n, at_executor_id = ra_executor_id n,
     at_generation = 1, at_lifecycle = L_pending, at_remote_task_id = None, at_status = ra_status n,
     at_claimed_at = None, at_started_at = ra_started_at n, at_settled_at = None, at_hard_deadline_at = None,
     at_cancel_reason = None, at_source_attempt_id = Some (ra_source_attempt_id n), at_retry_directive_id = None,
     at_earliest_claim_at = Some (ra_earliest_claim_at n), at_reserved_tokens = 0, at_input_tokens = None,
     at_output_tokens = None, at_charged_tokens = 0, at_usage_charged_at = None, at_resource_id = None,
     at_resource_generation = None, at_continuity = None,
     at_root_project_card_id = at_root_project_card_id source,
     at_root_project_generation = at_root_project_generation source, at_scheduled_run_id = at_scheduled_run_id source \<rparr>"

definition add_successor :: "attempt \<Rightarrow> swarm_db \<Rightarrow> swarm_db option" where
  "add_successor n db =
     (if list_ex (\<lambda>r. at_id r = at_id n \<or> at_card_id r = at_card_id n \<and> at_ordinal r = at_ordinal n) (db_attempts db)
      then None else Some (db\<lparr> db_attempts := db_attempts db @ [n] \<rparr>))"

definition lineage :: "swarm_db \<Rightarrow> int \<Rightarrow> attempt list" where
  "lineage db c = sort_key at_ordinal (filter (\<lambda>a. at_card_id a = c) (db_attempts db))"

definition terminal_attempts :: "swarm_db \<Rightarrow> int \<Rightarrow> attempt list" where
  "terminal_attempts db c = filter (\<lambda>a. terminal_lifecycle (at_lifecycle a)) (lineage db c)"

text \<open>\<open>SUM(reserved_attempts)\<close>; the column is 1 by its \<open>CHECK\<close>.\<close>

definition reserved_attempts :: "swarm_db \<Rightarrow> int \<Rightarrow> nat" where
  "reserved_attempts db c = length (filter
     (\<lambda>s. rs_source_attempt_id s \<in> at_id ` set (lineage db c) \<and> (rs_status s = Rs_active \<or> rs_status s = Rs_claimed))
     (db_reservations db))"

text \<open>Steps 1 to 4: an answer that ends the transaction, or the source's row and the status of its decision.\<close>

definition mismatched :: "retry_request \<Rightarrow> attempt \<Rightarrow> bool" where
  "mismatched q source \<longleftrightarrow> at_card_id source \<noteq> rq_card_id q \<or> ra_card_id (rq_insert q) \<noteq> rq_card_id q \<or>
     ra_id (rq_insert q) \<noteq> rq_target q \<or> ra_contract_id (rq_insert q) \<noteq> text_at (rq_contract q) ''id'' \<or>
     ra_source_attempt_id (rq_insert q) \<noteq> rq_source q"

definition existing_successor :: "retry_request \<Rightarrow> retry_db \<Rightarrow> accept_outcome option" where
  "existing_successor q r = (case find_directive r (rq_source q) of
     Some e \<Rightarrow> Some (if rd_fingerprint (dv_directive e) = rd_fingerprint (rq_directive q)
       then Ac_idempotent (orelse (dv_target e) []) else Ac_conflict)
   | None \<Rightarrow>
       (case sql_first (\<lambda>a. at_source_attempt_id a = Some (rq_source q)) (db_attempts (rt_db r)) of
          Some t \<Rightarrow> Some (Ac_idempotent (at_id t))
        | None \<Rightarrow> map_option (\<lambda>s. Ac_idempotent (rs_target_attempt_id s)) (getReservation (rt_db r) (rq_source q))))"

definition for_other_source :: "retry_request \<Rightarrow> bool" where
  "for_other_source q \<longleftrightarrow> pd_source_attempt_id (rq_decision q) \<noteq> rq_source q \<or>
     rd_source_attempt_id (rq_directive q) \<noteq> rq_source q \<or>
     meta_member (rq_contract q) ''source_attempt_id'' \<noteq> Some (JStr (rq_source q))"

definition accept_checks :: "retry_request \<Rightarrow> retry_db \<Rightarrow> accept_outcome + attempt \<times> decision_status" where
  "accept_checks q r = (case find_attempt (rt_db r) (rq_source q) of
     None \<Rightarrow> Inl Ac_stale_source
   | Some source \<Rightarrow>
       (if \<not> terminal_lifecycle (at_lifecycle source) then Inl Ac_stale_source
        else if mismatched q source then Inl Ac_conflict
        else if lineage_rejection (rt_db r) source (rq_card_id q) (rq_authority q) \<noteq> None then Inl Ac_stale_source
        else case existing_successor q r of
          Some answer \<Rightarrow> Inl answer
        | None \<Rightarrow>
            (if for_other_source q then Inl Ac_conflict
             else case find_decision r (rq_source q) of
               None \<Rightarrow> Inl Ac_stale_source
             | Some d \<Rightarrow>
                 (if dr_status d \<noteq> Ds_review_required \<and> dr_status d \<noteq> Ds_scheduled then Inl Ac_stale_source
                  else if length (terminal_attempts (rt_db r) (rq_card_id q)) + reserved_attempts (rt_db r) (rq_card_id q) > 5
                    then Inl Ac_budget_exhausted
                  else Inr (source, dr_status d)))))"

text \<open>Steps 5 to 9: the rows of the successor.\<close>

definition accept_writes :: "int \<Rightarrow> retry_request \<Rightarrow> attempt \<Rightarrow> decision_status \<Rightarrow> retry_db \<Rightarrow> retry_db option" where
  "accept_writes now q source s r = do {
     db1 \<leftarrow> insertContract (revision_row (rq_source q) (rq_card_id q) (rq_contract q)) (rt_db r);
     db2 \<leftarrow> add_successor (successor_row (rq_insert q) source) db1;
     r1 \<leftarrow> add_directive (rq_directive q) (Some (rq_target q)) (r\<lparr> rt_db := db2 \<rparr>);
     let (ok, db3) = insertReservation now (rq_source q) (rq_target q) (rq_tokens q) (rq_cost q) (rq_switches q) (rt_db r1);
     if ok then Some (snd (set_decision_status now (rq_source q) s Ds_scheduled (r1\<lparr> rt_db := db3 \<rparr>))) else None }"

definition requeue :: "int \<Rightarrow> transition_request" where
  "requeue c = (move c [Failed, Done] Queued A_retry_requeue ''retry attempt allocated'')
     \<lparr> tq_fields := [W_error None, W_next_retry_at None] \<rparr>"

text \<open>
  The transaction. Step 10 requeues the card; when the card is not there to be requeued the answer is
  \<open>stale_source\<close>, but by \<open>return\<close>, so what was written is committed.
\<close>

definition acceptDirectiveAndAllocateTarget ::
    "(string \<Rightarrow> string) \<Rightarrow> int \<Rightarrow> retry_request \<Rightarrow> retry_db \<Rightarrow> accept_outcome \<times> retry_db" where
  "acceptDirectiveAndAllocateTarget redact now q r = (case accept_checks q r of
     Inl answer \<Rightarrow> (answer, r)
   | Inr (source, s) \<Rightarrow>
       (case accept_writes now q source s r of
          None \<Rightarrow> (Ac_stale_source, r)
        | Some r1 \<Rightarrow>
            (let (outcome, db) = kanbanTransition redact now (requeue (rq_card_id q)) (rt_db r1)
             in case outcome of
                Inl e \<Rightarrow> (Ac_stale_source, r)
              | Inr (No_op seen) \<Rightarrow> (Ac_stale_source, r1\<lparr> rt_db := db \<rparr>)
              | Inr _ \<Rightarrow> (Ac_created, r1\<lparr> rt_db := db \<rparr>))))"

section \<open>Lineage, reviews and pruning\<close>

definition getLineage :: "retry_db \<Rightarrow> string \<Rightarrow> classification option \<times> decision_row option \<times> directive option" where
  "getLineage r a = (getClassification r a, getDecision r a, getDirective r a)"

definition getPendingReviewDecisions :: "retry_db \<Rightarrow> (string \<times> decision_status \<times> int option) list" where
  "getPendingReviewDecisions r = map (\<lambda>d. (dr_source d, dr_status d, dr_deadline d))
     (filter (\<lambda>d. dr_status d = Ds_review_required \<or> dr_status d = Ds_needs_input) (rt_decisions r))"

definition overdue :: "int \<Rightarrow> decision_row \<Rightarrow> bool" where
  "overdue now d \<longleftrightarrow> dr_status d = Ds_review_required \<and> (case dr_deadline d of None \<Rightarrow> False | Some t \<Rightarrow> t < now)"

definition expireOverdueReviews :: "int \<Rightarrow> retry_db \<Rightarrow> string list \<times> retry_db" where
  "expireOverdueReviews now r = (let expired = map dr_source (filter (overdue now) (rt_decisions r)) in
     (expired, fold (\<lambda>a s. snd (set_decision_status now a Ds_review_required Ds_stopped s)) expired r))"

definition getLatestTerminalAttemptForCard :: "swarm_db \<Rightarrow> int \<Rightarrow> attempt option" where
  "getLatestTerminalAttemptForCard db c =
     sql_last_by at_ordinal (\<lambda>a. at_card_id a = c \<and> terminal_lifecycle (at_lifecycle a)) (db_attempts db)"

record lineage_budget =
  lb_total_attempts :: nat
  lb_same_class :: nat
  lb_same_executor :: nat
  lb_switches :: nat
  lb_elapsed_ms :: int
  lb_tokens :: int
  lb_cost :: int
  lb_reservations :: nat

definition unsuccessful :: "attempt_lifecycle \<Rightarrow> bool" where
  "unsuccessful l \<longleftrightarrow> l = L_failed \<or> l = L_cancelled \<or> l = L_timed_out"

text \<open>The run of unsuccessful attempts, from the latest back, on the executor of the latest.\<close>

definition same_executor_fails :: "attempt list \<Rightarrow> nat" where
  "same_executor_fails ts = (case rev ts of
     [] \<Rightarrow> 0
   | l # _ \<Rightarrow> length (takeWhile (\<lambda>a. at_executor_id a = at_executor_id l \<and> unsuccessful (at_lifecycle a)) (rev ts)))"

fun switches :: "string list \<Rightarrow> nat" where
  "switches (x # y # ys) = (if x \<noteq> y then 1 else 0) + switches (y # ys)"
| "switches _ = 0"

text \<open>
  \<open>env?.usage?.total_tokens ?? 0\<close> of an attempt's envelope. Costs that are no whole numbers count as zero
  here; no decision reads the total.
\<close>

definition usage_of :: "swarm_db \<Rightarrow> string \<Rightarrow> attempt \<Rightarrow> int" where
  "usage_of db k a = (case find_result db (at_id a) of
     None \<Rightarrow> 0
   | Some e \<Rightarrow> int_value 0 (jget (member_at (re_envelope e) ''usage'') k))"

definition getFullLineageBudget :: "retry_db \<Rightarrow> int \<Rightarrow> failure_class option \<Rightarrow> lineage_budget" where
  "getFullLineageBudget r c cls =
     (let db = rt_db r; all = lineage db c; ts = terminal_attempts db c in
      \<lparr> lb_total_attempts = length ts,
        lb_same_class = length (filter (\<lambda>a. case (cls, find_classification r (at_id a)) of
            (Some k, Some f) \<Rightarrow> fc_primary f = k | _ \<Rightarrow> False) ts),
        lb_same_executor = same_executor_fails ts, lb_switches = switches (map at_executor_id all),
        lb_elapsed_ms = (case (all, rev ts) of
            (f # _, l # _) \<Rightarrow> (case at_settled_at l of None \<Rightarrow> 0 | Some t \<Rightarrow> t - at_started_at f) | _ \<Rightarrow> 0),
        lb_tokens = sum_list (map (usage_of db ''total_tokens'') ts), lb_cost = sum_list (map (usage_of db ''cost'') ts),
        lb_reservations = reserved_attempts db c \<rparr>)"

text \<open>
  \<open>settled_at\<close> is an ISO text and the cutoff one of \<open>datetime('now', ...)\<close>: the same day compares as
  later, so only whole days count.
\<close>

definition DAY_MS :: int where
  "DAY_MS = 24 * 60 * 60 * 1000"

definition pruned :: "int \<Rightarrow> int \<Rightarrow> swarm_db \<Rightarrow> string \<Rightarrow> bool" where
  "pruned now days db i \<longleftrightarrow> list_ex (\<lambda>a. at_id a = i \<and> terminal_lifecycle (at_lifecycle a) \<and>
     (case at_settled_at a of None \<Rightarrow> False | Some t \<Rightarrow> t div DAY_MS < (now - days * DAY_MS) div DAY_MS)) (db_attempts db)"

definition pruneRetryRows :: "int \<Rightarrow> int \<Rightarrow> retry_db \<Rightarrow> nat \<times> retry_db" where
  "pruneRetryRows now days r =
     (let p = pruned now days (rt_db r);
          c = (\<lambda>x. p (fc_attempt_id x));
          v = (\<lambda>x. p (rd_source_attempt_id (dv_directive x)) \<or> (case dv_target x of None \<Rightarrow> False | Some t \<Rightarrow> p t));
          d = (\<lambda>x. dr_status x \<noteq> Ds_review_required \<and> p (dr_source x))
      in (sql_changes c (rt_classifications r) + sql_changes v (rt_directives r) + sql_changes d (rt_decisions r),
          r\<lparr> rt_classifications := filter (\<lambda>x. \<not> c x) (rt_classifications r),
             rt_directives := filter (\<lambda>x. \<not> v x) (rt_directives r),
             rt_decisions := filter (\<lambda>x. \<not> d x) (rt_decisions r) \<rparr>))"

section \<open>Closed decisions\<close>

interpretation decisions: transition_table isValidTransition closed_decision
  by unfold_locales (auto simp: isValidTransition_def ALLOWED_TRANSITIONS_def closed_decision_def)

definition closed_kept :: "retry_db \<Rightarrow> retry_db \<Rightarrow> bool" where
  "closed_kept r r' \<longleftrightarrow> (\<forall>a d. find_decision r a = Some d \<and> closed_decision (dr_status d) \<longrightarrow> find_decision r' a = Some d)"

lemma closed_kept_refl [simp]: "closed_kept r r"
  by (simp add: closed_kept_def)

lemma closed_kept_trans: "closed_kept r s \<Longrightarrow> closed_kept s t \<Longrightarrow> closed_kept r t"
  by (auto simp: closed_kept_def)

lemma closed_kept_same: "rt_decisions r' = rt_decisions r \<Longrightarrow> closed_kept r r'"
  by (simp add: closed_kept_def find_decision_def)

lemma find_decision_update:
  assumes "\<And>d. dr_source (f d) = dr_source d"
  shows "find_decision (snd (update_decisions p f r)) a = map_option (\<lambda>d. if p d then f d else d) (find_decision r a)"
  by (simp add: find_decision_def update_decisions_def sql_first_update [of dr_source f, OF assms])

lemma closed_kept_update:
  assumes "\<And>d. dr_source (f d) = dr_source d" "\<And>d. p d \<Longrightarrow> \<not> closed_decision (dr_status d)"
  shows "closed_kept r (snd (update_decisions p f r))"
  using assms(2) by (auto simp: closed_kept_def find_decision_update [OF assms(1)])

lemma closed_kept_status: "\<not> closed_decision s \<Longrightarrow> closed_kept r (snd (set_decision_status now a s t r))"
  unfolding set_decision_status_def by (rule closed_kept_update) auto

lemma closed_kept_upsert: "closed_kept r (upsert_decision d r)"
proof (cases "find_decision r (dr_source d) = None")
  case True
  then show ?thesis by (auto simp: upsert_decision_def closed_kept_def find_decision_def sql_first_append)
next
  case False
  show ?thesis unfolding upsert_decision_def if_not_P [OF False] by (rule closed_kept_update) simp_all
qed

lemma set_status_frame [simp]:
  "rt_db (snd (set_decision_status now a s t r)) = rt_db r"
  "rt_classifications (snd (set_decision_status now a s t r)) = rt_classifications r"
  "rt_directives (snd (set_decision_status now a s t r)) = rt_directives r"
  by (simp_all add: set_decision_status_def update_decisions_def)

section \<open>What an allocation writes\<close>

definition reservation_row :: "int \<Rightarrow> retry_request \<Rightarrow> reservation" where
  "reservation_row now q = \<lparr> rs_source_attempt_id = rq_source q, rs_target_attempt_id = rq_target q, rs_tokens = rq_tokens q,
     rs_cost = rq_cost q, rs_switches = rq_switches q, rs_status = Rs_active, rs_updated_at = now \<rparr>"

definition successor_db :: "int \<Rightarrow> retry_request \<Rightarrow> attempt \<Rightarrow> swarm_db \<Rightarrow> swarm_db" where
  "successor_db now q source db = db\<lparr>
     db_contracts := db_contracts db @ [revision_row (rq_source q) (rq_card_id q) (rq_contract q)],
     db_attempts := db_attempts db @ [successor_row (rq_insert q) source],
     db_reservations := db_reservations db @ [reservation_row now q] \<rparr>"

lemma accept_writes_eq:
  assumes "accept_writes now q source s r = Some r1"
  shows "r1 = snd (set_decision_status now (rq_source q) s Ds_scheduled (r\<lparr>
      rt_directives := rt_directives r @ [\<lparr> dv_directive = rq_directive q, dv_target = Some (rq_target q) \<rparr>],
      rt_db := successor_db now q source (rt_db r) \<rparr>))"
    and "\<not> list_ex (\<lambda>a. at_id a = ra_id (rq_insert q) \<or> at_card_id a = ra_card_id (rq_insert q) \<and> at_ordinal a = ra_ordinal (rq_insert q))
      (db_attempts (rt_db r))"
  using assms
  by (auto simp: accept_writes_def insertContract_def add_successor_def add_directive_def insertReservation_def Let_def
      successor_db_def successor_row_def reservation_row_def split: if_splits)

lemma requeue_simps [simp]:
  "tq_card_id (requeue c) = c" "tq_from (requeue c) = [Failed, Done]" "tq_to (requeue c) = Queued" "tq_extra (requeue c) = None"
  "illegal (requeue c) = None"
  by (simp_all add: requeue_def illegal_def LEGAL_TRANSITIONS_def)

lemma requeue_result:
  assumes keys: "card_keys db"
  shows "fst (kanbanTransition redact now (requeue c) db) = Inr (case find_card db c of
      None \<Rightarrow> No_op None
    | Some k \<Rightarrow> if k_status k = Failed \<or> k_status k = Done then Applied (k_status k) else No_op (Some (k_status k)))"
    and "find_card db c = Some k \<Longrightarrow> k_status k = Failed \<or> k_status k = Done \<Longrightarrow>
      find_card (snd (kanbanTransition redact now (requeue c) db)) c = Some (set_status now (requeue c) k)"
proof -
  show "fst (kanbanTransition redact now (requeue c) db) = Inr (case find_card db c of
      None \<Rightarrow> No_op None
    | Some k \<Rightarrow> if k_status k = Failed \<or> k_status k = Done then Applied (k_status k) else No_op (Some (k_status k)))"
  proof (cases "find_card db c")
    case None
    then show ?thesis by (simp add: kanbanTransition_def transition_tx_def)
  next
    case (Some k)
    then show ?thesis
      by (auto simp: kanbanTransition_def transition_tx_eq [OF keys, of "requeue c", simplified] Let_def cas_hits_def extra_holds_def case_prod_unfold)
  qed
  assume k: "find_card db c = Some k" "k_status k = Failed \<or> k_status k = Done"
  have f: "find_card (commit_applied redact rq s d) c = find_card d c" for s d rq by (simp add: find_card_def)
  have u: "find_card (update_cards (\<lambda>r. k_id r = c) (set_status now (requeue c)) db) c = Some (set_status now (requeue c) k)"
    by (subst find_card_update) (use k in \<open>auto dest: find_cardD\<close>)
  show "find_card (snd (kanbanTransition redact now (requeue c) db)) c = Some (set_status now (requeue c) k)"
    using k by (auto simp: kanbanTransition_def transition_tx_eq [OF keys, of "requeue c", simplified] Let_def cas_hits_def extra_holds_def
        case_prod_unfold f u)
qed

lemma kanbanTransition_tables [simp]:
  "db_contracts (snd (kanbanTransition redact now rq db)) = db_contracts db"
  "db_reservations (snd (kanbanTransition redact now rq db)) = db_reservations db"
  "db_results (snd (kanbanTransition redact now rq db)) = db_results db"
  "db_leases (snd (kanbanTransition redact now rq db)) = db_leases db"
  by (auto simp: kanbanTransition_def transition_tx_def commit_applied_def append_journal_def
      queuePeerCallbackInTx_def emit_transition_def update_cards_def Let_def case_prod_unfold
      split: option.split transition_outcome.split)

lemma requeue_others:
  assumes "card_keys db" "x \<noteq> c"
  shows "find_card (snd (kanbanTransition redact now (requeue c) db)) x = find_card db x"
proof -
  have "find_card (snd (kanbanTransition redact now (requeue c) db)) x =
      map_option (\<lambda>r. if x = tq_card_id (requeue c) \<and> illegal (requeue c) = None \<and> cas_hits db (requeue c) r
        then set_status now (requeue c) r else r) (find_card db x)"
    using transition_effect [OF assms(1), of "requeue c" redact now] by blast
  then show ?thesis using assms(2) by (simp add: option.map_ident)
qed

lemma checks_Inl: "accept_checks q r = Inl x \<Longrightarrow> x \<noteq> Ac_created"
  by (auto simp: accept_checks_def existing_successor_def split: option.splits if_splits)

lemma checks_Inr:
  "accept_checks q r = Inr (source, s) \<longleftrightarrow> find_attempt (rt_db r) (rq_source q) = Some source \<and>
    terminal_lifecycle (at_lifecycle source) \<and> \<not> mismatched q source \<and>
    lineage_rejection (rt_db r) source (rq_card_id q) (rq_authority q) = None \<and> existing_successor q r = None \<and>
    \<not> for_other_source q \<and> (\<exists>d. find_decision r (rq_source q) = Some d \<and> dr_status d = s) \<and>
    (s = Ds_review_required \<or> s = Ds_scheduled) \<and>
    length (terminal_attempts (rt_db r) (rq_card_id q)) + reserved_attempts (rt_db r) (rq_card_id q) \<le> 5"
  by (auto simp: accept_checks_def split: option.splits if_splits)

lemma accept_cases:
  obtains (unchanged) x where "acceptDirectiveAndAllocateTarget redact now q r = (x, r)" "x \<noteq> Ac_created"
  | (wrote) source s r1 where "accept_checks q r = Inr (source, s)" "accept_writes now q source s r = Some r1"
    "acceptDirectiveAndAllocateTarget redact now q r =
      ((case fst (kanbanTransition redact now (requeue (rq_card_id q)) (rt_db r1)) of Inr (No_op x) \<Rightarrow> Ac_stale_source | _ \<Rightarrow> Ac_created),
       r1\<lparr> rt_db := snd (kanbanTransition redact now (requeue (rq_card_id q)) (rt_db r1)) \<rparr>)"
proof (cases "accept_checks q r")
  case (Inl x)
  then show thesis using checks_Inl by (intro unchanged) (auto simp: acceptDirectiveAndAllocateTarget_def)
next
  case (Inr p)
  then obtain source s where p: "accept_checks q r = Inr (source, s)" by (cases p) simp
  show thesis
  proof (cases "accept_writes now q source s r")
    case None
    with p show thesis by (intro unchanged) (auto simp: acceptDirectiveAndAllocateTarget_def)
  next
    case (Some r1)
    obtain out db where k: "kanbanTransition redact now (requeue (rq_card_id q)) (rt_db r1) = (out, db)" by (cases "kanbanTransition redact now (requeue (rq_card_id q)) (rt_db r1)")
    then have "\<not> (\<exists>e. out = Inl e)" by (auto simp: kanbanTransition_def case_prod_unfold Let_def)
    with p Some k show thesis
      by (intro wrote) (auto simp: acceptDirectiveAndAllocateTarget_def split: sum.split transition_outcome.split)
  qed
qed

lemma written_frame:
  assumes "accept_writes now q source s r = Some r1"
  shows "rt_db r1 = successor_db now q source (rt_db r)" "rt_classifications r1 = rt_classifications r"
    "rt_directives r1 = rt_directives r @ [\<lparr> dv_directive = rq_directive q, dv_target = Some (rq_target q) \<rparr>]"
    "rt_decisions r1 = rt_decisions (snd (set_decision_status now (rq_source q) s Ds_scheduled r))"
  unfolding accept_writes_eq(1) [OF assms] by (simp_all add: set_decision_status_def update_decisions_def)

lemma closed_kept_cong: "closed_kept r s \<Longrightarrow> rt_decisions t = rt_decisions s \<Longrightarrow> closed_kept r t"
  by (simp add: closed_kept_def find_decision_def)

lemma closed_kept_accept: "closed_kept r (snd (acceptDirectiveAndAllocateTarget redact now q r))"
proof (cases rule: accept_cases [of redact now q r])
  case (wrote source s r1)
  from wrote(1) have "\<not> closed_decision s" by (auto simp: checks_Inr closed_decision_def)
  then have "closed_kept r (snd (set_decision_status now (rq_source q) s Ds_scheduled r))" by (rule closed_kept_status)
  then show ?thesis unfolding wrote(3) by (rule closed_kept_cong) (simp add: written_frame [OF wrote(2)])
qed simp

section \<open>Runs of the store\<close>

text \<open>Every operation between two prunings, and the operations on attempts in between.\<close>

inductive retry_step :: "(string \<Rightarrow> string) \<Rightarrow> (json \<Rightarrow> string) \<Rightarrow> joint_hook \<Rightarrow> retry_db \<Rightarrow> retry_db \<Rightarrow> bool"
  for redact :: "string \<Rightarrow> string" and digest :: "json \<Rightarrow> string" and joint :: joint_hook where
  classified: "retry_step redact digest joint r (snd (insertClassification c r))"
| decided: "retry_step redact digest joint r (snd (insertDecision now p s g r))"
| moved: "retry_step redact digest joint r (snd (compareAndSetDecisionStatus now a s t r))"
| project_moved: "retry_step redact digest joint r (snd (compareAndSetProjectDecisionStatus now a c s t au r))"
| directed: "retry_step redact digest joint r (snd (insertDirective d target r))"
| allocated: "retry_step redact digest joint r (snd (acceptDirectiveAndAllocateTarget redact now q r))"
| expired: "retry_step redact digest joint r (snd (expireOverdueReviews now r))"
| elsewhere: "attempt_step redact digest joint (rt_db r) db \<Longrightarrow> retry_step redact digest joint r (r\<lparr> rt_db := db \<rparr>)"

lemma expire_closed: "closed_kept r (snd (expireOverdueReviews now r))"
proof -
  have "closed_kept s (fold (\<lambda>a s. snd (set_decision_status now a Ds_review_required Ds_stopped s)) as s)" for as s
  proof (induction as arbitrary: s)
    case (Cons a as)
    have "closed_kept s (snd (set_decision_status now a Ds_review_required Ds_stopped s))"
      by (rule closed_kept_status) (simp add: closed_decision_def)
    from closed_kept_trans [OF this Cons] show ?case by simp
  qed simp
  then show ?thesis by (simp add: expireOverdueReviews_def Let_def)
qed

lemma valid_open: "isValidTransition s t \<Longrightarrow> \<not> closed_decision s"
  using decisions.final_stuck by blast

lemma closed_kept_valid: "isValidTransition s t \<Longrightarrow> closed_kept r (snd (set_decision_status now a s t r))"
  by (rule closed_kept_status [OF valid_open])

lemma closed_kept_step: "retry_step redact digest joint r r' \<Longrightarrow> closed_kept r r'"
proof (induction rule: retry_step.induct)
  case (classified r c)
  then show ?case by (intro closed_kept_same) (auto simp: insertClassification_def split: option.split)
next
  case (decided r now p s g)
  then show ?case by (auto simp: insertDecision_def Let_def closed_kept_upsert split: option.split)
next
  case (moved r now a s t)
  then show ?case
    by (auto simp: compareAndSetDecisionStatus_def case_prod_unfold Let_def intro: closed_kept_valid)
next
  case (project_moved r now a c s t au)
  then show ?case
    by (auto simp: compareAndSetProjectDecisionStatus_def case_prod_unfold Let_def intro: closed_kept_valid split: option.split)
next
  case (directed r d target)
  then show ?case by (intro closed_kept_same) (auto simp: insertDirective_def add_directive_def split: option.splits)
next
  case (elsewhere r db)
  then show ?case by (intro closed_kept_same) simp
qed (simp_all add: closed_kept_accept expire_closed)

lemma closed_kept_prune:
  assumes "\<not> pruned t0 days (rt_db s) a" "find_decision s a = Some d"
  shows "find_decision (snd (pruneRetryRows t0 days s)) a = Some d"
proof -
  have f: "sql_first (\<lambda>x. dr_source x = a) (filter (\<lambda>x. \<not> (dr_status x \<noteq> Ds_review_required \<and> pruned t0 days (rt_db s) (dr_source x))) ds) =
      sql_first (\<lambda>x. dr_source x = a) ds" for ds
    using assms(1) by (induction ds) (auto simp: sql_first_def)
  show ?thesis using assms(2) by (simp add: pruneRetryRows_def Let_def find_decision_def f [simplified])
qed

lemma refused_unchanged:
  assumes "\<And>source s. accept_checks q r \<noteq> Inr (source, s)"
  shows "fst (acceptDirectiveAndAllocateTarget redact now q r) \<noteq> Ac_created"
    "snd (acceptDirectiveAndAllocateTarget redact now q r) = r"
  using assms by (cases rule: accept_cases [of redact now q r]; simp)+

text \<open>
  C25: A closed decision is final. Once the decision on a failed attempt is stopped or consumed, no
  sequence of operations of the store and of the attempts changes its row, and no request allocates a
  successor for that attempt: it changes nothing at all. Prunings in between may remove other rows; the row itself
  is only pruned when the retention of the attempt is over, which is left out here.
\<close>

theorem closed_decision_final:
  assumes "find_decision r a = Some d" and "closed_decision (dr_status d)"
    and "(\<lambda>s t. retry_step redact digest joint s t \<or>
      (\<exists>t0 days. t = snd (pruneRetryRows t0 days s) \<and> \<not> pruned t0 days (rt_db s) a))\<^sup>*\<^sup>* r r'"
  shows "find_decision r' a = Some d \<and>
    (rq_source q = a \<longrightarrow> fst (acceptDirectiveAndAllocateTarget redact' now q r') \<noteq> Ac_created \<and>
      snd (acceptDirectiveAndAllocateTarget redact' now q r') = r')"
proof -
  from assms(3) have f: "find_decision r' a = Some d"
  proof (induction rule: rtranclp_induct)
    case (step s t)
    with closed_kept_step assms(2) show ?case by (auto simp: closed_kept_def intro: closed_kept_prune)
  qed (rule assms(1))
  have "accept_checks q r' \<noteq> Inr (source, s)" if "rq_source q = a" for source s
    using f that assms(2) by (auto simp: checks_Inr closed_decision_def)
  with f refused_unchanged show ?thesis by blast
qed

section \<open>Successors\<close>

definition has_successor :: "retry_db \<Rightarrow> string \<Rightarrow> bool" where
  "has_successor r a \<longleftrightarrow> (\<exists>i t. find_attempt (rt_db r) i = Some t \<and> at_source_attempt_id t = Some a)"

lemma has_successor_existing: "has_successor r (rq_source q) \<Longrightarrow> existing_successor q r \<noteq> None"
  by (auto simp: has_successor_def existing_successor_def sql_first_None dest!: find_attemptD split: option.split)

lemma has_successor_evolves: "evolves (rt_db r) (rt_db r') \<Longrightarrow> has_successor r a \<Longrightarrow> has_successor r' a"
  by (fastforce simp: has_successor_def evolves_def attempt_evolves_def)

lemma evolves_successor_db: "evolves db (successor_db now q source db)"
proof -
  have "evolves db (db\<lparr> db_attempts := db_attempts db @ rs \<rparr>)" for rs
    by (auto simp: evolves_def attempt_evolves_def find_attempt_append)
  then show ?thesis by (rule evolves_cong_right [where d = "db\<lparr> db_attempts := db_attempts db @ [successor_row (rq_insert q) source] \<rparr>"]) (simp add: successor_db_def)
qed

lemma evolves_accept: "evolves (rt_db r) (rt_db (snd (acceptDirectiveAndAllocateTarget redact now q r)))"
proof (cases rule: accept_cases [of redact now q r])
  case (wrote source s r1)
  show ?thesis unfolding wrote(3)
    by (rule evolves_cong_right [OF evolves_successor_db [of "rt_db r" now q source]]) (simp add: written_frame [OF wrote(2)])
qed simp

lemma written_successor:
  assumes "accept_checks q r = Inr (source, s)" "accept_writes now q source s r = Some r1"
  shows "has_successor (r1\<lparr> rt_db := snd (kanbanTransition redact now rq (rt_db r1)) \<rparr>) (rq_source q)"
    and "at_source_attempt_id (successor_row (rq_insert q) source) = Some (rq_source q)"
proof -
  let ?n = "successor_row (rq_insert q) source"
  from accept_writes_eq(2) [OF assms(2)] have "find_attempt (rt_db r) (at_id ?n) = None"
    by (auto simp: find_attempt_def sql_first_None list_ex_iff successor_row_def)
  then have "find_attempt (successor_db now q source (rt_db r)) (at_id ?n) = Some ?n"
    by (simp add: successor_db_def find_attempt_def sql_first_append)
  moreover show n: "at_source_attempt_id ?n = Some (rq_source q)"
    using assms(1) by (auto simp: checks_Inr mismatched_def successor_row_def)
  ultimately show "has_successor (r1\<lparr> rt_db := snd (kanbanTransition redact now rq (rt_db r1)) \<rparr>) (rq_source q)"
    using find_attempt_cong [OF kanbanTransition_attempts] written_frame(1) [OF assms(2)]
    unfolding has_successor_def by (metis retry_db.select_convs(1) retry_db.update_convs(1) retry_db.surjective)
qed

lemma evolves_retry_step:
  assumes "retry_step redact digest joint r r'" "hook_ok joint"
  shows "evolves (rt_db r) (rt_db r')"
  using assms
proof (induction rule: retry_step.induct)
  case (decided r now p s g)
  then show ?case by (auto simp: insertDecision_def upsert_decision_def update_decisions_def Let_def split: option.split)
next
  case (expired r now)
  have "rt_db (fold (\<lambda>a s. snd (set_decision_status now a Ds_review_required Ds_stopped s)) as s) = rt_db s" for as s
    by (induction as arbitrary: s) simp_all
  then show ?case by (simp add: expireOverdueReviews_def Let_def)
qed (auto simp: insertClassification_def compareAndSetDecisionStatus_def compareAndSetProjectDecisionStatus_def insertDirective_def
    add_directive_def case_prod_unfold Let_def evolves_accept intro: evolves_step split: option.splits)

text \<open>
  C24: An attempt has at most one successor. When a request commits a successor, under whatever answer, it is one
  row, and no attempt named the source before. From then on, whatever the operations and prunings in between do, a
  request for the same source is not answered \<open>created\<close> and changes nothing.
\<close>

theorem one_successor:
  assumes "hook_ok joint" and first: "acceptDirectiveAndAllocateTarget redact now q r = (answer, r1)"
    and wrote: "db_attempts (rt_db r1) \<noteq> db_attempts (rt_db r)"
    and steps: "(\<lambda>s t. retry_step redact digest joint s t \<or> (\<exists>t0 days. t = snd (pruneRetryRows t0 days s)))\<^sup>*\<^sup>* r1 r'"
    and "rq_source q' = rq_source q"
  shows "(\<exists>n. db_attempts (rt_db r1) = db_attempts (rt_db r) @ [n] \<and> at_source_attempt_id n = Some (rq_source q)) \<and>
    (\<forall>x \<in> set (db_attempts (rt_db r)). at_source_attempt_id x \<noteq> Some (rq_source q)) \<and>
    fst (acceptDirectiveAndAllocateTarget redact' now' q' r') \<noteq> Ac_created \<and>
    snd (acceptDirectiveAndAllocateTarget redact' now' q' r') = r'"
proof -
  obtain source s r0 where w: "accept_checks q r = Inr (source, s)" "accept_writes now q source s r = Some r0"
    and r1: "r1 = r0\<lparr> rt_db := snd (kanbanTransition redact now (requeue (rq_card_id q)) (rt_db r0)) \<rparr>"
    using first wrote by (cases rule: accept_cases [of redact now q r]) auto
  from w(1) have none: "existing_successor q r = None" by (simp add: checks_Inr)
  then have before: "\<forall>x \<in> set (db_attempts (rt_db r)). at_source_attempt_id x \<noteq> Some (rq_source q)"
    by (auto simp: existing_successor_def sql_first_None split: option.splits)
  have row: "db_attempts (rt_db r1) = db_attempts (rt_db r) @ [successor_row (rq_insert q) source]"
    by (simp add: r1 written_frame(1) [OF w(2)] successor_db_def)
  have "has_successor r' (rq_source q)" using steps
  proof (induction rule: rtranclp_induct)
    case base
    show ?case unfolding r1 by (rule written_successor(1) [OF w])
  next
    case (step s t)
    from step.hyps(2) have "evolves (rt_db s) (rt_db t)"
      using evolves_retry_step [OF _ assms(1)] by (auto simp: pruneRetryRows_def Let_def)
    then show ?case using step.IH by (rule has_successor_evolves)
  qed
  then have "existing_successor q' r' \<noteq> None" using has_successor_existing assms(5) by metis
  then have "accept_checks q' r' \<noteq> Inr (source', s')" for source' s' by (simp add: checks_Inr)
  from refused_unchanged [OF this] row before written_successor(2) [OF w] show ?thesis by blast
qed

section \<open>The answers of an allocation\<close>

lemma find_decisionD: "find_decision r a = Some d \<Longrightarrow> dr_source d = a"
  by (auto simp: find_decision_def dest: sql_first_SomeD)

lemma find_decision_scheduled:
  assumes "find_decision r a = Some d" and "dr_status d = s"
  shows "find_decision (snd (set_decision_status now a s t r)) a = Some (d\<lparr> dr_status := t, dr_updated_at := now \<rparr>)"
  unfolding set_decision_status_def by (subst find_decision_update) (simp_all add: assms find_decisionD [OF assms(1)])

lemma written_decision:
  assumes "accept_writes now q source s r = Some r1" and "find_decision r (rq_source q) = Some d" and "dr_status d = s"
  shows "find_decision r1 (rq_source q) = Some (d\<lparr> dr_status := Ds_scheduled, dr_updated_at := now \<rparr>)"
  using find_decision_scheduled [OF assms(2,3)] written_frame(4) [OF assms(1)] by (simp add: find_decision_def)

lemma find_card_successor [simp]: "find_card (successor_db now q source db) c = find_card db c" "card_keys (successor_db now q source db) = card_keys db"
  by (simp_all add: successor_db_def find_card_def card_keys_def)

lemma requeue_misses:
  assumes keys: "card_keys db" and k: "\<forall>k. find_card db c = Some k \<longrightarrow> k_status k \<noteq> Failed \<and> k_status k \<noteq> Done"
  shows "snd (kanbanTransition redact now (requeue c) db) = db"
proof (cases "find_card db c")
  case None
  then show ?thesis by (simp add: kanbanTransition_def transition_tx_def)
next
  case (Some k)
  with assms(2) show ?thesis
    by (auto simp: kanbanTransition_def transition_tx_eq [OF keys, of "requeue c", simplified] Let_def cas_hits_def)
qed

lemma created_facts:
  assumes keys: "card_keys (rt_db r)" and created: "acceptDirectiveAndAllocateTarget redact now q r = (Ac_created, r')"
  shows "\<exists>source d k. find_attempt (rt_db r) (rq_source q) = Some source \<and> terminal_lifecycle (at_lifecycle source) \<and>
    at_card_id source = rq_card_id q \<and> lineage_rejection (rt_db r) source (rq_card_id q) (rq_authority q) = None \<and>
    existing_successor q r = None \<and>
    find_decision r (rq_source q) = Some d \<and> (dr_status d = Ds_review_required \<or> dr_status d = Ds_scheduled) \<and>
    length (terminal_attempts (rt_db r) (rq_card_id q)) + reserved_attempts (rt_db r) (rq_card_id q) \<le> 5 \<and>
    find_card (rt_db r) (rq_card_id q) = Some k \<and> (k_status k = Failed \<or> k_status k = Done) \<and>
    db_contracts (rt_db r') = db_contracts (rt_db r) @ [revision_row (rq_source q) (rq_card_id q) (rq_contract q)] \<and>
    db_attempts (rt_db r') = db_attempts (rt_db r) @ [successor_row (rq_insert q) source] \<and>
    db_reservations (rt_db r') = db_reservations (rt_db r) @ [reservation_row now q] \<and>
    rt_directives r' = rt_directives r @ [\<lparr> dv_directive = rq_directive q, dv_target = Some (rq_target q) \<rparr>] \<and>
    find_decision r' (rq_source q) = Some (d\<lparr> dr_status := Ds_scheduled, dr_updated_at := now \<rparr>) \<and>
    find_card (rt_db r') (rq_card_id q) = Some (set_status now (requeue (rq_card_id q)) k)"
proof (cases rule: accept_cases [of redact now q r])
  case (unchanged x)
  with created show ?thesis by simp
next
  case (wrote source s r1)
  note f = written_frame [OF wrote(2)]
  let ?c = "rq_card_id q"
  have keys1: "card_keys (rt_db r1)" using keys by (simp add: f)
  from wrote(1) obtain d where d: "find_decision r (rq_source q) = Some d" "dr_status d = s" by (auto simp: checks_Inr)
  from created wrote(3) requeue_result(1) [OF keys1, of redact now ?c]
  obtain k where k: "find_card (rt_db r) ?c = Some k" "k_status k = Failed \<or> k_status k = Done"
    by (auto simp: f split: option.splits if_splits)
  have r': "r' = r1\<lparr> rt_db := snd (kanbanTransition redact now (requeue ?c) (rt_db r1)) \<rparr>" using created wrote(3) by simp
  have "find_card (rt_db r') ?c = Some (set_status now (requeue ?c) k)"
    using requeue_result(2) [OF keys1, of ?c k] k by (simp add: r' f)
  moreover have "find_decision r' (rq_source q) = Some (d\<lparr> dr_status := Ds_scheduled, dr_updated_at := now \<rparr>)"
    using written_decision [OF wrote(2) d] by (simp add: r' find_decision_def)
  ultimately show ?thesis
    using wrote(1) d k unfolding checks_Inr
    by (intro exI [of _ source] exI [of _ d] exI [of _ k]) (simp add: r' f successor_db_def mismatched_def)
qed

text \<open>Everything the transaction leaves, in one place.\<close>

lemma created_state:
  assumes keys: "card_keys (rt_db r)" and created: "acceptDirectiveAndAllocateTarget redact now q r = (Ac_created, r')"
    and source: "find_attempt (rt_db r) (rq_source q) = Some source" and d: "find_decision r (rq_source q) = Some d"
  shows "rt_db r' = snd (kanbanTransition redact now (requeue (rq_card_id q)) (successor_db now q source (rt_db r)))"
    and "rt_decisions r' = map (\<lambda>e. if dr_source e = rq_source q \<and> dr_status e = dr_status d
      then e\<lparr> dr_status := Ds_scheduled, dr_updated_at := now \<rparr> else e) (rt_decisions r)"
    and "rt_classifications r' = rt_classifications r"
    and "x \<noteq> rq_card_id q \<Longrightarrow> find_card (rt_db r') x = find_card (rt_db r) x"
proof -
  have all: "rt_db r' = snd (kanbanTransition redact now (requeue (rq_card_id q)) (successor_db now q source (rt_db r))) \<and>
    rt_decisions r' = map (\<lambda>e. if dr_source e = rq_source q \<and> dr_status e = dr_status d
      then e\<lparr> dr_status := Ds_scheduled, dr_updated_at := now \<rparr> else e) (rt_decisions r) \<and>
    rt_classifications r' = rt_classifications r"
  proof (cases rule: accept_cases [of redact now q r])
    case (unchanged y)
    with created show ?thesis by simp
  next
    case (wrote source' s r1)
    from wrote(1) source d have "source' = source" "s = dr_status d" by (auto simp: checks_Inr)
    moreover from created wrote(3) have "r' = r1\<lparr> rt_db := snd (kanbanTransition redact now (requeue (rq_card_id q)) (rt_db r1)) \<rparr>" by simp
    ultimately show ?thesis
      using written_frame [OF wrote(2)] by (simp add: set_decision_status_def update_decisions_def sql_update_def)
  qed
  then show "rt_db r' = snd (kanbanTransition redact now (requeue (rq_card_id q)) (successor_db now q source (rt_db r)))"
    and "rt_decisions r' = map (\<lambda>e. if dr_source e = rq_source q \<and> dr_status e = dr_status d
      then e\<lparr> dr_status := Ds_scheduled, dr_updated_at := now \<rparr> else e) (rt_decisions r)"
    and "rt_classifications r' = rt_classifications r" by simp_all
  assume "x \<noteq> rq_card_id q"
  then show "find_card (rt_db r') x = find_card (rt_db r) x"
    using all requeue_others [of "successor_db now q source (rt_db r)" x "rq_card_id q" redact now] keys by simp
qed

text \<open>
  C23: What a created successor stands on and what it leaves. The source attempt had ended, belongs to the
  card, its project still authorizes work, it had no successor, its decision awaited review or was
  scheduled, and at most five ended or reserved attempts came before. The transaction adds exactly the
  contract revision, the successor - pending, with the source's project lineage -, the reservation and the
  directive, schedules the decision on the source and no other, leaves the classifications, and of the rest of
  the database changes only what requeueing the card changes: the card had failed or was done and is queued
  now, every other card is untouched.
\<close>

theorem created_successor:
  assumes keys: "card_keys (rt_db r)" and created: "acceptDirectiveAndAllocateTarget redact now q r = (Ac_created, r')"
  shows "\<exists>source d k. find_attempt (rt_db r) (rq_source q) = Some source \<and> terminal_lifecycle (at_lifecycle source) \<and>
    at_card_id source = rq_card_id q \<and> lineage_rejection (rt_db r) source (rq_card_id q) (rq_authority q) = None \<and>
    existing_successor q r = None \<and>
    find_decision r (rq_source q) = Some d \<and> (dr_status d = Ds_review_required \<or> dr_status d = Ds_scheduled) \<and>
    length (terminal_attempts (rt_db r) (rq_card_id q)) + reserved_attempts (rt_db r) (rq_card_id q) \<le> 5 \<and>
    find_card (rt_db r) (rq_card_id q) = Some k \<and> (k_status k = Failed \<or> k_status k = Done) \<and>
    db_contracts (rt_db r') = db_contracts (rt_db r) @ [revision_row (rq_source q) (rq_card_id q) (rq_contract q)] \<and>
    db_attempts (rt_db r') = db_attempts (rt_db r) @ [successor_row (rq_insert q) source] \<and>
    db_reservations (rt_db r') = db_reservations (rt_db r) @ [reservation_row now q] \<and>
    rt_db r' = snd (kanbanTransition redact now (requeue (rq_card_id q)) ((rt_db r)\<lparr>
      db_contracts := db_contracts (rt_db r) @ [revision_row (rq_source q) (rq_card_id q) (rq_contract q)],
      db_attempts := db_attempts (rt_db r) @ [successor_row (rq_insert q) source],
      db_reservations := db_reservations (rt_db r) @ [reservation_row now q] \<rparr>)) \<and>
    rt_classifications r' = rt_classifications r \<and>
    rt_directives r' = rt_directives r @ [\<lparr> dv_directive = rq_directive q, dv_target = Some (rq_target q) \<rparr>] \<and>
    rt_decisions r' = map (\<lambda>e. if dr_source e = rq_source q \<and> dr_status e = dr_status d
      then e\<lparr> dr_status := Ds_scheduled, dr_updated_at := now \<rparr> else e) (rt_decisions r) \<and>
    find_decision r' (rq_source q) = Some (d\<lparr> dr_status := Ds_scheduled, dr_updated_at := now \<rparr>) \<and>
    find_card (rt_db r') (rq_card_id q) = Some (set_status now (requeue (rq_card_id q)) k) \<and>
    (\<forall>x. x \<noteq> rq_card_id q \<longrightarrow> find_card (rt_db r') x = find_card (rt_db r) x)"
proof -
  from created_facts [OF keys created] obtain source d k where f: "find_attempt (rt_db r) (rq_source q) = Some source"
    "terminal_lifecycle (at_lifecycle source)" "at_card_id source = rq_card_id q"
    "lineage_rejection (rt_db r) source (rq_card_id q) (rq_authority q) = None" "existing_successor q r = None"
    "find_decision r (rq_source q) = Some d" "dr_status d = Ds_review_required \<or> dr_status d = Ds_scheduled"
    "length (terminal_attempts (rt_db r) (rq_card_id q)) + reserved_attempts (rt_db r) (rq_card_id q) \<le> 5"
    "find_card (rt_db r) (rq_card_id q) = Some k" "k_status k = Failed \<or> k_status k = Done"
    "db_contracts (rt_db r') = db_contracts (rt_db r) @ [revision_row (rq_source q) (rq_card_id q) (rq_contract q)]"
    "db_attempts (rt_db r') = db_attempts (rt_db r) @ [successor_row (rq_insert q) source]"
    "db_reservations (rt_db r') = db_reservations (rt_db r) @ [reservation_row now q]"
    "rt_directives r' = rt_directives r @ [\<lparr> dv_directive = rq_directive q, dv_target = Some (rq_target q) \<rparr>]"
    "find_decision r' (rq_source q) = Some (d\<lparr> dr_status := Ds_scheduled, dr_updated_at := now \<rparr>)"
    "find_card (rt_db r') (rq_card_id q) = Some (set_status now (requeue (rq_card_id q)) k)" by blast
  note st = created_state [OF keys created f(1,6)]
  show ?thesis
    by (rule exI [of _ source], rule exI [of _ d], rule exI [of _ k], intro conjI allI impI)
      (rule f st(1) [unfolded successor_db_def] st(2,3) | erule st(4))+
qed

text \<open>The authority of a lineage is read from the cards, the supervision and the runs.\<close>

lemma ancestors_cong: "db_cards db' = db_cards db \<Longrightarrow> ancestors db' seen c = ancestors db seen c"
proof (induction db seen c rule: ancestors.induct)
  case (1 db seen r)
  have n: "next_parent db' seen r = next_parent db seen r"
    unfolding next_parent_def find_card_def 1(2) ..
  show ?case
  proof (cases "next_parent db seen r")
    case (Some q)
    with 1 n show ?thesis by simp
  qed (simp add: n)
qed

lemma lineage_rejection_cong:
  assumes "db_cards db' = db_cards db" "db_supervision db' = db_supervision db" "db_task_runs db' = db_task_runs db"
  shows "lineage_rejection db' a c au = lineage_rejection db a c au"
proof -
  have f: "find_card db' x = find_card db x" "find_supervision db' x = find_supervision db x" "find_task_run db' y = find_task_run db y" for x y
    by (simp_all add: find_card_def find_supervision_def find_task_run_def assms)
  have a: "authorizeActiveProjectWork db' u = authorizeActiveProjectWork db u" for u
    unfolding authorizeActiveProjectWork_def baseProjectAuthorityCheck_def runAuthorityCheck_def f ..
  have "cardIsSupervisedProjectChild db' c = cardIsSupervisedProjectChild db c"
    unfolding cardIsSupervisedProjectChild_def f ancestors_cong [OF assms(1)] ..
  then show ?thesis unfolding lineage_rejection_def store_authorizes_def a by simp
qed

text \<open>
  C34: The answer \<open>stale_source\<close> does not mean that nothing happened. When everything else is in order and
  the card is not there to be requeued, the successor, its contract, reservation and directive are committed
  under this answer, and the next request for the source is answered \<open>idempotent\<close>.
\<close>

theorem stale_source_allocates:
  assumes keys: "card_keys (rt_db r)" and checks: "accept_checks q r = Inr (source, s)"
    and writes: "accept_writes now q source s r = Some r1"
    and card: "\<forall>k. find_card (rt_db r) (rq_card_id q) = Some k \<longrightarrow> k_status k \<noteq> Failed \<and> k_status k \<noteq> Done"
  shows "acceptDirectiveAndAllocateTarget redact now q r = (Ac_stale_source, r1) \<and>
    db_attempts (rt_db r1) = db_attempts (rt_db r) @ [successor_row (rq_insert q) source] \<and>
    acceptDirectiveAndAllocateTarget redact' now' q r1 = (Ac_idempotent (rq_target q), r1)"
proof -
  note f = written_frame [OF writes]
  have keys1: "card_keys (rt_db r1)" using keys by (simp add: f)
  have card1: "\<forall>k. find_card (rt_db r1) (rq_card_id q) = Some k \<longrightarrow> k_status k \<noteq> Failed \<and> k_status k \<noteq> Done"
    using card by (simp add: f)
  have t: "kanbanTransition redact now (requeue (rq_card_id q)) (rt_db r1) = (fst (kanbanTransition redact now (requeue (rq_card_id q)) (rt_db r1)), rt_db r1)"
    using requeue_misses [OF keys1 card1] by (metis prod.collapse)
  have o: "\<exists>x. fst (kanbanTransition redact now (requeue (rq_card_id q)) (rt_db r1)) = Inr (No_op x)"
    using card1 by (auto simp: requeue_result(1) [OF keys1] split: option.split)
  have one: "acceptDirectiveAndAllocateTarget redact now q r = (Ac_stale_source, r1)"
    using o t by (auto simp: acceptDirectiveAndAllocateTarget_def checks writes Let_def case_prod_unfold)
  have source: "find_attempt (rt_db r1) (rq_source q) = Some source"
    using checks find_attempt_append [of "rt_db r" "rq_source q" source]
    by (simp add: f successor_db_def checks_Inr find_attempt_def)
  have "lineage_rejection (rt_db r1) source c au = lineage_rejection (rt_db r) source c au" for c au
    by (rule lineage_rejection_cong) (simp_all add: f successor_db_def)
  moreover have "find_directive r (rq_source q) = None" using checks by (auto simp: checks_Inr existing_successor_def split: option.splits)
  then have "find_directive r1 (rq_source q) = Some \<lparr> dv_directive = rq_directive q, dv_target = Some (rq_target q) \<rparr>"
    using checks by (auto simp: find_directive_def f sql_first_append checks_Inr for_other_source_def)
  ultimately have "accept_checks q r1 = Inl (Ac_idempotent (rq_target q))"
    using checks [unfolded checks_Inr] source by (simp add: accept_checks_def existing_successor_def)
  then have "acceptDirectiveAndAllocateTarget redact' now' q r1 = (Ac_idempotent (rq_target q), r1)"
    by (simp add: acceptDirectiveAndAllocateTarget_def)
  with one show ?thesis by (simp add: f successor_db_def)
qed

section \<open>Samples\<close>

text \<open>Card 7 in some status, its failed attempt with a scheduled decision, and a request to retry it.\<close>

definition sample_budget :: retry_budget where
  "sample_budget = computeBudget 1 1 1 0 0 0 0 None"

definition sample_decision :: policy_decision where
  "sample_decision = \<lparr> pd_source_attempt_id = ''a1'', pd_disposition = Automatic_retry, pd_reason_code = ''r'',
     pd_earliest_at = None, pd_remaining = sample_budget, pd_changes = [], pd_candidates = [], pd_input_digest = ''a1'',
     pd_policy_version = ''v'', pd_created_at = 0 \<rparr>"

definition sample_retry :: "card_status \<Rightarrow> decision_status \<Rightarrow> retry_db" where
  "sample_retry st ds = \<lparr> rt_db = empty_db\<lparr> db_cards := [(default_card 7 ''w'' ''agent'' 0)\<lparr> k_status := st \<rparr>],
       db_attempts := [sample_attempt ''a1'' 1 L_failed] \<rparr>,
     rt_classifications = [], rt_decisions = [\<lparr> dr_source = ''a1'', dr_decision = sample_decision, dr_status = ds,
       dr_digest = [], dr_deadline = None, dr_updated_at = 0 \<rparr>], rt_directives = [] \<rparr>"

definition sample_revision :: json where
  "sample_revision = JObj [(''id'', JStr ''n''), (''digest'', JStr ''e''),
     (''revision_meta'', revision_meta False passing_contract (sample_directive []) 2)]"

definition sample_request :: retry_request where
  "sample_request = \<lparr> rq_source = ''a1'', rq_card_id = 7, rq_decision = sample_decision, rq_directive = sample_directive [],
     rq_contract = sample_revision, rq_target = ''a2'', rq_tokens = 5000, rq_cost = 0, rq_switches = 0,
     rq_insert = \<lparr> ra_id = ''a2'', ra_card_id = 7, ra_contract_id = ''n'', ra_ordinal = 2, ra_executor_kind = Agent,
       ra_executor_id = ''spin-local'', ra_status = ''pending'', ra_started_at = 9, ra_source_attempt_id = ''a1'',
       ra_earliest_claim_at = 9 \<rparr>, rq_authority = None \<rparr>"

lemma sample_keys: "card_keys (rt_db (sample_retry st ds))"
  by (simp add: sample_retry_def card_keys_def)

lemma sample_find:
  "find_card (rt_db (sample_retry st ds)) 7 = Some ((default_card 7 ''w'' ''agent'' 0)\<lparr> k_status := st \<rparr>)"
  "find_attempt (rt_db (sample_retry st ds)) ''a1'' = Some (sample_attempt ''a1'' 1 L_failed)"
  by (simp_all add: sample_retry_def find_card_def find_attempt_def default_card_def sample_attempt_def)

lemma sample_source: "meta_member sample_revision ''source_attempt_id'' = Some (JStr ''a1'')"
  by (simp add: meta_member_def sample_revision_def member_at_def revision_meta_def nullish_def map_of_opt_mem map_add_def
      sample_directive_def)

lemma sample_checks:
  assumes "ds = Ds_review_required \<or> ds = Ds_scheduled"
  shows "accept_checks sample_request (sample_retry st ds) = Inr (sample_attempt ''a1'' 1 L_failed, ds)"
proof -
  have r [simp]: "rq_source sample_request = ''a1''" "rq_card_id sample_request = 7" "rq_authority sample_request = None"
    by (simp_all add: sample_request_def)
  let ?a = "sample_attempt ''a1'' 1 L_failed"
  have "lineage_rejection (rt_db (sample_retry st ds)) ?a 7 None = None"
    by (simp add: lineage_rejection_def sample_attempt_def sample_retry_def empty_db_def)
  moreover have "existing_successor sample_request (sample_retry st ds) = None"
    by (simp add: existing_successor_def find_directive_def sample_retry_def empty_db_def sample_attempt_def getReservation_def)
  moreover have "\<not> for_other_source sample_request"
    using sample_source by (simp add: for_other_source_def sample_request_def sample_decision_def sample_directive_def)
  moreover have "\<exists>d. find_decision (sample_retry st ds) ''a1'' = Some d \<and> dr_status d = ds"
    by (simp add: find_decision_def sample_retry_def)
  moreover have "length (terminal_attempts (rt_db (sample_retry st ds)) 7) + reserved_attempts (rt_db (sample_retry st ds)) 7 \<le> 5"
    by (simp add: terminal_attempts_def lineage_def reserved_attempts_def sample_retry_def empty_db_def)
  moreover have "\<not> mismatched sample_request ?a"
    by (simp add: mismatched_def sample_request_def sample_attempt_def sample_revision_def text_at_def)
  ultimately show ?thesis using assms unfolding checks_Inr
    by (simp add: sample_find) (simp add: sample_attempt_def terminal_lifecycle_def)
qed

lemma sample_writes: "\<exists>r1. accept_writes 9 sample_request (sample_attempt ''a1'' 1 L_failed) ds (sample_retry st ds) = Some r1"
  by (simp add: accept_writes_def insertContract_def add_successor_def add_directive_def insertReservation_def sample_retry_def
      empty_db_def sample_attempt_def successor_row_def sample_request_def)

lemma accept_created:
  assumes "card_keys (rt_db r)" "accept_checks q r = Inr (source, s)" "accept_writes now q source s r \<noteq> None"
    and "find_card (rt_db r) (rq_card_id q) = Some k" "k_status k = Failed"
  shows "\<exists>r'. acceptDirectiveAndAllocateTarget redact now q r = (Ac_created, r')"
proof -
  from assms(3) obtain r1 where w: "accept_writes now q source s r = Some r1" by blast
  note f = written_frame [OF w]
  have "card_keys (rt_db r1)" by (simp add: f assms)
  then have k: "fst (kanbanTransition redact now (requeue (rq_card_id q)) (rt_db r1)) = Inr (Applied Failed)"
    by (simp add: requeue_result(1)) (simp add: f assms)
  show ?thesis
    using w k by (auto simp: acceptDirectiveAndAllocateTarget_def assms(2) Let_def case_prod_unfold)
qed

lemma sample_created: "\<exists>r'. acceptDirectiveAndAllocateTarget redact 9 sample_request (sample_retry Failed Ds_scheduled) = (Ac_created, r')"
proof (rule accept_created [OF sample_keys sample_checks])
  show "accept_writes 9 sample_request (sample_attempt ''a1'' 1 L_failed) Ds_scheduled (sample_retry Failed Ds_scheduled) \<noteq> None"
    using sample_writes [of Ds_scheduled Failed] by auto
  show "find_card (rt_db (sample_retry Failed Ds_scheduled)) (rq_card_id sample_request) =
      Some ((default_card 7 ''w'' ''agent'' 0)\<lparr> k_status := Failed \<rparr>)"
    by (simp add: sample_find(1) [unfolded] sample_request_def)
qed simp_all

theorem created_successor_witness:
  "\<exists>r'. acceptDirectiveAndAllocateTarget (\<lambda>s. s) 9 sample_request (sample_retry Failed Ds_scheduled) = (Ac_created, r') \<and>
    length (db_attempts (rt_db r')) = 2"
proof -
  obtain r' where r': "acceptDirectiveAndAllocateTarget (\<lambda>s. s) 9 sample_request (sample_retry Failed Ds_scheduled) = (Ac_created, r')"
    using sample_created by blast
  from created_successor [OF sample_keys r'] have "length (db_attempts (rt_db r')) = 2"
    by (auto simp: sample_retry_def)
  with r' show ?thesis by blast
qed

theorem stale_source_allocates_witness:
  "\<exists>r1. acceptDirectiveAndAllocateTarget (\<lambda>s. s) 9 sample_request (sample_retry Queued Ds_scheduled) = (Ac_stale_source, r1) \<and>
    length (db_attempts (rt_db r1)) = 2"
proof -
  let ?r = "sample_retry Queued Ds_scheduled"
  obtain r1 where w: "accept_writes 9 sample_request (sample_attempt ''a1'' 1 L_failed) Ds_scheduled ?r = Some r1" using sample_writes by blast
  have "rq_card_id sample_request = 7" by (simp add: sample_request_def)
  then have c: "\<forall>k. find_card (rt_db ?r) (rq_card_id sample_request) = Some k \<longrightarrow> k_status k \<noteq> Failed \<and> k_status k \<noteq> Done"
    by (simp add: sample_find)
  from stale_source_allocates [OF sample_keys sample_checks w c, of "\<lambda>s. s" "\<lambda>s. s" 9] show ?thesis
    by (auto simp: sample_retry_def)
qed

theorem closed_decision_final_witness:
  "snd (acceptDirectiveAndAllocateTarget (\<lambda>s. s) 9 sample_request (sample_retry Failed Ds_stopped)) = sample_retry Failed Ds_stopped"
proof -
  have "find_decision (sample_retry Failed Ds_stopped) ''a1'' = Some \<lparr> dr_source = ''a1'', dr_decision = sample_decision, dr_status = Ds_stopped,
       dr_digest = [], dr_deadline = None, dr_updated_at = 0 \<rparr>"
    by (simp add: find_decision_def sample_retry_def)
  from closed_decision_final [OF this _ rtranclp.rtrancl_refl, of sample_request "\<lambda>s. s" 9] show ?thesis
    by (simp add: closed_decision_def sample_request_def)
qed

theorem one_successor_witness:
  "\<exists>answer r1. acceptDirectiveAndAllocateTarget (\<lambda>s. s) 9 sample_request (sample_retry Failed Ds_scheduled) = (answer, r1) \<and>
    length (db_attempts (rt_db r1)) = 2 \<and> snd (acceptDirectiveAndAllocateTarget (\<lambda>s. s) 10 sample_request r1) = r1"
proof -
  let ?r = "sample_retry Failed Ds_scheduled"
  obtain r1 where r1: "acceptDirectiveAndAllocateTarget (\<lambda>s. s) 9 sample_request ?r = (Ac_created, r1)" using sample_created by blast
  have h: "hook_ok (\<lambda>_ _. None)" by (simp add: hook_ok_def)
  have n: "db_attempts (rt_db r1) \<noteq> db_attempts (rt_db ?r)" using created_facts [OF sample_keys r1] by auto
  from one_successor [OF h r1 n rtranclp.rtrancl_refl refl, of "\<lambda>s. s" 10] r1 show ?thesis by (auto simp: sample_retry_def)
qed

end
