(* ===== verification/RetryService.thy ===== *)
theory RetryService
  imports RetryStore
begin

text \<open>
  The service of retries (\<open>retry/retry-service.ts\<close>): it reduces an ended attempt to a classification and a
  decision, and turns a scheduled decision or a reviewer's answer into a successor. With it the local
  catalogue of executors (\<open>retry/local-executor-catalog.ts\<close>) and the executor a contract implies
  (\<open>worker-executor-routing.ts\<close>). \<open>sha\<close>, \<open>sha_json\<close> and \<open>redact\<close> as before.
\<close>

section \<open>Executors\<close>

definition AGENT_EXECUTOR_ID :: string where
  "AGENT_EXECUTOR_ID = ''spin-local''"

definition PI_EXECUTOR_ID :: string where
  "PI_EXECUTOR_ID = ''pi-coding''"

text \<open>\<open>v !== undefined && v.length > 0\<close>; \<open>None\<close> is the exception on \<open>null\<close>. Aliases are texts.\<close>

definition nonempty_alias :: "json option \<Rightarrow> bool option" where
  "nonempty_alias v = (case v of
     None \<Rightarrow> Some False
   | Some JNull \<Rightarrow> None
   | Some (JStr s) \<Rightarrow> Some (s \<noteq> [])
   | Some (JArr xs) \<Rightarrow> Some (xs \<noteq> [])
   | Some _ \<Rightarrow> Some False)"

definition resolveWorkerExecutorIntent :: "json \<Rightarrow> (executor_kind \<times> string) option" where
  "resolveWorkerExecutorIntent ct = map_option (\<lambda>b. if b then (Pi, PI_EXECUTOR_ID) else (Agent, AGENT_EXECUTOR_ID))
     (nonempty_alias (jget ct ''workspace_alias''))"

text \<open>A provider, with what its functions answer at the moment of the call.\<close>

record provider =
  pv_kind :: executor_kind
  pv_id :: string
  pv_capabilities :: "string list"
  pv_healthy :: bool
  pv_load :: int
  pv_capacity :: int
  pv_workspace :: "string \<Rightarrow> bool"
  pv_sandbox :: bool

text \<open>The capacity snapshot of an adapter, (max, available), when it has one.\<close>

definition providerForAdapter :: "executor_kind \<Rightarrow> string \<Rightarrow> (int \<times> int) option \<Rightarrow> provider" where
  "providerForAdapter k i snap = \<lparr> pv_kind = k, pv_id = i, pv_capabilities = [''*''],
     pv_healthy = (case snap of None \<Rightarrow> True | Some (m, _) \<Rightarrow> m > 0),
     pv_load = (case snap of None \<Rightarrow> 0 | Some (m, available) \<Rightarrow> m - available),
     pv_capacity = (case snap of None \<Rightarrow> 1 | Some (_, available) \<Rightarrow> available),
     pv_workspace = (\<lambda>_. True), pv_sandbox = True \<rparr>"

text \<open>The constructor of \<open>LocalExecutorCatalog\<close>.\<close>

definition catalog_providers :: "provider option \<Rightarrow> provider option \<Rightarrow> bool \<Rightarrow> string option \<Rightarrow> provider list" where
  "catalog_providers spin pi piEnabled workspace =
     (case spin of None \<Rightarrow> [] | Some p \<Rightarrow> [p]) @
     (case pi of None \<Rightarrow> []
      | Some p \<Rightarrow> (if piEnabled \<and> truthy workspace \<and> pv_workspace p (orelse workspace []) then [p] else []))"

definition candidate_of :: "provider \<Rightarrow> executor_candidate" where
  "candidate_of p = \<lparr> ec_id = pv_id p, ec_kind = pv_kind p, ec_capabilities = pv_capabilities p, ec_healthy = pv_healthy p,
     ec_last_seen_at = None, ec_locality = None, ec_load = Some (pv_load p) \<rparr>"

definition getCandidates ::
    "provider list \<Rightarrow> selection_constraints \<Rightarrow> executor_candidate list \<times> (string \<times> string \<times> string) list" where
  "getCandidates ps k =
     (let full = filter (\<lambda>p. pv_capacity p \<le> 0) ps; cs = map candidate_of (filter (\<lambda>p. \<not> pv_capacity p \<le> 0) ps);
          (eligible, rejected) = filterCandidates cs k
      in (eligible, map (\<lambda>p. (pv_id p, executor_kind_name (pv_kind p), ''no capacity'')) full @
           map (\<lambda>(i, why). (i, (case List.find (\<lambda>c. ec_id c = i) cs of
               None \<Rightarrow> ''unknown'' | Some c \<Rightarrow> executor_kind_name (ec_kind c)), why)) rejected))"

definition select_executor ::
    "(string \<Rightarrow> nat list) \<Rightarrow> provider list \<Rightarrow> selection_constraints \<Rightarrow> string list \<Rightarrow> executor_candidate option \<times> selection_rationale" where
  "select_executor ckey ps k failed = selectExecutor ckey (fst (getCandidates ps k)) k failed"

definition getProvider :: "provider list \<Rightarrow> string \<Rightarrow> provider option" where
  "getProvider ps i = List.find (\<lambda>p. pv_id p = i) ps"

definition needing :: "string list \<Rightarrow> selection_constraints" where
  "needing caps = \<lparr> sc_required_capabilities = caps, sc_required_locality = None, sc_excluded_ids = None,
     sc_preferred_id = None, sc_enforce_no_relay = None, sc_source_peer_id = None \<rparr>"

section \<open>Reads\<close>

text \<open>
  What the classifier reads of a stored envelope. A status, kind or outcome that is none of the enum's is
  read as one the classifier treats alike.
\<close>

definition read_error :: "json \<Rightarrow> worker_error" where
  "read_error e = \<lparr> er_code = text_at e ''code'', er_message = text_at e ''message'',
     er_retryable = (case jget e ''retryable'' of Some (JBool b) \<Rightarrow> Some b | _ \<Rightarrow> None) \<rparr>"

definition read_outcome :: "string \<Rightarrow> worker_outcome" where
  "read_outcome s = (if s = ''completed'' then Out_completed else if s = ''cancelled'' then Out_cancelled
     else if s = ''timed_out'' then Out_timed_out else Out_failed)"

definition read_status :: "string \<Rightarrow> criterion_status" where
  "read_status s = (if s = ''passed'' then Cr_passed else if s = ''failed'' then Cr_failed
     else if s = ''not_run'' then Cr_not_run else Cr_inconclusive)"

definition read_kind :: "string \<Rightarrow> artifact_kind" where
  "read_kind s = (if s = ''logical'' then Af_logical else if s = ''directory'' then Af_directory
     else if s = ''report'' then Af_report else Af_file)"

definition read_envelope :: "json \<Rightarrow> envelope" where
  "read_envelope v = \<lparr> we_attempt_id = text_at (member_at v ''attempt'') ''id'', we_outcome = read_outcome (text_at v ''outcome''),
     we_criteria = map (\<lambda>c. read_status (text_at c ''status'')) (items_at v ''criteria''),
     we_checks = map (\<lambda>c. (case jget c ''exit_code'' of Some (JNum (NInt i)) \<Rightarrow> Some i | _ \<Rightarrow> None, truthy_json (jget c ''timed_out'')))
       (items_at v ''checks''),
     we_artifacts = map (\<lambda>a. (truthy_json (jget a ''exists''), read_kind (text_at a ''kind''))) (items_at v ''artifacts''),
     we_error = (if truthy_json (jget v ''error'') then Some (read_error (member_at v ''error'')) else None) \<rparr>"

text \<open>\<open>None\<close> is the exception of \<open>JSON.parse\<close> on an unreadable contract.\<close>

definition getContractForCard :: "swarm_db \<Rightarrow> int \<Rightarrow> json option option" where
  "getContractForCard db c = (case getLatestContractForCard db c of
     None \<Rightarrow> Some None
   | Some row \<Rightarrow> map_option Some (ct_json row))"

definition getPreviousExecutors :: "swarm_db \<Rightarrow> int \<Rightarrow> string list" where
  "getPreviousExecutors db c = map at_executor_id (lineage db c)"

definition capability_texts :: "json list \<Rightarrow> string list" where
  "capability_texts xs = List.map_filter (\<lambda>v. case v of JStr s \<Rightarrow> Some s | _ \<Rightarrow> None) xs"

section \<open>Reducing an ended attempt\<close>

fun mapDispositionToStatus :: "retry_disposition \<Rightarrow> decision_status" where
  "mapDispositionToStatus Automatic_retry = Ds_scheduled"
| "mapDispositionToStatus Orc_review = Ds_review_required"
| "mapDispositionToStatus Retry_needs_input = Ds_needs_input"
| "mapDispositionToStatus Stop_retry = Ds_stopped"

datatype reduce_error = Re_not_found | Re_not_terminal | Re_no_contract | Re_conflict | Re_throws

definition classify_input_of :: "swarm_db \<Rightarrow> attempt \<Rightarrow> classify_input" where
  "classify_input_of db a = \<lparr> ci_attempt_id = at_id a,
     ci_envelope = map_option (\<lambda>r. read_envelope (re_envelope r)) (find_result db (at_id a)),
     ci_lease = getSnapshot db (at_id a), ci_lifecycle = lifecycle_name (at_lifecycle a),
     ci_lifecycle_reason = at_cancel_reason a, ci_cancel_reason = at_cancel_reason a, ci_pending_input = Some False \<rparr>"

definition budget_of :: "retry_db \<Rightarrow> int \<Rightarrow> attempt \<Rightarrow> failure_class \<Rightarrow> retry_budget" where
  "budget_of r c a cls = (let b = getFullLineageBudget r c (Some cls) in
     computeBudget (lb_total_attempts b) (lb_same_class b) (lb_same_executor b) (lb_switches b) (lb_elapsed_ms b)
       (lb_tokens b) (lb_cost b) (at_hard_deadline_at a))"

text \<open>From the budget on: the policy is asked and its decision stored. A refused insert is not looked at.\<close>

definition decide_retry :: "int \<Rightarrow> provider list \<Rightarrow> attempt \<Rightarrow> int \<Rightarrow> json list \<Rightarrow> classification \<Rightarrow> retry_db \<Rightarrow>
    policy_decision \<times> retry_db" where
  "decide_retry now ps a c caps cl r =
     (let d = evaluatePolicy now \<lparr> pi_source_attempt_id = at_id a, pi_primary = fc_primary cl, pi_retryability = fc_retryability cl,
            pi_factors = fc_factors cl, pi_budgets = budget_of r c a (fc_primary cl),
            pi_candidates = map ec_id (fst (getCandidates ps (needing (capability_texts caps)))),
            pi_previous_executors = getPreviousExecutors (rt_db r) c \<rparr>
      in (d, snd (insertDecision now d (mapDispositionToStatus (pd_disposition d)) None r)))"

definition reduceTerminalAttempt ::
    "(json \<Rightarrow> string) \<Rightarrow> (string \<Rightarrow> string) \<Rightarrow> int \<Rightarrow> provider list \<Rightarrow> string \<Rightarrow> int \<Rightarrow> retry_db \<Rightarrow>
       (reduce_error + classification \<times> policy_decision) \<times> retry_db" where
  "reduceTerminalAttempt sha_json sha now ps a c r = (case find_attempt (rt_db r) a of
     None \<Rightarrow> (Inl Re_not_found, r)
   | Some att \<Rightarrow>
       (if \<not> isAttemptTerminal (at_lifecycle att) then (Inl Re_not_terminal, r)
        else case getContractForCard (rt_db r) c of
          None \<Rightarrow> (Inl Re_throws, r)
        | Some ct \<Rightarrow>
            (if \<not> truthy_json ct then (Inl Re_no_contract, r)
             else let cl = classify sha_json sha now (classify_input_of (rt_db r) att);
                      (inserted, r1) = insertClassification cl r
               in case (inserted, getClassification r1 a, getDecision r1 a) of
                    (Ins_conflict, _, _) \<Rightarrow> (Inl Re_conflict, r1)
                  | (Ins_idempotent, Some e, Some d) \<Rightarrow> (Inr (e, dr_decision d), r1)
                  | _ \<Rightarrow>
                      (case spread (nullish (jget (the ct) ''required_capabilities'') (Some (JArr []))) of
                         None \<Rightarrow> (Inl Re_throws, r1)
                       | Some caps \<Rightarrow> (let (d, r2) = decide_retry now ps att c caps cl r1 in (Inr (cl, d), r2))))))"

section \<open>Retrying\<close>

definition GLOBAL_MAX_TOKENS :: int where
  "GLOBAL_MAX_TOKENS = 1000000"

text \<open>The clock and the generated ids of one call.\<close>

record retry_call =
  rc_now :: int
  rc_instant :: string
  rc_directive_id :: string
  rc_contract_id :: string
  rc_attempt_id :: string

datatype retry_message =
  Ms_no_classification | Ms_no_decision | Ms_not_scheduled | Ms_closed | Ms_no_contract | Ms_no_attempt
| Ms_directive_invalid "directive_issue list" | Ms_revision_invalid "revision_issue list"
| Ms_stop | Ms_needs_input | Ms_answer_unexpected

datatype accept_result =
  Rr_created string | Rr_idempotent string | Rr_conflict | Rr_stale_source | Rr_budget_exhausted
| Rr_ineligible_executor | Rr_error retry_message | Rr_throws

definition result_of :: "string \<Rightarrow> accept_outcome \<Rightarrow> accept_result" where
  "result_of target out = (case out of
     Ac_created \<Rightarrow> Rr_created target
   | Ac_idempotent _ \<Rightarrow> Rr_idempotent target
   | Ac_conflict \<Rightarrow> Rr_conflict
   | Ac_stale_source \<Rightarrow> Rr_stale_source
   | Ac_budget_exhausted \<Rightarrow> Rr_budget_exhausted)"

definition rationale_of :: "executor_kind \<times> string \<Rightarrow> nat \<Rightarrow> selection_rationale" where
  "rationale_of it eligible = \<lparr> sr_selected_id = snd it, sr_selected_kind = fst it, sr_eligible_count = eligible, sr_rejected = [],
     sr_score = (if fst it = Agent then 1 else 0), sr_strategy = By_preferred \<rparr>"

text \<open>
  What both callers do once they have their options: directive, revision, their validation, the request.
  The two differ in the options, the reserved tokens and the authority, and the review validates the
  directive before it derives the revision.
\<close>

definition request_of ::
    "retry_call \<Rightarrow> retry_db \<Rightarrow> int \<Rightarrow> attempt \<Rightarrow> policy_decision \<Rightarrow> directive \<Rightarrow> json \<Rightarrow> executor_kind \<times> string \<Rightarrow> int \<Rightarrow>
       authority option \<Rightarrow> retry_request" where
  "request_of k r c a p d revised it tokens au =
     (let earliest = orelse (pd_earliest_at p) (rc_now k) in
      \<lparr> rq_source = at_id a, rq_card_id = c, rq_decision = p, rq_directive = d, rq_contract = revised,
        rq_target = rc_attempt_id k, rq_tokens = tokens, rq_cost = 0, rq_switches = (if at_executor_id a \<noteq> snd it then 1 else 0),
        rq_insert = \<lparr> ra_id = rc_attempt_id k, ra_card_id = c, ra_contract_id = text_at revised ''id'',
          ra_ordinal = rd_target_ordinal d, ra_executor_kind = fst it, ra_executor_id = snd it, ra_status = ''pending'',
          ra_started_at = rc_now k, ra_source_attempt_id = at_id a, ra_earliest_claim_at = earliest \<rparr>,
        rq_authority = au \<rparr>)"

definition allocate_successor ::
    "(string \<Rightarrow> string) \<Rightarrow> (string \<Rightarrow> string) \<Rightarrow> retry_call \<Rightarrow> provider list \<Rightarrow> int \<Rightarrow> attempt \<Rightarrow> json \<Rightarrow> classification \<Rightarrow>
       policy_decision \<Rightarrow> directive_opts \<Rightarrow> (int \<Rightarrow> int) \<Rightarrow> authority option \<Rightarrow> retry_db \<Rightarrow> accept_result \<times> retry_db" where
  "allocate_successor redact sha k ps c a ct cl p opts tokens au r =
     (case (resolveWorkerExecutorIntent ct, spread (jget ct ''required_capabilities'')) of
        (Some it, Some caps) \<Rightarrow>
          (let eligible = fst (getCandidates ps (needing (capability_texts caps))) in
           if fst it = Agent \<and> eligible = [] then (Rr_ineligible_executor, r)
           else let d = buildDirective sha (rc_directive_id k) (rc_instant k) ct (at_id a) (nextOrdinal (rt_db r) c) cl p
                      (rationale_of it (length eligible)) opts;
                    invalid = validateDirective (directive_json d);
                    revision = deriveContractRevision sha (rc_contract_id k) ct d (getNextRevision (rt_db r) c)
             in if invalid \<noteq> [] \<and> (au \<noteq> None \<or> revision \<noteq> None) then (Rr_error (Ms_directive_invalid invalid), r)
                else case revision of
                  None \<Rightarrow> (Rr_throws, r)
                | Some revised \<Rightarrow>
                    (if validateContractRevision ct revised \<noteq> [] then (Rr_error (Ms_revision_invalid (validateContractRevision ct revised)), r)
                     else let (out, r1) = acceptDirectiveAndAllocateTarget redact (rc_now k)
                            (request_of k r c a p d revised it (tokens (lb_tokens (getFullLineageBudget r c None))) au) r
                       in (result_of (rc_attempt_id k) out, r1)))
      | _ \<Rightarrow> (Rr_throws, r))"

definition transient :: "failure_class \<Rightarrow> bool" where
  "transient f \<longleftrightarrow> f = F_transient_transport \<or> f = F_executor_unavailable"

definition automatic_opts :: "string \<Rightarrow> classification \<Rightarrow> policy_decision \<Rightarrow> directive_opts" where
  "automatic_opts a cl p =
     (let t = transient (fc_primary cl); name = class_name (fc_primary cl) in
      \<lparr> op_mode = (if t then Clean_rerun else Strategy_change),
        op_instruction = (if t then ''Clean rerun of original goal. Previous attempt '' @ a @ '' failed with transient '' @ name @ ''.''
          else ''Retry with changed approach. Previous attempt '' @ a @ '' failed with '' @ name @ ''. '' @ pd_reason_code p),
        op_do_not_repeat = Some (if t then [] else [''repeat same approach'']), op_added_inputs = None, op_added_checks = None,
        op_author = By_policy, op_evidence_ids = None, op_failed_criteria = Some [], op_risks = Some [],
        op_summary = Some (join_with ''; '' (fc_recommended_actions cl)) \<rparr>)"

definition automatic_tokens :: "int \<Rightarrow> int" where
  "automatic_tokens used = min (GLOBAL_MAX_TOKENS - used) (if used > 0 then used else 5000)"

definition acceptAutomaticRetry ::
    "(string \<Rightarrow> string) \<Rightarrow> (string \<Rightarrow> string) \<Rightarrow> retry_call \<Rightarrow> provider list \<Rightarrow> string \<Rightarrow> int \<Rightarrow> retry_db \<Rightarrow> accept_result \<times> retry_db" where
  "acceptAutomaticRetry redact sha k ps a c r = (case getClassification r a of
     None \<Rightarrow> (Rr_error Ms_no_classification, r)
   | Some cl \<Rightarrow> (case getDecision r a of
       None \<Rightarrow> (Rr_error Ms_no_decision, r)
     | Some d \<Rightarrow>
         (if dr_status d \<noteq> Ds_scheduled then (Rr_error Ms_not_scheduled, r)
          else case getContractForCard (rt_db r) c of
            None \<Rightarrow> (Rr_throws, r)
          | Some ct \<Rightarrow>
              (if \<not> truthy_json ct then (Rr_error Ms_no_contract, r)
               else case find_attempt (rt_db r) a of
                 None \<Rightarrow> (Rr_error Ms_no_attempt, r)
               | Some att \<Rightarrow> allocate_successor redact sha k ps c att (the ct) cl (dr_decision d)
                   (automatic_opts a cl (dr_decision d)) automatic_tokens None r))))"

section \<open>Reviewed failures\<close>

datatype review_action = Rv_retry | Rv_stop | Rv_needs_input

record review_response =
  rp_action :: review_action
  rp_strategy :: "string option"
  rp_do_not_repeat :: "string list option"
  rp_added_inputs :: "(string \<times> string) list option"
  rp_added_checks :: "string list option"
  rp_answer :: "string option"

definition line_feed :: string where
  "line_feed = [CHR 0x0A]"

definition review_opts :: "classification \<Rightarrow> review_response \<Rightarrow> directive_opts" where
  "review_opts cl p =
     (let strategy = orelse (rp_strategy p) (''Repair: '' @ class_name (fc_primary cl)) in
      \<lparr> op_mode = (if sublist ''executor'' (orelse (rp_strategy p) []) then Executor_escalation else Repair),
        op_instruction = (if truthy (rp_answer p) then ''Answer from Orc: '' @ orelse (rp_answer p) [] @ line_feed @ strategy else strategy),
        op_do_not_repeat = rp_do_not_repeat p, op_added_inputs = rp_added_inputs p, op_added_checks = rp_added_checks p,
        op_author = By_orc, op_evidence_ids = None, op_failed_criteria = None, op_risks = None, op_summary = None \<rparr>)"

definition review_tokens :: "int \<Rightarrow> int" where
  "review_tokens used = min (GLOBAL_MAX_TOKENS - used) 5000"

definition close_review ::
    "retry_call \<Rightarrow> string \<Rightarrow> int \<Rightarrow> decision_row \<Rightarrow> decision_status \<Rightarrow> retry_message \<Rightarrow> authority \<Rightarrow> retry_db \<Rightarrow> accept_result \<times> retry_db" where
  "close_review k a c d s msg au r =
     (let (ok, r1) = compareAndSetProjectDecisionStatus (rc_now k) a c (dr_status d) s (Some au) r
      in (if ok then Rr_error msg else Rr_stale_source, r1))"

definition unexpected_answer :: "review_response \<Rightarrow> classification option \<Rightarrow> bool" where
  "unexpected_answer p cl \<longleftrightarrow> truthy (rp_answer p) \<and> map_option fc_primary cl \<noteq> Some F_input_requested"

definition reviewFailure ::
    "(string \<Rightarrow> string) \<Rightarrow> (string \<Rightarrow> string) \<Rightarrow> retry_call \<Rightarrow> provider list \<Rightarrow> string \<Rightarrow> int \<Rightarrow> review_response \<Rightarrow> authority \<Rightarrow>
       retry_db \<Rightarrow> accept_result \<times> retry_db" where
  "reviewFailure redact sha k ps a c p au r = (case getDecision r a of
     None \<Rightarrow> (Rr_error Ms_no_decision, r)
   | Some d \<Rightarrow>
       (if closed_decision (dr_status d) then (Rr_error Ms_closed, r)
        else case rp_action p of
          Rv_stop \<Rightarrow> close_review k a c d Ds_stopped Ms_stop au r
        | Rv_needs_input \<Rightarrow> close_review k a c d Ds_needs_input Ms_needs_input au r
        | Rv_retry \<Rightarrow>
            (if unexpected_answer p (getClassification r a) then (Rr_error Ms_answer_unexpected, r)
             else case getClassification r a of
               None \<Rightarrow> (Rr_error Ms_no_classification, r)
             | Some cl \<Rightarrow> (case getContractForCard (rt_db r) c of
                 None \<Rightarrow> (Rr_throws, r)
               | Some ct \<Rightarrow>
                   (if \<not> truthy_json ct then (Rr_error Ms_no_contract, r)
                    else case find_attempt (rt_db r) a of
                      None \<Rightarrow> (Rr_error Ms_no_attempt, r)
                    | Some att \<Rightarrow> allocate_successor redact sha k ps c att (the ct) cl (dr_decision d)
                        (review_opts cl p) review_tokens (Some au) r)))))"

section \<open>Queries\<close>

record review_packet =
  rk_classification :: classification
  rk_decision :: policy_decision
  rk_directive :: "directive option"
  rk_contract :: json
  rk_attempt :: attempt
  rk_envelope :: "json option"
  rk_candidates :: string

text \<open>\<open>Inl True\<close> is \<open>incomplete data\<close>, \<open>Inl False\<close> an exception.\<close>

definition getReviewPacket :: "provider list \<Rightarrow> string \<Rightarrow> int \<Rightarrow> retry_db \<Rightarrow> bool + review_packet" where
  "getReviewPacket ps a c r = (case getContractForCard (rt_db r) c of
     None \<Rightarrow> Inl False
   | Some ct \<Rightarrow>
       (case (getClassification r a, getDecision r a, find_attempt (rt_db r) a) of
          (Some cl, Some d, Some att) \<Rightarrow>
            (if \<not> truthy_json ct then Inl True
             else case spread (jget (the ct) ''required_capabilities'') of
               None \<Rightarrow> Inl False
             | Some caps \<Rightarrow> Inr \<lparr> rk_classification = cl, rk_decision = dr_decision d, rk_directive = getDirective r a,
                 rk_contract = the ct, rk_attempt = att, rk_envelope = map_option re_envelope (find_result (rt_db r) a),
                 rk_candidates = join_with '', '' (map (\<lambda>e. ec_id e @ ''('' @ executor_kind_name (ec_kind e) @ '')'')
                   (fst (getCandidates ps (needing (capability_texts caps))))) \<rparr>)
        | _ \<Rightarrow> Inl True))"

definition getRetryState :: "retry_db \<Rightarrow> string \<Rightarrow> classification option \<times> decision_row option \<times> directive option" where
  "getRetryState r a = getLineage r a"

definition recoverPendingReviews :: "int \<Rightarrow> retry_db \<Rightarrow> (string \<times> decision_status \<times> int option) list \<times> retry_db" where
  "recoverPendingReviews now r = (let r1 = snd (expireOverdueReviews now r) in (getPendingReviewDecisions r1, r1))"

section \<open>Reducing again\<close>

lemma insertClassification_frame [simp]:
  "rt_db (snd (insertClassification c r)) = rt_db r" "rt_decisions (snd (insertClassification c r)) = rt_decisions r"
  by (auto simp: insertClassification_def split: option.split)

lemma insertDecision_frame [simp]:
  "rt_db (snd (insertDecision now p s g r)) = rt_db r"
  "rt_classifications (snd (insertDecision now p s g r)) = rt_classifications r"
  by (auto simp: insertDecision_def upsert_decision_def update_decisions_def Let_def split: option.split)

lemma insertDecision_there: "find_decision (snd (insertDecision now p s g r)) (pd_source_attempt_id p) \<noteq> None"
proof (cases "find_decision r (pd_source_attempt_id p)")
  case None
  then show ?thesis by (simp add: insertDecision_def upsert_decision_def Let_def) (simp add: find_decision_def sql_first_append)
next
  case (Some e)
  then have "find_decision (upsert_decision d r) (pd_source_attempt_id p) \<noteq> None" if "dr_source d = pd_source_attempt_id p" for d
    using that unfolding upsert_decision_def by (simp add: find_decision_update)
  with Some show ?thesis by (auto simp: insertDecision_def Let_def)
qed

lemma insertDecision_new:
  assumes "find_decision r (pd_source_attempt_id p) = None"
  shows "\<exists>e. find_decision (snd (insertDecision now p s g r)) (pd_source_attempt_id p) = Some e \<and> dr_decision e = p \<and> dr_status e = s"
  using assms by (auto simp: insertDecision_def upsert_decision_def find_decision_def sql_first_append Let_def)

lemma classified_there:
  assumes "fst (insertClassification c r) \<noteq> Ins_conflict"
  shows "\<exists>e. find_classification (snd (insertClassification c r)) (fc_attempt_id c) = Some e \<and> fc_input_digest e = fc_input_digest c"
  using assms by (auto simp: insertClassification_def find_classification_def sql_first_append split: option.splits if_splits)

lemma classified_again:
  assumes "find_classification r (fc_attempt_id c) = Some e" "fc_input_digest e = fc_input_digest c"
  shows "insertClassification c r = (Ins_idempotent, r)"
  using assms by (simp add: insertClassification_def)

lemma evaluatePolicy_source: "pd_source_attempt_id (evaluatePolicy now i) = pi_source_attempt_id i"
  by (auto simp: evaluatePolicy_def buildDecision_def case_prod_unfold Let_def split: option.split)

lemma decide_facts:
  assumes "decide_retry now ps a c caps cl r = (d, r')"
  shows "pd_source_attempt_id d = at_id a" "r' = snd (insertDecision now d (mapDispositionToStatus (pd_disposition d)) None r)"
  using assms by (auto simp: decide_retry_def Let_def evaluatePolicy_source)

text \<open>What a reduction that answers with a decision did.\<close>

lemma reduced_cases:
  assumes "reduceTerminalAttempt sj sha now ps a c r = (Inr (cl, d), r')"
  obtains att ct where "find_attempt (rt_db r) a = Some att" "isAttemptTerminal (at_lifecycle att)"
    "getContractForCard (rt_db r) c = Some ct" "truthy_json ct"
    "fst (insertClassification (classify sj sha now (classify_input_of (rt_db r) att)) r) \<noteq> Ins_conflict"
    "(\<exists>e row. r' = snd (insertClassification (classify sj sha now (classify_input_of (rt_db r) att)) r) \<and>
        find_decision r a = Some row \<and> cl = e \<and> d = dr_decision row) \<or>
     (\<exists>caps. cl = classify sj sha now (classify_input_of (rt_db r) att) \<and>
        decide_retry now ps att c caps cl (snd (insertClassification cl r)) = (d, r'))"
proof -
  from assms obtain att where att: "find_attempt (rt_db r) a = Some att" "isAttemptTerminal (at_lifecycle att)"
    by (auto simp: reduceTerminalAttempt_def split: option.splits if_splits)
  with assms obtain ct where ct: "getContractForCard (rt_db r) c = Some ct" "truthy_json ct"
    by (auto simp: reduceTerminalAttempt_def split: option.splits if_splits)
  let ?cl = "classify sj sha now (classify_input_of (rt_db r) att)"
  obtain ins r1 where i: "insertClassification ?cl r = (ins, r1)" by (cases "insertClassification ?cl r")
  have dec: "find_decision r1 a = find_decision r a" using insertClassification_frame(2) [of ?cl r] i by (simp add: find_decision_def)
  show thesis
  proof (rule that [OF att ct])
    show "fst (insertClassification ?cl r) \<noteq> Ins_conflict"
      using assms by (auto simp: reduceTerminalAttempt_def att ct i Let_def)
    show "(\<exists>e row. r' = snd (insertClassification ?cl r) \<and> find_decision r a = Some row \<and> cl = e \<and> d = dr_decision row) \<or>
     (\<exists>caps. cl = ?cl \<and> decide_retry now ps att c caps cl (snd (insertClassification cl r)) = (d, r'))"
      using assms dec by (auto simp: reduceTerminalAttempt_def att ct i Let_def getClassification_def getDecision_def case_prod_unfold
          split: insert_result.splits option.splits)
  qed
qed

text \<open>
  C38: Reducing an ended attempt is idempotent. Once it was reduced, reducing it again, at any time and
  with any executors, answers with the stored classification and decision and changes nothing. The decision
  of a first reduction is the one it answered, under the status its disposition maps to.
\<close>

theorem reduce_again:
  assumes "reduceTerminalAttempt sj sha now ps a c r = (Inr (cl, d), r')"
  shows "\<exists>e row. getClassification r' a = Some e \<and> getDecision r' a = Some row \<and>
    reduceTerminalAttempt sj sha now' ps' a c r' = (Inr (e, dr_decision row), r') \<and>
    (find_decision r a = None \<longrightarrow> dr_decision row = d \<and> dr_status row = mapDispositionToStatus (pd_disposition d))"
  using assms
proof (rule reduced_cases)
  fix att ct
  assume att: "find_attempt (rt_db r) a = Some att" "isAttemptTerminal (at_lifecycle att)"
    and ct: "getContractForCard (rt_db r) c = Some ct" "truthy_json ct"
    and ins: "fst (insertClassification (classify sj sha now (classify_input_of (rt_db r) att)) r) \<noteq> Ins_conflict"
    and how: "(\<exists>e row. r' = snd (insertClassification (classify sj sha now (classify_input_of (rt_db r) att)) r) \<and>
        find_decision r a = Some row \<and> cl = e \<and> d = dr_decision row) \<or>
     (\<exists>caps. cl = classify sj sha now (classify_input_of (rt_db r) att) \<and>
        decide_retry now ps att c caps cl (snd (insertClassification cl r)) = (d, r'))"
  let ?cl = "\<lambda>t. classify sj sha t (classify_input_of (rt_db r) att)"
  have id: "at_id att = a" using att(1) by (simp add: find_attemptD)
  have cl: "fc_attempt_id (?cl t) = a" "fc_input_digest (?cl t) = fc_input_digest (?cl now)" for t
    by (simp_all add: classify_def classify_input_of_def id Let_def)
  let ?r1 = "snd (insertClassification (?cl now) r)"
  from classified_there [OF ins] obtain e where e: "find_classification ?r1 a = Some e" "fc_input_digest e = fc_input_digest (?cl now)"
    by (auto simp: cl(1))
  have dec1: "find_decision ?r1 a = find_decision r a" by (simp add: find_decision_def)
  have "rt_db r' = rt_db r \<and> find_classification r' a = Some e \<and> (\<exists>row. find_decision r' a = Some row \<and>
      (find_decision r a = None \<longrightarrow> dr_decision row = d \<and> dr_status row = mapDispositionToStatus (pd_disposition d)))"
    using how
  proof
    assume "\<exists>e row. r' = ?r1 \<and> find_decision r a = Some row \<and> cl = e \<and> d = dr_decision row"
    then show ?thesis using e dec1 by auto
  next
    assume "\<exists>caps. cl = ?cl now \<and> decide_retry now ps att c caps cl (snd (insertClassification cl r)) = (d, r')"
    then obtain caps where "decide_retry now ps att c caps (?cl now) ?r1 = (d, r')" by blast
    note f = decide_facts [OF this]
    have "find_classification r' a = Some e" using e by (simp add: f(2) find_classification_def)
    moreover have "rt_db r' = rt_db r" by (simp add: f(2))
    moreover have "\<exists>row. find_decision r' a = Some row"
      using insertDecision_there [of now d _ None ?r1] by (simp add: f id)
    moreover have "\<exists>row. find_decision r' a = Some row \<and> dr_decision row = d \<and> dr_status row = mapDispositionToStatus (pd_disposition d)"
      if "find_decision r a = None"
      using insertDecision_new [of ?r1 d now _ None] that dec1 by (simp add: f id)
    ultimately show ?thesis by (cases "find_decision r a") auto
  qed
  then obtain row where r': "rt_db r' = rt_db r" "find_classification r' a = Some e" "find_decision r' a = Some row"
    and new: "find_decision r a = None \<longrightarrow> dr_decision row = d \<and> dr_status row = mapDispositionToStatus (pd_disposition d)" by (elim conjE exE) (rule that)
  have "insertClassification (?cl now') r' = (Ins_idempotent, r')"
  proof (rule classified_again)
    show "find_classification r' (fc_attempt_id (?cl now')) = Some e" unfolding cl(1) by (rule r'(2))
    show "fc_input_digest e = fc_input_digest (?cl now')" unfolding e(2) by (rule cl(2) [symmetric])
  qed
  then have "reduceTerminalAttempt sj sha now' ps' a c r' = (Inr (e, dr_decision row), r')"
    by (simp add: reduceTerminalAttempt_def r' att ct getClassification_def getDecision_def Let_def)
  with r' new show ?thesis by (auto simp: getClassification_def getDecision_def)
qed

section \<open>What a successor runs\<close>

lemma allocate_created:
  assumes "allocate_successor redact sha k ps c a ct cl p opts tokens au r = (Rr_created i, r')"
  shows "\<exists>it d revised. resolveWorkerExecutorIntent ct = Some it \<and> rd_target_ordinal d = nextOrdinal (rt_db r) c \<and>
    rd_source_attempt_id d = at_id a \<and>
    deriveContractRevision sha (rc_contract_id k) ct d (getNextRevision (rt_db r) c) = Some revised \<and> i = rc_attempt_id k \<and>
    acceptDirectiveAndAllocateTarget redact (rc_now k)
      (request_of k r c a p d revised it (tokens (lb_tokens (getFullLineageBudget r c None))) au) r = (Ac_created, r')"
proof -
  from assms obtain it caps where it: "resolveWorkerExecutorIntent ct = Some it" "spread (jget ct ''required_capabilities'') = Some caps"
    by (auto simp: allocate_successor_def split: option.splits)
  define d where "d = buildDirective sha (rc_directive_id k) (rc_instant k) ct (at_id a) (nextOrdinal (rt_db r) c) cl p
      (rationale_of it (length (fst (getCandidates ps (needing (capability_texts caps)))))) opts"
  have d: "rd_target_ordinal d = nextOrdinal (rt_db r) c" "rd_source_attempt_id d = at_id a"
    by (simp_all add: d_def buildDirective_def Let_def)
  from assms obtain revised where rev: "deriveContractRevision sha (rc_contract_id k) ct d (getNextRevision (rt_db r) c) = Some revised"
    by (auto simp: allocate_successor_def it d_def [symmetric] Let_def split: option.splits if_splits)
  let ?q = "request_of k r c a p d revised it (tokens (lb_tokens (getFullLineageBudget r c None))) au"
  obtain out r1 where o: "acceptDirectiveAndAllocateTarget redact (rc_now k) ?q r = (out, r1)"
    by (cases "acceptDirectiveAndAllocateTarget redact (rc_now k) ?q r")
  have "result_of (rc_attempt_id k) out = Rr_created i \<and> r1 = r'"
    using assms by (auto simp: allocate_successor_def it d_def [symmetric] rev o Let_def split: if_splits)
  then have "out = Ac_created" "i = rc_attempt_id k" "r1 = r'" by (auto simp: result_of_def split: accept_outcome.splits)
  with it d rev o show ?thesis by blast
qed

lemma truthy_Some: "truthy_json v \<Longrightarrow> \<exists>j. v = Some j"
  by (cases v) auto

lemma retried_by_allocation:
  assumes "acceptAutomaticRetry redact sha k ps a c r = (Rr_created i, r') \<or>
      reviewFailure redact sha k ps a c p au r = (Rr_created i, r')"
  obtains ct att cl d opts tokens u where "getContractForCard (rt_db r) c = Some (Some ct)" "find_attempt (rt_db r) a = Some att"
    "allocate_successor redact sha k ps c att ct cl d opts tokens u r = (Rr_created i, r')"
  using assms
proof
  assume a: "acceptAutomaticRetry redact sha k ps a c r = (Rr_created i, r')"
  then obtain ct where ct: "getContractForCard (rt_db r) c = Some (Some ct)"
    by (auto simp: acceptAutomaticRetry_def split: option.splits if_splits dest: truthy_Some)
  with a that show thesis
    by (auto simp: acceptAutomaticRetry_def split: option.splits if_splits)
next
  assume a: "reviewFailure redact sha k ps a c p au r = (Rr_created i, r')"
  then obtain ct where ct: "getContractForCard (rt_db r) c = Some (Some ct)"
    by (auto simp: reviewFailure_def close_review_def Let_def case_prod_unfold split: option.splits if_splits review_action.splits dest: truthy_Some)
  with a that show thesis
    by (auto simp: reviewFailure_def close_review_def Let_def case_prod_unfold split: option.splits if_splits review_action.splits)
qed

text \<open>
  C22: A retry runs what was promised, where it was promised, the first time and every time after. The card's
  latest contract is one the normaliser accepted, or a revision derived from one, any number of times. Whether
  scheduled by the policy or asked for by a reviewer, a created successor is a pending attempt of the same card and
  project lineage with the next ordinal, under a new revision of the contract that keeps its goal, criteria,
  artifacts, commands, capabilities, root criteria, workspace, limits and provenance and is again such a contract,
  and it goes to the coding executor when the contract names a workspace and to the local agent otherwise.
\<close>

theorem retry_runs_same_contract:
  assumes keys: "card_keys (rt_db r)" and fresh: "rc_contract_id k \<noteq> []"
    and contract: "getContractForCard (rt_db r) c = Some (Some ct)" "issued ct"
    and call: "acceptAutomaticRetry redact sha k ps a c r = (Rr_created i, r') \<or>
      reviewFailure redact sha k ps a c p au r = (Rr_created i, r')"
  shows "\<exists>source rev n revised. find_attempt (rt_db r) a = Some source \<and> db_contracts (rt_db r') = db_contracts (rt_db r) @ [rev] \<and>
    db_attempts (rt_db r') = db_attempts (rt_db r) @ [n] \<and>
    ct_card_id rev = c \<and> ct_json rev = Some revised \<and> issued revised \<and>
    (\<forall>m \<in> {''goal'', ''criteria'', ''expected_artifacts'', ''verification_commands'', ''required_capabilities'',
       ''supports_root_criteria'', ''workspace_alias'', ''limits'', ''provenance''}. jget revised m = jget ct m) \<and>
    ct_revision rev = getNextRevision (rt_db r) c \<and> at_contract_id n = ct_id rev \<and>
    at_id n = i \<and> at_card_id n = c \<and> at_lifecycle n = L_pending \<and> at_ordinal n = nextOrdinal (rt_db r) c \<and>
    at_source_attempt_id n = Some a \<and> at_root_project_card_id n = at_root_project_card_id source \<and>
    at_root_project_generation n = at_root_project_generation source \<and> at_scheduled_run_id n = at_scheduled_run_id source \<and>
    (at_executor_kind n, at_executor_id n) =
      (if jget ct ''workspace_alias'' = None then (Agent, AGENT_EXECUTOR_ID) else (Pi, PI_EXECUTOR_ID))"
proof -
  from call obtain ct' att cl d0 opts tokens u where c': "getContractForCard (rt_db r) c = Some (Some ct')"
    and att: "find_attempt (rt_db r) a = Some att"
    and al: "allocate_successor redact sha k ps c att ct' cl d0 opts tokens u r = (Rr_created i, r')"
    by (rule retried_by_allocation)
  from c' contract(1) have ct: "ct' = ct" by simp
  have id: "at_id att = a" using att by (simp add: find_attemptD)
  from allocate_created [OF al] obtain it d revised where it: "resolveWorkerExecutorIntent ct = Some it"
    and d: "rd_target_ordinal d = nextOrdinal (rt_db r) c"
    and rev: "deriveContractRevision sha (rc_contract_id k) ct d (getNextRevision (rt_db r) c) = Some revised" and i: "i = rc_attempt_id k"
    and acc: "acceptDirectiveAndAllocateTarget redact (rc_now k)
      (request_of k r c att d0 d revised it (tokens (lb_tokens (getFullLineageBudget r c None))) u) r = (Ac_created, r')"
    unfolding ct by blast
  let ?q = "request_of k r c att d0 d revised it (tokens (lb_tokens (getFullLineageBudget r c None))) u"
  have q: "rq_source ?q = a" "rq_card_id ?q = c" "rq_contract ?q = revised" by (simp_all add: request_of_def id)
  from created_facts [OF keys acc] obtain source where s: "find_attempt (rt_db r) a = Some source"
    "db_contracts (rt_db r') = db_contracts (rt_db r) @ [revision_row a c revised]"
    "db_attempts (rt_db r') = db_attempts (rt_db r) @ [successor_row (rq_insert ?q) source]" unfolding q by blast
  from issued_like [OF contract(2)] obtain sha0 t g v c0 where c0: "normalizeContract sha0 t g v = Norm_ok c0" "kept_like c0 ct" by blast
  from revision_of_kept [OF c0 fresh, of sha d "getNextRevision (rt_db r) c"] rev
  have kept: "kept_like ct revised"
    and meta: "jget revised ''revision_meta'' = Some (revision_meta False ct d (getNextRevision (rt_db r) c))" by auto
  have "alias_ok c0" using normalized_valid(1) [OF c0(1)] by (simp add: contract_ok_def)
  then have "alias_ok ct" by (simp add: alias_ok_def kept_likeD(7) [OF c0(2)])
  then have "it = (if jget ct ''workspace_alias'' = None then (Agent, AGENT_EXECUTOR_ID) else (Pi, PI_EXECUTOR_ID))"
    using it by (auto simp: resolveWorkerExecutorIntent_def nonempty_alias_def alias_ok_def js_trim_def split: option.splits json.splits if_splits)
  moreover have "ct_revision (revision_row a c revised) = getNextRevision (rt_db r) c"
    by (simp add: revision_row_def meta_member_def member_at_def meta revision_meta_def nullish_def int_value_def)
  moreover have "issued revised" using contract(2) fresh rev by (rule issued.revised)
  ultimately show ?thesis using s kept_likeD [OF kept] d i
    by (intro exI [of _ source] exI [of _ "revision_row a c revised"] exI [of _ "successor_row (rq_insert ?q) source"] exI [of _ revised])
       (simp add: successor_row_def revision_row_def request_of_def id)
qed

section \<open>Waiting for input\<close>

inductive service_step :: "(json \<Rightarrow> string) \<Rightarrow> (string \<Rightarrow> string) \<Rightarrow> (string \<Rightarrow> string) \<Rightarrow> retry_db \<Rightarrow> retry_db \<Rightarrow> bool"
  for sj :: "json \<Rightarrow> string" and sha :: "string \<Rightarrow> string" and redact :: "string \<Rightarrow> string" where
  reduced: "service_step sj sha redact r (snd (reduceTerminalAttempt sj sha now ps a c r))"
| automatic: "service_step sj sha redact r (snd (acceptAutomaticRetry redact sha k ps a c r))"
| reviewed: "service_step sj sha redact r (snd (reviewFailure redact sha k ps a c p au r))"
| recovered: "service_step sj sha redact r (snd (recoverPendingReviews now r))"
| elsewhere: "service_step sj sha redact r (r\<lparr> rt_db := db \<rparr>)"

text \<open>The attempt is classified and its decision waits for input or is stopped.\<close>

definition waits :: "decision_status \<Rightarrow> bool" where
  "waits s \<longleftrightarrow> s = Ds_needs_input \<or> s = Ds_stopped"

definition input_pending :: "retry_db \<Rightarrow> string \<Rightarrow> bool" where
  "input_pending r a \<longleftrightarrow> find_classification r a \<noteq> None \<and> (\<exists>d. find_decision r a = Some d \<and> waits (dr_status d))"

lemma input_pending_same:
  "input_pending r a \<Longrightarrow> rt_classifications r' = rt_classifications r \<Longrightarrow> rt_decisions r' = rt_decisions r \<Longrightarrow> input_pending r' a"
  by (simp add: input_pending_def find_classification_def find_decision_def)

lemma input_pending_status:
  assumes "input_pending r a" and "\<not> waits s \<or> waits t"
  shows "input_pending (snd (set_decision_status now b s t r)) a"
proof -
  have "find_classification (snd (set_decision_status now b s t r)) a = find_classification r a" by (simp add: find_classification_def)
  moreover have "\<exists>d. find_decision (snd (set_decision_status now b s t r)) a = Some d \<and> waits (dr_status d)"
  proof -
    from assms(1) obtain d where "find_decision r a = Some d" "waits (dr_status d)" by (auto simp: input_pending_def)
    with assms(2) show ?thesis unfolding set_decision_status_def by (subst find_decision_update) auto
  qed
  ultimately show ?thesis using assms(1) by (simp add: input_pending_def)
qed

lemma input_pending_upsert:
  assumes "input_pending r a" and "dr_source d \<noteq> a"
  shows "input_pending (upsert_decision d r) a"
proof (cases "find_decision r (dr_source d) = None")
  case True
  with assms show ?thesis
    by (auto simp: upsert_decision_def input_pending_def find_decision_def find_classification_def sql_first_append)
next
  case False
  have "\<exists>e. find_decision (upsert_decision d r) a = Some e \<and> waits (dr_status e)"
  proof -
    from assms(1) obtain e where "find_decision r a = Some e" "waits (dr_status e)" by (auto simp: input_pending_def)
    moreover from this have "dr_source e \<noteq> dr_source d" using assms(2) by (simp add: find_decisionD)
    ultimately show ?thesis unfolding upsert_decision_def if_not_P [OF False] by (subst find_decision_update) auto
  qed
  moreover have "find_classification (upsert_decision d r) a = find_classification r a"
    by (simp add: upsert_decision_def update_decisions_def find_classification_def)
  ultimately show ?thesis using assms(1) by (simp add: input_pending_def)
qed

lemma input_pending_accept:
  assumes "input_pending r a"
  shows "input_pending (snd (acceptDirectiveAndAllocateTarget redact now q r)) a"
proof (cases rule: accept_cases [of redact now q r])
  case (wrote source s r1)
  from wrote(1) have "\<not> waits s" by (auto simp: checks_Inr waits_def)
  with assms have "input_pending (snd (set_decision_status now (rq_source q) s Ds_scheduled r)) a" by (simp add: input_pending_status)
  then show ?thesis unfolding wrote(3) by (rule input_pending_same) (simp_all add: written_frame [OF wrote(2)])
qed (simp add: assms)

lemma input_pending_allocate:
  "input_pending r a \<Longrightarrow> input_pending (snd (allocate_successor redact sha k ps c att ct cl p opts tokens au r)) a"
  by (auto simp: allocate_successor_def Let_def case_prod_unfold input_pending_accept split: option.split)

lemma input_pending_classified: "input_pending r a \<Longrightarrow> input_pending (snd (insertClassification c r)) a"
  by (auto simp: input_pending_def insertClassification_def find_decision_def find_classification_def sql_first_append split: option.split)

lemma input_pending_close: 
  assumes "input_pending r a" and "waits t"
  shows "input_pending (snd (compareAndSetProjectDecisionStatus now b c s t au r)) a"
  using assms by (auto simp: compareAndSetProjectDecisionStatus_def case_prod_unfold Let_def input_pending_status split: option.split)

lemma input_pending_reduce:
  assumes "input_pending r a"
  shows "input_pending (snd (reduceTerminalAttempt sj sha now ps b c r)) a"
proof (cases "find_attempt (rt_db r) b")
  case (Some att)
  let ?cl = "classify sj sha now (classify_input_of (rt_db r) att)"
  obtain ins r1 where i: "insertClassification ?cl r = (ins, r1)" by (cases "insertClassification ?cl r")
  have p: "input_pending r1 a" using input_pending_classified [OF assms, of ?cl] i by simp
  have id: "at_id att = b" using Some by (simp add: find_attemptD)
  have cl: "fc_attempt_id ?cl = b" by (simp add: classify_def classify_input_of_def id Let_def)
  have d: "input_pending (snd (decide_retry now ps att c caps cls r1)) a" if "b \<noteq> a" for caps cls
  proof -
    obtain d r2 where d: "decide_retry now ps att c caps cls r1 = (d, r2)" by (cases "decide_retry now ps att c caps cls r1")
    note f = decide_facts [OF d]
    have "input_pending r2 a" unfolding f(2) using p that f(1) id
      by (auto simp: insertDecision_def Let_def input_pending_upsert split: option.split)
    with d show ?thesis by simp
  qed
  have "(ins = Ins_idempotent \<or> ins = Ins_conflict) \<and> find_classification r1 a \<noteq> None \<and> find_decision r1 a \<noteq> None" if "b = a"
    using assms i that cl by (auto simp: input_pending_def insertClassification_def split: if_splits)
  with p d i Some assms show ?thesis
    by (cases "b = a")
      (auto simp: reduceTerminalAttempt_def Let_def getClassification_def getDecision_def case_prod_unfold split: option.split insert_result.split)
qed (simp add: assms reduceTerminalAttempt_def)

lemma input_pending_step: "service_step sj sha redact r r' \<Longrightarrow> input_pending r a \<Longrightarrow> input_pending r' a"
proof (induction rule: service_step.induct)
  case (recovered r now)
  have "input_pending s a \<Longrightarrow> input_pending (fold (\<lambda>a s. snd (set_decision_status now a Ds_review_required Ds_stopped s)) as s) a" for as s
    by (induction as arbitrary: s) (simp_all add: input_pending_status waits_def)
  with recovered show ?case by (simp add: recoverPendingReviews_def expireOverdueReviews_def Let_def)
next
  case (elsewhere r db)
  then show ?case by (rule input_pending_same) simp_all
next
  case (automatic r k ps b c)
  then show ?case
    by (auto simp: acceptAutomaticRetry_def Let_def input_pending_allocate split: option.split)
next
  case (reviewed r k ps b c p au)
  then have "input_pending (snd (close_review k b c d t m au r)) a" if "waits t" for d t m
    using that by (simp add: close_review_def case_prod_unfold Let_def input_pending_close)
  with reviewed show ?case
    by (auto simp: reviewFailure_def Let_def input_pending_allocate waits_def split: option.split review_action.split)
qed (rule input_pending_reduce)

text \<open>
  C33: A failure that waits for input is never retried. Once its decision is \<open>needs_input\<close>, no sequence of
  calls of the service - reductions, automatic retries, reviews with any answer, recoveries - and of changes
  of the swarm tables leaves any other status than that or \<open>stopped\<close>, and neither the policy nor a reviewer
  gets a successor.
\<close>

theorem needs_input_never_retried:
  assumes "getClassification r a = Some cl" "getDecision r a = Some d" "dr_status d = Ds_needs_input"
    and "(service_step sj sha redact)\<^sup>*\<^sup>* r r'"
  shows "(\<exists>d'. getDecision r' a = Some d' \<and> (dr_status d' = Ds_needs_input \<or> dr_status d' = Ds_stopped)) \<and>
    fst (acceptAutomaticRetry redact' sha' k ps a c r') \<noteq> Rr_created i \<and>
    fst (reviewFailure redact' sha' k ps a c p au r') \<noteq> Rr_created i"
proof -
  have "input_pending r a" using assms(1-3) by (simp add: input_pending_def getClassification_def getDecision_def waits_def)
  with assms(4) have p: "input_pending r' a" by (induction rule: rtranclp_induct) (auto intro: input_pending_step)
  have no: False if c: "acceptAutomaticRetry redact' sha' k ps a c r' = (Rr_created i, r2) \<or>
      reviewFailure redact' sha' k ps a c p au r' = (Rr_created i, r2)" for r2
  proof -
    from c obtain ct att cl d opts tokens u where att: "find_attempt (rt_db r') a = Some att"
      and al: "allocate_successor redact' sha' k ps c att ct cl d opts tokens u r' = (Rr_created i, r2)"
      by (rule retried_by_allocation)
    from allocate_created [OF al] obtain q where q: "acceptDirectiveAndAllocateTarget redact' (rc_now k) q r' = (Ac_created, r2)" "rq_source q = at_id att"
      by (auto simp: request_of_def Let_def)
    from q(1) show False
    proof (cases rule: accept_cases [of redact' "rc_now k" q r'])
      case (wrote source s r1)
      with p q(2) att show False by (auto simp: checks_Inr input_pending_def waits_def find_attemptD)
    qed simp
  qed
  show ?thesis
    using p no by (auto simp: input_pending_def waits_def getDecision_def) (metis prod.collapse)+
qed

section \<open>Samples\<close>

text \<open>The failed attempt of card 7 with its contract, once reduced and once before.\<close>

definition sample_class :: classification where
  "sample_class = \<lparr> fc_id = ''fc'', fc_attempt_id = ''a1'', fc_input_digest = ''x'', fc_primary = F_transient_transport,
     fc_factors = [], fc_evidence_ids = [], fc_stable_codes = [], fc_confidence = Observed, fc_retryability = Automatic,
     fc_recommended_actions = [], fc_classifier_version = CLASSIFIER_VERSION, fc_created_at = 0 \<rparr>"

definition sample_contract_row :: contract where
  "sample_contract_row = contract_row ''k'' passing_contract ''d'' 7 None"

definition sample_service :: "classification list \<Rightarrow> retry_db" where
  "sample_service cs = (sample_retry Failed Ds_scheduled)
     \<lparr> rt_db := (rt_db (sample_retry Failed Ds_scheduled))\<lparr> db_contracts := [sample_contract_row] \<rparr>, rt_classifications := cs \<rparr>"

definition sample_spin :: provider where
  "sample_spin = providerForAdapter Agent AGENT_EXECUTOR_ID (Some (2, 2))"

definition sample_call :: retry_call where
  "sample_call = \<lparr> rc_now = 9, rc_instant = ''t'', rc_directive_id = ''d1'', rc_contract_id = ''n'', rc_attempt_id = ''a2'' \<rparr>"

lemma service_tables [simp]:
  "db_cards (rt_db (sample_service cs)) = db_cards (rt_db (sample_retry Failed Ds_scheduled))"
  "db_attempts (rt_db (sample_service cs)) = [sample_attempt ''a1'' 1 L_failed]"
  "db_supervision (rt_db (sample_service cs)) = []" "db_reservations (rt_db (sample_service cs)) = []"
  "db_contracts (rt_db (sample_service cs)) = [sample_contract_row]" "rt_directives (sample_service cs) = []"
  "rt_decisions (sample_service cs) = rt_decisions (sample_retry Failed Ds_scheduled)" "rt_classifications (sample_service cs) = cs"
  by (simp_all add: sample_service_def sample_retry_def empty_db_def)

lemma service_reads:
  "find_attempt (rt_db (sample_service cs)) ''a1'' = Some (sample_attempt ''a1'' 1 L_failed)"
  "find_card (rt_db (sample_service cs)) 7 = Some ((default_card 7 ''w'' ''agent'' 0)\<lparr> k_status := Failed \<rparr>)"
  "getContractForCard (rt_db (sample_service cs)) 7 = Some (Some passing_contract)"
  "getNextRevision (rt_db (sample_service cs)) 7 = 2" "nextOrdinal (rt_db (sample_service cs)) 7 = 2"
  "card_keys (rt_db (sample_service cs))"
  "getDecision (sample_service cs) ''a1'' = Some \<lparr> dr_source = ''a1'', dr_decision = sample_decision, dr_status = Ds_scheduled,
     dr_digest = [], dr_deadline = None, dr_updated_at = 0 \<rparr>"
  using sample_find(1) [of Failed Ds_scheduled] sample_keys [of Failed Ds_scheduled]
  by (simp_all add: find_attempt_def find_card_def getContractForCard_def getLatestContractForCard_def sql_last_by_def sample_contract_row_def
      contract_row_def getNextRevision_def nextOrdinal_def getLatestAttempt_def card_keys_def getDecision_def find_decision_def)
     (simp_all add: sample_attempt_def sample_retry_def)

theorem reduce_again_witness:
  "\<exists>cl d r'. reduceTerminalAttempt (\<lambda>_. ''x'') (\<lambda>_. ''y'') 5 [sample_spin] ''a1'' 7 (sample_service []) = (Inr (cl, d), r') \<and>
    (\<exists>e (row :: decision_row). reduceTerminalAttempt (\<lambda>_. ''x'') (\<lambda>_. ''y'') 6 [] ''a1'' 7 r' = (Inr (e, dr_decision row), r'))"
proof -
  let ?cl = "classify (\<lambda>_. ''x'') (\<lambda>_. ''y'') 5 (classify_input_of (rt_db (sample_service [])) (sample_attempt ''a1'' 1 L_failed))"
  have i: "insertClassification ?cl (sample_service []) = (Ins_created, (sample_service [])\<lparr> rt_classifications := [?cl] \<rparr>)"
    by (simp add: insertClassification_def find_classification_def)
  have t: "isAttemptTerminal (at_lifecycle (sample_attempt ''a1'' 1 L_failed))"
    by (simp add: isAttemptTerminal_def sample_attempt_def terminal_lifecycle_def)
  have p: "truthy_json (Some passing_contract)" "spread (nullish (jget passing_contract ''required_capabilities'') (Some (JArr []))) = Some []"
    by (simp_all add: passing_contract_def truthy_json_def nullish_def)
  obtain d r' where d: "decide_retry 5 [sample_spin] (sample_attempt ''a1'' 1 L_failed) 7 [] ?cl ((sample_service [])\<lparr> rt_classifications := [?cl] \<rparr>) = (d, r')"
    by (meson surj_pair)
  have one: "reduceTerminalAttempt (\<lambda>_. ''x'') (\<lambda>_. ''y'') 5 [sample_spin] ''a1'' 7 (sample_service []) = (Inr (?cl, d), r')"
    by (simp add: reduceTerminalAttempt_def service_reads t p i d Let_def)
  from reduce_again [OF one, of 6 "[]"] have two: "\<exists>e (row :: decision_row). reduceTerminalAttempt (\<lambda>_. ''x'') (\<lambda>_. ''y'') 6 [] ''a1'' 7 r' = (Inr (e, dr_decision row), r')"
    by (elim exE conjE) (rule exI, rule exI, assumption)
  show ?thesis by (rule exI [of _ ?cl], rule exI [of _ d], rule exI [of _ r'], rule conjI [OF one two])
qed

lemma sample_retried: "\<exists>r'. acceptAutomaticRetry (\<lambda>s. s) (\<lambda>_. ''e'') sample_call [sample_spin] ''a1'' 7 (sample_service [sample_class]) = (Rr_created ''a2'', r')"
proof -
  let ?r = "sample_service [sample_class]" let ?a = "sample_attempt ''a1'' 1 L_failed" let ?it = "(Agent, AGENT_EXECUTOR_ID)"
  have it: "resolveWorkerExecutorIntent passing_contract = Some ?it"
    by (simp add: resolveWorkerExecutorIntent_def nonempty_alias_def passing_contract_def)
  have caps: "spread (jget passing_contract ''required_capabilities'') = Some []" "truthy_json (Some passing_contract)"
    by (simp_all add: passing_contract_def truthy_json_def)
  have el: "fst (getCandidates [sample_spin] (needing (capability_texts []))) = [candidate_of sample_spin]"
    by (simp add: getCandidates_def sample_spin_def providerForAdapter_def filterCandidates_def rejection_def candidate_of_def needing_def
        capability_texts_def map_filter_simps Let_def)
  have ids: "at_id ?a = ''a1''" "at_executor_id ?a = ''spin-local''" by (simp_all add: sample_attempt_def)
  have sc: "rc_now sample_call = 9" "rc_instant sample_call = ''t''" "rc_directive_id sample_call = ''d1''"
    "rc_contract_id sample_call = ''n''" "rc_attempt_id sample_call = ''a2''" by (simp_all add: sample_call_def)
  define d where "d = buildDirective (\<lambda>_. ''e'') ''d1'' ''t'' passing_contract ''a1'' 2 sample_class sample_decision (rationale_of ?it (length [candidate_of sample_spin]))
      (automatic_opts ''a1'' sample_class sample_decision)"
  have d: "rd_source_attempt_id d = ''a1''" "rd_id d = ''d1''" by (simp_all add: d_def buildDirective_def Let_def)
  have valid: "validateDirective (directive_json d) = []"
    by (simp add: d_def buildDirective_def validateDirective_def directive_json_def issue_when_def below_one_def MODES_def automatic_opts_def
        rationale_of_def passing_contract_def text_at_def member_at_def sample_class_def transient_def AGENT_EXECUTOR_ID_def Let_def)
       (simp add: truthy_json_def)
  from revision_kept [OF passing_contract_normal, of "''n''" "\<lambda>_. ''e''" d 2]
  obtain rev where rev: "deriveContractRevision (\<lambda>_. ''e'') ''n'' passing_contract d 2 = Some rev"
    "jget rev ''id'' = Some (JStr ''n'')" "jget rev ''revision_meta'' = Some (revision_meta False passing_contract d 2)"
    "jget rev ''digest'' = Some (JStr ''e'')" "validateContractRevision passing_contract rev = []" by auto
  define q where "q = request_of sample_call ?r 7 ?a sample_decision d rev ?it (automatic_tokens (lb_tokens (getFullLineageBudget ?r 7 None))) None"
  have q: "rq_source q = ''a1''" "rq_card_id q = 7" "rq_authority q = None" "rq_decision q = sample_decision" "rq_directive q = d"
      "rq_contract q = rev" "rq_target q = ''a2''" "ra_id (rq_insert q) = ''a2''" "ra_card_id (rq_insert q) = 7"
      "ra_contract_id (rq_insert q) = ''n''" "ra_source_attempt_id (rq_insert q) = ''a1''" "ra_ordinal (rq_insert q) = 2"
    by (simp_all add: q_def request_of_def Let_def sample_call_def ids text_at_def rev d_def buildDirective_def)
  have meta: "meta_member rev ''source_attempt_id'' = Some (JStr ''a1'')" "meta_member rev ''revision'' = Some (JNum (NInt 2))"
    by (simp_all add: meta_member_def member_at_def rev revision_meta_def nullish_def map_of_opt_mem map_add_def d)
  have "lineage_rejection (rt_db ?r) ?a 7 None = None" by (simp add: lineage_rejection_def sample_attempt_def)
  moreover have "existing_successor q ?r = None"
    by (simp add: existing_successor_def find_directive_def q sample_attempt_def getReservation_def)
  moreover have "\<not> for_other_source q" by (simp add: for_other_source_def q d meta sample_decision_def)
  moreover have "length (terminal_attempts (rt_db ?r) 7) + reserved_attempts (rt_db ?r) 7 \<le> 5"
    by (simp add: terminal_attempts_def lineage_def reserved_attempts_def)
  moreover have "\<not> mismatched q ?a" by (simp add: mismatched_def q text_at_def rev) (simp add: sample_attempt_def)
  moreover have "terminal_lifecycle (at_lifecycle ?a)" by (simp add: sample_attempt_def terminal_lifecycle_def)
  ultimately have checks: "accept_checks q ?r = Inr (?a, Ds_scheduled)"
    using service_reads(1,7) [of "[sample_class]"] unfolding checks_Inr by (simp add: q getDecision_def)
  have writes: "accept_writes 9 q ?a Ds_scheduled ?r \<noteq> None"
    by (simp add: accept_writes_def insertContract_def contract_clash_def revision_row_def add_successor_def add_directive_def
        insertReservation_def successor_row_def q d rev text_at_def meta int_value_def sample_contract_row_def contract_row_def)
       (simp add: sample_attempt_def)
  have card: "find_card (rt_db ?r) (rq_card_id q) = Some ((default_card 7 ''w'' ''agent'' 0)\<lparr> k_status := Failed \<rparr>)"
    unfolding q by (rule service_reads)
  obtain r' where acc: "acceptDirectiveAndAllocateTarget (\<lambda>s. s) 9 q ?r = (Ac_created, r')"
    using accept_created [OF service_reads(6) checks writes card, of "\<lambda>s. s"] by auto
  have "allocate_successor (\<lambda>s. s) (\<lambda>_. ''e'') sample_call [sample_spin] 7 ?a passing_contract sample_class sample_decision
      (automatic_opts ''a1'' sample_class sample_decision) automatic_tokens None ?r = (Rr_created ''a2'', r')"
    unfolding allocate_successor_def it caps option.case prod.case el Let_def ids service_reads sc d_def [symmetric] valid rev(1,5) q_def [symmetric] acc
    by (simp add: result_of_def)
  then have "acceptAutomaticRetry (\<lambda>s. s) (\<lambda>_. ''e'') sample_call [sample_spin] ''a1'' 7 ?r = (Rr_created ''a2'', r')"
    by (simp add: acceptAutomaticRetry_def service_reads caps getClassification_def find_classification_def) (simp add: sample_class_def)
  then show ?thesis ..
qed

theorem retry_runs_same_contract_witness:
  "\<exists>r'. acceptAutomaticRetry (\<lambda>s. s) (\<lambda>_. ''e'') sample_call [sample_spin] ''a1'' 7 (sample_service [sample_class]) = (Rr_created ''a2'', r') \<and>
    length (db_attempts (rt_db r')) = 2"
proof -
  obtain r' where r': "acceptAutomaticRetry (\<lambda>s. s) (\<lambda>_. ''e'') sample_call [sample_spin] ''a1'' 7 (sample_service [sample_class]) = (Rr_created ''a2'', r')"
    using sample_retried by blast
  have n: "rc_contract_id sample_call \<noteq> []" by (simp add: sample_call_def)
  from retry_runs_same_contract [OF service_reads(6) n service_reads(3) issued.normal [OF passing_contract_normal] disjI1 [OF r']]
  have "length (db_attempts (rt_db r')) = 2" by auto
  with r' show ?thesis by blast
qed

theorem needs_input_never_retried_witness:
  "fst (reviewFailure (\<lambda>s. s) (\<lambda>_. ''e'') sample_call [sample_spin] ''a1'' 7
     \<lparr> rp_action = Rv_retry, rp_strategy = None, rp_do_not_repeat = None, rp_added_inputs = None, rp_added_checks = None,
       rp_answer = Some ''yes'' \<rparr> \<lparr> pa_card_id = 1, pa_generation = 1, pa_scheduled_run_id = None \<rparr>
     ((sample_retry Failed Ds_needs_input)\<lparr> rt_classifications := [sample_class] \<rparr>)) \<noteq> Rr_created ''a2''"
proof -
  let ?r = "(sample_retry Failed Ds_needs_input)\<lparr> rt_classifications := [sample_class] \<rparr>"
  have "getClassification ?r ''a1'' = Some sample_class"
    by (simp add: getClassification_def find_classification_def) (simp add: sample_class_def)
  moreover have "getDecision ?r ''a1'' = Some \<lparr> dr_source = ''a1'', dr_decision = sample_decision, dr_status = Ds_needs_input,
       dr_digest = [], dr_deadline = None, dr_updated_at = 0 \<rparr>"
    by (simp add: getDecision_def find_decision_def sample_retry_def)
  ultimately show ?thesis using needs_input_never_retried [OF _ _ _ rtranclp.rtrancl_refl] by fastforce
qed

end
