(* ===== verification/WorkflowPlan.thy ===== *)
theory WorkflowPlan
  imports Json "HOL-Library.Sublist"
begin

text \<open>
  Plan proposals (\<open>orc-project/orc-workflow-runner.ts\<close>, \<open>validatePlan\<close>). A proposal is a value the
  model supplied, so it is a JSON value and every field is read as JavaScript reads it; \<open>None\<close> as
  the result stands for the \<open>TypeError\<close> that iterating over a value that is not iterable raises.
  A diagnostic keeps its field and its arguments; its English text is display. The depth-first
  search recurses through the colours of the labels; its fuel is one more than the number of
  nodes, and \<open>visit_total\<close> shows that this is enough.
\<close>

section \<open>Depth-first search with three colours\<close>

datatype colour = White | Grey | Black

text \<open>
  \<open>visit E k stack l ds col\<close> is the loop of \<open>visit(l, stack)\<close> over the dependencies \<open>ds\<close> still to be
  looked at; its result is the cycle pushed when it returned false, and the colours.
\<close>

fun visit :: "('k \<Rightarrow> 'k list) \<Rightarrow> nat \<Rightarrow> 'k list \<Rightarrow> 'k \<Rightarrow> 'k list \<Rightarrow> ('k \<Rightarrow> colour) \<Rightarrow>
    ('k list option \<times> ('k \<Rightarrow> colour)) option" where
  "visit E 0 stack l ds col = None"
| "visit E (Suc k) stack l [] col = Some (None, col(l := Black))"
| "visit E (Suc k) stack l (d # ds) col = (case col d of
     Grey \<Rightarrow> Some (Some (stack @ [l, d]), col)
   | Black \<Rightarrow> visit E (Suc k) stack l ds col
   | White \<Rightarrow> (case visit E k (stack @ [l]) d (E d) (col(d := Grey)) of
       None \<Rightarrow> None
     | Some (Some c, col') \<Rightarrow> Some (Some c, col')
     | Some (None, col') \<Rightarrow> visit E (Suc k) stack l ds col'))"

fun visit_all :: "('k \<Rightarrow> 'k list) \<Rightarrow> nat \<Rightarrow> 'k list \<Rightarrow> ('k \<Rightarrow> colour) \<Rightarrow> 'k list list option" where
  "visit_all E k [] col = Some []"
| "visit_all E k (l # ls) col =
     (if col l = White then
        (case visit E k [] l (E l) (col(l := Grey)) of
           None \<Rightarrow> None
         | Some (None, col') \<Rightarrow> visit_all E k ls col'
         | Some (Some c, col') \<Rightarrow> map_option (\<lambda>cs. c # cs) (visit_all E k ls col'))
      else visit_all E k ls col)"

definition dep_of :: "('k \<Rightarrow> 'k list) \<Rightarrow> ('k \<times> 'k) set" where
  "dep_of E = {(d, l). d \<in> set (E l)}"

text \<open>White labels only decrease, and a visit with more fuel than white labels returns.\<close>

lemma visit_white:
  "visit E k stack l ds col = Some (r, col') \<Longrightarrow> col l \<noteq> White \<Longrightarrow> col' x = White \<Longrightarrow> col x = White"
proof (induction E k stack l ds col arbitrary: r col' x rule: visit.induct)
  case (3 E k stack l d ds col)
  show ?case
  proof (cases "col d")
    case White
    then obtain r1 col1 where v: "visit E k (stack @ [l]) d (E d) (col(d := Grey)) = Some (r1, col1)"
      using "3.prems"(1) by (auto split: option.splits)
    have sub: "\<And>y. col1 y = White \<Longrightarrow> (col(d := Grey)) y = White" using "3.IH"(1) [OF White v] by simp
    have l1: "col1 l \<noteq> White" using sub [of l] "3.prems"(2) White by (auto split: if_splits)
    show ?thesis
    proof (cases r1)
      case None
      with v White "3.prems"(1) have "visit E (Suc k) stack l ds col1 = Some (r, col')" by simp
      from "3.IH"(2) [OF White v refl None this l1 "3.prems"(3)] have "col1 x = White" .
      from sub [OF this] show ?thesis by (simp split: if_splits)
    next
      case (Some c)
      with v White "3.prems"(1) have "col1 = col'" by simp
      with sub [of x] "3.prems"(3) show ?thesis by (simp split: if_splits)
    qed
  qed (use 3 in auto)
qed (auto split: if_splits)

lemma visit_returns:
  "finite K \<Longrightarrow> \<forall>x \<in> K. set (E x) \<subseteq> K \<Longrightarrow> set ds \<subseteq> K \<Longrightarrow> col l \<noteq> White \<Longrightarrow>
   card {x \<in> K. col x = White} < k \<Longrightarrow> \<exists>r. visit E k stack l ds col = Some r"
proof (induction E k stack l ds col rule: visit.induct)
  case (3 E k stack l d ds col)
  show ?case
  proof (cases "col d")
    case White
    let ?col = "col(d := Grey)"
    have d: "d \<in> K" using "3.prems"(3) by simp
    have eq: "{x \<in> K. ?col x = White} = {x \<in> K. col x = White} - {d}" by auto
    have "card {x \<in> K. ?col x = White} < card {x \<in> K. col x = White}"
      unfolding eq by (rule card_Diff1_less) (use d White "3.prems"(1) in auto)
    then have less: "card {x \<in> K. ?col x = White} < k" using "3.prems"(5) by simp
    have sub: "set (E d) \<subseteq> K" and grey: "?col d \<noteq> White" using "3.prems"(2) d by auto
    from "3.IH"(1) [OF White "3.prems"(1,2) sub grey less] obtain p
      where "visit E k (stack @ [l]) d (E d) ?col = Some p" by blast
    then obtain r1 col1 where v: "visit E k (stack @ [l]) d (E d) ?col = Some (r1, col1)" by (cases p) blast
    note w = visit_white [OF v]
    show ?thesis
    proof (cases r1)
      case None
      have l1: "col1 l \<noteq> White" using w [of l] "3.prems"(4) White by (auto split: if_splits)
      have "col x = White" if "col1 x = White" for x using w [OF _ that] by (simp split: if_splits)
      then have "{x \<in> K. col1 x = White} \<subseteq> {x \<in> K. col x = White}" by blast
      then have "card {x \<in> K. col1 x = White} \<le> card {x \<in> K. col x = White}"
        using "3.prems"(1) by (intro card_mono) auto
      then have "card {x \<in> K. col1 x = White} < Suc k" using "3.prems"(5) by simp
      from "3.IH"(2) [OF White v refl None "3.prems"(1,2) _ l1 this] "3.prems"(3) v None White
      show ?thesis by auto
    next
      case (Some c)
      with v White show ?thesis by simp
    qed
  qed (use 3 in auto)
qed auto

text \<open>
  A visit that returns true leaves the same labels grey, keeps black labels black, and every black
  label is in the accessible part of the dependency relation: no infinite chain starts from it.
\<close>

lemma visit_true:
  "visit E k stack l ds col = Some (None, col') \<Longrightarrow> col l = Grey \<Longrightarrow>
   (\<And>x. col x = Black \<Longrightarrow> x \<in> Wellfounded.acc (dep_of E)) \<Longrightarrow>
   (\<And>d. d \<in> set (E l) - set ds \<Longrightarrow> d \<in> Wellfounded.acc (dep_of E)) \<Longrightarrow>
   (\<forall>x. col' x = Black \<longrightarrow> x \<in> Wellfounded.acc (dep_of E)) \<and> col' l = Black \<and>
   (\<forall>x. col x = Black \<longrightarrow> col' x = Black) \<and> (\<forall>x. col' x = Grey \<longleftrightarrow> col x = Grey \<and> x \<noteq> l)"
proof (induction E k stack l ds col arbitrary: col' rule: visit.induct)
  case (2 E k stack l col)
  have "l \<in> Wellfounded.acc (dep_of E)"
    by (rule accI) (use "2.prems"(4) in \<open>auto simp: dep_of_def\<close>)
  with 2 show ?case by (auto split: if_splits)
next
  case (3 E k stack l d ds col)
  show ?case
  proof (cases "col d")
    case White
    with "3.prems"(1) obtain col1 where v: "visit E k (stack @ [l]) d (E d) (col(d := Grey)) = Some (None, col1)"
      and cont: "visit E (Suc k) stack l ds col1 = Some (None, col')"
      by (auto split: option.splits)
    have one: "(\<forall>x. col1 x = Black \<longrightarrow> x \<in> Wellfounded.acc (dep_of E)) \<and> col1 d = Black \<and>
      (\<forall>x. (col(d := Grey)) x = Black \<longrightarrow> col1 x = Black) \<and> (\<forall>x. col1 x = Grey \<longleftrightarrow> (col(d := Grey)) x = Grey \<and> x \<noteq> d)"
      by (rule "3.IH"(1) [OF White v]) (use "3.prems"(3) in \<open>auto split: if_splits\<close>)
    have "l \<noteq> d" using White "3.prems"(2) by auto
    then have l1: "col1 l = Grey" using one "3.prems"(2) by simp
    have rest: "y \<in> Wellfounded.acc (dep_of E)" if "y \<in> set (E l) - set ds" for y
      using "3.prems"(4) [of y] one that by (cases "y = d") auto
    from "3.IH"(2) [OF White v refl refl cont l1 _ rest] one
    have two: "(\<forall>x. col' x = Black \<longrightarrow> x \<in> Wellfounded.acc (dep_of E)) \<and> col' l = Black \<and>
      (\<forall>x. col1 x = Black \<longrightarrow> col' x = Black) \<and> (\<forall>x. col' x = Grey \<longleftrightarrow> col1 x = Grey \<and> x \<noteq> l)" by blast
    from one two White show ?thesis by (auto split: if_splits)
  next
    case Black
    have cont: "visit E (Suc k) stack l ds col = Some (None, col')" using "3.prems"(1) Black by simp
    show ?thesis
      by (rule "3.IH"(3) [OF Black cont "3.prems"(2,3)]) (use "3.prems"(3,4) Black in auto)
  qed (use "3.prems" in simp)
qed simp

text \<open>On an acyclic relation no visit reports a cycle: a grey dependency would close one.\<close>

lemma visit_acyclic:
  "visit E k stack l ds col = Some (r, col') \<Longrightarrow> acyclic (dep_of E) \<Longrightarrow> set ds \<subseteq> set (E l) \<Longrightarrow> col l = Grey \<Longrightarrow>
   (\<And>x. col x = Grey \<Longrightarrow> (l, x) \<in> (dep_of E)\<^sup>*) \<Longrightarrow> r = None \<and> (\<forall>x. col' x = Grey \<longleftrightarrow> col x = Grey \<and> x \<noteq> l)"
proof (induction E k stack l ds col arbitrary: r col' rule: visit.induct)
  case (3 E k stack l d ds col)
  have edge: "(d, l) \<in> dep_of E" using "3.prems"(3) by (simp add: dep_of_def)
  show ?case
  proof (cases "col d")
    case White
    obtain r1 col1 where v: "visit E k (stack @ [l]) d (E d) (col(d := Grey)) = Some (r1, col1)"
      using "3.prems"(1) White by (auto split: option.splits)
    have one: "r1 = None \<and> (\<forall>x. col1 x = Grey \<longleftrightarrow> (col(d := Grey)) x = Grey \<and> x \<noteq> d)"
    proof (rule "3.IH"(1) [OF White v "3.prems"(2)])
      fix x assume "(col(d := Grey)) x = Grey"
      then consider "x = d" | "col x = Grey" by (auto split: if_splits)
      then show "(d, x) \<in> (dep_of E)\<^sup>*"
        using edge "3.prems"(5) by cases (auto intro: converse_rtrancl_into_rtrancl)
    qed simp_all
    have "l \<noteq> d" using White "3.prems"(4) by auto
    then have l1: "col1 l = Grey" using one "3.prems"(4) by simp
    have v1: "visit E k (stack @ [l]) d (E d) (col(d := Grey)) = Some (None, col1)" using v one by simp
    have cont: "visit E (Suc k) stack l ds col1 = Some (r, col')" using "3.prems"(1) White v1 by simp
    have "r = None \<and> (\<forall>x. col' x = Grey \<longleftrightarrow> col1 x = Grey \<and> x \<noteq> l)"
      by (rule "3.IH"(2) [OF White v1 refl refl cont "3.prems"(2) _ l1])
        (use "3.prems"(3,5) one in \<open>auto split: if_splits\<close>)
    with one White show ?thesis by (auto split: if_splits)
  next
    case Grey
    with "3.prems"(5) have "(l, d) \<in> (dep_of E)\<^sup>*" by simp
    with edge have "(d, d) \<in> (dep_of E)\<^sup>+" by (rule rtrancl_into_trancl2)
    with "3.prems"(2) show ?thesis by (simp add: acyclic_def)
  next
    case Black
    have cont: "visit E (Suc k) stack l ds col = Some (r, col')" using "3.prems"(1) Black by simp
    show ?thesis
      by (rule "3.IH"(3) [OF Black cont "3.prems"(2)]) (use "3.prems" in auto)
  qed
qed auto

lemma visit_all_returns:
  assumes "finite K" and "\<forall>x \<in> K. set (E x) \<subseteq> K" and "card K < k"
  shows "set ls \<subseteq> K \<Longrightarrow> \<exists>cs. visit_all E k ls col = Some cs"
proof (induction ls arbitrary: col)
  case (Cons l ls)
  have "card {x \<in> K. (col(l := Grey)) x = White} \<le> card K" by (rule card_mono) (use assms(1) in auto)
  then have less: "card {x \<in> K. (col(l := Grey)) x = White} < k" using assms(3) by simp
  have sub: "set (E l) \<subseteq> K" and grey: "(col(l := Grey)) l \<noteq> White" using assms(2) Cons.prems by auto
  from visit_returns [OF assms(1,2) sub grey less] obtain p where "visit E k [] l (E l) (col(l := Grey)) = Some p" by blast
  then obtain r col' where v: "visit E k [] l (E l) (col(l := Grey)) = Some (r, col')" by (cases p) blast
  from Cons.prems have ls: "set ls \<subseteq> K" by simp
  from Cons.IH [OF ls, of col'] Cons.IH [OF ls, of col] obtain cs1 cs2
    where "visit_all E k ls col' = Some cs1" "visit_all E k ls col = Some cs2" by blast
  then show ?case by (cases r) (simp_all add: v)
qed simp

lemma visit_all_acyclic:
  "visit_all E k ls col = Some cs \<Longrightarrow> acyclic (dep_of E) \<Longrightarrow> (\<And>x. col x \<noteq> Grey) \<Longrightarrow> cs = []"
proof (induction ls arbitrary: col cs)
  case (Cons l ls)
  show ?case
  proof (cases "col l = White")
    case True
    with Cons.prems(1) obtain r col' where v: "visit E k [] l (E l) (col(l := Grey)) = Some (r, col')"
      by (auto split: option.splits)
    have none: "r = None \<and> (\<forall>x. col' x = Grey \<longleftrightarrow> (col(l := Grey)) x = Grey \<and> x \<noteq> l)"
      by (rule visit_acyclic [OF v Cons.prems(2)]) (use Cons.prems(3) in \<open>auto split: if_splits\<close>)
    then have white: "col' x \<noteq> Grey" for x using Cons.prems(3) [of x] by (cases "x = l") simp_all
    have "visit_all E k ls col' = Some cs" using Cons.prems(1) True v none by simp
    from Cons.IH [OF this Cons.prems(2) white] show ?thesis .
  qed (use Cons in simp)
qed simp

lemma visit_all_acc:
  "visit_all E k ls col = Some [] \<Longrightarrow> (\<And>x. col x \<noteq> Grey) \<Longrightarrow>
   (\<And>x. col x = Black \<Longrightarrow> x \<in> Wellfounded.acc (dep_of E)) \<Longrightarrow> set ls \<subseteq> Wellfounded.acc (dep_of E)"
proof (induction ls arbitrary: col)
  case (Cons l ls)
  show ?case
  proof (cases "col l = White")
    case True
    with Cons.prems(1) obtain col' where v: "visit E k [] l (E l) (col(l := Grey)) = Some (None, col')"
      and rest: "visit_all E k ls col' = Some []" by (auto split: option.splits)
    have post: "(\<forall>x. col' x = Black \<longrightarrow> x \<in> Wellfounded.acc (dep_of E)) \<and> col' l = Black \<and>
      (\<forall>x. (col(l := Grey)) x = Black \<longrightarrow> col' x = Black) \<and> (\<forall>x. col' x = Grey \<longleftrightarrow> (col(l := Grey)) x = Grey \<and> x \<noteq> l)"
      by (rule visit_true [OF v]) (use Cons.prems(3) in \<open>auto split: if_splits\<close>)
    then have "col' x \<noteq> Grey" for x using Cons.prems(2) [of x] by (cases "x = l") simp_all
    from Cons.IH [OF rest this] post have "set ls \<subseteq> Wellfounded.acc (dep_of E)" by blast
    with post show ?thesis by simp
  next
    case False
    with Cons.prems(2) have "col l = Black" by (metis colour.exhaust)
    with Cons False show ?thesis by simp
  qed
qed simp

text \<open>The search over all labels returns, and reports no cycle exactly when there is none.\<close>

lemma search_decides:
  assumes closed: "\<forall>x \<in> set ls. set (E x) \<subseteq> set ls" and other: "\<And>x. x \<notin> set ls \<Longrightarrow> E x = []"
  obtains cs where "visit_all E (Suc (length ls)) ls (\<lambda>_. White) = Some cs" "cs = [] \<longleftrightarrow> acyclic (dep_of E)"
proof -
  have "card (set ls) < Suc (length ls)" using card_length [of ls] by simp
  from visit_all_returns [OF _ closed this subset_refl] obtain cs
    where cs: "visit_all E (Suc (length ls)) ls (\<lambda>_. White) = Some cs" by auto
  have "acyclic (dep_of E)" if "cs = []"
  proof -
    from visit_all_acc [OF cs [unfolded that]] have ls: "set ls \<subseteq> Wellfounded.acc (dep_of E)" by simp
    have "x \<in> Wellfounded.acc (dep_of E)" for x
    proof (cases "x \<in> set ls")
      case True
      with ls show ?thesis by (rule subsetD)
    next
      case False
      show ?thesis by (rule accI) (simp add: dep_of_def other [OF False])
    qed
    then have "wf (dep_of E)" by (simp add: acc_wfI)
    then show ?thesis by (rule wf_acyclic)
  qed
  moreover have "cs = []" if "acyclic (dep_of E)" using visit_all_acyclic [OF cs that] by simp
  ultimately show ?thesis using cs that by blast
qed

section \<open>Reading a proposal\<close>

text \<open>\<open>for (const x of v ?? [])\<close>: an array gives its elements, a string its characters, others throw.\<close>

definition iterate :: "json option \<Rightarrow> json list option" where
  "iterate v = (case v of None \<Rightarrow> Some [] | Some JNull \<Rightarrow> Some [] | Some (JArr xs) \<Rightarrow> Some xs
     | Some (JStr s) \<Rightarrow> Some (map (\<lambda>c. JStr [c]) s) | _ \<Rightarrow> None)"

text \<open>\<open>Set.has\<close>: objects and arrays compare by identity, so only primitives are found again.\<close>

definition same_value :: "json \<Rightarrow> json \<Rightarrow> bool" where
  "same_value a b \<longleftrightarrow> a = b \<and> \<not> is_object a"

definition strict_eq :: "json \<Rightarrow> json option \<Rightarrow> bool" where
  "strict_eq a b \<longleftrightarrow> b = Some a \<and> \<not> is_object a \<and> a \<noteq> JNum NNaN"

definition is_array :: "json option \<Rightarrow> bool" where
  "is_array v \<longleftrightarrow> (case v of Some (JArr _) \<Rightarrow> True | _ \<Rightarrow> False)"

definition nonempty_string :: "json option \<Rightarrow> bool" where
  "nonempty_string v \<longleftrightarrow> (case v of Some (JStr s) \<Rightarrow> s \<noteq> [] | _ \<Rightarrow> False)"

text \<open>\<open>(v ?? []).length === 0\<close>.\<close>

definition empty_length :: "json option \<Rightarrow> bool" where
  "empty_length v = (case v of None \<Rightarrow> True | Some JNull \<Rightarrow> True | Some (JArr xs) \<Rightarrow> xs = [] | Some (JStr s) \<Rightarrow> s = []
     | Some (JObj ms) \<Rightarrow> map_of ms ''length'' = Some (JNum (NInt 0)) | _ \<Rightarrow> False)"

definition node_label :: "json \<Rightarrow> string option" where
  "node_label n = (case jget n ''label'' of Some (JStr l) \<Rightarrow> if l = [] then None else Some l | _ \<Rightarrow> None)"

definition plan_kinds :: "string list" where
  "plan_kinds = [''work'', ''synthesis'', ''planning'', ''review'', ''delivery'']"

definition worker_kinds :: "string list" where
  "worker_kinds = [''work'', ''synthesis'', ''delivery'']"

definition of_kind :: "string list \<Rightarrow> json \<Rightarrow> bool" where
  "of_kind ks n \<longleftrightarrow> (case jget n ''kind'' of Some (JStr k) \<Rightarrow> k \<in> set ks | _ \<Rightarrow> False)"

text \<open>Absolute outputs, home directories (\<open>/(^|\/)home\//\<close>) and \<open>tmp\<close> are refused.\<close>

definition output_escapes :: "string \<Rightarrow> bool" where
  "output_escapes s \<longleftrightarrow> prefix ''/'' s \<or> prefix ''~'' s \<or> prefix ''home/'' s \<or> sublist ''/home/'' s \<or>
     prefix ''tmp/'' s \<or> s = ''tmp''"

datatype plan_issue =
  No_nodes | Label_required nat | Duplicate_label nat string | Bad_kind nat | Instructions_required nat
| Bad_capability nat | Outputs_not_array nat | Output_not_string nat | Output_not_relative nat string
| Acceptance_not_array nat | Acceptance_empty nat | Depends_not_array nat
| Self_dependency nat | Unknown_dependency nat json | Dependency_cycle "json option list" | Output_uncovered json
| Report_contract_problem string | Report_output_missing string

definition issue_if :: "bool \<Rightarrow> plan_issue \<Rightarrow> plan_issue list" where
  "issue_if b p = (if b then [p] else [])"

fun output_issues :: "nat \<Rightarrow> json \<Rightarrow> plan_issue list" where
  "output_issues i (JStr s) = (if s = [] then [Output_not_string i] else issue_if (output_escapes s) (Output_not_relative i s))"
| "output_issues i v = [Output_not_string i]"

definition node_issues :: "string list \<Rightarrow> nat \<Rightarrow> json \<Rightarrow> plan_issue list option" where
  "node_issues caps i n = map_option (\<lambda>outputs.
       issue_if (\<not> of_kind plan_kinds n) (Bad_kind i) @
       issue_if (\<not> nonempty_string (jget n ''instructions'')) (Instructions_required i) @
       issue_if (\<not> (\<exists>c \<in> set caps. jget n ''capability'' = Some (JStr c))) (Bad_capability i) @
       issue_if (\<not> is_array (jget n ''outputs'')) (Outputs_not_array i) @
       concat (map (output_issues i) outputs) @
       issue_if (\<not> is_array (jget n ''acceptance'')) (Acceptance_not_array i) @
       issue_if (of_kind worker_kinds n \<and> empty_length (jget n ''acceptance'')) (Acceptance_empty i) @
       issue_if (\<not> is_array (jget n ''dependsOn'')) (Depends_not_array i))
     (iterate (jget n ''outputs''))"

text \<open>The first pass over the nodes, with the labels seen so far.\<close>

fun check_nodes :: "string list \<Rightarrow> nat \<Rightarrow> string list \<Rightarrow> json list \<Rightarrow> (plan_issue list \<times> string list) option" where
  "check_nodes caps i seen [] = Some ([], seen)"
| "check_nodes caps i seen (n # ns) = (case node_label n of
     None \<Rightarrow> map_option (\<lambda>(ps, s). (Label_required i # ps, s)) (check_nodes caps (Suc i) seen ns)
   | Some l \<Rightarrow> (case node_issues caps i n of
       None \<Rightarrow> None
     | Some ps \<Rightarrow> map_option (\<lambda>(qs, s). (issue_if (l \<in> set seen) (Duplicate_label i l) @ ps @ qs, s))
         (check_nodes caps (Suc i) (l # seen) ns)))"

definition dependency_issues :: "string list \<Rightarrow> nat \<Rightarrow> json \<Rightarrow> plan_issue list" where
  "dependency_issues seen i n = (case jget n ''dependsOn'' of
     Some (JArr ds) \<Rightarrow> concat (map (\<lambda>d. if strict_eq d (jget n ''label'') then [Self_dependency i]
         else issue_if (d \<notin> JStr ` set seen) (Unknown_dependency i d)) ds)
   | _ \<Rightarrow> [])"

text \<open>
  The edge map: keys are the labels as they are (\<open>undefined\<close> included), later entries override;
  a \<open>dependsOn\<close> without a \<open>filter\<close> method throws.
\<close>

definition known_dependencies :: "string list \<Rightarrow> json \<Rightarrow> json option list option" where
  "known_dependencies seen n = (case jget n ''dependsOn'' of
     None \<Rightarrow> Some [] | Some JNull \<Rightarrow> Some []
   | Some (JArr ds) \<Rightarrow> Some (map Some (filter (\<lambda>d. d \<in> JStr ` set seen) ds))
   | _ \<Rightarrow> None)"

fun plan_edges :: "string list \<Rightarrow> json list \<Rightarrow> (json option \<times> json option list) list option" where
  "plan_edges seen [] = Some []"
| "plan_edges seen (n # ns) =
     (if \<not> truthy_json (Some n) then plan_edges seen ns
      else case known_dependencies seen n of
        None \<Rightarrow> None
      | Some ds \<Rightarrow> map_option (\<lambda>es. (jget n ''label'', ds) # es) (plan_edges seen ns))"

definition edges_get :: "(json option \<times> json option list) list \<Rightarrow> json option \<Rightarrow> json option list" where
  "edges_get es k = orelse (map_of (rev es) k) []"

definition declared_outputs :: "json list \<Rightarrow> json list" where
  "declared_outputs ns = concat (map (\<lambda>n. case jget n ''outputs'' of Some (JArr xs) \<Rightarrow> xs | _ \<Rightarrow> []) ns)"

definition coverage_issues :: "string list \<Rightarrow> json list \<Rightarrow> json list \<Rightarrow> plan_issue list" where
  "coverage_issues prior ns required =
     (let provided = map JStr prior @ declared_outputs ns
      in concat (map (\<lambda>r. issue_if (\<not> list_ex (same_value r) provided) (Output_uncovered r)) required))"

definition validatePlan :: "string list \<Rightarrow> json \<Rightarrow> string list \<Rightarrow> plan_issue list option" where
  "validatePlan caps p prior = (case jget p ''nodes'' of
     Some (JArr (n # ns)) \<Rightarrow>
       (let nodes = n # ns in case check_nodes caps 0 [] nodes of
          None \<Rightarrow> None
        | Some (ps, seen) \<Rightarrow> (case plan_edges seen nodes of
            None \<Rightarrow> None
          | Some es \<Rightarrow> (case visit_all (edges_get es) (Suc (length es)) (map fst es) (\<lambda>_. White) of
              None \<Rightarrow> None
            | Some cs \<Rightarrow> map_option (\<lambda>required.
                ps @ concat (map (\<lambda>(i, m). dependency_issues seen i m) (enumerate 0 nodes)) @
                map Dependency_cycle cs @ coverage_issues prior nodes required)
                (iterate (jget p ''requiredOutputs'')))))
   | _ \<Rightarrow> Some [No_nodes])"

section \<open>What an accepted plan is\<close>

definition node_ok :: "string list \<Rightarrow> json \<Rightarrow> bool" where
  "node_ok caps n \<longleftrightarrow> node_label n \<noteq> None \<and> of_kind plan_kinds n \<and> nonempty_string (jget n ''instructions'') \<and>
     (\<exists>c \<in> set caps. jget n ''capability'' = Some (JStr c)) \<and>
     (\<exists>outs. jget n ''outputs'' = Some (JArr (map JStr outs)) \<and> (\<forall>s \<in> set outs. s \<noteq> [] \<and> \<not> output_escapes s)) \<and>
     (\<exists>cs. jget n ''acceptance'' = Some (JArr cs) \<and> (of_kind worker_kinds n \<longrightarrow> cs \<noteq> [])) \<and>
     is_array (jget n ''dependsOn'')"

definition depends_on :: "json \<Rightarrow> json list" where
  "depends_on n = (case jget n ''dependsOn'' of Some (JArr ds) \<Rightarrow> ds | _ \<Rightarrow> [])"

definition plan_ok :: "string list \<Rightarrow> string list \<Rightarrow> json \<Rightarrow> bool" where
  "plan_ok caps prior p \<longleftrightarrow> (\<exists>nodes required. jget p ''nodes'' = Some (JArr nodes) \<and> nodes \<noteq> [] \<and>
     (\<forall>n \<in> set nodes. node_ok caps n) \<and> distinct (map node_label nodes) \<and>
     (\<forall>n \<in> set nodes. \<forall>d \<in> set (depends_on n). \<exists>m \<in> set nodes. \<exists>l. d = JStr l \<and> node_label m = Some l) \<and>
     acyclic {(d, l). \<exists>n \<in> set nodes. node_label n = Some l \<and> JStr d \<in> set (depends_on n)} \<and>
     iterate (jget p ''requiredOutputs'') = Some required \<and>
     set required \<subseteq> JStr ` set prior \<union> set (declared_outputs nodes))"

section \<open>The validator decides it\<close>

lemma issue_if_Nil [simp]: "issue_if b p = [] \<longleftrightarrow> \<not> b"
  by (simp add: issue_if_def)

lemma is_array_iff: "is_array v \<longleftrightarrow> (\<exists>xs. v = Some (JArr xs))"
  by (auto simp: is_array_def split: option.splits json.splits)

lemma output_issues_Nil: "output_issues i v = [] \<longleftrightarrow> (\<exists>s. v = JStr s \<and> s \<noteq> [] \<and> \<not> output_escapes s)"
  by (cases v) auto

lemma outputs_ok:
  "concat (map (output_issues i) xs) = [] \<longleftrightarrow> (\<exists>outs. xs = map JStr outs \<and> (\<forall>s \<in> set outs. s \<noteq> [] \<and> \<not> output_escapes s))"
proof (induction xs)
  case (Cons x xs)
  have "(\<exists>outs. x # xs = map JStr outs \<and> (\<forall>s \<in> set outs. s \<noteq> [] \<and> \<not> output_escapes s)) \<longleftrightarrow>
    output_issues i x = [] \<and> (\<exists>outs. xs = map JStr outs \<and> (\<forall>s \<in> set outs. s \<noteq> [] \<and> \<not> output_escapes s))"
    by (fastforce simp: output_issues_Nil Cons_eq_map_conv)
  with Cons.IH show ?case by simp
qed simp

lemma node_issues_ok:
  "node_label n \<noteq> None \<Longrightarrow> node_issues caps i n = Some [] \<longleftrightarrow> node_ok caps n"
proof -
  assume label: "node_label n \<noteq> None"
  have acc: "is_array (jget n ''acceptance'') \<and> \<not> (of_kind worker_kinds n \<and> empty_length (jget n ''acceptance'')) \<longleftrightarrow>
    (\<exists>cs. jget n ''acceptance'' = Some (JArr cs) \<and> (of_kind worker_kinds n \<longrightarrow> cs \<noteq> []))"
    by (auto simp: is_array_iff empty_length_def)
  have out: "(\<exists>xs. iterate (jget n ''outputs'') = Some xs \<and> is_array (jget n ''outputs'') \<and> concat (map (output_issues i) xs) = []) \<longleftrightarrow>
    (\<exists>outs. jget n ''outputs'' = Some (JArr (map JStr outs)) \<and> (\<forall>s \<in> set outs. s \<noteq> [] \<and> \<not> output_escapes s))"
    unfolding outputs_ok is_array_iff by (auto simp: iterate_def)
  have "node_issues caps i n = Some [] \<longleftrightarrow> of_kind plan_kinds n \<and> nonempty_string (jget n ''instructions'') \<and>
     (\<exists>c \<in> set caps. jget n ''capability'' = Some (JStr c)) \<and>
     (\<exists>xs. iterate (jget n ''outputs'') = Some xs \<and> is_array (jget n ''outputs'') \<and> concat (map (output_issues i) xs) = []) \<and>
     (is_array (jget n ''acceptance'') \<and> \<not> (of_kind worker_kinds n \<and> empty_length (jget n ''acceptance''))) \<and>
     is_array (jget n ''dependsOn'')"
    by (auto simp: node_issues_def)
  then show ?thesis unfolding acc out node_ok_def using label by blast
qed

lemma check_nodes_throws:
  "check_nodes caps i seen ns = None \<longleftrightarrow> (\<exists>n \<in> set ns. node_label n \<noteq> None \<and> iterate (jget n ''outputs'') = None)"
proof (induction ns arbitrary: i seen)
  case (Cons n ns)
  then show ?case
    by (cases "node_label n"; cases "iterate (jget n ''outputs'')") (auto simp: node_issues_def)
qed simp

lemma check_nodes_seen:
  "check_nodes caps i seen ns = Some (ps, s) \<Longrightarrow> set s = set seen \<union> {l. \<exists>n \<in> set ns. node_label n = Some l}"
proof (induction ns arbitrary: i seen ps s)
  case (Cons n ns)
  show ?case
  proof (cases "node_label n")
    case None
    with Cons.prems obtain qs where "check_nodes caps (Suc i) seen ns = Some (qs, s)" by (auto)
    from Cons.IH [OF this] None show ?thesis by auto
  next
    case (Some l)
    with Cons.prems obtain qs where "check_nodes caps (Suc i) (l # seen) ns = Some (qs, s)"
      by (auto split: option.splits)
    from Cons.IH [OF this] Some show ?thesis by auto
  qed
qed simp

lemma check_nodes_ok:
  "(\<exists>s. check_nodes caps i seen ns = Some ([], s)) \<longleftrightarrow>
    (\<forall>n \<in> set ns. node_ok caps n \<and> node_label n \<notin> Some ` set seen) \<and> distinct (map node_label ns)"
proof (induction ns arbitrary: i seen)
  case (Cons n ns)
  show ?case
  proof (cases "node_label n")
    case None
    then show ?thesis by (auto simp: node_ok_def)
  next
    case (Some l)
    have "(\<exists>s. check_nodes caps i seen (n # ns) = Some ([], s)) \<longleftrightarrow>
      node_issues caps i n = Some [] \<and> l \<notin> set seen \<and> (\<exists>s. check_nodes caps (Suc i) (l # seen) ns = Some ([], s))"
      using Some by (auto split: option.splits)
    also have "\<dots> \<longleftrightarrow> node_ok caps n \<and> l \<notin> set seen \<and>
      (\<forall>m \<in> set ns. node_ok caps m \<and> node_label m \<notin> Some ` set (l # seen)) \<and> distinct (map node_label ns)"
      using node_issues_ok [of n caps i] Some Cons.IH [of "Suc i" "l # seen"] by auto
    finally show ?thesis using Some by (auto simp: image_iff)
  qed
qed simp

lemma known_dependencies_throws: "known_dependencies seen n = None \<longleftrightarrow> known_dependencies [] n = None"
  by (simp add: known_dependencies_def split: option.splits json.splits)

lemma plan_edges_throws:
  "plan_edges seen ns = None \<longleftrightarrow> (\<exists>n \<in> set ns. truthy_json (Some n) \<and> known_dependencies [] n = None)"
proof (induction ns)
  case (Cons n ns)
  then show ?case using known_dependencies_throws [of seen n] by (cases "known_dependencies seen n") auto
qed simp

lemma plan_edges_entries:
  "plan_edges seen ns = Some es \<Longrightarrow>
    set es = {(jget n ''label'', ds) |n ds. n \<in> set ns \<and> truthy_json (Some n) \<and> known_dependencies seen n = Some ds}"
  by (induction ns arbitrary: es) (auto split: if_splits option.splits)

lemma label_truthy: "node_label n = Some l \<Longrightarrow> truthy_json (Some n) \<and> jget n ''label'' = Some (JStr l)"
  by (cases n) (auto simp: node_label_def jget_def truthy_json_def split: option.splits json.splits if_splits)

lemma known_dependencies_in: "known_dependencies seen n = Some ds \<Longrightarrow> set ds \<subseteq> (\<lambda>l. Some (JStr l)) ` set seen"
  by (auto simp: known_dependencies_def split: option.splits json.splits)

lemma edges_closed:
  assumes check: "check_nodes caps 0 [] ns = Some (ps, seen)" and edges: "plan_edges seen ns = Some es"
  shows "\<forall>x \<in> set (map fst es). set (edges_get es x) \<subseteq> set (map fst es)" "\<And>x. x \<notin> set (map fst es) \<Longrightarrow> edges_get es x = []"
proof -
  have labels: "Some (JStr l) \<in> fst ` set es" if "l \<in> set seen" for l
  proof -
    from that check_nodes_seen [OF check] obtain n where n: "n \<in> set ns" "node_label n = Some l" by auto
    have "known_dependencies seen n \<noteq> None"
    proof
      assume "known_dependencies seen n = None"
      then have "known_dependencies [] n = None" by (simp only: known_dependencies_throws [of seen])
      with n label_truthy [OF n(2)] plan_edges_throws [of seen ns] edges show False by auto
    qed
    then obtain ds where "known_dependencies seen n = Some ds" by blast
    with n label_truthy [OF n(2)] show ?thesis unfolding plan_edges_entries [OF edges] by force
  qed
  show "\<forall>x \<in> set (map fst es). set (edges_get es x) \<subseteq> set (map fst es)"
  proof
    fix x assume "x \<in> set (map fst es)"
    show "set (edges_get es x) \<subseteq> set (map fst es)"
    proof (cases "map_of (rev es) x")
      case (Some ds)
      then have "(x, ds) \<in> set es" by (auto dest: map_of_SomeD)
      then obtain n where "known_dependencies seen n = Some ds" unfolding plan_edges_entries [OF edges] by auto
      from known_dependencies_in [OF this] labels Some show ?thesis by (auto simp: edges_get_def)
    qed (simp add: edges_get_def)
  qed
  show "edges_get es x = []" if "x \<notin> set (map fst es)" for x
    using that map_of_eq_None_iff [of "rev es" x] by (simp add: edges_get_def)
qed

lemma acyclic_map: "acyclic S \<Longrightarrow> (\<And>a b. (a, b) \<in> R \<Longrightarrow> (f a, f b) \<in> S) \<Longrightarrow> acyclic R"
proof (rule acyclicI, rule allI, rule notI)
  fix x assume S: "acyclic S" and step: "\<And>a b. (a, b) \<in> R \<Longrightarrow> (f a, f b) \<in> S" and "(x, x) \<in> R\<^sup>+"
  have "(f a, f b) \<in> S\<^sup>+" if "(a, b) \<in> R\<^sup>+" for a b
    using that by induction (auto intro: step trancl_into_trancl)
  with \<open>(x, x) \<in> R\<^sup>+\<close> S show False by (auto simp: acyclic_def)
qed

lemma dependency_issues_Nil:
  "dependency_issues seen i n = [] \<longleftrightarrow>
    (\<forall>d \<in> set (depends_on n). \<not> strict_eq d (jget n ''label'') \<and> d \<in> JStr ` set seen)"
proof -
  have "dependency_issues seen i n = concat (map (\<lambda>d. if strict_eq d (jget n ''label'') then [Self_dependency i]
         else issue_if (d \<notin> JStr ` set seen) (Unknown_dependency i d)) (depends_on n))"
    by (simp add: dependency_issues_def depends_on_def split: option.split json.split)
  then show ?thesis by (simp only: concat_map_Nil) auto
qed

lemma enumerate_all: "(\<forall>x \<in> set (enumerate i ns). P (snd x)) \<longleftrightarrow> (\<forall>n \<in> set ns. P n)"
  by (induction ns arbitrary: i) auto

lemma all_dependency_issues_Nil:
  "concat (map (\<lambda>(i, m). dependency_issues seen i m) (enumerate 0 ns)) = [] \<longleftrightarrow>
    (\<forall>n \<in> set ns. \<forall>d \<in> set (depends_on n). \<not> strict_eq d (jget n ''label'') \<and> d \<in> JStr ` set seen)"
  using enumerate_all [of 0 ns "\<lambda>n. \<forall>d \<in> set (depends_on n). \<not> strict_eq d (jget n ''label'') \<and> d \<in> JStr ` set seen"]
  by (simp add: dependency_issues_Nil case_prod_beta)

lemma node_ok_outputs: "\<forall>n \<in> set ns. node_ok caps n \<Longrightarrow> set (declared_outputs ns) \<subseteq> range JStr"
  by (induction ns) (auto simp: declared_outputs_def node_ok_def)

lemma coverage_issues_Nil:
  assumes "\<forall>n \<in> set ns. node_ok caps n"
  shows "coverage_issues prior ns rs = [] \<longleftrightarrow> set rs \<subseteq> JStr ` set prior \<union> set (declared_outputs ns)"
proof -
  have "set (map JStr prior @ declared_outputs ns) \<subseteq> range JStr" using node_ok_outputs [OF assms] by auto
  then have "list_ex (same_value r) (map JStr prior @ declared_outputs ns) \<longleftrightarrow> r \<in> set (map JStr prior @ declared_outputs ns)" for r
    by (fastforce simp: list_ex_iff same_value_def)
  then show ?thesis by (auto simp: coverage_issues_def Let_def)
qed

text \<open>With distinct labels and declared dependencies, the edge map is the dependency relation.\<close>

lemma plan_edges_acyclic:
  assumes ok: "\<forall>n \<in> set ns. node_ok caps n" and dist: "distinct (map node_label ns)"
    and seen: "set seen = {l. \<exists>n \<in> set ns. node_label n = Some l}" and edges: "plan_edges seen ns = Some es"
    and known: "\<forall>n \<in> set ns. set (depends_on n) \<subseteq> JStr ` set seen"
  shows "acyclic (dep_of (edges_get es)) \<longleftrightarrow>
    acyclic {(d, l). \<exists>n \<in> set ns. node_label n = Some l \<and> JStr d \<in> set (depends_on n)}" (is "_ \<longleftrightarrow> acyclic ?R")
proof -
  let ?f = "\<lambda>s. Some (JStr s)" and ?g = "\<lambda>k. case k of Some (JStr s) \<Rightarrow> s | _ \<Rightarrow> []"
  have label: "\<exists>l. node_label n = Some l \<and> jget n ''label'' = Some (JStr l) \<and> truthy_json (Some n)" if "n \<in> set ns" for n
    using that ok label_truthy by (fastforce simp: node_ok_def)
  have deps: "known_dependencies seen n = Some (map Some (depends_on n))" if "n \<in> set ns" for n
  proof -
    from that ok obtain ds where ds: "jget n ''dependsOn'' = Some (JArr ds)" by (auto simp: node_ok_def is_array_iff)
    then have "depends_on n = ds" by (simp add: depends_on_def)
    with that known have "filter (\<lambda>d. d \<in> JStr ` set seen) ds = ds" by (auto simp: filter_id_conv)
    with ds show ?thesis by (simp add: known_dependencies_def depends_on_def)
  qed
  have es: "es = map (\<lambda>n. (jget n ''label'', map Some (depends_on n))) ns"
    using edges label deps by (induction ns arbitrary: es) (fastforce split: option.splits)+
  have inj: "inj_on (\<lambda>n. jget n ''label'') (set ns)"
  proof (rule inj_onI)
    fix m n assume mn: "m \<in> set ns" "n \<in> set ns" "jget m ''label'' = jget n ''label''"
    with label [of m] label [of n] have "node_label m = node_label n" by auto
    with mn dist show "m = n" by (auto simp: distinct_map dest: inj_onD)
  qed
  have "distinct (map fst es)" unfolding es using dist inj by (simp add: o_def distinct_map)
  then have uniq: "distinct (map fst (rev es))" by (simp add: rev_map [symmetric])
  have get: "edges_get es (jget n ''label'') = map Some (depends_on n)" if "n \<in> set ns" for n
  proof -
    have "(jget n ''label'', map Some (depends_on n)) \<in> set (rev es)" using that by (simp add: es)
    from map_of_is_SomeI [OF uniq this] show ?thesis by (simp add: edges_get_def)
  qed
  show ?thesis
  proof
    assume A: "acyclic (dep_of (edges_get es))"
    show "acyclic ?R"
    proof (rule acyclic_map [where f = ?f, OF A])
      fix d l assume "(d, l) \<in> ?R"
      then obtain n where n: "n \<in> set ns" "node_label n = Some l" "JStr d \<in> set (depends_on n)" by auto
      with get [OF n(1)] label_truthy [OF n(2)] show "(?f d, ?f l) \<in> dep_of (edges_get es)" by (simp add: dep_of_def)
    qed
  next
    assume A: "acyclic ?R"
    show "acyclic (dep_of (edges_get es))"
    proof (rule acyclic_map [where f = ?g, OF A])
      fix a k assume "(a, k) \<in> dep_of (edges_get es)"
      then have ak: "a \<in> set (edges_get es k)" by (simp add: dep_of_def)
      then obtain ds where "map_of (rev es) k = Some ds" by (cases "map_of (rev es) k") (auto simp: edges_get_def)
      then have "(k, ds) \<in> set es" by (auto dest: map_of_SomeD)
      then obtain n where n: "n \<in> set ns" "k = jget n ''label''" by (auto simp: es)
      with ak get [OF n(1)] have "a \<in> Some ` set (depends_on n)" by simp
      with known n(1) obtain d where d: "a = ?f d" "JStr d \<in> set (depends_on n)" by blast
      from label [OF n(1)] obtain l where "node_label n = Some l" "k = ?f l" using n(2) by auto
      with d n(1) show "(?g a, ?g k) \<in> ?R" by auto
    qed
  qed
qed

text \<open>The steps of \<open>validatePlan\<close> on a non-empty array of nodes.\<close>

lemma validatePlan_nodes:
  assumes nodes: "jget p ''nodes'' = Some (JArr ns)" and ne: "ns \<noteq> []"
  shows "validatePlan caps p prior = (case check_nodes caps 0 [] ns of
      None \<Rightarrow> None
    | Some (ps, seen) \<Rightarrow> (case plan_edges seen ns of
        None \<Rightarrow> None
      | Some es \<Rightarrow> (case visit_all (edges_get es) (Suc (length (map fst es))) (map fst es) (\<lambda>_. White) of
          None \<Rightarrow> None
        | Some cs \<Rightarrow> map_option (\<lambda>required.
            ps @ concat (map (\<lambda>(i, m). dependency_issues seen i m) (enumerate 0 ns)) @
            map Dependency_cycle cs @ coverage_issues prior ns required)
            (iterate (jget p ''requiredOutputs'')))))"
proof -
  from ne obtain n ms where "ns = n # ms" by (cases ns) auto
  then show ?thesis by (simp only: validatePlan_def nodes option.case json.case list.case Let_def length_map)
qed

lemma validatePlan_no_nodes:
  "\<nexists>ns. jget p ''nodes'' = Some (JArr ns) \<and> ns \<noteq> [] \<Longrightarrow> validatePlan caps p prior = Some [No_nodes]"
  by (auto simp: validatePlan_def split: option.split json.split list.split)

text \<open>
  The fuel of the search is enough: on every proposal, however deep or cyclic its dependencies, the model answers,
  unless the proposal makes the validator iterate over something that is neither absent nor an array nor a string:
  it throws exactly when the outputs of a labelled node, the \<open>dependsOn\<close> of a node or the required outputs are such
  a value. The recursion of \<open>visit\<close> has no bound on its depth; the size of the JavaScript stack, which a chain of
  thousands of nodes exceeds, is not modelled.
\<close>

theorem validatePlan_returns:
  "validatePlan caps p prior = None \<longleftrightarrow> (\<exists>ns. jget p ''nodes'' = Some (JArr ns) \<and> ns \<noteq> [] \<and>
     ((\<exists>n \<in> set ns. node_label n \<noteq> None \<and> iterate (jget n ''outputs'') = None) \<or>
      (\<exists>n \<in> set ns. truthy_json (Some n) \<and> known_dependencies [] n = None) \<or>
      iterate (jget p ''requiredOutputs'') = None))"
proof (cases "\<exists>ns. jget p ''nodes'' = Some (JArr ns) \<and> ns \<noteq> []")
  case True
  then obtain ns where ns: "jget p ''nodes'' = Some (JArr ns)" "ns \<noteq> []" by blast
  show ?thesis
  proof (cases "check_nodes caps 0 [] ns")
    case None
    with ns check_nodes_throws [of caps 0 "[]" ns] show ?thesis by (simp add: validatePlan_nodes [OF ns])
  next
    case (Some r)
    then obtain ps seen where check: "check_nodes caps 0 [] ns = Some (ps, seen)" by (cases r) blast
    then have no1: "\<not> (\<exists>n \<in> set ns. node_label n \<noteq> None \<and> iterate (jget n ''outputs'') = None)"
      using check_nodes_throws [of caps 0 "[]" ns] by simp
    show ?thesis
    proof (cases "plan_edges seen ns")
      case None
      with ns check plan_edges_throws [of seen ns] show ?thesis by (simp add: validatePlan_nodes [OF ns])
    next
      case (Some es)
      then have no2: "\<not> (\<exists>n \<in> set ns. truthy_json (Some n) \<and> known_dependencies [] n = None)"
        using plan_edges_throws [of seen ns] by simp
      from search_decides [OF edges_closed [OF check Some]] obtain cs
        where "visit_all (edges_get es) (Suc (length (map fst es))) (map fst es) (\<lambda>_. White) = Some cs" by blast
      with check Some have "validatePlan caps p prior = None \<longleftrightarrow> iterate (jget p ''requiredOutputs'') = None"
        by (simp add: validatePlan_nodes [OF ns])
      with no1 no2 ns show ?thesis by auto
    qed
  qed
next
  case False
  with validatePlan_no_nodes [OF this] show ?thesis by auto
qed

text \<open>
  C10: a plan passes without a diagnostic exactly when its nodes are well formed (a label, a known
  kind, instructions, a supported capability, workspace-relative outputs, acceptance criteria for
  worker nodes), labels are distinct, every dependency is declared, the dependency relation has no
  cycle, and every required output is declared by a node or by an earlier revision.
\<close>

theorem validatePlan_iff: "validatePlan caps p prior = Some [] \<longleftrightarrow> plan_ok caps prior p"
proof (cases "\<exists>ns. jget p ''nodes'' = Some (JArr ns) \<and> ns \<noteq> []")
  case True
  then obtain ns where ns: "jget p ''nodes'' = Some (JArr ns)" "ns \<noteq> []" by blast
  note val = validatePlan_nodes [OF ns, of caps prior]
  let ?nodes = "(\<forall>n \<in> set ns. node_ok caps n) \<and> distinct (map node_label ns)"
  let ?R = "{(d, l). \<exists>n \<in> set ns. node_label n = Some l \<and> JStr d \<in> set (depends_on n)}"
  show ?thesis
  proof (cases "?nodes")
    case False
    then have "\<nexists>s. check_nodes caps 0 [] ns = Some ([], s)" using check_nodes_ok [of caps 0 "[]" ns] by simp
    then have "validatePlan caps p prior \<noteq> Some []" by (auto simp: val split: option.splits)
    moreover have "\<not> plan_ok caps prior p" using False ns by (auto simp: plan_ok_def)
    ultimately show ?thesis by simp
  next
    case True
    then obtain seen where check: "check_nodes caps 0 [] ns = Some ([], seen)" using check_nodes_ok [of caps 0 "[]" ns] by auto
    have seen: "set seen = {l. \<exists>n \<in> set ns. node_label n = Some l}" using check_nodes_seen [OF check] by simp
    have "plan_edges seen ns \<noteq> None"
      using True by (auto simp: plan_edges_throws node_ok_def is_array_iff known_dependencies_def)
    then obtain es where edges: "plan_edges seen ns = Some es" by blast
    from search_decides [OF edges_closed [OF check edges]] obtain cs
      where cs: "visit_all (edges_get es) (Suc (length (map fst es))) (map fst es) (\<lambda>_. White) = Some cs"
        "cs = [] \<longleftrightarrow> acyclic (dep_of (edges_get es))" by blast
    have result: "validatePlan caps p prior = Some [] \<longleftrightarrow>
      (\<forall>n \<in> set ns. \<forall>d \<in> set (depends_on n). \<not> strict_eq d (jget n ''label'') \<and> d \<in> JStr ` set seen) \<and> cs = [] \<and>
      (\<exists>rs. iterate (jget p ''requiredOutputs'') = Some rs \<and> set rs \<subseteq> JStr ` set prior \<union> set (declared_outputs ns))"
    proof -
      have "validatePlan caps p prior = map_option (\<lambda>required. [] @
          concat (map (\<lambda>(i, m). dependency_issues seen i m) (enumerate 0 ns)) @
          map Dependency_cycle cs @ coverage_issues prior ns required) (iterate (jget p ''requiredOutputs''))"
        by (simp only: val check edges cs(1) option.case prod.case)
      then show ?thesis using coverage_issues_Nil [of ns caps prior] True
        by (cases "iterate (jget p ''requiredOutputs'')")
          (simp_all add: all_dependency_issues_Nil del: concat_eq_Nil_conv)
    qed
    have declared: "(\<forall>n \<in> set ns. \<forall>d \<in> set (depends_on n). \<exists>m \<in> set ns. \<exists>l. d = JStr l \<and> node_label m = Some l) \<longleftrightarrow>
      (\<forall>n \<in> set ns. set (depends_on n) \<subseteq> JStr ` set seen)"
      unfolding seen by blast
    have spec: "plan_ok caps prior p \<longleftrightarrow> (\<forall>n \<in> set ns. set (depends_on n) \<subseteq> JStr ` set seen) \<and> acyclic ?R \<and>
      (\<exists>rs. iterate (jget p ''requiredOutputs'') = Some rs \<and> set rs \<subseteq> JStr ` set prior \<union> set (declared_outputs ns))"
      unfolding declared [symmetric] using True ns by (simp add: plan_ok_def)
    have self: "\<not> strict_eq d (jget n ''label'')" if "acyclic ?R" "n \<in> set ns" "d \<in> set (depends_on n)" for n d
    proof
      assume "strict_eq d (jget n ''label'')"
      moreover from True that(2) obtain l where l: "node_label n = Some l" by (auto simp: node_ok_def)
      ultimately have "d = JStr l" using label_truthy [OF l] by (simp add: strict_eq_def)
      with that(2,3) l have "(l, l) \<in> ?R" by auto
      with that(1) show False unfolding acyclic_def by blast
    qed
    show ?thesis
    proof (cases "\<forall>n \<in> set ns. set (depends_on n) \<subseteq> JStr ` set seen")
      case known: True
      have "acyclic (dep_of (edges_get es)) \<longleftrightarrow> acyclic ?R"
        using plan_edges_acyclic [OF _ _ seen edges known] True by blast
      with result spec cs(2) known self show ?thesis by blast
    next
      case False
      then show ?thesis unfolding result spec by blast
    qed
  qed
next
  case False
  with validatePlan_no_nodes [OF this] show ?thesis by (auto simp: plan_ok_def)
qed

section \<open>Host identities of nodes\<close>

text \<open>
  \<open>n${revision}_${i}_${label}\<close>, the label reduced to letters, digits, \<open>_\<close> and \<open>-\<close> and cut at 24; the
  host's own review node is \<open>n${revision}_host_review\<close>. The labels of an accepted plan are strings;
  another value of a member is read as the empty string.
\<close>

definition id_char :: "char \<Rightarrow> bool" where
  "id_char c \<longleftrightarrow> (let n = (of_char c :: nat) in
     48 \<le> n \<and> n \<le> 57 \<or> 65 \<le> n \<and> n \<le> 90 \<or> 97 \<le> n \<and> n \<le> 122 \<or> c = CHR ''_'' \<or> c = CHR ''-'')"

definition sanitize_label :: "string \<Rightarrow> string" where
  "sanitize_label l = take 24 (map (\<lambda>c. if id_char c then c else CHR ''_'') l)"

definition label_text :: "json \<Rightarrow> string" where
  "label_text n = (case jget n ''label'' of Some (JStr l) \<Rightarrow> l | _ \<Rightarrow> [])"

definition host_id :: "nat \<Rightarrow> nat \<Rightarrow> json \<Rightarrow> string" where
  "host_id revision i n = ''n'' @ show_nat revision @ ''_'' @ show_nat i @ ''_'' @ sanitize_label (label_text n)"

definition host_review_id :: "nat \<Rightarrow> string" where
  "host_review_id revision = ''n'' @ show_nat revision @ ''_host_review''"

definition plan_nodes :: "json \<Rightarrow> json list" where
  "plan_nodes p = (case jget p ''nodes'' of Some (JArr ns) \<Rightarrow> ns | _ \<Rightarrow> [])"

definition hostIds :: "nat \<Rightarrow> json \<Rightarrow> string list" where
  "hostIds revision p = map (\<lambda>(i, n). host_id revision i n) (enumerate 0 (plan_nodes p))"

text \<open>
  The walk of \<open>planNodeSpec\<close> over the nodes of a stored plan: the node whose host id is the one asked
  for. A label that is no string throws, which the source answers with \<open>null\<close>.
\<close>

fun scan_nodes :: "nat \<Rightarrow> nat \<Rightarrow> json list \<Rightarrow> string \<Rightarrow> json option" where
  "scan_nodes revision i [] nodeId = None"
| "scan_nodes revision i (n # ns) nodeId =
     (if \<not> is_string (jget n ''label'') then None
      else if host_id revision i n = nodeId then Some n else scan_nodes revision (Suc i) ns nodeId)"

definition digit :: "char \<Rightarrow> bool" where
  "digit c \<longleftrightarrow> 48 \<le> (of_char c :: nat) \<and> (of_char c :: nat) \<le> 57"

lemma of_char_digit: "m < 10 \<Longrightarrow> (of_char (char_of (48 + m :: nat)) :: nat) = 48 + m"
  by simp

lemma show_nat_digits: "\<forall>c \<in> set (show_nat n). digit c"
proof (induction n rule: show_nat.induct)
  case (1 n)
  have "digit (char_of (48 + m :: nat))" if "m < 10" for m using that by (simp add: digit_def)
  with 1 show ?case by (subst show_nat.simps) auto
qed

lemma show_nat_inject [simp]: "show_nat m = show_nat n \<longleftrightarrow> m = n"
proof (induction m arbitrary: n rule: show_nat.induct)
  case (1 m)
  have single: "char_of (48 + a :: nat) = (char_of (48 + b) :: char) \<longleftrightarrow> a = b" if "a < 10" "b < 10" for a b :: nat
  proof
    assume "char_of (48 + a) = (char_of (48 + b) :: char)"
    then have "(of_char (char_of (48 + a) :: char) :: nat) = of_char (char_of (48 + b) :: char)" by simp
    then show "a = b" using that by simp
  qed simp
  show ?case
  proof (cases "m < 10"; cases "n < 10")
    assume "m < 10" "n < 10"
    then show ?thesis using single by (subst (1 2) show_nat.simps) simp
  next
    assume m: "m < 10" and n: "\<not> n < 10"
    show ?thesis using m n show_nat_nonempty [of "n div 10"]
      by (subst show_nat.simps, subst (2) show_nat.simps) (auto simp del: show_nat_nonempty)
  next
    assume m: "\<not> m < 10" and n: "n < 10"
    show ?thesis using m n show_nat_nonempty [of "m div 10"]
      by (subst show_nat.simps, subst (2) show_nat.simps) (auto simp del: show_nat_nonempty)
  next
    assume m: "\<not> m < 10" and n: "\<not> n < 10"
    have "show_nat m = show_nat n \<longleftrightarrow> m div 10 = n div 10 \<and> m mod 10 = n mod 10"
      using m n 1 [of "n div 10"] single [of "m mod 10" "n mod 10"] by (subst (1 2) show_nat.simps) simp
    then show ?thesis by (metis div_mult_mod_eq)
  qed
qed

text \<open>A run of digits followed by an underscore is read back.\<close>

lemma digits_prefix:
  assumes "\<forall>c \<in> set xs. digit c" and "\<forall>c \<in> set ys. digit c" and "xs @ CHR ''_'' # u = ys @ CHR ''_'' # v"
  shows "xs = ys \<and> u = v"
  using assms
proof (induction xs arbitrary: ys)
  case Nil
  then show ?case by (cases ys) (auto simp: digit_def)
next
  case (Cons x xs)
  then show ?case by (cases ys) (auto simp: digit_def)
qed

lemma numeral_prefix:
  assumes "show_nat m @ CHR ''_'' # u = show_nat n @ CHR ''_'' # v"
  shows "m = n \<and> u = v"
  using digits_prefix [OF show_nat_digits show_nat_digits assms] by simp

lemma host_id_inject:
  assumes "host_id r i n = host_id r' j m"
  shows "r = r' \<and> i = j"
proof -
  have "show_nat r @ CHR ''_'' # (show_nat i @ CHR ''_'' # sanitize_label (label_text n)) =
    show_nat r' @ CHR ''_'' # (show_nat j @ CHR ''_'' # sanitize_label (label_text m))"
    using assms by (simp add: host_id_def)
  from numeral_prefix [OF this] show ?thesis by (auto dest: numeral_prefix)
qed

lemma host_id_not_review: "host_id r i n \<noteq> host_review_id r'"
proof
  assume "host_id r i n = host_review_id r'"
  then have "show_nat r @ CHR ''_'' # (show_nat i @ CHR ''_'' # sanitize_label (label_text n)) =
    show_nat r' @ CHR ''_'' # ''host_review''"
    by (simp add: host_id_def host_review_id_def)
  from numeral_prefix [OF this] have id: "show_nat i @ CHR ''_'' # sanitize_label (label_text n) = ''host_review''" by simp
  obtain c cs where c: "show_nat i = c # cs" by (metis show_nat_nonempty list.exhaust)
  with show_nat_digits [of i] have "digit c" by simp
  with id c show False by (simp add: digit_def)
qed

lemma distinct_hostIds: "distinct (hostIds r p)"
proof -
  have "inj_on (\<lambda>(i, n). host_id r i n) (set (enumerate 0 ns))" for ns :: "json list"
  proof (rule inj_onI, clarify)
    fix i j n m
    assume e: "(i, n) \<in> set (enumerate 0 ns)" "(j, m) \<in> set (enumerate 0 ns)" and "host_id r i n = host_id r j m"
    then have "i = j" by (auto dest: host_id_inject)
    with e show "i = j \<and> n = m" by (simp add: in_set_enumerate_eq)
  qed
  then show ?thesis by (simp add: hostIds_def distinct_map)
qed

lemma scan_nodes_nth:
  assumes "i < length ns" "\<And>n. n \<in> set ns \<Longrightarrow> is_string (jget n ''label'')"
  shows "scan_nodes r k ns (host_id r (k + i) (ns ! i)) = Some (ns ! i)"
  using assms
proof (induction ns arbitrary: i k)
  case (Cons n ns)
  show ?case
  proof (cases i)
    case (Suc j)
    have "host_id r k n \<noteq> host_id r (k + i) ((n # ns) ! i)" using host_id_inject Suc by fastforce
    with Cons.IH [of j "Suc k"] Cons.prems Suc show ?thesis by simp
  qed (use Cons.prems in simp)
qed simp

lemma host_ids_unique:
  assumes i: "i < length (plan_nodes p)" and labels: "\<And>n. n \<in> set (plan_nodes p) \<Longrightarrow> is_string (jget n ''label'')"
  shows "scan_nodes r 0 (plan_nodes p) (hostIds r p ! i) = Some (plan_nodes p ! i)"
    and "hostIds r p ! i = hostIds r' q ! j \<Longrightarrow> j < length (plan_nodes q) \<Longrightarrow> r = r' \<and> i = j"
    and "hostIds r p ! i \<noteq> host_review_id r'"
proof -
  have ids: "hostIds s t ! k = host_id s k (plan_nodes t ! k)" if "k < length (plan_nodes t)" for s t k
    using that by (simp add: hostIds_def nth_enumerate_eq)
  show "scan_nodes r 0 (plan_nodes p) (hostIds r p ! i) = Some (plan_nodes p ! i)"
    using scan_nodes_nth [of i "plan_nodes p" r 0] i labels by (simp add: ids)
  show "hostIds r p ! i \<noteq> host_review_id r'" using i by (simp add: ids host_id_not_review)
  show "r = r' \<and> i = j" if "hostIds r p ! i = hostIds r' q ! j" "j < length (plan_nodes q)"
    using that i by (auto simp: ids dest: host_id_inject)
qed

text \<open>
  node identities round-trip: the id the host gives to the i-th node of a revision, when every
  label is a string, is found again as exactly that node; ids of different nodes or revisions differ, and none is the id of a
  host review.
\<close>

theorem host_id_roundtrip:
  assumes "i < length (plan_nodes p)" "\<And>n. n \<in> set (plan_nodes p) \<Longrightarrow> is_string (jget n ''label'')"
  shows "scan_nodes r 0 (plan_nodes p) (hostIds r p ! i) = Some (plan_nodes p ! i) \<and>
     (\<forall>r' q j. j < length (plan_nodes q) \<and> hostIds r p ! i = hostIds r' q ! j \<longrightarrow> r = r' \<and> i = j) \<and>
     (\<forall>r'. hostIds r p ! i \<noteq> host_review_id r')"
  using host_ids_unique [OF assms] by blast

lemma host_id_roundtrip_witness:
  "scan_nodes 2 0 [JObj [(''label'', JStr ''a b'')], JObj [(''label'', JStr ''a_b'')]] ''n2_1_a_b'' = Some (JObj [(''label'', JStr ''a_b'')])"
proof -
  let ?p = "JObj [(''nodes'', JArr [JObj [(''label'', JStr ''a b'')], JObj [(''label'', JStr ''a_b'')]])]"
  have n: "plan_nodes ?p = [JObj [(''label'', JStr ''a b'')], JObj [(''label'', JStr ''a_b'')]]" by code_simp
  have "hostIds 2 ?p ! 1 = ''n2_1_a_b''" by code_simp
  moreover have "scan_nodes 2 0 (plan_nodes ?p) (hostIds 2 ?p ! 1) = Some (plan_nodes ?p ! 1)"
    by (rule conjunct1 [OF host_id_roundtrip]) (auto simp: n)
  ultimately show ?thesis by (simp add: n)
qed

section \<open>Bounded texts\<close>

text \<open>
  The suffix \<open>...[truncated n chars]\<close> begins with the one-character ellipsis U+2026, here the character
  133. \<open>boundText\<close> adds it to the cut text; \<open>boundCause\<close> shortens the text in at most three rounds so
  that the whole fits.
\<close>

definition truncation :: "nat \<Rightarrow> string" where
  "truncation n = char_of (133 :: nat) # ''[truncated '' @ show_nat n @ '' chars]''"

definition boundText :: "string \<Rightarrow> nat \<Rightarrow> string" where
  "boundText s mx = (if length s > mx then take mx s @ truncation (length s - mx) else s)"

fun cause_rounds :: "nat \<Rightarrow> nat \<Rightarrow> nat \<Rightarrow> nat \<Rightarrow> string \<Rightarrow> nat \<times> string" where
  "cause_rounds 0 len mx keep sfx = (keep, sfx)"
| "cause_rounds (Suc i) len mx keep sfx =
     (let s = truncation (len - keep); next = int mx - int (length s)
      in if next \<ge> int keep then (keep, s) else cause_rounds i len mx (nat next) s)"

definition boundCause :: "string \<Rightarrow> nat \<Rightarrow> string" where
  "boundCause v mx =
     (if length v \<le> mx then v
      else let (keep, sfx) = cause_rounds 3 (length v) mx mx [] in take keep v @ sfx)"

lemma length_show_nat: "n < 10 ^ Suc d \<Longrightarrow> length (show_nat n) \<le> Suc d"
proof (induction d arbitrary: n)
  case 0
  then show ?case by (subst show_nat.simps) simp
next
  case (Suc d)
  have "n div 10 < 10 ^ Suc d" using Suc.prems by (simp add: less_mult_imp_div_less)
  from Suc.IH [OF this] show ?case by (subst show_nat.simps) simp
qed

lemma cause_rounds_bound:
  assumes "\<And>k. length (truncation (len - k)) \<le> mx" and "keep + length sfx \<le> mx"
  shows "cause_rounds i len mx keep sfx = (k, s) \<Longrightarrow> k + length s \<le> mx"
  using assms(2)
proof (induction i arbitrary: keep sfx)
  case (Suc i)
  let ?s = "truncation (len - keep)"
  have "length ?s \<le> mx" using assms(1) .
  then show ?case using Suc by (fastforce simp: Let_def split: if_splits)
qed simp

text \<open>Texts of up to 10^100 characters fit any bound of at least 120, suffix included.\<close>

lemma boundCause_bound:
  assumes "120 \<le> mx" and "length v < 10 ^ 100"
  shows "length (boundCause v mx) \<le> mx"
proof -
  have t: "length (truncation (length v - k)) \<le> mx" for k
  proof -
    have "length v - k < 10 ^ Suc 99" using assms(2) by simp
    from length_show_nat [OF this] assms(1) show ?thesis by (simp add: truncation_def)
  qed
  show ?thesis
  proof (cases "length v \<le> mx")
    case False
    obtain k s where ks: "cause_rounds 3 (length v) mx mx [] = (k, s)" by fastforce
    from cause_rounds_bound [OF t _ ks] have "k + length s \<le> mx" by simp
    with False ks show ?thesis by (simp add: boundCause_def)
  qed (simp add: boundCause_def)
qed

end
