(* ===== verification/WorkerEnvelope.thy ===== *)
theory WorkerEnvelope
  imports WorkerContract
begin

text \<open>
  Result envelopes (\<open>worker-contract.ts\<close>): the validator \<open>validateEnvelope\<close>, the acceptance predicate
  \<open>acceptancePassed\<close> and the shortened copy for reviews, \<open>redactEnvelope\<close>. Issues are tags with
  their path, as for contracts; the wording is display.
\<close>

section \<open>Validation\<close>

definition needs_text :: "json \<Rightarrow> string \<Rightarrow> string \<Rightarrow> contract_issue list" where
  "needs_text v k path = when_so (\<not> isNonEmptyString (jget v k)) T_missing_field (path @ ''.'' @ k)"

definition attempt_issues :: "json \<Rightarrow> contract_issue list" where
  "attempt_issues v = (case jget v ''attempt'' of
     None \<Rightarrow> [(T_missing_field, ''$.attempt'')]
   | Some a \<Rightarrow> if \<not> is_object a then [(T_missing_field, ''$.attempt'')] else
       needs_text a ''id'' ''$.attempt'' @ when_so (\<not> is_number (jget a ''ordinal'')) T_type_error ''$.attempt.ordinal'' @
       needs_text a ''contract_id'' ''$.attempt'' @ needs_text a ''contract_digest'' ''$.attempt'' @
       when_so (\<not> one_of [''agent'', ''pi'', ''remote''] (jget a ''executor_kind'')) T_type_error ''$.attempt.executor_kind'' @
       needs_text a ''executor_id'' ''$.attempt'' @ needs_text a ''started_at'' ''$.attempt'' @ needs_text a ''finished_at'' ''$.attempt'')"

text \<open>The items of an array that is required.\<close>

definition each_item :: "string \<Rightarrow> string \<Rightarrow> (string \<Rightarrow> json \<Rightarrow> contract_issue list) \<Rightarrow> json \<Rightarrow> contract_issue list" where
  "each_item k path f v = (case jget v k of
     Some (JArr xs) \<Rightarrow> concat (map (\<lambda>(i, x). if is_object x then f (nth_path path i) x else [(T_type_error, nth_path path i)]) (enumerate 0 xs))
   | _ \<Rightarrow> [(T_missing_field, path)])"

definition texts_only :: "bool \<Rightarrow> json option \<Rightarrow> bool" where
  "texts_only nonempty v \<longleftrightarrow> (case v of Some (JArr xs) \<Rightarrow> list_all (\<lambda>x. if nonempty then isNonEmptyString (Some x) else is_string (Some x)) xs | _ \<Rightarrow> False)"

definition result_issues :: "string \<Rightarrow> json \<Rightarrow> contract_issue list" where
  "result_issues p c = needs_text c ''criterion_id'' p @
     when_so (\<not> one_of [''passed'', ''failed'', ''not_run'', ''inconclusive''] (jget c ''status'')) T_type_error (p @ ''.status'') @
     when_so (jget c ''evidence_ids'' \<noteq> None \<and> \<not> texts_only True (jget c ''evidence_ids'')) T_type_error (p @ ''.evidence_ids'')"

definition check_issues :: "string \<Rightarrow> json \<Rightarrow> contract_issue list" where
  "check_issues p c = needs_text c ''check_id'' p @
     when_so (\<not> texts_only False (jget c ''argv'')) T_type_error (p @ ''.argv'') @
     when_so (\<not> is_number (jget c ''exit_code'') \<and> jget c ''exit_code'' \<noteq> Some JNull) T_type_error (p @ ''.exit_code'') @
     when_so (\<not> is_bool (jget c ''timed_out'')) T_type_error (p @ ''.timed_out'')"

definition observed_issues :: "string \<Rightarrow> json \<Rightarrow> contract_issue list" where
  "observed_issues p a = needs_text a ''artifact_id'' p @ when_so (\<not> is_bool (jget a ''exists'')) T_type_error (p @ ''.exists'')"

text \<open>The ids of the checks and artifacts, that evidence may name.\<close>

definition ids_at :: "json \<Rightarrow> string \<Rightarrow> string \<Rightarrow> string list" where
  "ids_at v k j = map (\<lambda>x. text_at x j) (filter (\<lambda>x. isNonEmptyString (jget x j)) (items_at v k))"

definition known_evidence :: "json \<Rightarrow> string list" where
  "known_evidence v = ids_at v ''checks'' ''check_id'' @ ids_at v ''artifacts'' ''artifact_id''"

definition evidence_ref_issues :: "json \<Rightarrow> contract_issue list" where
  "evidence_ref_issues v = concat (map (\<lambda>(i, c). concat (map (\<lambda>(j, x).
       when_so (\<not> names_id (known_evidence v) x) T_bad_reference (nth_path (nth_path ''$.criteria'' i @ ''.evidence_ids'') j))
       (enumerate 0 (items_at c ''evidence_ids'')))) (enumerate 0 (items_at v ''criteria'')))"

definition array_member :: "json option \<Rightarrow> bool" where
  "array_member v \<longleftrightarrow> (case v of Some (JArr _) \<Rightarrow> True | _ \<Rightarrow> False)"

definition report_issues :: "json \<Rightarrow> contract_issue list" where
  "report_issues v = (case jget v ''worker_report'' of
     None \<Rightarrow> [(T_missing_field, ''$.worker_report'')]
   | Some w \<Rightarrow> if \<not> is_object w then [(T_missing_field, ''$.worker_report'')] else
       when_so (\<not> is_string (jget w ''summary'')) T_type_error ''$.worker_report.summary'' @
       when_so (\<not> array_member (jget w ''claims'')) T_missing_field ''$.worker_report.claims'' @
       when_so (jget w ''unresolved_risks'' \<noteq> None \<and> \<not> array_member (jget w ''unresolved_risks'')) T_type_error ''$.worker_report.unresolved_risks'')"

definition usage_issues :: "json \<Rightarrow> contract_issue list" where
  "usage_issues v = (case jget v ''usage'' of None \<Rightarrow> [] | Some u \<Rightarrow> when_so (\<not> is_object u) T_type_error ''$.usage'')"

definition validateEnvelope :: "json \<Rightarrow> contract_issue list" where
  "validateEnvelope v =
     (if \<not> is_object v then [(T_type_error, ''$'')]
      else if jget v ''schema_version'' \<noteq> Some (JNum (NInt 1)) then [(T_unknown_version, ''$.schema_version'')]
      else let es = attempt_issues v @
          when_so (\<not> one_of [''completed'', ''failed'', ''cancelled'', ''timed_out''] (jget v ''outcome'')) T_type_error ''$.outcome'' @
          each_item ''criteria'' ''$.criteria'' result_issues v @ each_item ''checks'' ''$.checks'' check_issues v @
          each_item ''artifacts'' ''$.artifacts'' observed_issues v @ evidence_ref_issues v @ report_issues v @ usage_issues v
        in if es \<noteq> [] then es
           else when_so (json_size v > MAX_ENVELOPE_JSON_BYTES) T_too_long ''$'')"

section \<open>Acceptance\<close>

fun criteria_pass :: "string list \<Rightarrow> string list \<Rightarrow> json list \<Rightarrow> bool" where
  "criteria_pass ids seen [] = True"
| "criteria_pass ids seen (c # cs) = (let i = text_at c ''criterion_id'' in
     i \<in> set ids \<and> i \<notin> set seen \<and> text_at c ''status'' = ''passed'' \<and> criteria_pass ids (i # seen) cs)"

definition same_contract :: "json \<Rightarrow> json \<Rightarrow> bool" where
  "same_contract ct env \<longleftrightarrow> text_at (member_at env ''attempt'') ''contract_id'' = text_at ct ''id'' \<and>
     text_at (member_at env ''attempt'') ''contract_digest'' = text_at ct ''digest''"

definition acceptancePassed :: "json \<Rightarrow> json \<Rightarrow> bool" where
  "acceptancePassed ct env \<longleftrightarrow> text_at env ''outcome'' = ''completed'' \<and> same_contract ct env \<and>
     length (items_at env ''criteria'') = length (items_at ct ''criteria'') \<and>
     criteria_pass (contract_criteria ct) [] (items_at env ''criteria'')"

lemma criteria_pass_iff:
  "criteria_pass ids seen cs \<longleftrightarrow> (let xs = map (\<lambda>c. text_at c ''criterion_id'') cs in
     set xs \<subseteq> set ids \<and> distinct xs \<and> set xs \<inter> set seen = {} \<and> (\<forall>c \<in> set cs. text_at c ''status'' = ''passed''))"
  by (induction cs arbitrary: seen) (auto simp: Let_def)

text \<open>A result that meets \<open>passing_contract\<close>.\<close>

definition passing_envelope :: json where
  "passing_envelope = JObj [(''schema_version'', JNum (NInt 1)),
     (''attempt'', JObj [(''id'', JStr ''a''), (''ordinal'', JNum (NInt 1)), (''contract_id'', JStr ''k''), (''contract_digest'', JStr ''d''),
        (''executor_kind'', JStr ''agent''), (''executor_id'', JStr ''spin''), (''started_at'', JStr ''s''), (''finished_at'', JStr ''f'')]),
     (''outcome'', JStr ''completed''),
     (''criteria'', JArr [JObj [(''criterion_id'', JStr ''c1''), (''status'', JStr ''passed''), (''evidence_ids'', JArr [JStr ''v1''])]]),
     (''checks'', JArr [JObj [(''check_id'', JStr ''v1''), (''argv'', JArr [JStr ''make'']), (''exit_code'', JNum (NInt 0)), (''timed_out'', JBool False),
        (''stdout_excerpt'', JStr ''ok''), (''stderr_excerpt'', JStr [])]]),
     (''artifacts'', JArr []),
     (''worker_report'', JObj [(''summary'', JStr ''done''), (''claims'', JArr []), (''unresolved_risks'', JArr [])])]"

lemma passing_envelope_ok: "validateEnvelope passing_envelope = []"
proof -
  have "json_bound passing_envelope \<le> 150000" by (simp add: passing_envelope_def show_int_def show_nat.simps)
  then have z: "json_size passing_envelope \<le> 150000" by (rule order_trans [OF json_size_le])
  have a: "attempt_issues passing_envelope = []"
    by (simp add: attempt_issues_def passing_envelope_def needs_text_def isNonEmptyString_def is_number_def one_of_def)
  have b: "each_item ''criteria'' ''$.criteria'' result_issues passing_envelope = []"
    "each_item ''checks'' ''$.checks'' check_issues passing_envelope = []"
    "each_item ''artifacts'' ''$.artifacts'' observed_issues passing_envelope = []"
    by (simp_all add: each_item_def passing_envelope_def result_issues_def check_issues_def needs_text_def isNonEmptyString_def one_of_def
        texts_only_def is_number_def is_bool_def)
  have "evidence_ref_issues passing_envelope = []"
    by (simp add: evidence_ref_issues_def passing_envelope_def items_at_def known_evidence_def ids_at_def isNonEmptyString_def text_at_def
        names_id_def)
  with z a b show ?thesis
    by (simp add: validateEnvelope_def passing_envelope_def report_issues_def usage_issues_def array_member_def one_of_def max_defs)
qed

section \<open>The shortened copy\<close>

text \<open>A member replaced where it stands; \<open>None\<close> is the \<open>TypeError\<close> of reading a part that is not there.\<close>

definition with_member :: "string \<Rightarrow> json \<Rightarrow> json \<Rightarrow> json" where
  "with_member k x v = (case v of
     JObj ms \<Rightarrow> JObj (if k \<in> set (map fst ms) then map (\<lambda>m. if fst m = k then (k, x) else m) ms else ms @ [(k, x)])
   | _ \<Rightarrow> v)"

definition shortened :: "string \<Rightarrow> string" where
  "shortened s = (if length s > 500 then take 500 s @ ''...'' else s)"

fun each_of :: "('a \<Rightarrow> 'b option) \<Rightarrow> 'a list \<Rightarrow> 'b list option" where
  "each_of f [] = Some []"
| "each_of f (x # xs) = (case f x of None \<Rightarrow> None | Some y \<Rightarrow> map_option ((#) y) (each_of f xs))"

text \<open>\<open>v.slice(0, n)\<close>, and the excerpts; an array of more than 500 items in place of an excerpt is left out.\<close>

definition js_slice :: "nat \<Rightarrow> json option \<Rightarrow> json option" where
  "js_slice n v = (case v of Some (JStr s) \<Rightarrow> Some (JStr (take n s)) | Some (JArr xs) \<Rightarrow> Some (JArr (take n xs)) | _ \<Rightarrow> None)"

definition js_shortened :: "json option \<Rightarrow> json option" where
  "js_shortened v = (case v of None \<Rightarrow> None | Some JNull \<Rightarrow> None | Some (JStr s) \<Rightarrow> Some (JStr (shortened s))
     | Some (JArr xs) \<Rightarrow> if length xs > 500 then None else v | _ \<Rightarrow> v)"

definition redact_check :: "json \<Rightarrow> json option" where
  "redact_check c = (case (js_shortened (jget c ''stdout_excerpt''), js_shortened (jget c ''stderr_excerpt'')) of
     (Some a, Some b) \<Rightarrow> Some (with_member ''stderr_excerpt'' b (with_member ''stdout_excerpt'' a c))
   | _ \<Rightarrow> None)"

definition redact_report :: "json \<Rightarrow> json option" where
  "redact_report w = (case (js_slice 500 (jget w ''summary''), js_slice 10 (jget w ''claims''), js_slice 5 (jget w ''unresolved_risks'')) of
     (Some s, Some cs, Some rs) \<Rightarrow> Some (JObj [(''summary'', s), (''claims'', cs), (''unresolved_risks'', rs)])
   | _ \<Rightarrow> None)"

definition redactEnvelope :: "json \<Rightarrow> json option" where
  "redactEnvelope v = (case jget v ''checks'' of
     Some (JArr cs) \<Rightarrow> (case (each_of redact_check cs, redact_report (member_at v ''worker_report'')) of
       (Some ds, Some w) \<Rightarrow> Some (with_member ''worker_report'' w (with_member ''checks'' (JArr ds) v))
     | _ \<Rightarrow> None)
   | _ \<Rightarrow> None)"

lemma map_of_replaced: "j \<noteq> k \<Longrightarrow> map_of (map (\<lambda>m. if fst m = k then (k, x) else m) ms) j = map_of ms j"
  by (induction ms) auto

lemma with_member_eq: "with_member k x (JObj ms) = JObj (if k \<in> fst ` set ms then map (\<lambda>m. if fst m = k then (k, x) else m) ms else ms @ [(k, x)])"
  by (simp add: with_member_def)

lemma with_member_other: "j \<noteq> k \<Longrightarrow> jget (with_member k x v) j = jget v j"
proof (cases v)
  case (JObj ms)
  assume "j \<noteq> k"
  then show ?thesis by (auto simp: JObj with_member_eq map_of_replaced map_add_def split: option.split)
qed (simp_all add: with_member_def jget_def)

text \<open>Reviews judge the shortened copy: it is accepted exactly when the whole envelope is.\<close>

lemma redact_accepts_same:
  assumes "redactEnvelope e = Some r"
  shows "acceptancePassed ct r = acceptancePassed ct e"
proof -
  from assms obtain c w where "r = with_member ''worker_report'' w (with_member ''checks'' c e)"
    by (auto simp: redactEnvelope_def split: option.splits json.splits prod.splits)
  then have "jget r k = jget e k" if "k \<notin> {''worker_report'', ''checks''}" for k
    using that by (simp add: with_member_other)
  then show ?thesis by (simp add: acceptancePassed_def same_contract_def text_at_def items_at_def member_at_def)
qed

end
