(* ===== verification/Calls.thy ===== *)
theory Calls
  imports Prelude
begin

text \<open>
  Calls: the way the workflow runner threads the database through its methods. A call returns a
  value or throws, and either way leaves a state: a statement outside a transaction stays committed
  when a later one throws. \<open>atomically\<close> is \<open>db.transaction(...)\<close>: a throw puts the state back. The locale
  \<open>preserved\<close> gives the rules by which every call built from steps that respect a preorder on
  states respects it too; the invariants of the workflow tables are instances.
\<close>

type_synonym ('e, 's, 'a) call = "'s \<Rightarrow> ('e + 'a) \<times> 's"

definition return :: "'a \<Rightarrow> ('e, 's, 'a) call" where
  "return a s = (Inr a, s)"

definition throw :: "'e \<Rightarrow> ('e, 's, 'a) call" where
  "throw e s = (Inl e, s)"

definition bind :: "('e, 's, 'a) call \<Rightarrow> ('a \<Rightarrow> ('e, 's, 'b) call) \<Rightarrow> ('e, 's, 'b) call" where
  "bind m f s = (case m s of (Inl e, t) \<Rightarrow> (Inl e, t) | (Inr a, t) \<Rightarrow> f a t)"

definition andThen :: "('e, 's, 'a) call \<Rightarrow> ('e, 's, 'b) call \<Rightarrow> ('e, 's, 'b) call" where
  "andThen m n = bind m (\<lambda>_. n)"

definition reads :: "('s \<Rightarrow> 'a) \<Rightarrow> ('e, 's, 'a) call" where
  "reads f s = (Inr (f s), s)"

definition writes :: "('s \<Rightarrow> 's) \<Rightarrow> ('e, 's, unit) call" where
  "writes f s = (Inr (), f s)"

definition require :: "'e \<Rightarrow> ('s \<Rightarrow> bool) \<Rightarrow> ('e, 's, unit) call" where
  "require e p s = (if p s then (Inr (), s) else (Inl e, s))"

definition atomically :: "('e, 's, 'a) call \<Rightarrow> ('e, 's, 'a) call" where
  "atomically m s = (case m s of (Inl e, _) \<Rightarrow> (Inl e, s) | (Inr a, t) \<Rightarrow> (Inr a, t))"

text \<open>\<open>try { ... } catch { ... }\<close>.\<close>

definition attempt_call :: "('e, 's, 'a) call \<Rightarrow> ('e \<Rightarrow> ('e, 's, 'a) call) \<Rightarrow> ('e, 's, 'a) call" where
  "attempt_call m h s = (case m s of (Inl e, t) \<Rightarrow> h e t | (Inr a, t) \<Rightarrow> (Inr a, t))"

fun each :: "('a \<Rightarrow> ('e, 's, unit) call) \<Rightarrow> 'a list \<Rightarrow> ('e, 's, unit) call" where
  "each f [] = return ()"
| "each f (x # xs) = andThen (f x) (each f xs)"

definition only_if :: "bool \<Rightarrow> ('e, 's, unit) call \<Rightarrow> ('e, 's, unit) call" where
  "only_if b m = (if b then m else return ())"

text \<open>Loops that collect what their rounds return; the round is numbered.\<close>

fun collect_calls :: "(nat \<Rightarrow> 'a \<Rightarrow> ('e, 's, 'b) call) \<Rightarrow> nat \<Rightarrow> 'a list \<Rightarrow> ('e, 's, 'b list) call" where
  "collect_calls f i [] = return []"
| "collect_calls f i (x # xs) = bind (f i x) (\<lambda>b. bind (collect_calls f (Suc i) xs) (\<lambda>bs. return (b # bs)))"

definition count_calls :: "(nat \<Rightarrow> 'a \<Rightarrow> ('e, 's, bool) call) \<Rightarrow> 'a list \<Rightarrow> ('e, 's, nat) call" where
  "count_calls f xs = bind (collect_calls f 0 xs) (\<lambda>bs. return (length (filter id bs)))"

text \<open>The state a call leaves.\<close>

definition after :: "('e, 's, 'a) call \<Rightarrow> 's \<Rightarrow> 's" where
  "after m s = snd (m s)"

named_theorems call_simps \<open>running a call\<close>

lemma run_basic [call_simps]:
  "return a s = (Inr a, s)" "throw e s = (Inl e, s)" "reads f s = (Inr (f s), s)" "writes g s = (Inr (), g s)"
  "require e p s = (if p s then (Inr (), s) else (Inl e, s))"
  by (simp_all add: return_def throw_def reads_def writes_def require_def)

lemma run_bind [call_simps]:
  "bind m f s = (case m s of (Inl e, t) \<Rightarrow> (Inl e, t) | (Inr a, t) \<Rightarrow> f a t)"
  "andThen m n s = (case m s of (Inl e, t) \<Rightarrow> (Inl e, t) | (Inr _, t) \<Rightarrow> n t)"
  by (simp_all add: bind_def andThen_def)

lemma basic_Inr:
  "require e p s = (Inr u, t) \<longleftrightarrow> p s \<and> t = s" "writes g s = (Inr u, t) \<longleftrightarrow> t = g s"
  "return b s = (Inr a, t) \<longleftrightarrow> a = b \<and> t = s" "reads f s = (Inr a, t) \<longleftrightarrow> a = f s \<and> t = s"
  "throw x s \<noteq> (Inr a, t)"
  by (auto simp: run_basic)

lemma bind_Inr:
  "bind m f s = (Inr b, u) \<longleftrightarrow> (\<exists>a t. m s = (Inr a, t) \<and> f a t = (Inr b, u))"
  by (auto simp: bind_def split: prod.splits sum.splits)

lemma andThen_Inr:
  "andThen m n s = (Inr b, u) \<longleftrightarrow> (\<exists>a t. m s = (Inr a, t) \<and> n t = (Inr b, u))"
  by (simp add: andThen_def bind_Inr)

lemma atomically_Inr: "atomically m s = (Inr a, t) \<longleftrightarrow> m s = (Inr a, t)"
  by (auto simp: atomically_def split: prod.splits sum.splits)

lemma atomically_throws: "atomically m s = (Inl e, t) \<Longrightarrow> t = s"
  by (auto simp: atomically_def split: prod.splits sum.splits)

section \<open>Preserved preorders\<close>

locale preserved =
  fixes rel :: "'s \<Rightarrow> 's \<Rightarrow> bool"
  assumes refl: "rel s s" and trans: "rel s t \<Longrightarrow> rel t u \<Longrightarrow> rel s u"
begin

definition moves :: "('e, 's, 'a) call \<Rightarrow> bool" where
  "moves m \<longleftrightarrow> (\<forall>s. rel s (snd (m s)))"

lemma movesI: "(\<And>s. rel s (snd (m s))) \<Longrightarrow> moves m"
  by (simp add: moves_def)

lemma movesD: "moves m \<Longrightarrow> m s = (r, t) \<Longrightarrow> rel s t"
  by (metis moves_def snd_conv)

lemma moves_pure [intro, simp]: "moves (return a)" "moves (throw e)" "moves (reads f)" "moves (require e p)"
  by (simp_all add: moves_def call_simps refl)

lemma moves_writes: "(\<And>s. rel s (f s)) \<Longrightarrow> moves (writes f)"
  by (simp add: moves_def call_simps)

lemma moves_bind [intro]:
  assumes m: "moves m" and f: "\<And>a. moves (f a)"
  shows "moves (bind m f)"
proof (rule movesI)
  fix s
  obtain r t where r: "m s = (r, t)" by fastforce
  with m have "rel s t" by (rule movesD)
  with r f show "rel s (snd (bind m f s))" by (cases r) (auto simp: bind_def moves_def intro: trans)
qed

lemma moves_andThen [intro]: "moves m \<Longrightarrow> moves n \<Longrightarrow> moves (andThen m n)"
  unfolding andThen_def by (rule moves_bind)

lemma moves_atomically [intro]:
  assumes m: "moves m"
  shows "moves (atomically m)"
proof (rule movesI)
  fix s
  obtain r t where r: "m s = (r, t)" by fastforce
  with m have "rel s t" by (rule movesD)
  with r show "rel s (snd (atomically m s))" by (cases r) (auto simp: atomically_def refl)
qed

lemma moves_attempt [intro]:
  assumes m: "moves m" and h: "\<And>e. moves (h e)"
  shows "moves (attempt_call m h)"
proof (rule movesI)
  fix s
  obtain r t where r: "m s = (r, t)" by fastforce
  with m have "rel s t" by (rule movesD)
  with r h show "rel s (snd (attempt_call m h s))" by (cases r) (auto simp: attempt_call_def moves_def intro: trans)
qed

lemma moves_each [intro]: "(\<And>x. moves (f x)) \<Longrightarrow> moves (each f xs)"
  by (induction xs) auto

lemma moves_only_if [intro]: "moves m \<Longrightarrow> moves (only_if b m)"
  by (simp add: only_if_def)

lemma moves_if [intro]: "moves m \<Longrightarrow> moves n \<Longrightarrow> moves (if b then m else n)"
  by simp

lemma moves_prod [intro]: "(\<And>a b. moves (f a b)) \<Longrightarrow> moves (case p of (a, b) \<Rightarrow> f a b)"
  by (cases p) simp

lemma moves_option [intro]: "moves m \<Longrightarrow> (\<And>a. moves (f a)) \<Longrightarrow> moves (case v of None \<Rightarrow> m | Some a \<Rightarrow> f a)"
  by (cases v) simp_all

lemma moves_collect [intro]: "(\<And>i x. moves (f i x)) \<Longrightarrow> moves (collect_calls f i xs)"
  by (induction xs arbitrary: i) auto

lemma moves_count [intro]: "(\<And>i x. moves (f i x)) \<Longrightarrow> moves (count_calls f xs)"
  unfolding count_calls_def by auto

lemmas control = moves_bind moves_andThen moves_each moves_only_if moves_if moves_option moves_pure moves_prod
  moves_atomically moves_attempt moves_collect moves_count

lemma collect_true:
  assumes "collect_calls f k xs s = (Inr bs, t)" "\<And>i x. moves (f i x)" "True \<in> set bs"
  shows "\<exists>i x s1 t1. x \<in> set xs \<and> rel s s1 \<and> f i x s1 = (Inr True, t1) \<and> rel t1 t"
  using assms(1,3)
proof (induction xs arbitrary: k s bs)
  case (Cons x xs)
  from Cons.prems(1) obtain b u cs where b: "f k x s = (Inr b, u)" and c: "collect_calls f (Suc k) xs u = (Inr cs, t)"
    and bs: "bs = b # cs" by (auto simp: bind_Inr basic_Inr)
  from assms(2) b have su: "rel s u" by (rule movesD)
  show ?case
  proof (cases b)
    case True
    from moves_collect [of f "Suc k" xs] assms(2) c have "rel u t" by (blast dest: movesD)
    with b True show ?thesis using refl [of s] by auto
  next
    case False
    with Cons.prems(2) bs have "True \<in> set cs" by simp
    from Cons.IH [OF c this] obtain i y s1 t1 where "y \<in> set xs" "rel u s1" "f i y s1 = (Inr True, t1)" "rel t1 t" by blast
    with su show ?thesis using trans by (metis list.set_intros(2))
  qed
qed (simp add: basic_Inr)

lemma counted_one:
  assumes "count_calls f xs s = (Inr n, t)" "\<And>i x. moves (f i x)" "n \<noteq> 0"
  shows "\<exists>i x s1 t1. x \<in> set xs \<and> rel s s1 \<and> f i x s1 = (Inr True, t1) \<and> rel t1 t"
proof -
  from assms(1) obtain bs where c: "collect_calls f 0 xs s = (Inr bs, t)" and n: "n = length (filter id bs)"
    by (auto simp: count_calls_def bind_Inr basic_Inr)
  from n assms(3) have "filter id bs \<noteq> []" by auto
  then have "True \<in> set bs" by (auto simp: filter_empty_conv)
  with c assms(2) show ?thesis by (rule collect_true)
qed

end

end
