(* ===== verification/WorkflowStore.thy ===== *)
theory WorkflowStore
  imports Attempts WorkerEnvelope WorkflowPlan Calls "HOL-Library.List_Lexorder" "HOL-Library.Char_ord"
begin

text \<open>
  The durable state of the workflow runner (\<open>orc-project/orc-workflow-store.ts\<close>): admission, the
  commit envelope (deduplication of an ingress event, the fence on generation and version, the
  applier, the version bump and the consumption of the event), and the writers and reads the
  appliers use. Each method is a call (theory \<open>Calls\<close>); a violated primary key or unique index throws
  \<open>E_constraint\<close>. \<open>now\<close> is the clock, \<open>sha\<close> the hash of a JSON text, generated ids and tokens are
  arguments. Timestamps that no decision reads (\<open>updated_at\<close> of nodes, operations and deliveries) are
  left out.
\<close>

section \<open>Errors, keys and reads\<close>

datatype wf_error =
  E_constraint | E_budgets | E_conflicting_admission | E_root_missing | E_occurrence_not_live
| E_run_missing | E_fence | E_version_race | E_apply_race | E_node_missing | E_delivery_missing
| E_delivery_not_pending | E_complete_rejected | E_plan_missing | E_type_error
| E_run_terminal | E_plan_exists | E_plan_rejected "plan_issue list" | E_conflict | E_revision_stale | E_weakens
| E_no_review_node | E_already_awaiting | E_input_unknown | E_not_awaiting | E_no_deliver_command
| E_deliver_busy | E_no_obligation | E_stale_attempt | E_node_status | E_stale_claim | E_token_unknown
| E_unbound_attempt | E_projection_incomplete | E_supervision_missing | E_origin_invalid | E_workspace
| E_no_progress | E_capacity_busy | E_port

type_synonym 'a wf = "(wf_error, swarm_db, 'a) call"

text \<open>\<open>TERMINAL_RUNISH\<close> is \<open>run_terminal\<close>; the scopes in the source's order.\<close>

definition BUDGET_SCOPES :: "budget_scope list" where
  "BUDGET_SCOPES = [Work_retry, Plan_revision, Review_repair, Protocol_correction]"

definition COMMAND_CLAIM_LEASE_MS :: int where
  "COMMAND_CLAIM_LEASE_MS = 5 * 60000"

definition MAX_CONSECUTIVE_INCONCLUSIVE :: int where
  "MAX_CONSECUTIVE_INCONCLUSIVE = 5"

record command_key =
  ck_run_id :: string
  ck_generation :: int
  ck_node_id :: string
  ck_action :: command_action
  ck_ordinal :: int

definition at_key :: "command_key \<Rightarrow> command_row \<Rightarrow> bool" where
  "at_key k c \<longleftrightarrow> wc_run_id c = ck_run_id k \<and> wc_generation c = ck_generation k \<and> wc_node_id c = ck_node_id k \<and>
     wc_action c = ck_action k \<and> wc_ordinal c = ck_ordinal k"

definition key_of :: "command_row \<Rightarrow> command_key" where
  "key_of c = \<lparr> ck_run_id = wc_run_id c, ck_generation = wc_generation c, ck_node_id = wc_node_id c,
     ck_action = wc_action c, ck_ordinal = wc_ordinal c \<rparr>"

definition at_node :: "string \<Rightarrow> nat \<Rightarrow> string \<Rightarrow> node_row \<Rightarrow> bool" where
  "at_node run rv i n \<longleftrightarrow> wn_run_id n = run \<and> wn_revision n = rv \<and> wn_node_id n = i"

definition node_open :: "node_row \<Rightarrow> bool" where
  "node_open n \<longleftrightarrow> wn_status n = Nd_queued \<or> wn_status n = Nd_running"

definition getRun :: "swarm_db \<Rightarrow> string \<Rightarrow> workflow_run option" where
  "getRun db r = sql_first (\<lambda>w. wr_run_id w = r) (db_workflow_runs db)"

definition listNodes :: "swarm_db \<Rightarrow> string \<Rightarrow> nat \<Rightarrow> node_row list" where
  "listNodes db run rv = sort_key wn_node_id (filter (\<lambda>n. wn_run_id n = run \<and> wn_revision n = rv) (db_nodes db))"

definition find_node :: "swarm_db \<Rightarrow> string \<Rightarrow> nat \<Rightarrow> string \<Rightarrow> node_row option" where
  "find_node db run rv i = List.find (\<lambda>n. wn_node_id n = i) (listNodes db run rv)"

definition isCardRunnerManaged :: "swarm_db \<Rightarrow> int \<Rightarrow> bool" where
  "isCardRunnerManaged db c \<longleftrightarrow> list_ex (\<lambda>n. wn_worker_card_id n = Some c \<and>
     list_ex (\<lambda>w. wr_run_id w = wn_run_id n \<and> \<not> run_terminal (wr_state w)) (db_workflow_runs db)) (db_nodes db)"

text \<open>The node of a worker card in the newest revision that has one.\<close>

definition findNodeByCard :: "swarm_db \<Rightarrow> string \<Rightarrow> int \<Rightarrow> node_row option" where
  "findNodeByCard db run c =
     sql_last_by (\<lambda>n. int (wn_revision n)) (\<lambda>n. wn_run_id n = run \<and> wn_worker_card_id n = Some c) (db_nodes db)"

definition currentRevision :: "swarm_db \<Rightarrow> string \<Rightarrow> nat" where
  "currentRevision db run = fold max (map pv_revision (filter (\<lambda>p. pv_run_id p = run) (db_plans db))) 0"

definition getPlan :: "swarm_db \<Rightarrow> string \<Rightarrow> nat \<Rightarrow> json option" where
  "getPlan db run rv = map_option pv_plan (sql_first (\<lambda>p. pv_run_id p = run \<and> pv_revision p = rv) (db_plans db))"

definition dep_at :: "string \<Rightarrow> nat \<Rightarrow> dep_row \<Rightarrow> bool" where
  "dep_at run rv d \<longleftrightarrow> wd_run_id d = run \<and> wd_revision d = rv"

definition hasUnsatisfiedDeps :: "swarm_db \<Rightarrow> string \<Rightarrow> nat \<Rightarrow> string \<Rightarrow> bool" where
  "hasUnsatisfiedDeps db run rv i \<longleftrightarrow>
     list_ex (\<lambda>d. dep_at run rv d \<and> wd_node_id d = i \<and> \<not> wd_satisfied d) (db_deps db)"

definition getCommand :: "swarm_db \<Rightarrow> command_key \<Rightarrow> command_row option" where
  "getCommand db k = sql_first (at_key k) (db_commands db)"

definition findCommandByToken :: "swarm_db \<Rightarrow> string \<Rightarrow> command_row option" where
  "findCommandByToken db t = sql_first (\<lambda>c. wc_token c = Some t) (db_commands db)"

definition hasCommand :: "swarm_db \<Rightarrow> string \<Rightarrow> string \<Rightarrow> command_action \<Rightarrow> command_status \<Rightarrow> bool" where
  "hasCommand db run i a st \<longleftrightarrow>
     list_ex (\<lambda>c. wc_run_id c = run \<and> wc_node_id c = i \<and> wc_action c = a \<and> wc_status c = st) (db_commands db)"

definition findPendingCommand :: "swarm_db \<Rightarrow> string \<Rightarrow> string \<Rightarrow> command_action \<Rightarrow> command_row option" where
  "findPendingCommand db run i a = sql_last_by (\<lambda>c. - wc_ordinal c)
     (\<lambda>c. wc_run_id c = run \<and> wc_node_id c = i \<and> wc_action c = a \<and> wc_status c = Cm_pending) (db_commands db)"

definition nextCommandOrdinal :: "swarm_db \<Rightarrow> string \<Rightarrow> int \<Rightarrow> string \<Rightarrow> command_action \<Rightarrow> int" where
  "nextCommandOrdinal db run g i a =
     fold max (map wc_ordinal (filter (\<lambda>c. wc_run_id c = run \<and> wc_generation c = g \<and> wc_node_id c = i \<and> wc_action c = a)
       (db_commands db))) (- 1) + 1"

definition getDelivery :: "swarm_db \<Rightarrow> string \<Rightarrow> string \<Rightarrow> delivery_row option" where
  "getDelivery db run i = sql_first (\<lambda>v. wv_run_id v = run \<and> wv_node_id v = i) (db_wdeliveries db)"

definition hasPendingDelivery :: "swarm_db \<Rightarrow> string \<Rightarrow> bool" where
  "hasPendingDelivery db run \<longleftrightarrow> list_ex (\<lambda>v. wv_run_id v = run \<and> wv_outcome v = Dv_pending) (db_wdeliveries db)"

definition findRunByCard :: "swarm_db \<Rightarrow> int \<Rightarrow> workflow_run option" where
  "findRunByCard db c =
     sql_last_by wr_created_at (\<lambda>w. wr_root_card_id w = c \<and> \<not> run_terminal (wr_state w)) (db_workflow_runs db)"

definition drainPendingCommands :: "swarm_db \<Rightarrow> nat \<Rightarrow> command_row list" where
  "drainPendingCommands db limit = take limit (sort_key wc_created_at (filter (\<lambda>c. wc_status c = Cm_pending) (db_commands db)))"

definition listUnappliedIngress :: "swarm_db \<Rightarrow> nat \<Rightarrow> ingress_row list" where
  "listUnappliedIngress db limit = take limit (sort_key wi_received_at (filter (\<lambda>e. wi_disposition e = In_received) (db_ingress db)))"

definition listAuditRoots :: "swarm_db \<Rightarrow> int \<Rightarrow> nat \<Rightarrow> workflow_run list" where
  "listAuditRoots db cursor limit = take limit (sort_key wr_root_card_id
     (filter (\<lambda>w. \<not> run_terminal (wr_state w) \<and> wr_root_card_id w > cursor) (db_workflow_runs db)))"

section \<open>Updates\<close>

text \<open>\<open>UPDATE\<close> statements report the number of rows they changed.\<close>

definition update_runs :: "(workflow_run \<Rightarrow> bool) \<Rightarrow> (workflow_run \<Rightarrow> workflow_run) \<Rightarrow> nat wf" where
  "update_runs p f db = (Inr (sql_changes p (db_workflow_runs db)), db\<lparr> db_workflow_runs := sql_update p f (db_workflow_runs db) \<rparr>)"

definition update_nodes :: "(node_row \<Rightarrow> bool) \<Rightarrow> (node_row \<Rightarrow> node_row) \<Rightarrow> nat wf" where
  "update_nodes p f db = (Inr (sql_changes p (db_nodes db)), db\<lparr> db_nodes := sql_update p f (db_nodes db) \<rparr>)"

definition update_deps :: "(dep_row \<Rightarrow> bool) \<Rightarrow> (dep_row \<Rightarrow> dep_row) \<Rightarrow> nat wf" where
  "update_deps p f db = (Inr (sql_changes p (db_deps db)), db\<lparr> db_deps := sql_update p f (db_deps db) \<rparr>)"

definition update_operations :: "(operation_row \<Rightarrow> bool) \<Rightarrow> (operation_row \<Rightarrow> operation_row) \<Rightarrow> nat wf" where
  "update_operations p f db = (Inr (sql_changes p (db_operations db)), db\<lparr> db_operations := sql_update p f (db_operations db) \<rparr>)"

definition update_budgets :: "(budget_row \<Rightarrow> bool) \<Rightarrow> (budget_row \<Rightarrow> budget_row) \<Rightarrow> nat wf" where
  "update_budgets p f db = (Inr (sql_changes p (db_budgets db)), db\<lparr> db_budgets := sql_update p f (db_budgets db) \<rparr>)"

definition update_commands :: "(command_row \<Rightarrow> bool) \<Rightarrow> (command_row \<Rightarrow> command_row) \<Rightarrow> nat wf" where
  "update_commands p f db = (Inr (sql_changes p (db_commands db)), db\<lparr> db_commands := sql_update p f (db_commands db) \<rparr>)"

definition update_ingress :: "(ingress_row \<Rightarrow> bool) \<Rightarrow> (ingress_row \<Rightarrow> ingress_row) \<Rightarrow> nat wf" where
  "update_ingress p f db = (Inr (sql_changes p (db_ingress db)), db\<lparr> db_ingress := sql_update p f (db_ingress db) \<rparr>)"

definition update_deliveries :: "(delivery_row \<Rightarrow> bool) \<Rightarrow> (delivery_row \<Rightarrow> delivery_row) \<Rightarrow> nat wf" where
  "update_deliveries p f db = (Inr (sql_changes p (db_wdeliveries db)), db\<lparr> db_wdeliveries := sql_update p f (db_wdeliveries db) \<rparr>)"

definition update_inputs :: "(input_request \<Rightarrow> bool) \<Rightarrow> (input_request \<Rightarrow> input_request) \<Rightarrow> nat wf" where
  "update_inputs p f db = (Inr (sql_changes p (db_inputs db)), db\<lparr> db_inputs := sql_update p f (db_inputs db) \<rparr>)"

text \<open>\<open>if (changes !== 1) throw\<close>.\<close>

definition exactly_one :: "wf_error \<Rightarrow> nat wf \<Rightarrow> unit wf" where
  "exactly_one e m = bind m (\<lambda>n. if n = 1 then return () else throw e)"

definition one_row :: "nat wf \<Rightarrow> bool wf" where
  "one_row m = bind m (\<lambda>n. return (n = 1))"

section \<open>Admission\<close>

record run_input =
  ri_run_id :: string
  ri_root_kind :: root_kind
  ri_root_card_id :: int
  ri_scheduled_run_id :: "string option"
  ri_client_operation_id :: string
  ri_budgets :: "budget_scope \<Rightarrow> int"

definition admitted_run :: "int \<Rightarrow> run_input \<Rightarrow> workflow_run" where
  "admitted_run now i = \<lparr> wr_run_id = ri_run_id i, wr_root_kind = ri_root_kind i, wr_root_card_id = ri_root_card_id i,
     wr_scheduled_run_id = ri_scheduled_run_id i, wr_generation = 1, wr_state = W_admitted, wr_state_version = 0,
     wr_client_operation_id = ri_client_operation_id i, wr_budgets = ri_budgets i, wr_failure_code = None,
     wr_failure_reason = None, wr_created_at = sqliteNow now, wr_updated_at = sqliteNow now \<rparr>"

definition insert_budget :: "string \<Rightarrow> budget_scope \<Rightarrow> int \<Rightarrow> unit wf" where
  "insert_budget run scope allowed = andThen
     (require E_constraint (\<lambda>db. \<not> list_ex (\<lambda>b. wb_run_id b = run \<and> wb_scope b = scope) (db_budgets db)))
     (writes (\<lambda>db. db\<lparr> db_budgets := db_budgets db @
        [\<lparr> wb_run_id = run, wb_scope = scope, wb_allowed = allowed, wb_consumed = 0 \<rparr>] \<rparr>))"

definition root_kind_name :: "root_kind \<Rightarrow> string" where
  "root_kind_name k = (case k of Root_scheduled \<Rightarrow> ''scheduled'' | Root_interactive \<Rightarrow> ''interactive'' | Root_peer \<Rightarrow> ''peer'')"

definition opt_text :: "string option \<Rightarrow> json" where
  "opt_text v = (case v of None \<Rightarrow> JNull | Some t \<Rightarrow> JStr t)"

definition admission_body :: "run_input \<Rightarrow> json" where
  "admission_body i = JObj [(''rootKind'', JStr (root_kind_name (ri_root_kind i))),
     (''rootCardId'', JNum (NInt (ri_root_card_id i))), (''scheduledRunId'', opt_text (ri_scheduled_run_id i)),
     (''budgets'', JObj [(''work_retry'', JNum (NInt (ri_budgets i Work_retry))),
        (''plan_revision'', JNum (NInt (ri_budgets i Plan_revision))),
        (''review_repair'', JNum (NInt (ri_budgets i Review_repair))),
        (''protocol_correction'', JNum (NInt (ri_budgets i Protocol_correction)))])]"

definition insert_ingress :: "ingress_row \<Rightarrow> unit wf" where
  "insert_ingress e = andThen
     (require E_constraint (\<lambda>db. \<not> list_ex (\<lambda>x. wi_event_id x = wi_event_id e) (db_ingress db)))
     (writes (\<lambda>db. db\<lparr> db_ingress := db_ingress db @ [e] \<rparr>))"

definition insert_run :: "(json \<Rightarrow> string) \<Rightarrow> int \<Rightarrow> run_input \<Rightarrow> workflow_run wf" where
  "insert_run sha now i =
     andThen (require E_root_missing (\<lambda>db. find_card db (ri_root_card_id i) \<noteq> None))
    (andThen (require E_occurrence_not_live (\<lambda>db. case ri_scheduled_run_id i of None \<Rightarrow> True
        | Some r \<Rightarrow> (case find_task_run db r of None \<Rightarrow> False | Some t \<Rightarrow> tr_finished_at t = None)))
    (andThen (require E_constraint (\<lambda>db. getRun db (ri_run_id i) = None))
    (andThen (writes (\<lambda>db. db\<lparr> db_workflow_runs := db_workflow_runs db @ [admitted_run now i] \<rparr>))
    (andThen (each (\<lambda>sc. insert_budget (ri_run_id i) sc (ri_budgets i sc)) BUDGET_SCOPES)
    (andThen (insert_ingress \<lparr> wi_event_id = ''admit-'' @ ri_client_operation_id i, wi_run_id = ri_run_id i,
        wi_hash = sha (admission_body i), wi_payload = admission_body i, wi_disposition = In_applied,
        wi_received_at = sqliteNow now, wi_applied_at = Some (sqliteNow now) \<rparr>)
      (return (admitted_run now i)))))))"

text \<open>The flag is true for \<open>admitted\<close>, false for \<open>duplicate\<close>.\<close>

definition admitRun :: "(json \<Rightarrow> string) \<Rightarrow> int \<Rightarrow> run_input \<Rightarrow> (workflow_run \<times> bool) wf" where
  "admitRun sha now i =
     (if \<exists>sc \<in> set BUDGET_SCOPES. ri_budgets i sc < 0 then throw E_budgets
      else atomically (bind (reads (\<lambda>db. sql_first (\<lambda>w. wr_client_operation_id w = ri_client_operation_id i) (db_workflow_runs db)))
        (\<lambda>existing. case existing of
           Some prev \<Rightarrow>
             (if wr_root_card_id prev \<noteq> ri_root_card_id i \<or> wr_root_kind prev \<noteq> ri_root_kind i
              then throw E_conflicting_admission else return (prev, False))
         | None \<Rightarrow> bind (insert_run sha now i) (\<lambda>w. return (w, True)))))"

section \<open>The commit envelope\<close>

record runner_event =
  rn_event_id :: string
  rn_run_id :: string
  rn_hash :: string
  rn_payload :: json
  rn_generation :: int
  rn_state_version :: int

record effect =
  ef_next_state :: "workflow_state option"
  ef_failure_code :: "string option"
  ef_failure_reason :: "string option"
  ef_noop :: bool

definition no_effect :: effect where
  "no_effect = \<lparr> ef_next_state = None, ef_failure_code = None, ef_failure_reason = None, ef_noop = False \<rparr>"

definition noop_effect :: effect where
  "noop_effect = no_effect\<lparr> ef_noop := True \<rparr>"

definition goto :: "workflow_state \<Rightarrow> effect" where
  "goto st = no_effect\<lparr> ef_next_state := Some st \<rparr>"

definition failing :: "string \<Rightarrow> string \<Rightarrow> effect" where
  "failing code why = \<lparr> ef_next_state = Some W_failed, ef_failure_code = Some code, ef_failure_reason = Some why, ef_noop = False \<rparr>"

datatype disposition = Committed | Noop | Duplicate | Conflict

definition bump_run :: "int \<Rightarrow> effect \<Rightarrow> workflow_run \<Rightarrow> workflow_run" where
  "bump_run now ef w = w\<lparr> wr_state := orelse (ef_next_state ef) (wr_state w), wr_state_version := wr_state_version w + 1,
     wr_failure_code := orelse_opt (ef_failure_code ef) (wr_failure_code w),
     wr_failure_reason := orelse_opt (ef_failure_reason ef) (wr_failure_reason w), wr_updated_at := sqliteNow now \<rparr>"

definition consume_event :: "int \<Rightarrow> string \<Rightarrow> ingress_disposition \<Rightarrow> nat wf" where
  "consume_event now i d = update_ingress (\<lambda>e. wi_event_id e = i \<and> wi_disposition e = In_received)
     (\<lambda>e. e\<lparr> wi_disposition := d, wi_applied_at := Some (sqliteNow now) \<rparr>)"

text \<open>Steps 3 and 4: the applier, the version bump and the consumption of the event.\<close>

definition apply_event :: "int \<Rightarrow> runner_event \<Rightarrow> (workflow_run \<Rightarrow> effect wf) \<Rightarrow> workflow_run \<Rightarrow> disposition wf" where
  "apply_event now e applier w = bind (applier w) (\<lambda>ef.
     andThen (exactly_one E_version_race (update_runs
        (\<lambda>r. wr_run_id r = rn_run_id e \<and> wr_state_version r = rn_state_version e)
        (bump_run now (ef\<lparr> ef_next_state := Some (orelse (ef_next_state ef) (wr_state w)) \<rparr>))))
    (andThen (exactly_one E_apply_race (consume_event now (rn_event_id e) (if ef_noop ef then In_noop else In_applied)))
      (return (if ef_noop ef then Noop else Committed))))"

text \<open>Step 2: the fence. \<open>known\<close> tells that the event row was there before.\<close>

definition fence :: "int \<Rightarrow> runner_event \<Rightarrow> (workflow_run \<Rightarrow> effect wf) \<Rightarrow> bool \<Rightarrow> disposition wf" where
  "fence now e applier known = bind (reads (\<lambda>db. getRun db (rn_run_id e))) (\<lambda>raw. case raw of
     None \<Rightarrow> throw E_run_missing
   | Some w \<Rightarrow>
       (if wr_generation w \<noteq> rn_generation e \<or> wr_state_version w \<noteq> rn_state_version e then
          (if known \<and> run_terminal (wr_state w)
           then andThen (consume_event now (rn_event_id e) In_noop) (return Noop)
           else throw E_fence)
        else apply_event now e applier w))"

definition received :: "int \<Rightarrow> runner_event \<Rightarrow> ingress_row" where
  "received now e = \<lparr> wi_event_id = rn_event_id e, wi_run_id = rn_run_id e, wi_hash = rn_hash e, wi_payload = rn_payload e,
     wi_disposition = In_received, wi_received_at = sqliteNow now, wi_applied_at = None \<rparr>"

definition find_ingress :: "swarm_db \<Rightarrow> string \<Rightarrow> ingress_row option" where
  "find_ingress db i = sql_first (\<lambda>x. wi_event_id x = i) (db_ingress db)"

definition applyEnvelope :: "int \<Rightarrow> runner_event \<Rightarrow> (workflow_run \<Rightarrow> effect wf) \<Rightarrow> disposition wf" where
  "applyEnvelope now e applier = bind (reads (\<lambda>db. find_ingress db (rn_event_id e))) (\<lambda>stored. case stored of
     None \<Rightarrow> andThen (writes (\<lambda>db. db\<lparr> db_ingress := db_ingress db @ [received now e] \<rparr>)) (fence now e applier False)
   | Some x \<Rightarrow>
       (if wi_hash x \<noteq> rn_hash e then return Conflict
        else if wi_disposition x = In_received then fence now e applier True
        else return (if wi_disposition x = In_noop then Noop else Duplicate)))"

definition commitTransition :: "int \<Rightarrow> runner_event \<Rightarrow> (workflow_run \<Rightarrow> effect wf) \<Rightarrow> disposition wf" where
  "commitTransition now e applier = atomically (applyEnvelope now e applier)"

section \<open>Writers\<close>

definition insertPlanRevision :: "string \<Rightarrow> nat \<Rightarrow> json \<Rightarrow> unit wf" where
  "insertPlanRevision run rv plan = andThen
     (require E_constraint (\<lambda>db. \<not> list_ex (\<lambda>p. pv_run_id p = run \<and> pv_revision p = rv) (db_plans db)))
     (writes (\<lambda>db. db\<lparr> db_plans := db_plans db @ [\<lparr> pv_run_id = run, pv_revision = rv, pv_plan = plan \<rparr>] \<rparr>))"

definition insertNode :: "string \<Rightarrow> nat \<Rightarrow> string \<times> node_kind \<Rightarrow> unit wf" where
  "insertNode run rv nk = andThen
     (require E_constraint (\<lambda>db. \<not> list_ex (at_node run rv (fst nk)) (db_nodes db)))
     (writes (\<lambda>db. db\<lparr> db_nodes := db_nodes db @ [\<lparr> wn_run_id = run, wn_revision = rv, wn_node_id = fst nk,
        wn_kind = snd nk, wn_status = Nd_queued, wn_worker_card_id = None, wn_attempt_id = None, wn_outcome = None \<rparr>] \<rparr>))"

definition insertNodes :: "string \<Rightarrow> nat \<Rightarrow> (string \<times> node_kind) list \<Rightarrow> unit wf" where
  "insertNodes run rv = each (insertNode run rv)"

definition insertDep :: "string \<Rightarrow> nat \<Rightarrow> string \<times> string \<Rightarrow> unit wf" where
  "insertDep run rv nd = andThen
     (require E_constraint (\<lambda>db. \<not> list_ex (\<lambda>d. dep_at run rv d \<and> wd_node_id d = fst nd \<and> wd_depends_on d = snd nd) (db_deps db)))
     (writes (\<lambda>db. db\<lparr> db_deps := db_deps db @ [\<lparr> wd_run_id = run, wd_revision = rv, wd_node_id = fst nd,
        wd_depends_on = snd nd, wd_satisfied = False \<rparr>] \<rparr>))"

definition insertDeps :: "string \<Rightarrow> nat \<Rightarrow> (string \<times> string) list \<Rightarrow> unit wf" where
  "insertDeps run rv = each (insertDep run rv)"

definition bindNodeWorker :: "string \<Rightarrow> nat \<Rightarrow> string \<Rightarrow> int \<Rightarrow> string option \<Rightarrow> unit wf" where
  "bindNodeWorker run rv i c a = exactly_one E_node_missing (update_nodes (at_node run rv i)
     (\<lambda>n. n\<lparr> wn_worker_card_id := Some c, wn_attempt_id := orelse_opt a (wn_attempt_id n) \<rparr>))"

definition markNodeRunning :: "string \<Rightarrow> nat \<Rightarrow> string \<Rightarrow> bool wf" where
  "markNodeRunning run rv i = one_row (update_nodes (\<lambda>n. at_node run rv i n \<and> wn_status n = Nd_queued)
     (\<lambda>n. n\<lparr> wn_status := Nd_running \<rparr>))"

definition setNodeOutcome ::
    "string \<Rightarrow> nat \<Rightarrow> string \<Rightarrow> node_status \<Rightarrow> json option \<Rightarrow> string option \<Rightarrow> unit wf" where
  "setNodeOutcome run rv i st outcome a = exactly_one E_node_missing (update_nodes (at_node run rv i)
     (\<lambda>n. n\<lparr> wn_status := st, wn_outcome := orelse_opt outcome (wn_outcome n), wn_attempt_id := orelse_opt a (wn_attempt_id n) \<rparr>))"

text \<open>
  \<open>skipDependents\<close>: the queued dependents of the given node are skipped, then, pass after pass, the
  queued nodes that depend on a skipped node, until a pass changes nothing. Every pass but the last
  takes a node out of \<open>queued\<close>.
\<close>

definition queued_in :: "string \<Rightarrow> nat \<Rightarrow> node_row \<Rightarrow> bool" where
  "queued_in run rv n \<longleftrightarrow> wn_run_id n = run \<and> wn_revision n = rv \<and> wn_status n = Nd_queued"

definition skipped :: "node_row \<Rightarrow> node_row" where
  "skipped n = n\<lparr> wn_status := Nd_skipped \<rparr>"

definition direct_dependent :: "string \<Rightarrow> nat \<Rightarrow> dep_row list \<Rightarrow> string \<Rightarrow> node_row \<Rightarrow> bool" where
  "direct_dependent run rv ds i n \<longleftrightarrow> queued_in run rv n \<and>
     list_ex (\<lambda>d. dep_at run rv d \<and> wd_depends_on d = i \<and> wd_node_id d = wn_node_id n) ds"

definition blocked_by_skipped :: "string \<Rightarrow> nat \<Rightarrow> dep_row list \<Rightarrow> node_row list \<Rightarrow> node_row \<Rightarrow> bool" where
  "blocked_by_skipped run rv ds ns n \<longleftrightarrow> queued_in run rv n \<and>
     list_ex (\<lambda>d. dep_at run rv d \<and> wd_node_id d = wn_node_id n \<and>
       list_ex (\<lambda>m. at_node run rv (wd_depends_on d) m \<and> wn_status m = Nd_skipped) ns) ds"

lemma skip_pass_shrinks:
  assumes "sql_changes (blocked_by_skipped run rv ds ns) ns \<noteq> 0"
  shows "sql_changes (queued_in run rv) (sql_update (blocked_by_skipped run rv ds ns) skipped ns) < sql_changes (queued_in run rv) ns"
proof -
  have le: "sql_changes (queued_in run rv) (sql_update p skipped t) + sql_changes p t \<le> sql_changes (queued_in run rv) t"
    if "\<And>n. p n \<Longrightarrow> queued_in run rv n" for p t
    using that by (induction t) (auto simp: skipped_def queued_in_def)
  from le [of "blocked_by_skipped run rv ds ns" ns] assms show ?thesis by (simp add: blocked_by_skipped_def)
qed

function skip_passes :: "string \<Rightarrow> nat \<Rightarrow> dep_row list \<Rightarrow> node_row list \<Rightarrow> node_row list" where
  "skip_passes run rv ds ns =
     (if sql_changes (blocked_by_skipped run rv ds ns) ns = 0 then ns
      else skip_passes run rv ds (sql_update (blocked_by_skipped run rv ds ns) skipped ns))"
  by pat_completeness auto

termination
  by (relation "measure (\<lambda>(run, rv, ds, ns). sql_changes (queued_in run rv) ns)") (simp_all add: skip_pass_shrinks)

declare skip_passes.simps [simp del]

definition skip_nodes :: "string \<Rightarrow> nat \<Rightarrow> string \<Rightarrow> dep_row list \<Rightarrow> node_row list \<Rightarrow> node_row list" where
  "skip_nodes run rv i ds ns = skip_passes run rv ds (sql_update (direct_dependent run rv ds i) skipped ns)"

definition skipDependents :: "string \<Rightarrow> nat \<Rightarrow> string \<Rightarrow> unit wf" where
  "skipDependents run rv i = writes (\<lambda>db. db\<lparr> db_nodes := skip_nodes run rv i (db_deps db) (db_nodes db) \<rparr>)"

text \<open>
  \<open>satisfyDependents\<close> returns the queued nodes that depend on the given one and have no unsatisfied
  dependency left, by id.
\<close>

definition unblocked_by :: "swarm_db \<Rightarrow> string \<Rightarrow> nat \<Rightarrow> string \<Rightarrow> string list" where
  "unblocked_by db run rv i = map wn_node_id (filter (\<lambda>n. wn_status n = Nd_queued \<and>
     list_ex (\<lambda>d. dep_at run rv d \<and> wd_node_id d = wn_node_id n \<and> wd_depends_on d = i) (db_deps db) \<and>
     \<not> hasUnsatisfiedDeps db run rv (wn_node_id n)) (listNodes db run rv))"

definition satisfyDependents :: "string \<Rightarrow> nat \<Rightarrow> string \<Rightarrow> string list wf" where
  "satisfyDependents run rv i = andThen
     (update_deps (\<lambda>d. dep_at run rv d \<and> wd_depends_on d = i) (\<lambda>d. d\<lparr> wd_satisfied := True \<rparr>))
     (reads (\<lambda>db. unblocked_by db run rv i))"

definition queueCommand :: "int \<Rightarrow> command_key \<Rightarrow> json \<Rightarrow> unit wf" where
  "queueCommand now k payload = andThen
     (require E_constraint (\<lambda>db. getCommand db k = None))
     (writes (\<lambda>db. db\<lparr> db_commands := db_commands db @ [\<lparr> wc_run_id = ck_run_id k, wc_generation = ck_generation k,
        wc_node_id = ck_node_id k, wc_action = ck_action k, wc_ordinal = ck_ordinal k, wc_status = Cm_pending,
        wc_payload = payload, wc_created_at = sqliteNow now, wc_claimed_at = None, wc_done_at = None, wc_owner = None,
        wc_token = None, wc_inspect_gen = 0, wc_inconclusive = 0, wc_next_inspection_at = None \<rparr>] \<rparr>))"

definition insertDelivery :: "string \<Rightarrow> string \<Rightarrow> json \<Rightarrow> unit wf" where
  "insertDelivery run i obligation = bind (reads (\<lambda>db. getDelivery db run i)) (\<lambda>old. case old of
     None \<Rightarrow> writes (\<lambda>db. db\<lparr> db_wdeliveries := db_wdeliveries db @ [\<lparr> wv_run_id = run, wv_node_id = i,
       wv_obligation = obligation, wv_outcome = Dv_pending, wv_attempts = 0, wv_receipt = None \<rparr>] \<rparr>)
   | Some _ \<Rightarrow> bind (update_deliveries (\<lambda>v. wv_run_id v = run \<and> wv_node_id v = i) (\<lambda>v. v\<lparr> wv_obligation := obligation \<rparr>))
       (\<lambda>_. return ()))"

definition setDeliveryOutcome :: "string \<Rightarrow> string \<Rightarrow> delivery_outcome \<Rightarrow> json option \<Rightarrow> unit wf" where
  "setDeliveryOutcome run i out receipt = exactly_one E_delivery_missing
     (update_deliveries (\<lambda>v. wv_run_id v = run \<and> wv_node_id v = i)
       (\<lambda>v. v\<lparr> wv_outcome := out, wv_receipt := orelse_opt receipt (wv_receipt v) \<rparr>))"

definition bumpDeliveryAttempts :: "string \<Rightarrow> string \<Rightarrow> int wf" where
  "bumpDeliveryAttempts run i = andThen
     (exactly_one E_delivery_not_pending (update_deliveries
        (\<lambda>v. wv_run_id v = run \<and> wv_node_id v = i \<and> wv_outcome v = Dv_pending) (\<lambda>v. v\<lparr> wv_attempts := wv_attempts v + 1 \<rparr>)))
     (reads (\<lambda>db. case getDelivery db run i of None \<Rightarrow> 0 | Some v \<Rightarrow> wv_attempts v))"

text \<open>\<open>idx_workflow_operations_single_open\<close>: one open operation per run, kind and (non-null) revision.\<close>

definition op_open :: "op_status \<Rightarrow> bool" where
  "op_open st \<longleftrightarrow> st = Op_pending \<or> st = Op_claimed \<or> st = Op_running"

definition op_clash :: "operation_row \<Rightarrow> operation_row list \<Rightarrow> bool" where
  "op_clash r ops \<longleftrightarrow> op_open (wo_status r) \<and> wo_revision r \<noteq> None \<and>
     list_ex (\<lambda>x. wo_op_id x \<noteq> wo_op_id r \<and> op_open (wo_status x) \<and> wo_run_id x = wo_run_id r \<and>
       wo_kind x = wo_kind r \<and> wo_revision x = wo_revision r) ops"

definition upsertOperation ::
    "string \<Rightarrow> string \<Rightarrow> op_kind \<Rightarrow> nat option \<Rightarrow> op_status \<Rightarrow> json option \<Rightarrow> unit wf" where
  "upsertOperation op run kind rv st result = bind (reads (\<lambda>db. sql_first (\<lambda>x. wo_op_id x = op) (db_operations db))) (\<lambda>old.
     case old of
       None \<Rightarrow> (let r = \<lparr> wo_op_id = op, wo_run_id = run, wo_kind = kind, wo_revision = rv, wo_status = st, wo_result = result \<rparr>
         in andThen (require E_constraint (\<lambda>db. \<not> op_clash r (db_operations db)))
              (writes (\<lambda>db. db\<lparr> db_operations := db_operations db @ [r] \<rparr>)))
     | Some x \<Rightarrow> (let f = (\<lambda>r. r\<lparr> wo_status := st, wo_result := orelse_opt result (wo_result r) \<rparr>)
         in andThen (require E_constraint (\<lambda>db. \<not> op_clash (f x) (db_operations db)))
              (bind (update_operations (\<lambda>r. wo_op_id r = op) f) (\<lambda>_. return ()))))"

definition closeOpenOperations :: "string \<Rightarrow> op_status \<Rightarrow> json \<Rightarrow> nat wf" where
  "closeOpenOperations run st result = update_operations (\<lambda>r. wo_run_id r = run \<and> op_open (wo_status r))
     (\<lambda>r. r\<lparr> wo_status := st, wo_result := Some result \<rparr>)"

section \<open>Commands: claim, complete, release, cancel\<close>

definition claimed_row :: "int \<Rightarrow> string \<Rightarrow> string \<Rightarrow> command_row \<Rightarrow> command_row" where
  "claimed_row now owner token c = c\<lparr> wc_status := Cm_claimed, wc_claimed_at := Some (sqliteNow now),
     wc_owner := Some owner, wc_token := Some token, wc_inspect_gen := 0, wc_inconclusive := 0,
     wc_next_inspection_at := Some (sqliteNow now + COMMAND_CLAIM_LEASE_MS) \<rparr>"

text \<open>The claim is the update and, when it hit, the row read back; the token is a fresh one.\<close>

definition claimCommand :: "int \<Rightarrow> command_key \<Rightarrow> string \<Rightarrow> string \<Rightarrow> command_row option wf" where
  "claimCommand now k owner token = bind (reads (\<lambda>db. sql_first (\<lambda>c. at_key k c \<and> wc_status c = Cm_pending) (db_commands db)))
     (\<lambda>hit. case hit of
        None \<Rightarrow> return None
      | Some c \<Rightarrow> andThen (require E_constraint (\<lambda>db. \<not> list_ex (\<lambda>x. wc_token x = Some token) (db_commands db)))
          (andThen (update_commands (\<lambda>c. at_key k c \<and> wc_status c = Cm_pending) (claimed_row now owner token))
            (reads (\<lambda>db. getCommand db k))))"

definition holds_token :: "command_key \<Rightarrow> string \<Rightarrow> string \<Rightarrow> command_row \<Rightarrow> bool" where
  "holds_token k owner token c \<longleftrightarrow> at_key k c \<and> wc_status c = Cm_claimed \<and> wc_owner c = Some owner \<and> wc_token c = Some token"

definition completeCommand :: "int \<Rightarrow> command_key \<Rightarrow> string \<Rightarrow> string \<Rightarrow> unit wf" where
  "completeCommand now k owner token = exactly_one E_complete_rejected (update_commands (holds_token k owner token)
     (\<lambda>c. c\<lparr> wc_status := Cm_done, wc_done_at := Some (sqliteNow now), wc_next_inspection_at := None \<rparr>))"

definition releaseClaim :: "command_key \<Rightarrow> string \<Rightarrow> string \<Rightarrow> bool wf" where
  "releaseClaim k owner token = one_row (update_commands (holds_token k owner token)
     (\<lambda>c. c\<lparr> wc_status := Cm_pending, wc_claimed_at := None, wc_owner := None, wc_token := None, wc_next_inspection_at := None \<rparr>))"

definition cancelled_row :: "int \<Rightarrow> command_row \<Rightarrow> command_row" where
  "cancelled_row now c = c\<lparr> wc_status := Cm_cancelled, wc_done_at := Some (sqliteNow now), wc_next_inspection_at := None \<rparr>"

definition cancelCommand :: "int \<Rightarrow> command_key \<Rightarrow> bool wf" where
  "cancelCommand now k = one_row (update_commands (\<lambda>c. at_key k c \<and> wc_status c = Cm_pending) (cancelled_row now))"

definition supersedeCommand :: "int \<Rightarrow> command_key \<Rightarrow> bool wf" where
  "supersedeCommand now k = one_row (update_commands
     (\<lambda>c. at_key k c \<and> (wc_status c = Cm_pending \<or> wc_status c = Cm_claimed)) (cancelled_row now))"

definition cancelPendingCommands :: "int \<Rightarrow> string \<Rightarrow> nat wf" where
  "cancelPendingCommands now run = update_commands (\<lambda>c. wc_run_id c = run \<and> wc_status c = Cm_pending)
     (\<lambda>c. c\<lparr> wc_status := Cm_cancelled, wc_done_at := Some (sqliteNow now) \<rparr>)"

definition noteInspectionAlive :: "int \<Rightarrow> command_key \<Rightarrow> int \<Rightarrow> int \<Rightarrow> unit wf" where
  "noteInspectionAlive now k gen interval = bind (update_commands (at_key k)
     (\<lambda>c. c\<lparr> wc_inspect_gen := gen, wc_inconclusive := 0, wc_next_inspection_at := Some (sqliteNow now + interval) \<rparr>)) (\<lambda>_. return ())"

definition noteInspectionAliveForMillis :: "int \<Rightarrow> command_key \<Rightarrow> int \<Rightarrow> int \<Rightarrow> unit wf" where
  "noteInspectionAliveForMillis now k gen ms = noteInspectionAlive now k gen (max 1 (- (- ms div 1000)) * 1000)"

definition noteInspectionInconclusive :: "int \<Rightarrow> command_key \<Rightarrow> int \<Rightarrow> int \<Rightarrow> unit wf" where
  "noteInspectionInconclusive now k gen n = bind (update_commands (at_key k)
     (\<lambda>c. c\<lparr> wc_inspect_gen := gen, wc_inconclusive := n,
            wc_next_inspection_at := Some (sqliteNow now + COMMAND_CLAIM_LEASE_MS) \<rparr>)) (\<lambda>_. return ())"

section \<open>Budgets, supersession, cancellation, inputs\<close>

definition consumeBudget :: "string \<Rightarrow> budget_scope \<Rightarrow> bool wf" where
  "consumeBudget run sc = one_row (update_budgets
     (\<lambda>b. wb_run_id b = run \<and> wb_scope b = sc \<and> wb_consumed b < wb_allowed b) (\<lambda>b. b\<lparr> wb_consumed := wb_consumed b + 1 \<rparr>))"

definition cancelPriorNodes :: "string \<Rightarrow> nat \<Rightarrow> string list \<Rightarrow> nat wf" where
  "cancelPriorNodes run rv spare = update_nodes (\<lambda>n. wn_run_id n = run \<and> wn_revision n < rv \<and> node_open n \<and>
     wn_kind n \<noteq> N_review \<and> wn_node_id n \<notin> set spare) (\<lambda>n. n\<lparr> wn_status := Nd_cancelled \<rparr>)"

definition cancelled_receipt :: json where
  "cancelled_receipt = JObj [(''cancelled'', JBool True)]"

definition cancelRun :: "int \<Rightarrow> string \<Rightarrow> int \<Rightarrow> (nat \<times> nat \<times> nat) wf" where
  "cancelRun now run root =
     bind (\<lambda>db. case cancelRun_fence now run root db of (n, db1) \<Rightarrow> (Inr n, db1)) (\<lambda>fenced.
     bind (update_commands (\<lambda>c. wc_run_id c = run \<and> (wc_status c = Cm_pending \<or> wc_status c = Cm_claimed)) (cancelled_row now)) (\<lambda>cmds.
     bind (update_nodes (\<lambda>n. wn_run_id n = run \<and> node_open n) (\<lambda>n. n\<lparr> wn_status := Nd_cancelled \<rparr>)) (\<lambda>nodes.
     andThen (update_inputs (\<lambda>q. iq_project_card_id q = root \<and> iq_status q = Iq_pending) (\<lambda>q. q\<lparr> iq_status := Iq_expired \<rparr>))
    (andThen (update_deliveries (\<lambda>v. wv_run_id v = run \<and> wv_outcome v = Dv_pending)
        (\<lambda>v. v\<lparr> wv_outcome := Dv_unknown, wv_receipt := orelse_opt (wv_receipt v) (Some cancelled_receipt) \<rparr>))
      (return (fenced, cmds, nodes))))))"

definition insertInputRequest ::
    "string \<Rightarrow> string \<Rightarrow> int \<Rightarrow> string \<Rightarrow> string list \<Rightarrow> string \<Rightarrow> unit wf" where
  "insertInputRequest i run c question criteria kind = andThen
     (require E_constraint (\<lambda>db. \<not> list_ex (\<lambda>q. iq_id q = i) (db_inputs db)))
     (writes (\<lambda>db. db\<lparr> db_inputs := db_inputs db @ [\<lparr> iq_id = i, iq_project_card_id = c, iq_case_ref = ''wf:'' @ run,
        iq_question = question, iq_criteria = criteria, iq_kind = kind, iq_run_id = Some run, iq_status = Iq_pending,
        iq_response = None \<rparr>] \<rparr>))"

text \<open>Answers with the run id of the row's context, empty when the context names none.\<close>

definition answerInputRequest :: "string \<Rightarrow> string \<Rightarrow> (string \<times> int) option wf" where
  "answerInputRequest i response = bind (reads (\<lambda>db. sql_first (\<lambda>q. iq_id q = i \<and> iq_status q = Iq_pending) (db_inputs db)))
     (\<lambda>row. case row of
        None \<Rightarrow> return None
      | Some q \<Rightarrow> andThen (update_inputs (\<lambda>q. iq_id q = i \<and> iq_status q = Iq_pending)
            (\<lambda>q. q\<lparr> iq_status := Iq_answered, iq_response := Some response \<rparr>))
          (return (Some (orelse (iq_run_id q) [], iq_project_card_id q))))"

section \<open>Durable worker acceptance\<close>

text \<open>Contract and envelope are the stored JSON values, read by the validators of \<open>worker-contract.ts\<close>.\<close>

datatype acceptance = Accepted_result json | Rejected_result string

text \<open>The loop of \<open>acceptanceCriteriaDetail\<close>: unknown, duplicate, not passed and seen criterion ids.\<close>

fun sort_criteria :: "string list \<Rightarrow> json list \<Rightarrow> string list \<Rightarrow> string list \<times> string list \<times> string list \<times> string list" where
  "sort_criteria ids [] seen = ([], [], [], seen)"
| "sort_criteria ids (c # cs) seen = (let i = text_at c ''criterion_id'' in
     if i \<notin> set ids then (case sort_criteria ids cs seen of (u, d, n, s) \<Rightarrow> (i # u, d, n, s))
     else (case sort_criteria ids cs (i # seen) of (u, d, n, s) \<Rightarrow>
       (u, if i \<in> set seen then i # d else d, if text_at c ''status'' \<noteq> ''passed'' then i # n else n, s)))"

definition listed :: "string \<Rightarrow> string list \<Rightarrow> string list" where
  "listed name xs = (if xs = [] then [] else [name @ '' ['' @ join_with '','' (sort xs) @ '']''])"

definition acceptanceCriteriaDetail :: "json \<Rightarrow> json \<Rightarrow> string" where
  "acceptanceCriteriaDetail ct env = (case sort_criteria (contract_criteria ct) (items_at env ''criteria'') [] of (u, d, n, seen) \<Rightarrow>
     (let missing = filter (\<lambda>i. i \<notin> set seen) (contract_criteria ct);
          lost = map (\<lambda>ea. text_at ea ''ref'') (filter (\<lambda>ea. jget ea ''required'' = Some (JBool True) \<and>
            list_ex (\<lambda>a. text_at a ''artifact_id'' = text_at ea ''id'' \<and> \<not> truthy_json (jget a ''exists'')) (items_at env ''artifacts''))
            (items_at ct ''expected_artifacts''));
          parts = listed ''unknown'' (uniq u) @ listed ''missing'' missing @ listed ''duplicate'' (uniq d) @
            listed ''not-passed'' (uniq n) @ listed ''missing-artifacts'' (uniq lost)
      in ''criterion-set mismatch: '' @ join_with ''; '' (if parts = [] then [''criteria not all passed''] else parts)))"

definition unreadable :: "string \<Rightarrow> acceptance" where
  "unreadable what = Rejected_result (''completed: acceptance_unreadable: '' @ what)"

definition unmet :: "string \<Rightarrow> acceptance" where
  "unmet detail = Rejected_result (boundCause (''completed: acceptance_unmet: '' @ detail) 2000)"

definition judge_envelope :: "string \<Rightarrow> attempt \<Rightarrow> json \<Rightarrow> json \<Rightarrow> acceptance" where
  "judge_envelope a r ct env = (let at = member_at env ''attempt'' in
     if text_at at ''id'' \<noteq> a then unmet (''attempt identity '' @ text_at at ''id'' @ '' !== '' @ a)
     else if text_at at ''contract_id'' \<noteq> at_contract_id r
       then unmet (''contract identity '' @ text_at at ''contract_id'' @ '' !== attempt contract '' @ at_contract_id r)
     else if \<not> same_contract ct env
       then unmet (''contract identity '' @ text_at at ''contract_id'' @ '' is not the current contract '' @ text_at ct ''id'')
     else if text_at env ''outcome'' \<noteq> ''completed'' then unmet (''envelope outcome '' @ text_at env ''outcome'' @ '' is not completed'')
     else if acceptancePassed ct env then Accepted_result env
     else unmet (acceptanceCriteriaDetail ct env))"

definition readWorkerAcceptance :: "swarm_db \<Rightarrow> int \<Rightarrow> string \<Rightarrow> acceptance" where
  "readWorkerAcceptance db c a = (case sql_first (\<lambda>r. at_id r = a \<and> at_card_id r = c) (db_attempts db) of
     None \<Rightarrow> unreadable ''attempt''
   | Some r \<Rightarrow>
       (if at_lifecycle r \<noteq> L_completed then unreadable ''attempt''
        else case getLatestContractForCard db c of
          None \<Rightarrow> unreadable ''contract''
        | Some row \<Rightarrow> (case ct_json row of
            None \<Rightarrow> unreadable ''contract''
          | Some ct \<Rightarrow>
              (if validateContract ct \<noteq> [] then unreadable ''contract''
               else case find_result db a of
                 None \<Rightarrow> unreadable ''envelope''
               | Some res \<Rightarrow>
                   (if validateEnvelope (re_envelope res) \<noteq> [] then unreadable ''envelope''
                    else judge_envelope a r ct (re_envelope res))))))"

section \<open>Recovery reads\<close>

definition findTerminalUnprojected :: "swarm_db \<Rightarrow> nat \<Rightarrow> string list" where
  "findTerminalUnprojected db limit = map wr_run_id (take limit (filter (\<lambda>w. run_terminal (wr_state w) \<and>
     (case find_card db (wr_root_card_id w) of None \<Rightarrow> False
      | Some k \<Rightarrow> k_status k \<noteq> Done \<and> k_status k \<noteq> Failed \<and> k_status k \<noteq> Delivered)) (db_workflow_runs db)))"

definition run_live :: "swarm_db \<Rightarrow> string \<Rightarrow> bool" where
  "run_live db run \<longleftrightarrow> (case getRun db run of None \<Rightarrow> False | Some w \<Rightarrow> \<not> run_terminal (wr_state w))"

definition newest_attempts :: "swarm_db \<Rightarrow> int \<Rightarrow> attempt list" where
  "newest_attempts db c = filter (\<lambda>a. at_card_id a = c \<and> map_option at_ordinal (getLatestAttempt db c) = Some (at_ordinal a)) (db_attempts db)"

definition findUnconsumedCompletions :: "swarm_db \<Rightarrow> nat \<Rightarrow> (node_row \<times> int \<times> attempt) list" where
  "findUnconsumedCompletions db limit = take limit (concat (map (\<lambda>n. case wn_worker_card_id n of
       None \<Rightarrow> []
     | Some c \<Rightarrow>
         (if node_open n \<and> run_live db (wn_run_id n) \<and>
             \<not> list_ex (\<lambda>k. wc_run_id k = wn_run_id n \<and> wc_node_id k = wn_node_id n \<and> wc_status k = Cm_pending) (db_commands db)
          then map (\<lambda>a. (n, c, a)) (filter (\<lambda>a. isAttemptTerminal (at_lifecycle a)) (newest_attempts db c))
          else [])) (db_nodes db)))"

record run_probe =
  rp_pending :: bool
  rp_fresh_claim :: bool
  rp_due_claim :: bool
  rp_live_attempt :: bool
  rp_pending_input :: bool
  rp_open_op :: bool
  rp_pending_delivery :: bool

definition inspection_due :: "int \<Rightarrow> string \<Rightarrow> command_row \<Rightarrow> bool" where
  "inspection_due now run c \<longleftrightarrow> wc_run_id c = run \<and> wc_status c = Cm_claimed \<and>
     (case wc_next_inspection_at c of None \<Rightarrow> False | Some t \<Rightarrow> t \<le> sqliteNow now)"

definition probeRun :: "int \<Rightarrow> swarm_db \<Rightarrow> string \<Rightarrow> int \<Rightarrow> run_probe" where
  "probeRun now db run c = \<lparr>
     rp_pending = list_ex (\<lambda>k. wc_run_id k = run \<and> wc_status k = Cm_pending) (db_commands db),
     rp_fresh_claim = list_ex (\<lambda>k. wc_run_id k = run \<and> wc_status k = Cm_claimed \<and>
       (case wc_next_inspection_at k of None \<Rightarrow> False | Some t \<Rightarrow> t > sqliteNow now)) (db_commands db),
     rp_due_claim = list_ex (inspection_due now run) (db_commands db),
     rp_live_attempt = list_ex (\<lambda>a. at_root_project_card_id a = Some c \<and>
       (at_lifecycle a = L_pending \<or> holds_claim (at_lifecycle a))) (db_attempts db),
     rp_pending_input = list_ex (\<lambda>q. iq_project_card_id q = c \<and> iq_status q = Iq_pending) (db_inputs db),
     rp_open_op = list_ex (\<lambda>x. wo_run_id x = run \<and> op_open (wo_status x)) (db_operations db),
     rp_pending_delivery = hasPendingDelivery db run \<rparr>"

definition dueInspections :: "int \<Rightarrow> swarm_db \<Rightarrow> string \<Rightarrow> nat \<Rightarrow> (string option \<times> int) list" where
  "dueInspections now db run limit = map (\<lambda>c. (wc_token c, wc_inspect_gen c))
     (take limit (sort_key (\<lambda>c. orelse (wc_next_inspection_at c) 0) (filter (inspection_due now run) (db_commands db))))"

end
