(* ===== verification/WorkflowTables.thy ===== *)
theory WorkflowTables
  imports WorkflowStore
begin

text \<open>
  The invariant of the workflow tables (\<open>workflow-schema.ts\<close>): primary keys, unique indexes, the single
  open operation, unique claim tokens and budgets within their allowance. It is an instance of the
  locale \<open>preserved\<close>; every writer of the store and the commit envelope respect it, whatever the applier,
  as long as the applier does.
\<close>

section \<open>Keyed tables\<close>

definition keyed :: "('r \<Rightarrow> 'k) \<Rightarrow> 'r list \<Rightarrow> bool" where
  "keyed key t \<longleftrightarrow> distinct (map key t)"

lemma keyed_append1: "keyed key (t @ [r]) \<longleftrightarrow> keyed key t \<and> (\<forall>x \<in> set t. key x \<noteq> key r)"
  by (simp add: keyed_def image_iff) metis

lemma keyed_update: "(\<And>r. key (f r) = key r) \<Longrightarrow> keyed key (sql_update p f t) = keyed key t"
  by (simp add: keyed_def map_key_update)

lemma keyed_unique: "keyed key t \<Longrightarrow> x \<in> set t \<Longrightarrow> y \<in> set t \<Longrightarrow> key x = key y \<Longrightarrow> x = y"
  unfolding keyed_def distinct_map by (blast dest: inj_onD)

definition single_open :: "operation_row list \<Rightarrow> bool" where
  "single_open ops \<longleftrightarrow> (\<forall>x \<in> set ops. \<not> op_clash x ops)"

definition tokens_unique :: "command_row list \<Rightarrow> bool" where
  "tokens_unique cs \<longleftrightarrow> (\<forall>c \<in> set cs. wc_token c \<noteq> None \<longrightarrow> sql_changes (\<lambda>x. wc_token x = wc_token c) cs = 1)"

definition budget_kept :: "budget_row \<Rightarrow> bool" where
  "budget_kept b \<longleftrightarrow> 0 \<le> wb_consumed b \<and> wb_consumed b \<le> wb_allowed b"

definition wf_tables :: "swarm_db \<Rightarrow> bool" where
  "wf_tables db \<longleftrightarrow> keyed wr_run_id (db_workflow_runs db) \<and> keyed wr_client_operation_id (db_workflow_runs db) \<and>
     keyed (\<lambda>p. (pv_run_id p, pv_revision p)) (db_plans db) \<and>
     keyed (\<lambda>n. (wn_run_id n, wn_revision n, wn_node_id n)) (db_nodes db) \<and>
     keyed (\<lambda>d. (wd_run_id d, wd_revision d, wd_node_id d, wd_depends_on d)) (db_deps db) \<and>
     keyed wo_op_id (db_operations db) \<and> single_open (db_operations db) \<and>
     keyed (\<lambda>b. (wb_run_id b, wb_scope b)) (db_budgets db) \<and> list_all budget_kept (db_budgets db) \<and>
     keyed key_of (db_commands db) \<and> tokens_unique (db_commands db) \<and>
     keyed wi_event_id (db_ingress db) \<and> keyed (\<lambda>v. (wv_run_id v, wv_node_id v)) (db_wdeliveries db) \<and>
     keyed iq_id (db_inputs db)"

interpretation typed: preserved "\<lambda>s t. wf_tables s \<longrightarrow> wf_tables t"
  by unfold_locales auto

named_theorems typed_rules

lemma key_of_eq: "key_of c = k \<longleftrightarrow> at_key k c"
  by (cases k) (auto simp: key_of_def at_key_def)

lemma typed_update_runs [typed_rules]:
  "(\<And>r. wr_run_id (f r) = wr_run_id r) \<Longrightarrow> (\<And>r. wr_client_operation_id (f r) = wr_client_operation_id r) \<Longrightarrow>
   typed.moves (update_runs p f)"
  by (rule typed.movesI) (auto simp: update_runs_def wf_tables_def keyed_update)

lemma typed_update_nodes [typed_rules]:
  "(\<And>n. (wn_run_id (f n), wn_revision (f n), wn_node_id (f n)) = (wn_run_id n, wn_revision n, wn_node_id n)) \<Longrightarrow>
   typed.moves (update_nodes p f)"
  by (rule typed.movesI) (simp add: update_nodes_def wf_tables_def keyed_update)

lemma typed_update_deps [typed_rules]:
  "(\<And>n. (wd_run_id (f n), wd_revision (f n), wd_node_id (f n), wd_depends_on (f n)) = (wd_run_id n, wd_revision n, wd_node_id n, wd_depends_on n)) \<Longrightarrow>
   typed.moves (update_deps p f)"
  by (rule typed.movesI) (simp add: update_deps_def wf_tables_def keyed_update)

lemma list_all_update: "(\<And>r. P r \<Longrightarrow> p r \<Longrightarrow> P (f r)) \<Longrightarrow> list_all P t \<Longrightarrow> list_all P (sql_update p f t)"
  by (induction t) auto

lemma typed_update_budgets [typed_rules]:
  "(\<And>b. (wb_run_id (f b), wb_scope (f b)) = (wb_run_id b, wb_scope b)) \<Longrightarrow>
   (\<And>b. budget_kept b \<Longrightarrow> p b \<Longrightarrow> budget_kept (f b)) \<Longrightarrow> typed.moves (update_budgets p f)"
  by (rule typed.movesI) (simp add: update_budgets_def wf_tables_def keyed_update list_all_update)

lemma tokens_kept:
  "(\<And>c. wc_token (f c) = wc_token c) \<Longrightarrow> tokens_unique cs \<Longrightarrow> tokens_unique (sql_update p f cs)"
proof -
  assume f: "\<And>c. wc_token (f c) = wc_token c" and u: "tokens_unique cs"
  have "sql_changes (\<lambda>x. wc_token x = t) (sql_update p f cs) = sql_changes (\<lambda>x. wc_token x = t) cs" for t
    by (induction cs) (auto simp: f)
  then show ?thesis using u by (auto simp: tokens_unique_def set_sql_update f)
qed

lemma tokens_dropped:
  assumes f: "\<And>c. wc_token (f c) = None" and u: "tokens_unique cs"
  shows "tokens_unique (sql_update p f cs)"
proof -
  have le: "sql_changes (\<lambda>x. wc_token x = Some t) (sql_update p f cs) \<le> sql_changes (\<lambda>x. wc_token x = Some t) cs" for t
    by (induction cs) (auto simp: f)
  have pos: "c \<in> set cs \<Longrightarrow> wc_token c = Some t \<Longrightarrow> sql_changes (\<lambda>x. wc_token x = Some t) cs \<noteq> 0" for c t cs
    by (auto simp: sql_changes_0)
  show ?thesis unfolding tokens_unique_def
  proof (intro ballI impI)
    fix c assume c: "c \<in> set (sql_update p f cs)" "wc_token c \<noteq> None"
    then obtain t where t: "wc_token c = Some t" by auto
    with c f have "c \<in> set cs" by (auto simp: set_sql_update split: if_splits)
    with u t have "sql_changes (\<lambda>x. wc_token x = Some t) cs = 1" by (force simp: tokens_unique_def)
    with le [of t] pos [OF c(1) t] t show "sql_changes (\<lambda>x. wc_token x = wc_token c) (sql_update p f cs) = 1" by simp
  qed
qed

lemma typed_update_commands [typed_rules]:
  "(\<And>c. key_of (f c) = key_of c) \<Longrightarrow> (\<And>c. wc_token (f c) = wc_token c) \<Longrightarrow> typed.moves (update_commands p f)"
  by (rule typed.movesI) (simp add: update_commands_def wf_tables_def keyed_update tokens_kept)

lemma typed_release_commands:
  "(\<And>c. key_of (f c) = key_of c) \<Longrightarrow> (\<And>c. wc_token (f c) = None) \<Longrightarrow> typed.moves (update_commands p f)"
  by (rule typed.movesI) (simp add: update_commands_def wf_tables_def keyed_update tokens_dropped)

lemma typed_update_ingress [typed_rules]:
  "(\<And>e. wi_event_id (f e) = wi_event_id e) \<Longrightarrow> typed.moves (update_ingress p f)"
  by (rule typed.movesI) (simp add: update_ingress_def wf_tables_def keyed_update)

lemma typed_update_deliveries [typed_rules]:
  "(\<And>v. (wv_run_id (f v), wv_node_id (f v)) = (wv_run_id v, wv_node_id v)) \<Longrightarrow> typed.moves (update_deliveries p f)"
  by (rule typed.movesI) (simp add: update_deliveries_def wf_tables_def keyed_update)

lemma typed_update_inputs [typed_rules]:
  "(\<And>q. iq_id (f q) = iq_id q) \<Longrightarrow> typed.moves (update_inputs p f)"
  by (rule typed.movesI) (simp add: update_inputs_def wf_tables_def keyed_update)

lemma single_open_update:
  assumes p: "\<And>r. p r \<Longrightarrow> op_open (wo_status r)"
    and f: "\<And>r. (wo_op_id (f r), wo_run_id (f r), wo_kind (f r), wo_revision (f r)) = (wo_op_id r, wo_run_id r, wo_kind r, wo_revision r)"
    and s: "single_open ops"
  shows "single_open (sql_update p f ops)"
proof -
  have origin: "\<exists>y \<in> set ops. op_open (wo_status y) \<and> wo_op_id y = wo_op_id x \<and> wo_run_id y = wo_run_id x \<and>
      wo_kind y = wo_kind x \<and> wo_revision y = wo_revision x"
    if "x \<in> set (sql_update p f ops)" "op_open (wo_status x)" for x
    using that p f by (fastforce simp: set_sql_update split: if_splits)
  show ?thesis unfolding single_open_def op_clash_def list_ex_iff
  proof (intro ballI notI, elim conjE bexE)
    fix x y assume x: "x \<in> set (sql_update p f ops)" "op_open (wo_status x)" "wo_revision x \<noteq> None"
      and y: "y \<in> set (sql_update p f ops)" "op_open (wo_status y)" "wo_op_id y \<noteq> wo_op_id x" "wo_run_id y = wo_run_id x"
        "wo_kind y = wo_kind x" "wo_revision y = wo_revision x"
    from origin [OF x(1,2)] obtain x0 where x0: "x0 \<in> set ops" "op_open (wo_status x0)" "wo_op_id x0 = wo_op_id x"
      "wo_run_id x0 = wo_run_id x" "wo_kind x0 = wo_kind x" "wo_revision x0 = wo_revision x" by blast
    from origin [OF y(1,2)] obtain y0 where y0: "y0 \<in> set ops" "op_open (wo_status y0)" "wo_op_id y0 = wo_op_id y"
      "wo_run_id y0 = wo_run_id y" "wo_kind y0 = wo_kind y" "wo_revision y0 = wo_revision y" by blast
    from x0 y0 x(3) y(3-6) have "op_clash x0 ops" by (auto simp: op_clash_def list_ex_iff intro!: bexI [of _ y0])
    with s x0(1) show False by (simp add: single_open_def)
  qed
qed

lemma typed_close_operations [typed_rules]:
  "(\<And>r. p r \<Longrightarrow> op_open (wo_status r)) \<Longrightarrow>
   (\<And>r. (wo_op_id (f r), wo_run_id (f r), wo_kind (f r), wo_revision (f r)) = (wo_op_id r, wo_run_id r, wo_kind r, wo_revision r)) \<Longrightarrow>
   typed.moves (update_operations p f)"
  by (rule typed.movesI) (simp add: update_operations_def wf_tables_def keyed_update single_open_update)


lemma typed_insert:
  "(\<And>s. wf_tables s \<Longrightarrow> q s \<Longrightarrow> wf_tables (g s)) \<Longrightarrow> typed.moves (andThen (require e q) (writes g))"
  by (rule typed.movesI) (simp add: call_simps)

lemma typed_exactly_one [typed_rules]: "typed.moves m \<Longrightarrow> typed.moves (exactly_one e m)"
  unfolding exactly_one_def by auto

lemma typed_one_row [typed_rules]: "typed.moves m \<Longrightarrow> typed.moves (one_row m)"
  unfolding one_row_def by auto

lemma typed_insert_budget [typed_rules]: "0 \<le> n \<Longrightarrow> typed.moves (insert_budget run sc n)"
  unfolding insert_budget_def
  by (rule typed_insert) (auto simp: wf_tables_def keyed_append1 budget_kept_def list_ex_iff)

lemma typed_insert_ingress [typed_rules]: "typed.moves (insert_ingress e)"
  unfolding insert_ingress_def by (rule typed_insert) (auto simp: wf_tables_def keyed_append1 list_ex_iff)

lemma typed_insertPlanRevision [typed_rules]: "typed.moves (insertPlanRevision run rv p)"
  unfolding insertPlanRevision_def by (rule typed_insert) (auto simp: wf_tables_def keyed_append1 list_ex_iff)

lemma typed_insertNode: "typed.moves (insertNode run rv p)"
  unfolding insertNode_def by (rule typed_insert) (auto simp: wf_tables_def keyed_append1 list_ex_iff at_node_def)

lemma typed_insertNodes [typed_rules]: "typed.moves (insertNodes run rv ns)"
  unfolding insertNodes_def by (intro typed.moves_each typed_insertNode)

lemma typed_insertDep: "typed.moves (insertDep run rv p)"
  unfolding insertDep_def by (rule typed_insert) (auto simp: wf_tables_def keyed_append1 list_ex_iff dep_at_def)

lemma typed_insertDeps [typed_rules]: "typed.moves (insertDeps run rv ns)"
  unfolding insertDeps_def by (intro typed.moves_each typed_insertDep)

lemma typed_bindNodeWorker [typed_rules]: "typed.moves (bindNodeWorker run rv i c a)"
  unfolding bindNodeWorker_def by (intro typed_rules) simp

lemma typed_markNodeRunning [typed_rules]: "typed.moves (markNodeRunning run rv i)"
  unfolding markNodeRunning_def by (intro typed_rules) simp

lemma typed_setNodeOutcome [typed_rules]: "typed.moves (setNodeOutcome run rv i st out a)"
  unfolding setNodeOutcome_def by (intro typed_rules) simp

lemma skipped_key [simp]: "wn_run_id (skipped n) = wn_run_id n" "wn_revision (skipped n) = wn_revision n"
  "wn_node_id (skipped n) = wn_node_id n" "wn_kind (skipped n) = wn_kind n" "wn_status (skipped n) = Nd_skipped"
  by (simp_all add: skipped_def)

lemma skip_passes_keyed: "keyed (\<lambda>n. (wn_run_id n, wn_revision n, wn_node_id n)) (skip_passes run rv ds ns) =
  keyed (\<lambda>n. (wn_run_id n, wn_revision n, wn_node_id n)) ns"
  by (induction run rv ds ns rule: skip_passes.induct)
     (subst skip_passes.simps, simp add: keyed_update)

lemma typed_skipDependents [typed_rules]: "typed.moves (skipDependents run rv i)"
  unfolding skipDependents_def
  by (rule typed.moves_writes) (simp add: wf_tables_def skip_nodes_def skip_passes_keyed keyed_update)

lemma typed_satisfyDependents [typed_rules]: "typed.moves (satisfyDependents run rv i)"
  unfolding satisfyDependents_def by (intro typed.moves_andThen typed_rules) auto

lemma token_append: "wc_token r = None \<Longrightarrow> tokens_unique cs \<Longrightarrow> tokens_unique (cs @ [r])"
  by (auto simp: tokens_unique_def sql_changes_def)

lemma typed_queueCommand [typed_rules]: "typed.moves (queueCommand now k p)"
  unfolding queueCommand_def
  by (rule typed_insert)
     (auto simp: wf_tables_def keyed_append1 token_append getCommand_def sql_first_None key_of_eq [symmetric] key_of_def)

lemma typed_insertDelivery [typed_rules]: "typed.moves (insertDelivery run i ob)"
proof (rule typed.movesI, rule impI)
  fix db assume w: "wf_tables db"
  show "wf_tables (snd (insertDelivery run i ob db))"
  proof (cases "getDelivery db run i")
    case None
    then have "\<forall>v \<in> set (db_wdeliveries db). (wv_run_id v, wv_node_id v) \<noteq> (run, i)"
      by (simp add: getDelivery_def sql_first_None)
    with w have "wf_tables (db\<lparr> db_wdeliveries := db_wdeliveries db @ [\<lparr> wv_run_id = run, wv_node_id = i,
       wv_obligation = ob, wv_outcome = Dv_pending, wv_attempts = 0, wv_receipt = None \<rparr>] \<rparr>)"
      by (simp add: wf_tables_def keyed_append1)
    with None show ?thesis by (simp add: insertDelivery_def call_simps)
  next
    case (Some v)
    with w show ?thesis by (simp add: insertDelivery_def call_simps update_deliveries_def wf_tables_def keyed_update)
  qed
qed

lemma typed_setDeliveryOutcome [typed_rules]: "typed.moves (setDeliveryOutcome run i out r)"
  unfolding setDeliveryOutcome_def by (intro typed_rules) simp

lemma typed_bumpDeliveryAttempts [typed_rules]: "typed.moves (bumpDeliveryAttempts run i)"
  unfolding bumpDeliveryAttempts_def by (intro typed.moves_andThen typed_rules) auto

lemma single_open_append: "\<not> op_clash r ops \<Longrightarrow> single_open ops \<Longrightarrow> single_open (ops @ [r])"
  by (fastforce simp: single_open_def op_clash_def list_ex_iff)

lemma single_open_at:
  assumes k: "keyed wo_op_id ops" and x: "sql_first (\<lambda>x. wo_op_id x = op) ops = Some x"
    and f: "\<And>r. (wo_op_id (f r), wo_run_id (f r), wo_kind (f r), wo_revision (f r)) = (wo_op_id r, wo_run_id r, wo_kind r, wo_revision r)"
    and c: "\<not> op_clash (f x) ops" and s: "single_open ops"
  shows "single_open (sql_update (\<lambda>r. wo_op_id r = op) f ops)"
proof -
  from sql_first_SomeD [OF x] have xin: "x \<in> set ops" "wo_op_id x = op" by auto
  have mem: "y \<in> set (sql_update (\<lambda>r. wo_op_id r = op) f ops) \<Longrightarrow> y = f x \<or> (y \<in> set ops \<and> wo_op_id y \<noteq> op)" for y
  proof -
    assume "y \<in> set (sql_update (\<lambda>r. wo_op_id r = op) f ops)"
    then obtain r where r: "r \<in> set ops" "y = (if wo_op_id r = op then f r else r)" by (auto simp: set_sql_update)
    show ?thesis
    proof (cases "wo_op_id r = op")
      case True
      with xin have "r = x" by (intro keyed_unique [OF k r(1) xin(1)]) simp
      with r True show ?thesis by simp
    qed (use r in simp)
  qed
  show ?thesis unfolding single_open_def op_clash_def list_ex_iff
  proof (intro ballI notI, elim conjE bexE)
    fix y z assume y: "y \<in> set (sql_update (\<lambda>r. wo_op_id r = op) f ops)" "op_open (wo_status y)" "wo_revision y \<noteq> None"
      and z: "z \<in> set (sql_update (\<lambda>r. wo_op_id r = op) f ops)" "op_open (wo_status z)" "wo_op_id z \<noteq> wo_op_id y" "wo_run_id z = wo_run_id y"
        "wo_kind z = wo_kind y" "wo_revision z = wo_revision y"
    consider "y = f x" "z \<in> set ops" | "z = f x" "y \<in> set ops" | "y \<in> set ops" "z \<in> set ops"
      using mem [OF y(1)] mem [OF z(1)] z(3) by auto
    then show False
    proof cases
      case 1
      with y z have "op_clash (f x) ops" by (auto simp: op_clash_def list_ex_iff intro!: bexI [of _ z])
      with c show ?thesis by simp
    next
      case 2
      with y z have "op_clash (f x) ops" by (auto simp: op_clash_def list_ex_iff intro!: bexI [of _ y])
      with c show ?thesis by simp
    next
      case 3
      with y z have "op_clash y ops" by (auto simp: op_clash_def list_ex_iff intro!: bexI [of _ z])
      with s 3 show ?thesis by (simp add: single_open_def)
    qed
  qed
qed

lemma typed_upsertOperation [typed_rules]: "typed.moves (upsertOperation op run kind rv st res)"
proof (rule typed.movesI, rule impI)
  fix db assume w: "wf_tables db"
  show "wf_tables (snd (upsertOperation op run kind rv st res db))"
  proof (cases "sql_first (\<lambda>x. wo_op_id x = op) (db_operations db)")
    case None
    then have "\<forall>x \<in> set (db_operations db). wo_op_id x \<noteq> op" by (simp add: sql_first_None)
    with w show ?thesis
      by (auto simp: upsertOperation_def call_simps Let_def None wf_tables_def keyed_append1 single_open_append)
  next
    case (Some x)
    with w show ?thesis
      by (auto simp: upsertOperation_def call_simps Let_def wf_tables_def update_operations_def keyed_update
            intro!: single_open_at [where x = x])
  qed
qed

lemma typed_closeOpenOperations [typed_rules]: "typed.moves (closeOpenOperations run st res)"
  unfolding closeOpenOperations_def by (intro typed_rules) auto

lemma token_claimed:
  assumes k: "keyed key_of cs" and fresh: "\<not> list_ex (\<lambda>x. wc_token x = Some tok) cs" and u: "tokens_unique cs"
    and f: "\<And>c. wc_token (f c) = Some tok" and p: "\<And>c. p c \<Longrightarrow> at_key key c"
  shows "tokens_unique (sql_update p f cs)"
proof -
  have one: "sql_changes p cs \<le> 1"
  proof -
    have "sql_changes (at_key key) cs \<le> 1"
      using sql_changes_key [where k = key_of and x = key and q = "\<lambda>_. True" and t = cs] k
      by (simp add: keyed_def key_of_eq split: option.splits)
    moreover have "sql_changes p cs \<le> sql_changes (at_key key) cs"
      using p by (induction cs) auto
    ultimately show ?thesis by simp
  qed
  have tok: "sql_changes (\<lambda>x. wc_token x = Some tok) (sql_update p f cs) = sql_changes p cs"
    using fresh by (induction cs) (auto simp: f)
  have other: "t \<noteq> tok \<Longrightarrow> sql_changes (\<lambda>x. wc_token x = Some t) (sql_update p f cs) \<le> sql_changes (\<lambda>x. wc_token x = Some t) cs" for t
    by (induction cs) (auto simp: f)
  have pos: "c \<in> set cs' \<Longrightarrow> wc_token c = Some t \<Longrightarrow> sql_changes (\<lambda>x. wc_token x = Some t) cs' \<noteq> 0" for c t cs'
    by (auto simp: sql_changes_0)
  show ?thesis unfolding tokens_unique_def
  proof (intro ballI impI)
    fix c assume c: "c \<in> set (sql_update p f cs)" "wc_token c \<noteq> None"
    then obtain t where t: "wc_token c = Some t" by auto
    show "sql_changes (\<lambda>x. wc_token x = wc_token c) (sql_update p f cs) = 1"
    proof (cases "t = tok")
      case True
      with t tok one pos [OF c(1) t] show ?thesis by simp
    next
      case False
      with t c(1) f have "c \<in> set cs" by (auto simp: set_sql_update split: if_splits)
      with u t have "sql_changes (\<lambda>x. wc_token x = Some t) cs = 1" by (force simp: tokens_unique_def)
      with other [OF False] pos [OF c(1) t] t show ?thesis by simp
    qed
  qed
qed

lemma typed_claimCommand [typed_rules]: "typed.moves (claimCommand now k owner tok)"
proof -
  let ?p = "\<lambda>c. at_key k c \<and> wc_status c = Cm_pending"
  have "wf_tables (db\<lparr> db_commands := sql_update ?p (claimed_row now owner tok) (db_commands db) \<rparr>)"
    if w: "wf_tables db" and fresh: "\<not> list_ex (\<lambda>x. wc_token x = Some tok) (db_commands db)" for db
  proof -
    from w fresh have "tokens_unique (sql_update ?p (claimed_row now owner tok) (db_commands db))"
      by (intro token_claimed [where tok = tok and key = k]) (simp_all add: wf_tables_def claimed_row_def)
    with w show ?thesis by (simp add: wf_tables_def keyed_update claimed_row_def key_of_def)
  qed
  then show ?thesis
    by (intro typed.movesI) (simp add: claimCommand_def call_simps update_commands_def split: option.split)
qed

lemma typed_completeCommand [typed_rules]: "typed.moves (completeCommand now k owner tok)"
  unfolding completeCommand_def by (intro typed_rules) (simp_all add: key_of_def)

lemma typed_releaseClaim [typed_rules]: "typed.moves (releaseClaim k owner tok)"
  unfolding releaseClaim_def by (intro typed_one_row typed_release_commands) (simp_all add: key_of_def)

lemma typed_cancels [typed_rules]: "typed.moves (cancelCommand now k)" "typed.moves (supersedeCommand now k)"
  "typed.moves (cancelPendingCommands now run)"
  unfolding cancelCommand_def supersedeCommand_def cancelPendingCommands_def cancelled_row_def
  by (intro typed_rules; simp add: key_of_def)+

lemma typed_notes [typed_rules]: "typed.moves (noteInspectionAlive now k g i)" "typed.moves (noteInspectionInconclusive now k g n)"
  "typed.moves (noteInspectionAliveForMillis now k g ms)"
  unfolding noteInspectionAliveForMillis_def noteInspectionAlive_def noteInspectionInconclusive_def
  by (intro typed.moves_bind typed_rules typed.moves_pure; simp add: key_of_def)+

lemma typed_consumeBudget [typed_rules]: "typed.moves (consumeBudget run sc)"
  unfolding consumeBudget_def by (intro typed_rules) (simp_all add: budget_kept_def)

lemma typed_cancelPriorNodes [typed_rules]: "typed.moves (cancelPriorNodes run rv spare)"
  unfolding cancelPriorNodes_def by (intro typed_rules) simp

lemma typed_fence_attempts: "typed.moves (\<lambda>db. case cancelRun_fence now run root db of (n, db1) \<Rightarrow> (Inr n, db1))"
  by (rule typed.movesI)
     (simp add: cancelRun_fence_def update_attempts_def update_reservations_def Let_def case_prod_unfold wf_tables_def)

lemma typed_cancelRun [typed_rules]: "typed.moves (cancelRun now run root)"
  unfolding cancelRun_def cancelled_row_def
  by (intro typed.moves_bind typed.moves_andThen typed_fence_attempts typed_rules typed.moves_pure) (simp_all add: key_of_def)

lemma typed_insertInputRequest [typed_rules]: "typed.moves (insertInputRequest i run c q cr kind)"
  unfolding insertInputRequest_def by (rule typed_insert) (auto simp: wf_tables_def keyed_append1 list_ex_iff)

lemma typed_answerInputRequest [typed_rules]: "typed.moves (answerInputRequest i r)"
  unfolding answerInputRequest_def
  by (intro typed.moves_bind typed.moves_option typed.moves_andThen typed_rules typed.moves_pure) simp

lemma typed_admitRun [typed_rules]: "typed.moves (admitRun sha now i)"
proof (cases "\<exists>sc \<in> set BUDGET_SCOPES. ri_budgets i sc < 0")
  case False
  then have b: "0 \<le> ri_budgets i sc" if "sc \<in> set BUDGET_SCOPES" for sc using that by force
  have all: "typed.moves (each (\<lambda>sc. insert_budget (ri_run_id i) sc (ri_budgets i sc)) BUDGET_SCOPES)"
    using b by (auto simp: BUDGET_SCOPES_def intro!: typed_rules typed.moves_andThen)
  show ?thesis
  proof (rule typed.movesI, rule impI)
    fix db assume w: "wf_tables db"
    let ?ex = "sql_first (\<lambda>w. wr_client_operation_id w = ri_client_operation_id i) (db_workflow_runs db)"
    let ?db1 = "db\<lparr> db_workflow_runs := db_workflow_runs db @ [admitted_run now i] \<rparr>"
    have w1: "wf_tables ?db1" if "?ex = None" "getRun db (ri_run_id i) = None"
      using that w by (auto simp: wf_tables_def keyed_append1 admitted_run_def getRun_def sql_first_None)
    show "wf_tables (snd (admitRun sha now i db))"
    proof (cases ?ex)
      case (Some prev)
      with False w show ?thesis by (auto simp: admitRun_def call_simps atomically_def)
    next
      case None
      let ?rest = "andThen (each (\<lambda>sc. insert_budget (ri_run_id i) sc (ri_budgets i sc)) BUDGET_SCOPES)
        (andThen (insert_ingress \<lparr> wi_event_id = ''admit-'' @ ri_client_operation_id i, wi_run_id = ri_run_id i,
          wi_hash = sha (admission_body i), wi_payload = admission_body i, wi_disposition = In_applied,
          wi_received_at = sqliteNow now, wi_applied_at = Some (sqliteNow now) \<rparr>) (return (admitted_run now i)))"
      have rest: "typed.moves ?rest" by (intro typed.moves_andThen all typed_rules typed.moves_pure)
      have "wf_tables (snd (insert_run sha now i db))"
      proof (cases "getRun db (ri_run_id i) = None")
        case True
        from typed.movesD [OF rest, of ?db1] w1 [OF None True] have r: "wf_tables (snd (?rest ?db1))"
          by (cases "?rest ?db1") auto
        show ?thesis
          using w r unfolding insert_run_def
          by (simp add: andThen_def [of "require _ _"] andThen_def [of "writes _"] bind_def require_def writes_def True
                split: option.split)
      qed (use w in \<open>auto simp: insert_run_def call_simps split: option.split\<close>)
      then have "typed.moves (\<lambda>_ :: swarm_db. insert_run sha now i db)" if "\<not> wf_tables db" using that w by simp
      then show ?thesis using False None \<open>wf_tables (snd (insert_run sha now i db))\<close> w
        by (auto simp: admitRun_def call_simps atomically_def split: prod.splits sum.splits)
    qed
  qed
qed (auto simp: admitRun_def)

lemma typed_apply_event: "(\<And>w. typed.moves (applier w)) \<Longrightarrow> typed.moves (apply_event now e applier w)"
  unfolding apply_event_def consume_event_def
  by (intro typed.moves_bind typed.moves_andThen typed_rules typed.moves_pure) (simp_all add: bump_run_def)

lemma typed_fence: "(\<And>w. typed.moves (applier w)) \<Longrightarrow> typed.moves (fence now e applier known)"
  unfolding fence_def consume_event_def
  by (intro typed.moves_bind typed.moves_option typed.moves_if typed.moves_andThen typed_rules typed.moves_pure typed_apply_event) auto

lemma typed_commitTransition:
  assumes a: "\<And>w. typed.moves (applier w)"
  shows "typed.moves (commitTransition now e applier)"
proof -
  have f: "wf_tables (snd (fence now e applier b db))" if "wf_tables db" for b db
    using typed_fence [of applier now e b, OF a] that unfolding typed.moves_def by blast
  have "typed.moves (applyEnvelope now e applier)"
  proof (rule typed.movesI, rule impI)
    fix db assume w: "wf_tables db"
    show "wf_tables (snd (applyEnvelope now e applier db))"
    proof (cases "find_ingress db (rn_event_id e)")
      case None
      with w have "wf_tables (db\<lparr> db_ingress := db_ingress db @ [received now e] \<rparr>)"
        by (auto simp: wf_tables_def keyed_append1 find_ingress_def sql_first_None received_def)
      from f [OF this] None show ?thesis by (simp add: applyEnvelope_def call_simps)
    next
      case (Some x)
      with w f show ?thesis by (auto simp: applyEnvelope_def call_simps)
    qed
  qed
  then show ?thesis unfolding commitTransition_def by (rule typed.moves_atomically)
qed

end
