(* ===== verification/WorkflowCommit.thy ===== *)
theory WorkflowCommit
  imports WorkflowTables
begin

text \<open>
  What the workflow store promises: an event is applied exactly once, a command claim ends once,
  \<open>skipDependents\<close> computes the closure it is meant to compute, an accepted result is earned.
\<close>

section \<open>Exactly once\<close>

lemma exactly_one_Inr: "exactly_one e m s = (Inr u, t) \<longleftrightarrow> m s = (Inr 1, t)"
  by (auto simp: exactly_one_def call_simps split: prod.splits sum.splits if_splits)

lemma consume_Inr: "consume_event now i d s = (Inr n, t) \<longleftrightarrow>
   n = sql_changes (\<lambda>x. wi_event_id x = i \<and> wi_disposition x = In_received) (db_ingress s) \<and>
   t = s\<lparr> db_ingress := sql_update (\<lambda>x. wi_event_id x = i \<and> wi_disposition x = In_received)
     (\<lambda>e. e\<lparr> wi_disposition := d, wi_applied_at := Some (sqliteNow now) \<rparr>) (db_ingress s) \<rparr>"
  by (auto simp: consume_event_def update_ingress_def)

lemma sql_update_first_split:
  "sql_first (\<lambda>r. k r = x \<and> q r) t = None \<Longrightarrow> sql_changes (\<lambda>r. k r = x \<and> q r) t = 0"
  by (simp add: sql_first_None sql_changes_0)

lemma changed_row:
  assumes k: "keyed k t" and f: "\<And>r. k (f r) = k r" and n: "sql_changes (\<lambda>r. k r = x \<and> q r) t = 1"
  obtains r where "sql_first (\<lambda>r. k r = x) t = Some r" "q r"
    "sql_first (\<lambda>r. k r = x) (sql_update (\<lambda>r. k r = x \<and> q r) f t) = Some (f r)"
proof -
  from k n obtain r where r: "sql_first (\<lambda>r. k r = x) t = Some r" "q r"
    by (auto simp: keyed_def sql_changes_key split: option.splits if_splits)
  moreover from sql_first_SomeD [OF r(1)] have "k r = x" by simp
  ultimately show ?thesis using that [OF r] by (simp add: sql_first_update [of k f, OF f])
qed

lemma fence_Inr:
  assumes "fence now e applier known s = (Inr d, t)"
  shows "known \<and> (\<exists>w. getRun s (rn_run_id e) = Some w \<and> run_terminal (wr_state w)) \<and> d = Noop \<and>
        (\<exists>n. consume_event now (rn_event_id e) In_noop s = (Inr n, t)) \<or>
     (\<exists>w. getRun s (rn_run_id e) = Some w \<and> wr_generation w = rn_generation e \<and> wr_state_version w = rn_state_version e \<and>
        apply_event now e applier w s = (Inr d, t))"
  using assms
  by (auto simp: fence_def call_simps return_def split: option.splits if_splits prod.splits sum.splits)

lemma apply_event_Inr:
  assumes "apply_event now e applier w s = (Inr d, t)"
  obtains ef u u1 where "applier w s = (Inr ef, u)"
    "update_runs (\<lambda>r. wr_run_id r = rn_run_id e \<and> wr_state_version r = rn_state_version e)
        (bump_run now (ef\<lparr> ef_next_state := Some (orelse (ef_next_state ef) (wr_state w)) \<rparr>)) u = (Inr 1, u1)"
    "consume_event now (rn_event_id e) (if ef_noop ef then In_noop else In_applied) u1 = (Inr 1, t)"
    "d = (if ef_noop ef then Noop else Committed)"
proof -
  from assms obtain ef u where a: "applier w s = (Inr ef, u)" and
    b: "andThen (exactly_one E_version_race (update_runs
        (\<lambda>r. wr_run_id r = rn_run_id e \<and> wr_state_version r = rn_state_version e)
        (bump_run now (ef\<lparr> ef_next_state := Some (orelse (ef_next_state ef) (wr_state w)) \<rparr>))))
      (andThen (exactly_one E_apply_race (consume_event now (rn_event_id e) (if ef_noop ef then In_noop else In_applied)))
        (return (if ef_noop ef then Noop else Committed))) u = (Inr d, t)"
    unfolding apply_event_def by (auto simp: bind_Inr)
  from b obtain u1 where c: "update_runs (\<lambda>r. wr_run_id r = rn_run_id e \<and> wr_state_version r = rn_state_version e)
        (bump_run now (ef\<lparr> ef_next_state := Some (orelse (ef_next_state ef) (wr_state w)) \<rparr>)) u = (Inr 1, u1)"
    "andThen (exactly_one E_apply_race (consume_event now (rn_event_id e) (if ef_noop ef then In_noop else In_applied)))
        (return (if ef_noop ef then Noop else Committed)) u1 = (Inr d, t)"
    by (auto simp: andThen_Inr exactly_one_Inr)
  from c(2) have "consume_event now (rn_event_id e) (if ef_noop ef then In_noop else In_applied) u1 = (Inr 1, t)"
      "d = (if ef_noop ef then Noop else Committed)"
    by (auto simp only: andThen_Inr exactly_one_Inr return_def prod.inject sum.inject)
  with a c(1) show ?thesis by (rule that)
qed

text \<open>The event of a transaction that returned \<open>committed\<close> or \<open>noop\<close> is consumed in the result.\<close>

definition consumed_as :: "disposition \<Rightarrow> ingress_row \<Rightarrow> bool" where
  "consumed_as d x \<longleftrightarrow> wi_disposition x = (if d = Noop then In_noop else In_applied)"

lemma redelivered:
  assumes "find_ingress db (rn_event_id e) = Some x" "consumed_as d x" "d = Noop \<or> d = Committed"
  shows "commitTransition now e applier db =
     (Inr (if wi_hash x \<noteq> rn_hash e then Conflict else if d = Noop then Noop else Duplicate), db)"
  using assms by (auto simp: commitTransition_def applyEnvelope_def atomically_def call_simps consumed_as_def)

lemma consumed_found:
  assumes k: "keyed wi_event_id (db_ingress s)" and c: "consume_event now i d s = (Inr 1, t)"
  shows "\<exists>x. find_ingress s i = Some x \<and> wi_disposition x = In_received \<and>
    find_ingress t i = Some (x\<lparr> wi_disposition := d, wi_applied_at := Some (sqliteNow now) \<rparr>)"
proof -
  from c have n: "sql_changes (\<lambda>x. wi_event_id x = i \<and> wi_disposition x = In_received) (db_ingress s) = 1"
    and t: "t = s\<lparr> db_ingress := sql_update (\<lambda>x. wi_event_id x = i \<and> wi_disposition x = In_received)
     (\<lambda>e. e\<lparr> wi_disposition := d, wi_applied_at := Some (sqliteNow now) \<rparr>) (db_ingress s) \<rparr>"
    by (simp_all add: consume_Inr)
  from changed_row [OF k _ n, of "\<lambda>e. e\<lparr> wi_disposition := d, wi_applied_at := Some (sqliteNow now) \<rparr>"] show ?thesis
    unfolding t find_ingress_def by auto
qed

section \<open>Skipping dependents\<close>

text \<open>
  The specification of \<open>skipDependents\<close>: a queued node is doomed when it depends on the given node, on a
  node already skipped, or on a doomed one. A node that is not queued any more stops the spread.
\<close>

inductive doomed :: "string \<Rightarrow> nat \<Rightarrow> string \<Rightarrow> dep_row list \<Rightarrow> node_row list \<Rightarrow> node_row \<Rightarrow> bool"
  for run rv i ds ns where
  direct: "n \<in> set ns \<Longrightarrow> direct_dependent run rv ds i n \<Longrightarrow> doomed run rv i ds ns n"
| old: "n \<in> set ns \<Longrightarrow> blocked_by_skipped run rv ds ns n \<Longrightarrow> doomed run rv i ds ns n"
| chain: "n \<in> set ns \<Longrightarrow> queued_in run rv n \<Longrightarrow> d \<in> set ds \<Longrightarrow> dep_at run rv d \<Longrightarrow> wd_node_id d = wn_node_id n \<Longrightarrow>
    doomed run rv i ds ns m \<Longrightarrow> wn_node_id m = wd_depends_on d \<Longrightarrow> doomed run rv i ds ns n"

inductive_cases doomedE: "doomed run rv i ds ns n"

lemma doomed_queued: "doomed run rv i ds ns n \<Longrightarrow> n \<in> set ns \<and> queued_in run rv n"
  by (induction rule: doomed.induct) (simp_all add: direct_dependent_def blocked_by_skipped_def)

definition mark :: "(node_row \<Rightarrow> bool) \<Rightarrow> node_row list \<Rightarrow> node_row list" where
  "mark P = map (\<lambda>n. if P n then skipped n else n)"

lemma blockedI:
  "queued_in run rv n \<Longrightarrow> d \<in> set ds \<Longrightarrow> dep_at run rv d \<Longrightarrow> wd_node_id d = wn_node_id n \<Longrightarrow> m \<in> set ns \<Longrightarrow>
   at_node run rv (wd_depends_on d) m \<Longrightarrow> wn_status m = Nd_skipped \<Longrightarrow> blocked_by_skipped run rv ds ns n"
  unfolding blocked_by_skipped_def list_ex_iff by blast

lemma blocked_mark:
  assumes P: "\<And>n. P n \<Longrightarrow> n \<in> set ns \<Longrightarrow> doomed run rv i ds ns n"
    and b: "blocked_by_skipped run rv ds (mark P ns) n" and n: "n \<in> set ns"
  shows "doomed run rv i ds ns n"
proof -
  from b obtain d m where q: "queued_in run rv n" and d: "d \<in> set ds" "dep_at run rv d" "wd_node_id d = wn_node_id n"
    and m: "m \<in> set (mark P ns)" "at_node run rv (wd_depends_on d) m" "wn_status m = Nd_skipped"
    by (auto simp: blocked_by_skipped_def list_ex_iff)
  from m(1) obtain m0 where m0: "m0 \<in> set ns" "m = (if P m0 then skipped m0 else m0)" by (auto simp: mark_def)
  show ?thesis
  proof (cases "P m0")
    case True
    with P m0 m(2) have "doomed run rv i ds ns m0" "wn_node_id m0 = wd_depends_on d" by (auto simp: at_node_def)
    then show ?thesis by (rule doomed.chain [OF n q d])
  next
    case False
    with m m0 q d have "blocked_by_skipped run rv ds ns n"
      by (auto simp: blocked_by_skipped_def list_ex_iff)
    with n show ?thesis by (rule doomed.old)
  qed
qed

lemma skip_passes_mark:
  assumes P: "\<And>n. P n \<Longrightarrow> n \<in> set ns \<Longrightarrow> doomed run rv i ds ns n"
    and D: "\<And>n. n \<in> set ns \<Longrightarrow> direct_dependent run rv ds i n \<Longrightarrow> P n"
  shows "skip_passes run rv ds (mark P ns) = mark (doomed run rv i ds ns) ns"
  using assms
proof (induction "sql_changes (queued_in run rv) (mark P ns)" arbitrary: P rule: less_induct)
  case less
  let ?b = "blocked_by_skipped run rv ds (mark P ns)"
  show ?case
  proof (cases "sql_changes ?b (mark P ns) = 0")
    case True
    have closed: "\<not> ?b n" if "n \<in> set (mark P ns)" for n using True that by (simp add: sql_changes_0)
    have "P n" if "doomed run rv i ds ns n" for n
      using that
    proof (induction rule: doomed.induct)
      case (direct n)
      then show ?case by (rule less.prems(2))
    next
      case (old n)
      show ?case
      proof (rule ccontr)
        assume "\<not> P n"
        with old(1) have n: "n \<in> set (mark P ns)" by (force simp: mark_def)
        from old(2) obtain d m where m: "d \<in> set ds" "dep_at run rv d" "wd_node_id d = wn_node_id n" "m \<in> set ns"
          "at_node run rv (wd_depends_on d) m" "wn_status m = Nd_skipped" "queued_in run rv n"
          by (auto simp: blocked_by_skipped_def list_ex_iff)
        from m(4) have "(if P m then skipped m else m) \<in> set (mark P ns)" by (auto simp: mark_def)
        from blockedI [OF m(7,1,2,3) this] m(5,6) have "?b n" by (auto simp: at_node_def)
        with closed [OF n] show False ..
      qed
    next
      case (chain n d m)
      show ?case
      proof (rule ccontr)
        assume "\<not> P n"
        with chain(1) have n: "n \<in> set (mark P ns)" by (force simp: mark_def)
        from doomed_queued [OF chain(6)] chain(8) have "skipped m \<in> set (mark P ns)" "queued_in run rv m" by (auto simp: mark_def)
        with blockedI [OF chain(2-5) this(1)] chain(7) have "?b n" by (simp add: at_node_def queued_in_def)
        with closed [OF n] show False ..
      qed
    qed
    with less.prems(1) have "mark P ns = mark (doomed run rv i ds ns) ns" by (auto simp: mark_def)
    with True show ?thesis by (subst skip_passes.simps) simp
  next
    case False
    let ?Q = "\<lambda>n. P n \<or> ?b n"
    have b0: "\<not> ?b (skipped n)" for n by (simp add: blocked_by_skipped_def queued_in_def)
    have step: "sql_update ?b skipped (mark P ns) = mark ?Q ns"
      using b0 by (auto simp: sql_update_def mark_def)
    have "skip_passes run rv ds (mark ?Q ns) = mark (doomed run rv i ds ns) ns"
    proof (rule less.hyps)
      show "sql_changes (queued_in run rv) (mark ?Q ns) < sql_changes (queued_in run rv) (mark P ns)"
        using skip_pass_shrinks [OF False] by (simp add: step)
      show "doomed run rv i ds ns n" if "?Q n" "n \<in> set ns" for n
        using that less.prems(1) blocked_mark [of P ns run rv i ds, OF less.prems(1)] by blast
      show "?Q n" if "n \<in> set ns" "direct_dependent run rv ds i n" for n using less.prems(2) that by blast
    qed
    with False step show ?thesis by (subst skip_passes.simps) simp
  qed
qed

lemma skip_nodes_mark: "skip_nodes run rv i ds ns = mark (doomed run rv i ds ns) ns"
proof -
  have "sql_update (direct_dependent run rv ds i) skipped ns = mark (direct_dependent run rv ds i) ns"
    by (simp add: sql_update_def mark_def)
  then show ?thesis unfolding skip_nodes_def by (simp add: skip_passes_mark doomed.direct)
qed

text \<open>
  C15: What a failed node takes down. \<open>skipDependents\<close> skips exactly the nodes the specification dooms and
  leaves every other node, and the order of the table, as it was.
\<close>

theorem skipDependents_exact:
  "skipDependents run rv i db =
     (Inr (), db\<lparr> db_nodes := map (\<lambda>n. if doomed run rv i (db_deps db) (db_nodes db) n
        then n\<lparr> wn_status := Nd_skipped \<rparr> else n) (db_nodes db) \<rparr>)"
  by (simp add: skipDependents_def call_simps skip_nodes_mark mark_def skipped_def)

section \<open>The commit envelope applies an event once\<close>

definition well_behaved :: "(workflow_run \<Rightarrow> effect wf) \<Rightarrow> bool" where
  "well_behaved applier \<longleftrightarrow> (\<forall>w s. db_ingress (snd (applier w s)) = db_ingress s \<and>
     (wf_tables s \<longrightarrow> wf_tables (snd (applier w s))))"

lemma applied_event:
  assumes w: "wf_tables s" and b: "well_behaved applier" and a: "apply_event now e applier w s = (Inr d, t)"
  shows "\<exists>x y. find_ingress s (rn_event_id e) = Some x \<and> wi_disposition x = In_received \<and>
      find_ingress t (rn_event_id e) = Some y \<and> wi_hash y = wi_hash x \<and> consumed_as d y"
    and "d = Noop \<or> d = Committed"
    and "\<exists>w'. getRun t (rn_run_id e) = Some w' \<and> wr_state_version w' = rn_state_version e + 1"
proof -
  from a obtain ef u u1 where s1: "applier w s = (Inr ef, u)"
    and s2: "update_runs (\<lambda>r. wr_run_id r = rn_run_id e \<and> wr_state_version r = rn_state_version e)
        (bump_run now (ef\<lparr> ef_next_state := Some (orelse (ef_next_state ef) (wr_state w)) \<rparr>)) u = (Inr 1, u1)"
    and s3: "consume_event now (rn_event_id e) (if ef_noop ef then In_noop else In_applied) u1 = (Inr 1, t)"
    and d: "d = (if ef_noop ef then Noop else Committed)"
    by (rule apply_event_Inr)
  from b s1 w have u: "wf_tables u" "db_ingress u = db_ingress s"
    unfolding well_behaved_def by (metis snd_conv)+
  with s2 have i1: "db_ingress u1 = db_ingress s" by (auto simp: update_runs_def)
  with w have k: "keyed wi_event_id (db_ingress u1)" by (simp add: wf_tables_def)
  from consumed_found [OF k s3] i1 d
  show "\<exists>x y. find_ingress s (rn_event_id e) = Some x \<and> wi_disposition x = In_received \<and>
      find_ingress t (rn_event_id e) = Some y \<and> wi_hash y = wi_hash x \<and> consumed_as d y"
    by (auto simp: find_ingress_def consumed_as_def)
  show "d = Noop \<or> d = Committed" using d by simp
  let ?f = "bump_run now (ef\<lparr> ef_next_state := Some (orelse (ef_next_state ef) (wr_state w)) \<rparr>)"
  have ku: "keyed wr_run_id (db_workflow_runs u)" using u(1) by (simp add: wf_tables_def)
  have f: "\<And>r. wr_run_id (?f r) = wr_run_id r" by (simp add: bump_run_def)
  from s2 have n: "sql_changes (\<lambda>r. wr_run_id r = rn_run_id e \<and> wr_state_version r = rn_state_version e) (db_workflow_runs u) = 1"
    and r1: "db_workflow_runs u1 = sql_update (\<lambda>r. wr_run_id r = rn_run_id e \<and> wr_state_version r = rn_state_version e) ?f (db_workflow_runs u)"
    by (auto simp: update_runs_def)
  have rt: "db_workflow_runs t = db_workflow_runs u1" using s3 by (simp add: consume_Inr)
  from changed_row [OF ku f n] obtain r where "wr_state_version r = rn_state_version e"
    "sql_first (\<lambda>r. wr_run_id r = rn_run_id e) (db_workflow_runs t) = Some (?f r)"
    unfolding rt r1 by blast
  then show "\<exists>w'. getRun t (rn_run_id e) = Some w' \<and> wr_state_version w' = rn_state_version e + 1"
    by (simp add: getRun_def bump_run_def)
qed

lemma fenced_event:
  assumes w: "wf_tables s" and b: "well_behaved applier" and f: "fence now e applier known s = (Inr d, t)"
    and x: "find_ingress s (rn_event_id e) = Some x" "wi_disposition x = In_received"
  shows "\<exists>y. find_ingress t (rn_event_id e) = Some y \<and> wi_hash y = wi_hash x \<and> consumed_as d y"
    and "d = Noop \<or> d = Committed"
    and "d = Committed \<Longrightarrow> \<exists>w w'. getRun s (rn_run_id e) = Some w \<and> wr_state_version w = rn_state_version e \<and>
      wr_generation w = rn_generation e \<and> getRun t (rn_run_id e) = Some w' \<and> wr_state_version w' = rn_state_version e + 1"
proof -
  have k: "keyed wi_event_id (db_ingress s)" using w by (simp add: wf_tables_def)
  from fence_Inr [OF f] consider
    (stale) n where "d = Noop" "consume_event now (rn_event_id e) In_noop s = (Inr n, t)"
  | (live) w0 where "getRun s (rn_run_id e) = Some w0" "wr_generation w0 = rn_generation e"
      "wr_state_version w0 = rn_state_version e" "apply_event now e applier w0 s = (Inr d, t)" by blast
  note cs = this
  from cs show "\<exists>y. find_ingress t (rn_event_id e) = Some y \<and> wi_hash y = wi_hash x \<and> consumed_as d y"
  proof cases
    case stale
    have "sql_changes (\<lambda>r. wi_event_id r = rn_event_id e \<and> wi_disposition r = In_received) (db_ingress s) = 1"
      using k x by (simp add: keyed_def sql_changes_key find_ingress_def)
    with stale(2) have "consume_event now (rn_event_id e) In_noop s = (Inr 1, t)" by (simp add: consume_Inr)
    from consumed_found [OF k this] x stale(1) show ?thesis by (auto simp: consumed_as_def)
  next
    case live
    from applied_event(1) [OF w b live(4)] x show ?thesis by auto
  qed
  from cs show "d = Noop \<or> d = Committed" by cases (auto dest: applied_event(2) [OF w b])
  show "\<exists>w w'. getRun s (rn_run_id e) = Some w \<and> wr_state_version w = rn_state_version e \<and>
      wr_generation w = rn_generation e \<and> getRun t (rn_run_id e) = Some w' \<and> wr_state_version w' = rn_state_version e + 1"
    if "d = Committed" using cs
  proof cases
    case live
    with applied_event(3) [OF w b live(4)] show ?thesis by blast
  qed (use that in simp)
qed

lemma committed_once:
  assumes "wf_tables db" "well_behaved applier" "commitTransition now e applier db = (Inr d, db')"
    and "rn_event_id e2 = rn_event_id e"
  shows "rn_hash e2 = rn_hash e \<Longrightarrow>
      commitTransition now2 e2 applier2 db' = (Inr (if d = Committed then Duplicate else d), db')"
    and "rn_hash e2 \<noteq> rn_hash e \<Longrightarrow> d \<noteq> Conflict \<Longrightarrow> commitTransition now2 e2 applier2 db' = (Inr Conflict, db')"
    and "d = Committed \<Longrightarrow> \<exists>w w'. getRun db (rn_run_id e) = Some w \<and> wr_state_version w = rn_state_version e \<and>
      wr_generation w = rn_generation e \<and> getRun db' (rn_run_id e) = Some w' \<and> wr_state_version w' = rn_state_version e + 1"
proof -
  have env: "applyEnvelope now e applier db = (Inr d, db')" using assms(3) by (simp add: commitTransition_def atomically_Inr)
  let ?db1 = "db\<lparr> db_ingress := db_ingress db @ [received now e] \<rparr>"
  consider (new) "find_ingress db (rn_event_id e) = None" "fence now e applier False ?db1 = (Inr d, db')"
    | (conflict) x where "find_ingress db (rn_event_id e) = Some x" "wi_hash x \<noteq> rn_hash e" "d = Conflict" "db' = db"
    | (again) x where "find_ingress db (rn_event_id e) = Some x" "wi_hash x = rn_hash e" "wi_disposition x = In_received"
        "fence now e applier True db = (Inr d, db')"
    | (dup) x where "find_ingress db (rn_event_id e) = Some x" "wi_hash x = rn_hash e" "wi_disposition x \<noteq> In_received"
        "d = (if wi_disposition x = In_noop then Noop else Duplicate)" "db' = db"
    using env by (auto simp: applyEnvelope_def call_simps split: option.splits if_splits)
  note cs = this
  have w1: "wf_tables ?db1" if "find_ingress db (rn_event_id e) = None"
    using that assms(1) by (auto simp: wf_tables_def keyed_append1 find_ingress_def sql_first_None received_def)
  have x1: "find_ingress ?db1 (rn_event_id e) = Some (received now e)" if "find_ingress db (rn_event_id e) = None"
    using that by (simp add: find_ingress_def sql_first_append received_def)
  have r1: "wi_disposition (received now e) = In_received" "wi_hash (received now e) = rn_hash e" by (simp_all add: received_def)
  have outcome: "\<exists>y. find_ingress db' (rn_event_id e) = Some y \<and> wi_hash y = rn_hash e \<and>
      (wi_disposition y = In_noop \<and> d = Noop \<or> wi_disposition y = In_applied \<and> (d = Committed \<or> d = Duplicate))"
    if "d \<noteq> Conflict"
    using cs
  proof cases
    case new
    note l = fenced_event(1,2) [OF w1 [OF new(1)] assms(2) new(2) x1 [OF new(1)] r1(1)]
    from l r1(2) show ?thesis by (auto simp: consumed_as_def)
  next
    case again
    note l = fenced_event(1,2) [OF assms(1,2) again(4,1,3)]
    from l again(2) show ?thesis by (auto simp: consumed_as_def)
  next
    case dup
    then show ?thesis by (cases "wi_disposition x") auto
  qed (use that in simp)
  show "commitTransition now2 e2 applier2 db' = (Inr (if d = Committed then Duplicate else d), db')" if h: "rn_hash e2 = rn_hash e"
  proof (cases "d = Conflict")
    case True
    with cs have "db' = db \<and> (\<exists>x. find_ingress db (rn_event_id e) = Some x \<and> wi_hash x \<noteq> rn_hash e)"
    proof cases
      case new
      from fenced_event(2) [OF w1 [OF new(1)] assms(2) new(2) x1 [OF new(1)] r1(1)] True show ?thesis by simp
    next
      case again
      from fenced_event(2) [OF assms(1,2) again(4,1,3)] True show ?thesis by simp
    qed (auto split: if_splits)
    with h True assms(4) show ?thesis by (auto simp: commitTransition_def applyEnvelope_def atomically_def call_simps)
  next
    case False
    from outcome [OF this] h assms(4) show ?thesis
      by (auto simp: commitTransition_def applyEnvelope_def atomically_def call_simps)
  qed
  show "commitTransition now2 e2 applier2 db' = (Inr Conflict, db')" if "rn_hash e2 \<noteq> rn_hash e" "d \<noteq> Conflict"
    using outcome [OF that(2)] that assms(4) by (auto simp: commitTransition_def applyEnvelope_def atomically_def call_simps)
  show "\<exists>w w'. getRun db (rn_run_id e) = Some w \<and> wr_state_version w = rn_state_version e \<and>
      wr_generation w = rn_generation e \<and> getRun db' (rn_run_id e) = Some w' \<and> wr_state_version w' = rn_state_version e + 1"
    if c: "d = Committed"
    using cs
  proof cases
    case new
    from fenced_event(3) [OF w1 [OF new(1)] assms(2) new(2) x1 [OF new(1)] r1(1) c] show ?thesis by (simp add: getRun_def)
  next
    case again
    from fenced_event(3) [OF assms(1,2) again(4,1,3) c] show ?thesis .
  qed (use c in \<open>auto split: if_splits\<close>)
qed

text \<open>
  C8: Commit exactly once. An event is applied at most once: when its transaction returned, a
  redelivery with the same payload hash changes nothing and answers the same (\<open>duplicate\<close> after
  \<open>committed\<close>), one with another hash is a conflict and changes nothing. A commit moved the run from
  the version and generation the event names to the next version.
\<close>

theorem commit_once:
  assumes "wf_tables db" "well_behaved applier" "commitTransition now e applier db = (Inr d, db')"
  shows "(\<forall>now2 e2 applier2. rn_event_id e2 = rn_event_id e \<longrightarrow>
      (rn_hash e2 = rn_hash e \<longrightarrow> commitTransition now2 e2 applier2 db' = (Inr (if d = Committed then Duplicate else d), db')) \<and>
      (rn_hash e2 \<noteq> rn_hash e \<and> d \<noteq> Conflict \<longrightarrow> commitTransition now2 e2 applier2 db' = (Inr Conflict, db'))) \<and>
     (d = Committed \<longrightarrow> (\<exists>w w'. getRun db (rn_run_id e) = Some w \<and> wr_state_version w = rn_state_version e \<and>
        wr_generation w = rn_generation e \<and> getRun db' (rn_run_id e) = Some w' \<and> wr_state_version w' = rn_state_version e + 1))"
  using committed_once [OF assms] by (intro conjI allI impI) blast+

definition sample_run :: workflow_run where
  "sample_run = \<lparr> wr_run_id = ''r'', wr_root_kind = Root_interactive, wr_root_card_id = 1, wr_scheduled_run_id = None,
     wr_generation = 1, wr_state = W_admitted, wr_state_version = 0, wr_client_operation_id = ''op'', wr_budgets = (\<lambda>_. 1),
     wr_failure_code = None, wr_failure_reason = None, wr_created_at = 0, wr_updated_at = 0 \<rparr>"

definition sample_event :: runner_event where
  "sample_event = \<lparr> rn_event_id = ''e'', rn_run_id = ''r'', rn_hash = ''h'', rn_payload = JNull, rn_generation = 1, rn_state_version = 0 \<rparr>"

definition sample_db :: swarm_db where
  "sample_db = empty_db\<lparr> db_workflow_runs := [sample_run] \<rparr>"

lemma wf_sample_db: "wf_tables sample_db"
  by (simp add: wf_tables_def sample_db_def empty_db_def keyed_def single_open_def tokens_unique_def)

lemma commit_once_witness:
  "commitTransition 5 sample_event (\<lambda>_. return (goto W_failed))
     (snd (commitTransition 0 sample_event (\<lambda>_. return (goto W_planning)) sample_db)) =
   (Inr Duplicate, snd (commitTransition 0 sample_event (\<lambda>_. return (goto W_planning)) sample_db))"
proof -
  let ?c = "commitTransition 0 sample_event (\<lambda>_. return (goto W_planning)) sample_db"
  have c: "?c = (Inr Committed, snd ?c)"
    by (simp add: commitTransition_def applyEnvelope_def fence_def apply_event_def atomically_def call_simps find_ingress_def
        getRun_def sample_db_def empty_db_def sample_event_def sample_run_def exactly_one_def update_runs_def goto_def
        no_effect_def consume_event_def update_ingress_def received_def)
  have w: "well_behaved (\<lambda>_. return (goto W_planning))" by (simp add: well_behaved_def call_simps)
  from commit_once [OF wf_sample_db w c] show ?thesis by simp
qed

section \<open>Claims and acceptance\<close>

lemma commands_keyed: "wf_tables db \<Longrightarrow> keyed key_of (db_commands db)"
  by (simp add: wf_tables_def)

lemma getCommand_key: "getCommand db k = sql_first (\<lambda>c. key_of c = k) (db_commands db)"
  by (simp add: getCommand_def key_of_eq)

lemma ended_refuses:
  assumes k: "keyed key_of (db_commands t)" and c: "getCommand t k = Some c" and e: "wc_status c \<noteq> Cm_pending" "wc_status c \<noteq> Cm_claimed"
  shows "completeCommand now k owner tok t = (Inl E_complete_rejected, t)"
    and "releaseClaim k owner tok t = (Inr False, t)"
    and "claimCommand now k owner tok t = (Inr None, t)"
proof -
  have zero: "sql_changes (\<lambda>c. key_of c = k \<and> q c) (db_commands t) = 0" if "\<not> q c" for q
    using sql_changes_key [of key_of "db_commands t" k q] k c that by (simp add: keyed_def getCommand_key)
  have held: "sql_changes (holds_token k o' t') (db_commands t) = 0" for o' t'
    using zero [of "\<lambda>c. wc_status c = Cm_claimed \<and> wc_owner c = Some o' \<and> wc_token c = Some t'"] e
    by (simp add: sql_changes_0 holds_token_def key_of_eq)
  then show "completeCommand now k owner tok t = (Inl E_complete_rejected, t)"
    and "releaseClaim k owner tok t = (Inr False, t)"
    by (simp_all add: completeCommand_def releaseClaim_def exactly_one_def one_row_def call_simps update_commands_def sql_update_id)
  have "sql_first (\<lambda>c. at_key k c \<and> wc_status c = Cm_pending) (db_commands t) = None"
    using zero [of "\<lambda>c. wc_status c = Cm_pending"] e by (simp add: sql_changes_0 sql_first_None key_of_eq)
  then show "claimCommand now k owner tok t = (Inr None, t)" by (simp add: claimCommand_def call_simps)
qed

lemma completed_claim:
  assumes "wf_tables db" "completeCommand now k owner tok db = (Inr (), db')"
  shows "\<exists>c. getCommand db k = Some c \<and> holds_token k owner tok c \<and>
      getCommand db' k = Some (c\<lparr> wc_status := Cm_done, wc_done_at := Some (sqliteNow now), wc_next_inspection_at := None \<rparr>)"
proof -
  let ?f = "\<lambda>c. c\<lparr> wc_status := Cm_done, wc_done_at := Some (sqliteNow now), wc_next_inspection_at := None \<rparr>"
  let ?q = "\<lambda>c. wc_status c = Cm_claimed \<and> wc_owner c = Some owner \<and> wc_token c = Some tok"
  have h: "holds_token k owner tok = (\<lambda>c. key_of c = k \<and> ?q c)" by (auto simp: fun_eq_iff holds_token_def key_of_eq)
  from assms(2) have n: "sql_changes (\<lambda>c. key_of c = k \<and> ?q c) (db_commands db) = 1"
    and db': "db' = db\<lparr> db_commands := sql_update (\<lambda>c. key_of c = k \<and> ?q c) ?f (db_commands db) \<rparr>"
    by (auto simp: completeCommand_def exactly_one_Inr update_commands_def h)
  obtain c where c: "getCommand db k = Some c" "?q c" "getCommand db' k = Some (?f c)"
    using changed_row [OF commands_keyed [OF assms(1)] _ n, of ?f] by (auto simp: getCommand_key db' key_of_def)
  have "at_key k c" using sql_first_SomeD c(1) unfolding getCommand_def by fast
  with c show ?thesis by (auto simp: holds_token_def)
qed

definition sample_key :: command_key where
  "sample_key = \<lparr> ck_run_id = ''r'', ck_generation = 1, ck_node_id = ''n'', ck_action = Ac_dispatch, ck_ordinal = 0 \<rparr>"

definition claimed_db :: swarm_db where
  "claimed_db = snd (claimCommand 0 sample_key ''me'' ''t'' (snd (queueCommand 0 sample_key JNull empty_db)))"

lemma wf_claimed_db: "wf_tables claimed_db"
proof -
  have "wf_tables empty_db" by (simp add: wf_tables_def empty_db_def keyed_def single_open_def tokens_unique_def)
  then show ?thesis
    unfolding claimed_db_def
    using typed_queueCommand [of 0 sample_key JNull] typed_claimCommand [of 0 sample_key "''me''" "''t''"]
    by (simp add: typed.moves_def)
qed

lemma claimed_completes:
  "completeCommand 1 sample_key ''me'' ''t'' claimed_db = (Inr (), snd (completeCommand 1 sample_key ''me'' ''t'' claimed_db))"
  by (simp add: claimed_db_def completeCommand_def claimCommand_def queueCommand_def call_simps exactly_one_def update_commands_def
      empty_db_def sample_key_def at_key_def getCommand_def claimed_row_def holds_token_def)

lemma covering_distinct:
  assumes "set xs \<subseteq> set ys" "distinct xs" "length xs = length ys"
  shows "set xs = set ys \<and> distinct ys"
proof -
  have "card (set xs) = length ys" using assms(2,3) by (simp add: distinct_card)
  moreover have "card (set ys) \<le> length ys" by (rule card_length)
  moreover have "card (set xs) \<le> card (set ys)" using assms(1) by (simp add: card_mono)
  ultimately show ?thesis using assms(1) by (auto simp: card_distinct card_subset_eq)
qed

text \<open>
  C17: Acceptance is earned. A worker's result is accepted only when the attempt has completed, its
  stored envelope passes validation and names this attempt, the contract the attempt was claimed under and the
  digest of the card's current contract, reports completion, and lists every criterion of that
  contract exactly once, all passed.
\<close>

theorem acceptance_sound:
  assumes "readWorkerAcceptance db c a = Accepted_result env"
  shows "\<exists>r row ct res. r \<in> set (db_attempts db) \<and> at_id r = a \<and> at_card_id r = c \<and> at_lifecycle r = L_completed \<and>
     getLatestContractForCard db c = Some row \<and> ct_json row = Some ct \<and> contract_ok ct \<and>
     find_result db a = Some res \<and> env = re_envelope res \<and> validateEnvelope env = [] \<and>
     text_at (member_at env ''attempt'') ''id'' = a \<and>
     text_at (member_at env ''attempt'') ''contract_id'' = at_contract_id r \<and> text_at ct ''id'' = at_contract_id r \<and>
     text_at (member_at env ''attempt'') ''contract_digest'' = text_at ct ''digest'' \<and>
     text_at env ''outcome'' = ''completed'' \<and>
     set (map (\<lambda>x. text_at x ''criterion_id'') (items_at env ''criteria'')) = set (contract_criteria ct) \<and>
     distinct (map (\<lambda>x. text_at x ''criterion_id'') (items_at env ''criteria'')) \<and> distinct (contract_criteria ct) \<and> (\<forall>x \<in> set (items_at env ''criteria''). text_at x ''status'' = ''passed'')"
proof -
  have j: "judge_envelope a r ct e = Accepted_result env \<Longrightarrow> env = e \<and> text_at (member_at e ''attempt'') ''id'' = a \<and>
      text_at (member_at e ''attempt'') ''contract_id'' = at_contract_id r \<and> acceptancePassed ct e" for r ct e
    by (simp add: judge_envelope_def unmet_def Let_def split: if_splits)
  from assms obtain r row ct res where r: "sql_first (\<lambda>r. at_id r = a \<and> at_card_id r = c) (db_attempts db) = Some r"
    and f: "at_lifecycle r = L_completed" "getLatestContractForCard db c = Some row" "ct_json row = Some ct" "contract_ok ct"
      "find_result db a = Some res" "validateEnvelope (re_envelope res) = []" "judge_envelope a r ct (re_envelope res) = Accepted_result env"
    by (auto simp: readWorkerAcceptance_def unreadable_def validateContract_ok split: option.splits if_splits)
  from j [OF f(7)] have e: "env = re_envelope res" "text_at (member_at env ''attempt'') ''id'' = a"
      "text_at (member_at env ''attempt'') ''contract_id'' = at_contract_id r" "acceptancePassed ct env" by auto
  let ?xs = "map (\<lambda>x. text_at x ''criterion_id'') (items_at env ''criteria'')"
  from e(4) have "set ?xs \<subseteq> set (contract_criteria ct)" "distinct ?xs" "length ?xs = length (contract_criteria ct)"
    by (auto simp: acceptancePassed_def criteria_pass_iff Let_def contract_criteria_def)
  from covering_distinct [OF this] have m: "set ?xs = set (contract_criteria ct)" "distinct (contract_criteria ct)" by auto
  from sql_first_SomeD [OF r] f e m show ?thesis
    by (auto simp: acceptancePassed_def criteria_pass_iff Let_def same_contract_def intro!: exI [of _ r])
qed

definition judged_db :: swarm_db where
  "judged_db = empty_db\<lparr> db_attempts := [(sample_attempt ''a'' 7 L_completed)\<lparr> at_contract_id := ''k'' \<rparr>],
     db_contracts := [\<lparr> ct_id = ''k'', ct_card_id = 7, ct_revision = 1, ct_root_contract_id = ''k'', ct_parent_contract_id = None,
       ct_source_attempt_id = None, ct_json = Some passing_contract, ct_digest = ''d'' \<rparr>],
     db_results := [\<lparr> re_attempt_id = ''a'', re_envelope = passing_envelope, re_digest = ''x'' \<rparr>] \<rparr>"

lemma acceptance_sound_witness:
  "readWorkerAcceptance judged_db 7 ''a'' = Accepted_result passing_envelope \<and> (\<exists>ct. contract_ok ct \<and> distinct (contract_criteria ct))"
proof -
  have "judge_envelope ''a'' r passing_contract passing_envelope = Accepted_result passing_envelope" if "at_contract_id r = ''k''" for r
    using that
    by (simp add: judge_envelope_def member_at_def text_at_def passing_envelope_def passing_contract_def items_at_def
        same_contract_def acceptancePassed_def contract_criteria_def Let_def)
  then have a: "readWorkerAcceptance judged_db 7 ''a'' = Accepted_result passing_envelope"
    using passing_contract_ok passing_envelope_ok
    by (simp add: readWorkerAcceptance_def judged_db_def empty_db_def sample_attempt_def getLatestContractForCard_def sql_last_by_def
        find_result_def validateContract_ok)
  with acceptance_sound [OF a] show ?thesis by blast
qed

end
