(* ===== verification/WorkflowEffects.thy ===== *)
theory WorkflowEffects
  imports WorkflowTables
begin

text \<open>
  What the transitions of the workflow runner do inside a commit (\<open>orc-workflow-runner.ts\<close>): terminal
  evaluation, queueing of a node, success and failure of a node, re-review, the host review, claim
  inspection, plan admission. Every definition runs inside the transaction of the commit envelope and
  answers with the effect on the run. Columns that hold either a text or a JSON text hold \<open>JStr\<close> of the
  text or the value. An instant is its millisecond count.
\<close>

section \<open>Reading a stored plan\<close>

text \<open>\<open>JSON.parse\<close> of the stored plan and the walk over its labels, which throws on a label that is no string.\<close>

definition readable_nodes :: "json \<Rightarrow> json list option" where
  "readable_nodes p = (case jget p ''nodes'' of
     Some (JArr ns) \<Rightarrow> if list_all (\<lambda>n. is_string (jget n ''label'')) ns then Some ns else None
   | _ \<Rightarrow> None)"

definition planNodeSpec :: "swarm_db \<Rightarrow> string \<Rightarrow> nat \<Rightarrow> string \<Rightarrow> json option" where
  "planNodeSpec db run rv nid = (case getPlan db run rv of None \<Rightarrow> None | Some p \<Rightarrow> scan_nodes rv 0 (plan_nodes p) nid)"

definition flagged :: "string \<Rightarrow> json \<Rightarrow> bool" where
  "flagged k v \<longleftrightarrow> jget v k = Some (JBool True)"

definition isOptionalNode :: "swarm_db \<Rightarrow> string \<Rightarrow> nat \<Rightarrow> string \<Rightarrow> bool" where
  "isOptionalNode db run rv nid \<longleftrightarrow> (case planNodeSpec db run rv nid of None \<Rightarrow> False | Some n \<Rightarrow> flagged ''optional'' n)"

record plan_policy =
  po_partial :: bool
  po_required :: "json option"
  po_optional :: "string list"
  po_outputs :: "(string \<times> json option) list"

definition policy_of :: "swarm_db \<Rightarrow> string \<Rightarrow> nat \<Rightarrow> plan_policy option" where
  "policy_of db run rv = (case getPlan db run rv of
     None \<Rightarrow> None
   | Some p \<Rightarrow> map_option (\<lambda>ns. \<lparr> po_partial = flagged ''allowPartial'' p, po_required = jget p ''requiredOutputs'',
         po_optional = map (\<lambda>(i, n). host_id rv i n) (filter (\<lambda>(i, n). flagged ''optional'' n) (enumerate 0 ns)),
         po_outputs = map (\<lambda>(i, n). (host_id rv i n, jget n ''outputs'')) (enumerate 0 ns) \<rparr>) (readable_nodes p))"

section \<open>Terminal evaluation\<close>

definition review_running :: "swarm_db \<Rightarrow> string \<Rightarrow> nat \<Rightarrow> bool" where
  "review_running db run rv \<longleftrightarrow>
     list_ex (\<lambda>n. wn_kind n = N_review \<and> wn_status n = Nd_running) (listNodes db run rv)"

definition no_workers :: effect where
  "no_workers = failing ''no_workers'' ''plan admitted zero executable nodes''"

definition node_failed :: "string option \<Rightarrow> string \<Rightarrow> effect" where
  "node_failed cause fallback = failing ''node_failed'' (orelse cause fallback)"

text \<open>The outputs of the succeeded nodes; \<open>None\<close> when a value is not iterable.\<close>

fun produced_outputs :: "plan_policy \<Rightarrow> node_row list \<Rightarrow> json list option" where
  "produced_outputs po [] = Some []"
| "produced_outputs po (n # ns) =
     (if wn_status n \<noteq> Nd_succeeded then produced_outputs po ns
      else case iterate (orelse (map_of (po_outputs po) (wn_node_id n)) None) of
        None \<Rightarrow> None
      | Some xs \<Rightarrow> map_option ((@) xs) (produced_outputs po ns))"

text \<open>\<open>(requiredOutputs ?? []).filter(...)\<close>: only an array has \<open>filter\<close>.\<close>

definition required_list :: "json option \<Rightarrow> json list option" where
  "required_list v = (case v of None \<Rightarrow> Some [] | Some JNull \<Rightarrow> Some [] | Some (JArr rs) \<Rightarrow> Some rs | _ \<Rightarrow> None)"

definition partial_verdict :: "plan_policy \<Rightarrow> node_row list \<Rightarrow> string list \<Rightarrow> string option \<Rightarrow> effect option" where
  "partial_verdict po nodes failed cause = (case produced_outputs po nodes of
     None \<Rightarrow> None
   | Some made \<Rightarrow> (case required_list (po_required po) of
       None \<Rightarrow> None
     | Some rs \<Rightarrow> (case filter (\<lambda>r. \<not> list_ex (same_value r) made) rs of
         [] \<Rightarrow> Some ((goto W_succeeded)\<lparr> ef_failure_reason := Some (''partial: dropped nodes '' @ join_with '','' failed @
                 '', all required outputs produced'') \<rparr>)
       | missing \<Rightarrow> Some (node_failed cause (''required outputs missing: '' @ join_with '','' (map prop_key missing))))))"

definition failed_required :: "plan_policy \<Rightarrow> node_row list \<Rightarrow> string list" where
  "failed_required po nodes =
     map wn_node_id (filter (\<lambda>n. wn_status n = Nd_failed \<and> wn_node_id n \<notin> set (po_optional po)) nodes)"

text \<open>\<open>None\<close> is the \<open>TypeError\<close> of an output list that is none.\<close>

definition terminal_verdict :: "swarm_db \<Rightarrow> string \<Rightarrow> nat \<Rightarrow> string option \<Rightarrow> effect option" where
  "terminal_verdict db run rv cause = (let nodes = listNodes db run rv in
     if nodes = [] then Some no_workers
     else if list_ex node_open nodes then Some no_effect
     else if list_ex (review_running db run) [1..<Suc rv] then Some no_effect
     else if hasPendingDelivery db run then Some no_effect
     else case policy_of db run rv of
       None \<Rightarrow> Some (node_failed cause ''node failure with unreadable acceptance policy'')
     | Some po \<Rightarrow> (case failed_required po nodes of
         [] \<Rightarrow> Some (goto W_succeeded)
       | failed \<Rightarrow> (if po_partial po then partial_verdict po nodes failed cause
           else Some (node_failed cause (''nodes failed: '' @ join_with '','' failed)))))"

definition evaluateTerminal :: "string \<Rightarrow> nat \<Rightarrow> string option \<Rightarrow> effect wf" where
  "evaluateTerminal run rv cause db = (case terminal_verdict db run rv cause of
     None \<Rightarrow> (Inl E_type_error, db) | Some ef \<Rightarrow> (Inr ef, db))"

section \<open>Queueing a node\<close>

definition opIdFor :: "string \<Rightarrow> nat \<Rightarrow> string \<Rightarrow> string" where
  "opIdFor run rv nid = ''op-'' @ run @ ''-r'' @ show_nat rv @ ''-'' @ nid"

definition jnat :: "nat \<Rightarrow> json" where
  "jnat n = JNum (NInt (int n))"

definition action_of :: "node_kind \<Rightarrow> command_action" where
  "action_of k = (case k of N_review \<Rightarrow> Ac_review | N_planning \<Rightarrow> Ac_plan | _ \<Rightarrow> Ac_dispatch)"

definition queueForNode :: "int \<Rightarrow> string \<Rightarrow> int \<Rightarrow> nat \<Rightarrow> string \<Rightarrow> node_kind \<Rightarrow> int \<Rightarrow> unit wf" where
  "queueForNode now run g rv nid k ordinal = andThen
     (queueCommand now \<lparr> ck_run_id = run, ck_generation = g, ck_node_id = nid, ck_action = action_of k, ck_ordinal = ordinal \<rparr>
        (JObj ([(''nodeId'', JStr nid), (''revision'', jnat rv)] @
          (if k = N_planning then [(''purpose'', JStr ''next_wave'')] else []))))
     (only_if (action_of k \<noteq> Ac_dispatch)
        (upsertOperation (opIdFor run rv nid) run (if k = N_review then Op_review else Op_planning) (Some rv) Op_pending None))"

definition nodeKindOf :: "swarm_db \<Rightarrow> string \<Rightarrow> nat \<Rightarrow> string \<Rightarrow> node_kind" where
  "nodeKindOf db run rv nid = (case find_node db run rv nid of None \<Rightarrow> N_work | Some n \<Rightarrow> wn_kind n)"

text \<open>Dependents that the node was the last to block get their command.\<close>

definition release_dependents :: "int \<Rightarrow> string \<Rightarrow> int \<Rightarrow> nat \<Rightarrow> string \<Rightarrow> unit wf" where
  "release_dependents now run g rv nid = bind (satisfyDependents run rv nid)
     (each (\<lambda>j. bind (reads (\<lambda>db. nodeKindOf db run rv j)) (\<lambda>k. queueForNode now run g rv j k 0)))"

text \<open>A review node that is open and has no open review command gets a new one.\<close>

definition review_covered :: "string \<Rightarrow> node_row \<Rightarrow> swarm_db \<Rightarrow> bool" where
  "review_covered run n db \<longleftrightarrow> hasCommand db run (wn_node_id n) Ac_review Cm_pending \<or>
     wn_status n = Nd_running \<and> hasCommand db run (wn_node_id n) Ac_review Cm_claimed"

definition requeue_review :: "int \<Rightarrow> string \<Rightarrow> int \<Rightarrow> nat \<Rightarrow> node_row \<Rightarrow> unit wf" where
  "requeue_review now run g rv n =
     bind (reads (\<lambda>db. nextCommandOrdinal db run g (wn_node_id n) Ac_review))
       (queueForNode now run g rv (wn_node_id n) N_review)"

definition maybeQueueReReview :: "int \<Rightarrow> string \<Rightarrow> int \<Rightarrow> unit wf" where
  "maybeQueueReReview now run g = bind (reads (\<lambda>db. currentRevision db run)) (\<lambda>current.
     bind (reads (\<lambda>db. list_ex node_open (listNodes db run current))) (\<lambda>busy.
     if busy then return ()
     else each (\<lambda>rv. bind (reads (\<lambda>db. listNodes db run rv))
       (each (\<lambda>n. bind (reads (\<lambda>db. wn_kind n = N_review \<and> node_open n \<and> \<not> review_covered run n db))
          (\<lambda>due. only_if due (requeue_review now run g rv n))))) (List.rev [1..<current])))"

definition settleWithReReview :: "int \<Rightarrow> string \<Rightarrow> int \<Rightarrow> nat \<Rightarrow> string option \<Rightarrow> effect wf" where
  "settleWithReReview now run g rv cause = bind (evaluateTerminal run rv cause) (\<lambda>ef.
     andThen (only_if (ef_next_state ef = None) (maybeQueueReReview now run g)) (return ef))"

section \<open>Success and failure of a node\<close>

definition requireNode :: "string \<Rightarrow> nat \<Rightarrow> string \<Rightarrow> unit wf" where
  "requireNode run rv nid = bind (reads (\<lambda>db. find_node db run rv nid)) (\<lambda>node. case node of
     None \<Rightarrow> throw E_node_missing
   | Some n \<Rightarrow> if node_open n then return () else throw E_node_status)"

definition requireCurrentAttempt :: "string \<Rightarrow> nat \<Rightarrow> string \<Rightarrow> string \<Rightarrow> int option wf" where
  "requireCurrentAttempt run rv nid a = bind (reads (\<lambda>db. find_node db run rv nid)) (\<lambda>node.
     case node of None \<Rightarrow> return None | Some n \<Rightarrow> (case wn_worker_card_id n of
       None \<Rightarrow> return None
     | Some c \<Rightarrow> andThen (require E_stale_attempt (\<lambda>db. isCardLatestAttempt db c a)) (return (Some c))))"

definition succeedNodeEffect :: "int \<Rightarrow> string \<Rightarrow> int \<Rightarrow> nat \<Rightarrow> string \<Rightarrow> string \<Rightarrow> json \<Rightarrow> effect wf" where
  "succeedNodeEffect now run g rv nid a artifacts =
     andThen (setNodeOutcome run rv nid Nd_succeeded (Some artifacts) (Some a))
    (andThen (release_dependents now run g rv nid) (settleWithReReview now run g rv None))"

definition retry_payload :: "string \<Rightarrow> nat \<Rightarrow> string \<Rightarrow> string \<Rightarrow> json" where
  "retry_payload nid rv a cause = JObj [(''nodeId'', JStr nid), (''revision'', jnat rv), (''retryOf'', JStr a), (''cause'', JStr cause)]"

definition failNodeEffect :: "int \<Rightarrow> string \<Rightarrow> int \<Rightarrow> nat \<Rightarrow> string \<Rightarrow> string \<Rightarrow> string \<Rightarrow> bool \<Rightarrow> effect wf" where
  "failNodeEffect now run g rv nid a cause retrySafe = bind (reads (\<lambda>db. isOptionalNode db run rv nid)) (\<lambda>optional.
     bind (if \<not> optional \<and> retrySafe then consumeBudget run Work_retry else return False) (\<lambda>again.
     if again then bind (reads (\<lambda>db. nextCommandOrdinal db run g nid Ac_dispatch)) (\<lambda>n.
       andThen (setNodeOutcome run rv nid Nd_running (Some (JStr cause)) (Some a))
      (andThen (queueCommand now \<lparr> ck_run_id = run, ck_generation = g, ck_node_id = nid, ck_action = Ac_dispatch, ck_ordinal = n \<rparr>
          (retry_payload nid rv a cause)) (return no_effect)))
     else andThen (setNodeOutcome run rv nid Nd_failed (Some (JStr cause)) (Some a))
      (andThen (if optional then release_dependents now run g rv nid else skipDependents run rv nid)
        (settleWithReReview now run g rv (Some (''node '' @ nid @ '' failed: '' @ cause))))))"

definition applyStoredAcceptanceEffect ::
    "int \<Rightarrow> string \<Rightarrow> int \<Rightarrow> nat \<Rightarrow> string \<Rightarrow> int \<Rightarrow> string \<Rightarrow> effect wf" where
  "applyStoredAcceptanceEffect now run g rv nid c a = bind (reads (\<lambda>db. readWorkerAcceptance db c a)) (\<lambda>v. case v of
     Accepted_result env \<Rightarrow> succeedNodeEffect now run g rv nid a env
   | Rejected_result cause \<Rightarrow> failNodeEffect now run g rv nid a cause False)"

text \<open>The bodies of \<open>applyAttemptSucceeded\<close> and \<open>applyAttemptFailed\<close>.\<close>

definition attempt_succeeded_effect ::
    "int \<Rightarrow> nat \<Rightarrow> string \<Rightarrow> string \<Rightarrow> json \<Rightarrow> workflow_run \<Rightarrow> effect wf" where
  "attempt_succeeded_effect now rv nid a artifacts w = andThen (requireNode (wr_run_id w) rv nid)
     (bind (requireCurrentAttempt (wr_run_id w) rv nid a) (\<lambda>bound. case bound of
        None \<Rightarrow> succeedNodeEffect now (wr_run_id w) (wr_generation w) rv nid a artifacts
      | Some c \<Rightarrow> applyStoredAcceptanceEffect now (wr_run_id w) (wr_generation w) rv nid c a))"

definition attempt_failed_effect :: "int \<Rightarrow> nat \<Rightarrow> string \<Rightarrow> string \<Rightarrow> string \<Rightarrow> bool \<Rightarrow> workflow_run \<Rightarrow> effect wf" where
  "attempt_failed_effect now rv nid a cause retrySafe w = andThen (requireNode (wr_run_id w) rv nid)
     (failNodeEffect now (wr_run_id w) (wr_generation w) rv nid a cause retrySafe)"

section \<open>Claims carried by a hand-off\<close>

record claim_authority =
  cl_key :: command_key
  cl_owner :: string
  cl_token :: string

definition requireOwnedClaim :: "claim_authority \<Rightarrow> command_row wf" where
  "requireOwnedClaim cl = bind (reads (\<lambda>db. getCommand db (cl_key cl))) (\<lambda>cmd. case cmd of
     None \<Rightarrow> throw E_stale_claim
   | Some c \<Rightarrow> if wc_status c = Cm_claimed \<and> wc_owner c = Some (cl_owner cl) \<and> wc_token c = Some (cl_token cl)
       then return c else throw E_stale_claim)"

definition own_claim :: "claim_authority option \<Rightarrow> unit wf" where
  "own_claim cl = (case cl of None \<Rightarrow> return () | Some c \<Rightarrow> bind (requireOwnedClaim c) (\<lambda>_. return ()))"

definition finish_claim :: "int \<Rightarrow> claim_authority option \<Rightarrow> unit wf" where
  "finish_claim now cl = (case cl of None \<Rightarrow> return () | Some c \<Rightarrow> completeCommand now (cl_key c) (cl_owner c) (cl_token c))"

definition drop_claim :: "int \<Rightarrow> claim_authority option \<Rightarrow> unit wf" where
  "drop_claim now cl = (case cl of None \<Rightarrow> return () | Some c \<Rightarrow> bind (supersedeCommand now (cl_key c)) (\<lambda>_. return ()))"

section \<open>Plan admission\<close>

definition node_kind_of :: "json option \<Rightarrow> node_kind option" where
  "node_kind_of v = (case v of
     Some (JStr k) \<Rightarrow>
       (if k = ''work'' then Some N_work else if k = ''synthesis'' then Some N_synthesis
        else if k = ''planning'' then Some N_planning else if k = ''review'' then Some N_review
        else if k = ''delivery'' then Some N_delivery else None)
   | _ \<Rightarrow> None)"

text \<open>An unknown kind violates the table's \<open>CHECK\<close>.\<close>

definition insert_plan_nodes :: "string \<Rightarrow> nat \<Rightarrow> json \<Rightarrow> unit wf" where
  "insert_plan_nodes run rv p =
     (case those (map (\<lambda>(i, n). map_option (Pair (host_id rv i n)) (node_kind_of (jget n ''kind''))) (enumerate 0 (plan_nodes p))) of
        None \<Rightarrow> throw E_constraint
      | Some rows \<Rightarrow> insertNodes run rv rows)"

text \<open>\<open>byLabel\<close>: a later node with the same label wins; an unknown dependency binds \<open>undefined\<close>.\<close>

definition label_id :: "nat \<Rightarrow> json \<Rightarrow> json \<Rightarrow> string option" where
  "label_id rv p d = (case d of
     JStr l \<Rightarrow> map_of (List.rev (map (\<lambda>(i, n). (label_text n, host_id rv i n)) (enumerate 0 (plan_nodes p)))) l
   | _ \<Rightarrow> None)"

definition insert_plan_deps :: "string \<Rightarrow> nat \<Rightarrow> json \<Rightarrow> unit wf" where
  "insert_plan_deps run rv p = each (\<lambda>(i, n). case those (map (label_id rv p) (depends_on n)) of
       None \<Rightarrow> throw E_type_error
     | Some ds \<Rightarrow> insertDeps run rv (map (Pair (host_id rv i n)) ds)) (enumerate 0 (plan_nodes p))"

definition queue_ready :: "int \<Rightarrow> string \<Rightarrow> int \<Rightarrow> nat \<Rightarrow> unit wf" where
  "queue_ready now run g rv = bind (reads (\<lambda>db. listNodes db run rv)) (each (\<lambda>n.
     bind (reads (\<lambda>db. hasUnsatisfiedDeps db run rv (wn_node_id n)))
       (\<lambda>blocked. only_if (\<not> blocked) (queueForNode now run g rv (wn_node_id n) (wn_kind n) 0))))"

definition open_review_upto :: "swarm_db \<Rightarrow> string \<Rightarrow> nat \<Rightarrow> bool" where
  "open_review_upto db run rv \<longleftrightarrow>
     list_ex (\<lambda>r. list_ex (\<lambda>n. wn_kind n = N_review \<and> node_open n) (listNodes db run r)) [1..<Suc rv]"

definition worker_node :: "node_row \<Rightarrow> bool" where
  "worker_node n \<longleftrightarrow> wn_kind n = N_work \<or> wn_kind n = N_synthesis"

definition appendHostReviewIfMissing :: "int \<Rightarrow> string \<Rightarrow> int \<Rightarrow> nat \<Rightarrow> unit wf" where
  "appendHostReviewIfMissing now run g rv = bind (reads (\<lambda>db. open_review_upto db run rv)) (\<lambda>present.
     if present then return ()
     else andThen (insertNodes run rv [(host_review_id rv, N_review)])
      (bind (reads (\<lambda>db. map wn_node_id (filter worker_node (listNodes db run rv)))) (\<lambda>work.
       andThen (insertDeps run rv (map (Pair (host_review_id rv)) work))
      (bind (reads (\<lambda>db. hasUnsatisfiedDeps db run rv (host_review_id rv))) (\<lambda>blocked.
       only_if (\<not> blocked) (queueForNode now run g rv (host_review_id rv) N_review 0))))))"

definition admit_revision :: "int \<Rightarrow> string \<Rightarrow> int \<Rightarrow> nat \<Rightarrow> json \<Rightarrow> unit wf" where
  "admit_revision now run g rv p =
     andThen (insertPlanRevision run rv p)
    (andThen (insert_plan_nodes run rv p)
    (andThen (insert_plan_deps run rv p)
    (andThen (queue_ready now run g rv) (appendHostReviewIfMissing now run g rv))))"

record proposal_opts =
  pp_base :: "nat option"
  pp_op_id :: "string option"
  pp_completes :: "(nat \<times> string \<times> json) option"
  pp_round :: "(string \<times> int \<times> json) option"
  pp_claim :: "claim_authority option"

definition no_opts :: proposal_opts where
  "no_opts = \<lparr> pp_base = None, pp_op_id = None, pp_completes = None, pp_round = None, pp_claim = None \<rparr>"

definition complete_author :: "string \<Rightarrow> (nat \<times> string \<times> json) option \<Rightarrow> unit wf" where
  "complete_author run author = (case author of None \<Rightarrow> return ()
     | Some (r, nid, outcome) \<Rightarrow> setNodeOutcome run r nid Nd_succeeded (Some outcome) None)"

definition proposal_effect :: "int \<Rightarrow> nat \<Rightarrow> json \<Rightarrow> proposal_opts \<Rightarrow> workflow_run \<Rightarrow> effect wf" where
  "proposal_effect now rv p op w =
     andThen (own_claim (pp_claim op))
    (andThen (bind (cancelPriorNodes (wr_run_id w) rv (case pp_completes op of None \<Rightarrow> [] | Some (_, nid, _) \<Rightarrow> [nid])) (\<lambda>_. return ()))
    (andThen (complete_author (wr_run_id w) (pp_completes op))
    (andThen (admit_revision now (wr_run_id w) (wr_generation w) rv p)
    (andThen (case pp_op_id op of None \<Rightarrow> return ()
        | Some i \<Rightarrow> upsertOperation i (wr_run_id w) Op_planning (Some rv) Op_succeeded None)
    (andThen (finish_claim now (pp_claim op)) (return (goto W_dispatched)))))))"

definition admission_effect :: "int \<Rightarrow> nat \<Rightarrow> json \<Rightarrow> workflow_run \<Rightarrow> effect wf" where
  "admission_effect now rv p w = andThen (admit_revision now (wr_run_id w) (wr_generation w) rv p) (return (goto W_dispatched))"

text \<open>A rejected initial plan, and a rejected planning round.\<close>

definition plan_rejected_effect :: "string \<Rightarrow> workflow_run \<Rightarrow> effect wf" where
  "plan_rejected_effect text w = bind (consumeBudget (wr_run_id w) Plan_revision)
     (\<lambda>ok. return (if ok then goto W_planning else failing ''plan_rejected'' text))"

definition op_id_in :: "json \<Rightarrow> string option" where
  "op_id_in v = (case jget v ''opId'' of Some (JStr s) \<Rightarrow> Some s | _ \<Rightarrow> None)"

definition requeue_round :: "int \<Rightarrow> string option \<Rightarrow> workflow_run \<Rightarrow> string \<times> int \<times> json \<Rightarrow> unit wf" where
  "requeue_round now op w pr = (case pr of (nid, ordinal, payload) \<Rightarrow>
     andThen (bind (supersedeCommand now \<lparr> ck_run_id = wr_run_id w, ck_generation = wr_generation w, ck_node_id = nid,
         ck_action = Ac_plan, ck_ordinal = ordinal \<rparr>) (\<lambda>_. return ()))
    (bind (reads (\<lambda>db. orelse (orelse_opt (op_id_in payload) op) (opIdFor (wr_run_id w) (currentRevision db (wr_run_id w)) nid))) (\<lambda>opId.
     andThen (upsertOperation opId (wr_run_id w) Op_planning None Op_pending (Some (JObj [(''purpose'', JStr ''retry'')])))
    (bind (reads (\<lambda>db. nextCommandOrdinal db (wr_run_id w) (wr_generation w) nid Ac_plan)) (\<lambda>n.
     queueCommand now \<lparr> ck_run_id = wr_run_id w, ck_generation = wr_generation w, ck_node_id = nid, ck_action = Ac_plan, ck_ordinal = n \<rparr>
       payload)))))"

definition round_rejected_effect :: "int \<Rightarrow> proposal_opts \<Rightarrow> string \<Rightarrow> workflow_run \<Rightarrow> effect wf" where
  "round_rejected_effect now op text w = andThen (own_claim (pp_claim op))
     (bind (consumeBudget (wr_run_id w) Plan_revision) (\<lambda>ok.
      if \<not> ok then
        andThen (case pp_op_id op of None \<Rightarrow> return ()
          | Some i \<Rightarrow> upsertOperation i (wr_run_id w) Op_planning None Op_failed (Some (JStr text)))
       (andThen (drop_claim now (pp_claim op)) (return (failing ''plan_rejected'' text)))
      else andThen (case pp_round op of Some pr \<Rightarrow> requeue_round now (pp_op_id op) w pr | None \<Rightarrow> drop_claim now (pp_claim op))
        (return (goto W_planning))))"

section \<open>Review verdicts\<close>

text \<open>A verdict whose kind is none of the three is \<open>V_unknown\<close>.\<close>

datatype review_verdict = V_accept | V_changes "(string \<times> string) list" | V_cannot string | V_unknown string

definition sanitize_verdict :: "review_verdict \<Rightarrow> review_verdict" where
  "sanitize_verdict v = (case v of
     V_cannot reason \<Rightarrow> V_cannot (boundText reason 2000)
   | V_changes ds \<Rightarrow> V_changes (map (\<lambda>(c, d). (boundText c 500, boundText d 2000)) ds)
   | _ \<Rightarrow> v)"

definition defect_json :: "string \<times> string \<Rightarrow> json" where
  "defect_json d = JObj [(''criterion'', JStr (fst d)), (''detail'', JStr (snd d))]"

fun verdict_members :: "review_verdict \<Rightarrow> (string \<times> json) list" where
  "verdict_members V_accept = [(''verdict'', JStr ''accept'')]"
| "verdict_members (V_changes ds) = [(''verdict'', JStr ''changes_required''), (''defects'', JArr (map defect_json ds))]"
| "verdict_members (V_cannot r) = [(''verdict'', JStr ''cannot_assess''), (''reason'', JStr r)]"
| "verdict_members (V_unknown k) = [(''verdict'', JStr k)]"

text \<open>The acceptance criteria of a plan; \<open>None\<close> when it cannot be read.\<close>

definition plan_criteria :: "swarm_db \<Rightarrow> string \<Rightarrow> nat \<Rightarrow> json list option" where
  "plan_criteria db run rv = (case getPlan db run rv of None \<Rightarrow> None
     | Some p \<Rightarrow> map_option concat (those (map (\<lambda>n. iterate (jget n ''acceptance'')) (plan_nodes p))))"

fun check_defects :: "json list \<Rightarrow> nat \<Rightarrow> (string \<times> string) list \<Rightarrow> string option" where
  "check_defects criteria i [] = None"
| "check_defects criteria i ((c, d) # ds) =
     (if JStr c \<notin> set criteria then Some (''defect['' @ show_nat i @ ''] links to unknown criterion '' @ c)
      else if d = [] then Some (''defect['' @ show_nat i @ ''] needs a concrete detail'')
      else check_defects criteria (Suc i) ds)"

definition checkVerdict :: "swarm_db \<Rightarrow> string \<Rightarrow> nat \<Rightarrow> review_verdict \<Rightarrow> string option" where
  "checkVerdict db run rv v = (case v of
     V_accept \<Rightarrow> None
   | V_unknown k \<Rightarrow> Some (''unknown verdict kind '' @ k)
   | V_cannot reason \<Rightarrow> if reason \<noteq> [] then None else Some ''cannot_assess requires a reason''
   | V_changes ds \<Rightarrow>
       (if ds = [] then Some ''changes_required requires at least one defect''
        else case plan_criteria db run rv of
          None \<Rightarrow> Some ''unreadable plan revision for criterion linkage''
        | Some criteria \<Rightarrow> check_defects criteria 0 ds))"

definition locateReviewNode :: "swarm_db \<Rightarrow> string \<Rightarrow> string \<Rightarrow> nat option" where
  "locateReviewNode db run nid = List.find (\<lambda>rv. case List.find (\<lambda>n. wn_node_id n = nid \<and> wn_kind n = N_review) (listNodes db run rv) of
     None \<Rightarrow> False | Some n \<Rightarrow> node_open n) (List.rev [1..<Suc (currentRevision db run)])"

definition locateAnyRevision :: "swarm_db \<Rightarrow> string \<Rightarrow> string \<Rightarrow> nat option" where
  "locateAnyRevision db run nid =
     List.find (\<lambda>rv. list_ex (\<lambda>n. wn_node_id n = nid) (listNodes db run rv)) (List.rev [1..<Suc (currentRevision db run)])"

text \<open>A review that ends without acceptance: operation and node fail, then the run is evaluated.\<close>

definition review_fails ::
    "int \<Rightarrow> claim_authority option \<Rightarrow> nat \<Rightarrow> nat \<Rightarrow> string \<Rightarrow> json \<Rightarrow> string \<Rightarrow> string \<Rightarrow> workflow_run \<Rightarrow> effect wf" where
  "review_fails now cl home judged nid result outcome cause w =
     andThen (upsertOperation (opIdFor (wr_run_id w) home nid) (wr_run_id w) Op_review (Some home) Op_failed (Some result))
    (andThen (setNodeOutcome (wr_run_id w) home nid Nd_failed (Some (JStr outcome)) None)
    (andThen (finish_claim now cl) (evaluateTerminal (wr_run_id w) judged (Some cause))))"

definition malformed_effect ::
    "int \<Rightarrow> claim_authority option \<Rightarrow> nat \<Rightarrow> nat \<Rightarrow> string \<Rightarrow> string \<Rightarrow> workflow_run \<Rightarrow> effect wf" where
  "malformed_effect now cl home judged nid why w = andThen (own_claim cl)
     (bind (consumeBudget (wr_run_id w) Protocol_correction) (\<lambda>ok.
      if ok then bind (reads (\<lambda>db. nextCommandOrdinal db (wr_run_id w) (wr_generation w) nid Ac_review)) (\<lambda>n.
        andThen (queueCommand now \<lparr> ck_run_id = wr_run_id w, ck_generation = wr_generation w, ck_node_id = nid, ck_action = Ac_review, ck_ordinal = n \<rparr>
          (JObj [(''nodeId'', JStr nid), (''revision'', jnat home), (''correctionOf'', JStr why)]))
       (andThen (finish_claim now cl) (return no_effect)))
      else review_fails now cl home judged nid (JStr why) why (''malformed verdict: '' @ why) w))"

definition accepted_outcome :: "nat \<Rightarrow> json" where
  "accepted_outcome judged = JObj (verdict_members V_accept @ [(''judgedRevision'', jnat judged)])"

definition accepted_effect :: "int \<Rightarrow> claim_authority option \<Rightarrow> nat \<Rightarrow> nat \<Rightarrow> string \<Rightarrow> workflow_run \<Rightarrow> effect wf" where
  "accepted_effect now cl home judged nid w =
     andThen (own_claim cl)
    (andThen (requireNode (wr_run_id w) home nid)
    (andThen (upsertOperation (opIdFor (wr_run_id w) home nid) (wr_run_id w) Op_review (Some home) Op_succeeded (Some (accepted_outcome judged)))
    (andThen (setNodeOutcome (wr_run_id w) home nid Nd_succeeded (Some (accepted_outcome judged)) None)
    (andThen (insertDelivery (wr_run_id w) nid (JObj [(''revision'', jnat judged), (''acceptedAt'', JStr ''now'')]))
    (bind (reads (\<lambda>db. nextCommandOrdinal db (wr_run_id w) (wr_generation w) nid Ac_deliver)) (\<lambda>n.
     andThen (queueCommand now \<lparr> ck_run_id = wr_run_id w, ck_generation = wr_generation w, ck_node_id = nid, ck_action = Ac_deliver, ck_ordinal = n \<rparr>
        (JObj [(''nodeId'', JStr nid), (''revision'', jnat judged)]))
    (andThen (finish_claim now cl) (evaluateTerminal (wr_run_id w) judged None))))))))"

definition unassessable_effect :: "int \<Rightarrow> claim_authority option \<Rightarrow> nat \<Rightarrow> nat \<Rightarrow> string \<Rightarrow> string \<Rightarrow> workflow_run \<Rightarrow> effect wf" where
  "unassessable_effect now cl home judged nid reason w =
     andThen (own_claim cl)
    (andThen (requireNode (wr_run_id w) home nid)
      (review_fails now cl home judged nid (JObj (verdict_members (V_cannot reason))) reason (''review cannot assess: '' @ reason) w))"

definition repair_exhausted :: string where
  "repair_exhausted = ''repair allowance exhausted with unresolved defects''"

definition changes_effect ::
    "int \<Rightarrow> claim_authority option \<Rightarrow> nat \<Rightarrow> nat \<Rightarrow> string \<Rightarrow> (string \<times> string) list \<Rightarrow> workflow_run \<Rightarrow> effect wf" where
  "changes_effect now cl home judged nid ds w =
     andThen (own_claim cl)
    (andThen (requireNode (wr_run_id w) home nid)
    (bind (consumeBudget (wr_run_id w) Review_repair) (\<lambda>ok.
     if \<not> ok then review_fails now cl home judged nid (JObj (verdict_members (V_changes ds))) repair_exhausted repair_exhausted w
     else (let op = ''op-'' @ wr_run_id w @ ''-repair-r'' @ show_nat judged @ ''-'' @ nid; defects = JArr (map defect_json ds) in
       andThen (upsertOperation op (wr_run_id w) Op_planning (Some judged) Op_pending
         (Some (JObj [(''purpose'', JStr ''repair''), (''defects'', defects)])))
      (bind (reads (\<lambda>db. nextCommandOrdinal db (wr_run_id w) (wr_generation w) nid Ac_plan)) (\<lambda>n.
       andThen (queueCommand now \<lparr> ck_run_id = wr_run_id w, ck_generation = wr_generation w, ck_node_id = nid, ck_action = Ac_plan, ck_ordinal = n \<rparr>
         (JObj [(''nodeId'', JStr nid), (''revision'', jnat judged), (''purpose'', JStr ''repair''), (''defects'', defects), (''opId'', JStr op)]))
      (andThen (finish_claim now cl) (return no_effect))))))))"

section \<open>Claim inspection\<close>

definition leaseFresh :: "int \<Rightarrow> swarm_db \<Rightarrow> string \<Rightarrow> bool" where
  "leaseFresh now db a \<longleftrightarrow> (case sql_first (\<lambda>l. ls_attempt_id l = a) (db_leases db) of
     None \<Rightarrow> False
   | Some l \<Rightarrow> ls_closed_at l = None \<and> (case ls_next_evaluation_at l of Some (At t) \<Rightarrow> t > now | _ \<Rightarrow> False))"

definition opIdOfCommand :: "swarm_db \<Rightarrow> command_row \<Rightarrow> string" where
  "opIdOfCommand db c = (case jget (wc_payload c) ''opId'' of
     Some (JStr (x # xs)) \<Rightarrow> x # xs
   | _ \<Rightarrow> opIdFor (wc_run_id c) (case jget (wc_payload c) ''revision'' of Some (JNum (NInt r)) \<Rightarrow> nat r | _ \<Rightarrow> 0) (wc_node_id c))"

definition finish_command :: "int \<Rightarrow> command_key \<Rightarrow> command_row \<Rightarrow> unit wf" where
  "finish_command now k c = completeCommand now k (orelse (wc_owner c) []) (orelse (wc_token c) [])"

definition release_command :: "command_key \<Rightarrow> command_row \<Rightarrow> unit wf" where
  "release_command k c = bind (releaseClaim k (orelse (wc_owner c) []) (orelse (wc_token c) [])) (\<lambda>_. return ())"

definition unobserved :: effect where
  "unobserved = failing ''observation_unknown''
     ''5 consecutive inconclusive inspections; no retry without confirmed termination''"

definition applyInconclusive :: "int \<Rightarrow> string \<Rightarrow> command_key \<Rightarrow> int \<Rightarrow> unit wf \<Rightarrow> bool \<Rightarrow> effect wf" where
  "applyInconclusive now run k gen onMax resolveRunUnknown =
     bind (reads (\<lambda>db. (case getCommand db k of None \<Rightarrow> 0 | Some c \<Rightarrow> wc_inconclusive c) + 1)) (\<lambda>n.
     if n \<ge> MAX_CONSECUTIVE_INCONCLUSIVE then
       andThen onMax (if resolveRunUnknown then return unobserved
         else bind (reads (\<lambda>db. currentRevision db run))
           (\<lambda>rv. evaluateTerminal run rv (Some ''inspection cap reached without verdict'')))
     else andThen (noteInspectionInconclusive now k gen n) (return no_effect))"

definition inspect_delivery :: "int \<Rightarrow> command_key \<Rightarrow> command_row \<Rightarrow> workflow_run \<Rightarrow> effect wf" where
  "inspect_delivery now k c w = bind (reads (\<lambda>db. getDelivery db (wr_run_id w) (ck_node_id k))) (\<lambda>d. case d of
     None \<Rightarrow> andThen (finish_command now k c) (return noop_effect)
   | Some v \<Rightarrow>
       (if wv_outcome v \<noteq> Dv_pending then andThen (finish_command now k c) (return noop_effect)
        else if wv_attempts v = 0 then andThen (release_command k c) (return no_effect)
        else andThen (setDeliveryOutcome (wr_run_id w) (ck_node_id k) Dv_unknown (Some (JObj [(''inspection'', JBool True)])))
          (andThen (finish_command now k c) (return no_effect))))"

definition inspect_model_job :: "int \<Rightarrow> command_key \<Rightarrow> int \<Rightarrow> command_row \<Rightarrow> workflow_run \<Rightarrow> effect wf" where
  "inspect_model_job now k gen c w = bind (reads (\<lambda>db. locateAnyRevision db (wr_run_id w) (ck_node_id k))) (\<lambda>home.
     bind (reads (\<lambda>db. opIdOfCommand db c)) (\<lambda>opId.
     applyInconclusive now (wr_run_id w) k gen
       (andThen (upsertOperation opId (wr_run_id w) (if ck_action k = Ac_review then Op_review else Op_planning) home Op_failed
           (Some (JStr ''inspection cap reached'')))
         (case home of None \<Rightarrow> return () | Some r \<Rightarrow> setNodeOutcome (wr_run_id w) r (ck_node_id k) Nd_failed
           (Some (JStr ''inspection cap reached without verdict'')) None))
       (ck_action k = Ac_plan \<and> home = None)))"

text \<open>
  A dispatch claim is judged by the latest attempt of the node's card: none, ended, waiting or running.
  A claim older than the attempt by the 60 s of clock grace never started its round.
\<close>

definition inspect_ended ::
    "int \<Rightarrow> command_key \<Rightarrow> int \<Rightarrow> command_row \<Rightarrow> nat \<Rightarrow> attempt \<Rightarrow> workflow_run \<Rightarrow> effect wf" where
  "inspect_ended now k gen c rv a w = (let run = wr_run_id w; nid = ck_node_id k; what = ''attempt '' @ at_id a @ '' '' @ lifecycle_name (at_lifecycle a) in
     if at_lifecycle a = L_completed then
       bind (requireCurrentAttempt run rv nid (at_id a)) (\<lambda>bound. case bound of
         None \<Rightarrow> throw E_unbound_attempt
       | Some b \<Rightarrow> bind (applyStoredAcceptanceEffect now run (wr_generation w) rv nid b (at_id a)) (\<lambda>ef.
           andThen (finish_command now k c) (return ef)))
     else (case wc_claimed_at c of
       None \<Rightarrow> applyInconclusive now run k gen (setNodeOutcome run rv nid Nd_failed (Some (JStr ''observation_unknown'')) None) True
     | Some t \<Rightarrow>
         (if at_started_at a \<le> t - 60000 then andThen (release_command k c) (return no_effect)
          else andThen (setNodeOutcome run rv nid Nd_failed (Some (JStr (what @ '' found at inspection''))) None)
            (andThen (finish_command now k c) (evaluateTerminal run rv (Some what))))))"

definition inspect_dispatch :: "int \<Rightarrow> command_key \<Rightarrow> int \<Rightarrow> command_row \<Rightarrow> workflow_run \<Rightarrow> effect wf" where
  "inspect_dispatch now k gen c w = (let run = wr_run_id w; nid = ck_node_id k in
     bind (reads (\<lambda>db. currentRevision db run)) (\<lambda>rv.
     bind (reads (\<lambda>db. find_node db run rv nid)) (\<lambda>node. case node of
       None \<Rightarrow> andThen (finish_command now k c) (return noop_effect)
     | Some n \<Rightarrow> bind (reads (\<lambda>db. case wn_worker_card_id n of None \<Rightarrow> None | Some wid \<Rightarrow> getLatestAttempt db wid))
         (\<lambda>latest. case latest of
           None \<Rightarrow> andThen (release_command k c) (return no_effect)
         | Some a \<Rightarrow>
             (if isAttemptTerminal (at_lifecycle a) then inspect_ended now k gen c rv a w
              else bind (reads (\<lambda>db. at_lifecycle a = L_pending \<or> leaseFresh now db (at_id a))) (\<lambda>alive.
                if alive then andThen (noteInspectionAlive now k gen COMMAND_CLAIM_LEASE_MS) (return no_effect)
                else applyInconclusive now run k gen
                  (setNodeOutcome run rv nid Nd_failed (Some (JStr ''observation_unknown'')) None) True))))))"

text \<open>The node of a claim has ended: the orphaned command is finished.\<close>

definition node_ended :: "swarm_db \<Rightarrow> string \<Rightarrow> string \<Rightarrow> bool" where
  "node_ended db run nid \<longleftrightarrow> (case find_node db run (currentRevision db run) nid of None \<Rightarrow> False | Some n \<Rightarrow> \<not> node_open n)"

definition claim_expired_effect :: "int \<Rightarrow> command_key \<Rightarrow> int \<Rightarrow> workflow_run \<Rightarrow> effect wf" where
  "claim_expired_effect now k gen w = bind (reads (\<lambda>db. getCommand db k)) (\<lambda>cmd. case cmd of
     None \<Rightarrow> return noop_effect
   | Some c \<Rightarrow>
       (if wc_status c \<noteq> Cm_claimed then return noop_effect
        else if wc_inspect_gen c \<noteq> gen - 1 \<or> wc_token c = None \<or> wc_owner c = None then return noop_effect
        else bind (reads (\<lambda>db. node_ended db (wr_run_id w) (ck_node_id k))) (\<lambda>ended.
          if ended then andThen (finish_command now k c) (return noop_effect)
          else case ck_action k of
            Ac_deliver \<Rightarrow> inspect_delivery now k c w
          | Ac_review \<Rightarrow> inspect_model_job now k gen c w
          | Ac_plan \<Rightarrow> inspect_model_job now k gen c w
          | _ \<Rightarrow> inspect_dispatch now k gen c w)))"

section \<open>Hand-off, breaker, lost model jobs\<close>

text \<open>The open, unblocked review nodes of the current revision that no review command covers.\<close>

definition uncovered_reviews :: "swarm_db \<Rightarrow> string \<Rightarrow> nat \<Rightarrow> node_row list" where
  "uncovered_reviews db run rv = filter (\<lambda>n. wn_kind n = N_review \<and> node_open n \<and>
     \<not> hasUnsatisfiedDeps db run rv (wn_node_id n) \<and> \<not> review_covered run n db) (listNodes db run rv)"

definition sha_effect :: "int \<Rightarrow> bool \<Rightarrow> workflow_run \<Rightarrow> effect wf" where
  "sha_effect now final w = (let run = wr_run_id w in
     if \<not> final then return noop_effect
     else bind (reads (\<lambda>db. currentRevision db run)) (\<lambda>rv.
       bind (reads (\<lambda>db. uncovered_reviews db run rv)) (\<lambda>due.
       andThen (each (requeue_review now run (wr_generation w) rv) due) (return (if due = [] then noop_effect else no_effect)))))"

definition breaker_effect :: "int \<Rightarrow> nat \<Rightarrow> string \<Rightarrow> string \<Rightarrow> int \<Rightarrow> workflow_run \<Rightarrow> effect wf" where
  "breaker_effect now rv nid resource ordinal w = (let run = wr_run_id w; why = ''resource refused: '' @ resource in
     bind (reads (\<lambda>db. find_node db run rv nid)) (\<lambda>node. case node of
       None \<Rightarrow> return noop_effect
     | Some n \<Rightarrow>
         (if \<not> node_open n then return noop_effect
          else andThen (bind (cancelCommand now \<lparr> ck_run_id = run, ck_generation = wr_generation w, ck_node_id = nid,
              ck_action = Ac_dispatch, ck_ordinal = ordinal \<rparr>) (\<lambda>_. return ()))
            (bind (reads (\<lambda>db. isOptionalNode db run rv nid)) (\<lambda>optional.
             if optional then
               andThen (setNodeOutcome run rv nid Nd_skipped (Some (JStr why)) None)
              (andThen (release_dependents now run (wr_generation w) rv nid)
                (settleWithReReview now run (wr_generation w) rv None))
             else andThen (bind (cancelPendingCommands now run) (\<lambda>_. return ()))
               (return (failing ''resource_unavailable'' why)))))))"

definition model_job_failed_effect :: "int \<Rightarrow> claim_authority \<Rightarrow> string \<Rightarrow> workflow_run \<Rightarrow> effect wf" where
  "model_job_failed_effect now cl reason w = (let run = wr_run_id w in
     bind (requireOwnedClaim cl) (\<lambda>c.
     andThen (if wc_action c \<noteq> Ac_review then return ()
        else bind (reads (\<lambda>db. locateAnyRevision db run (wc_node_id c))) (\<lambda>home. case home of
          None \<Rightarrow> return () | Some r \<Rightarrow> setNodeOutcome run r (wc_node_id c) Nd_failed (Some (JStr reason)) None))
    (bind (reads (\<lambda>db. opIdOfCommand db c)) (\<lambda>opId.
     andThen (upsertOperation opId run (if wc_action c = Ac_review then Op_review else Op_planning)
        (case jget (wc_payload c) ''revision'' of Some (JNum (NInt r)) \<Rightarrow> Some (nat r) | _ \<Rightarrow> None) Op_failed (Some (JStr reason)))
    (andThen (bind (cancelRun now run (wr_root_card_id w)) (\<lambda>_. return ()))
    (andThen (bind (closeOpenOperations run Op_failed (JStr reason)) (\<lambda>_. return ()))
      (return (failing ''observation_unknown'' (boundText reason 2000)))))))))"

definition INTERRUPTED_BY_RESTART :: string where
  "INTERRUPTED_BY_RESTART = ''interrupted by bridge restart''"

definition interrupted_effect :: "int \<Rightarrow> workflow_run \<Rightarrow> effect wf" where
  "interrupted_effect now w =
     andThen (bind (cancelRun now (wr_run_id w) (wr_root_card_id w)) (\<lambda>_. return ()))
    (andThen (bind (closeOpenOperations (wr_run_id w) Op_cancelled (JStr INTERRUPTED_BY_RESTART)) (\<lambda>_. return ()))
      (return (failing ''observation_unknown'' INTERRUPTED_BY_RESTART)))"

definition cancelled_effect :: "int \<Rightarrow> string \<Rightarrow> workflow_run \<Rightarrow> effect wf" where
  "cancelled_effect now reason w = bind (cancelRun now (wr_run_id w) (wr_root_card_id w)) (\<lambda>_.
     return \<lparr> ef_next_state = Some W_cancelled, ef_failure_code = Some ''cancelled'', ef_failure_reason = Some reason, ef_noop = False \<rparr>)"

definition input_node :: string where
  "input_node = ''__input__''"

definition notify_payload :: "string \<Rightarrow> string \<Rightarrow> json" where
  "notify_payload kind i = JObj [(''kind'', JStr kind), (''inputId'', JStr i)]"

definition input_requested_effect ::
    "int \<Rightarrow> string \<Rightarrow> string \<Rightarrow> string list \<Rightarrow> string \<Rightarrow> workflow_run \<Rightarrow> effect wf" where
  "input_requested_effect now i question criteria kind w =
     andThen (insertInputRequest i (wr_run_id w) (wr_root_card_id w) question criteria kind)
    (andThen (queueCommand now \<lparr> ck_run_id = wr_run_id w, ck_generation = wr_generation w, ck_node_id = input_node,
        ck_action = Ac_notify, ck_ordinal = 0 \<rparr> (notify_payload ''input_requested'' i))
      (return (goto W_awaiting_input)))"

definition input_answered_effect :: "int \<Rightarrow> string \<Rightarrow> workflow_run \<Rightarrow> effect wf" where
  "input_answered_effect now i w =
     bind (reads (\<lambda>db. nextCommandOrdinal db (wr_run_id w) (wr_generation w) input_node Ac_notify)) (\<lambda>n.
     andThen (queueCommand now \<lparr> ck_run_id = wr_run_id w, ck_generation = wr_generation w, ck_node_id = input_node,
        ck_action = Ac_notify, ck_ordinal = n \<rparr> (notify_payload ''input_answered'' i))
      (return (goto W_executing)))"

end
