(* ===== verification/WorkflowFrames.thy ===== *)
theory WorkflowFrames
  imports WorkflowEffects
begin

text \<open>
  What every effect of the runner respects. The locale \<open>store_writers\<close> is the interface between the
  effects and the store: the writers an effect calls, and the law that each of them respects a
  preorder on databases. Inside the locale the law is lifted to every effect, once; it is interpreted
  for the invariant of the tables, for the run and ingress rows (which only the commit envelope
  writes), and for the life of worker attempts.
\<close>

section \<open>The interface\<close>

locale store_writers = preserved rel for rel :: "swarm_db \<Rightarrow> swarm_db \<Rightarrow> bool" +
  assumes plan_revision: "moves (insertPlanRevision run rv p)"
    and nodes: "moves (insertNodes run rv ns)"
    and deps: "moves (insertDeps run rv ds)"
    and outcome: "moves (setNodeOutcome run rv nid st out a)"
    and skip: "moves (skipDependents run rv nid)"
    and satisfy: "moves (satisfyDependents run rv nid)"
    and queue: "moves (queueCommand now k payload)"
    and delivery: "moves (insertDelivery run nid obligation)"
    and delivery_outcome: "moves (setDeliveryOutcome run nid dv receipt)"
    and operation: "moves (upsertOperation op run kind rvo ost result)"
    and operations_closed: "moves (closeOpenOperations run ost res)"
    and complete: "moves (completeCommand now k owner tok)"
    and release: "moves (releaseClaim k owner tok)"
    and cancel: "moves (cancelCommand now k)"
    and supersede: "moves (supersedeCommand now k)"
    and cancel_pending: "moves (cancelPendingCommands now run)"
    and alive: "moves (noteInspectionAlive now k g interval)"
    and inconclusive: "moves (noteInspectionInconclusive now k g i)"
    and budget: "moves (consumeBudget run scope)"
    and prior: "moves (cancelPriorNodes run rv spare)"
    and cancel_run: "moves (cancelRun now run root)"
    and ask_input: "moves (insertInputRequest iid run root question criteria ikind)"
begin

lemmas writers = plan_revision nodes deps outcome skip satisfy queue delivery delivery_outcome operation
  operations_closed complete release cancel supersede cancel_pending alive inconclusive budget prior cancel_run ask_input

lemma moves_evaluate: "moves (evaluateTerminal run rv cause)"
  by (rule movesI) (simp add: evaluateTerminal_def refl split: option.split)

lemma moves_queueForNode: "moves (queueForNode now run g rv nid k i)"
  unfolding queueForNode_def by (intro control writers)

lemma moves_release_dependents: "moves (release_dependents now run g rv nid)"
  unfolding release_dependents_def by (intro control writers moves_queueForNode)

lemma moves_requeue_review: "moves (requeue_review now run g rv n)"
  unfolding requeue_review_def by (intro control moves_queueForNode)

lemma moves_rereview: "moves (maybeQueueReReview now run g)"
  unfolding maybeQueueReReview_def by (intro control moves_requeue_review)

lemma moves_settle: "moves (settleWithReReview now run g rv cause)"
  unfolding settleWithReReview_def by (intro control moves_evaluate moves_rereview)

lemma moves_requireNode: "moves (requireNode run rv nid)"
  unfolding requireNode_def by (intro control)

lemma moves_requireCurrentAttempt: "moves (requireCurrentAttempt run rv nid a)"
  unfolding requireCurrentAttempt_def by (intro control)

lemma moves_succeedNode: "moves (succeedNodeEffect now run g rv nid a out)"
  unfolding succeedNodeEffect_def by (intro control writers moves_release_dependents moves_settle)

lemma moves_failNode: "moves (failNodeEffect now run g rv nid a cause safe)"
  unfolding failNodeEffect_def by (intro control writers moves_release_dependents moves_settle)

lemma moves_acceptance: "moves (applyStoredAcceptanceEffect now run g rv nid c a)"
  unfolding applyStoredAcceptanceEffect_def
  by (intro control) (simp split: acceptance.split add: moves_succeedNode moves_failNode)

lemma moves_attempt_succeeded: "moves (attempt_succeeded_effect now rv nid a out w)"
  unfolding attempt_succeeded_effect_def
  by (intro control moves_requireNode moves_requireCurrentAttempt moves_succeedNode moves_acceptance)

lemma moves_attempt_failed: "moves (attempt_failed_effect now rv nid a cause safe w)"
  unfolding attempt_failed_effect_def by (intro control moves_requireNode moves_failNode)

lemma moves_owned: "moves (requireOwnedClaim cl)"
  unfolding requireOwnedClaim_def by (intro control)

lemma moves_claims: "moves (own_claim clo)" "moves (finish_claim now clo)" "moves (drop_claim now clo)"
  unfolding own_claim_def finish_claim_def drop_claim_def by (intro control writers moves_owned)+

lemma moves_admit: "moves (admit_revision now run g rv p)"
  unfolding admit_revision_def insert_plan_nodes_def insert_plan_deps_def queue_ready_def appendHostReviewIfMissing_def
  by (intro control writers moves_queueForNode)

lemma moves_admission: "moves (admission_effect now rv p w)"
  unfolding admission_effect_def by (intro control moves_admit)

lemma moves_proposal: "moves (proposal_effect now rv p opts w)"
  unfolding proposal_effect_def complete_author_def by (intro control writers moves_claims moves_admit)

lemma moves_plan_rejected: "moves (plan_rejected_effect text w)"
  unfolding plan_rejected_effect_def by (intro control writers)

lemma moves_round_rejected: "moves (round_rejected_effect now opts text w)"
  unfolding round_rejected_effect_def requeue_round_def by (intro control writers moves_claims)

lemma moves_review_fails: "moves (review_fails now clo home judged nid result out cause w)"
  unfolding review_fails_def by (intro control writers moves_claims moves_evaluate)

lemma moves_malformed: "moves (malformed_effect now clo home judged nid why w)"
  unfolding malformed_effect_def by (intro control writers moves_claims moves_review_fails)

lemma moves_accepted: "moves (accepted_effect now clo home judged nid w)"
  unfolding accepted_effect_def by (intro control writers moves_claims moves_requireNode moves_evaluate)

lemma moves_unassessable: "moves (unassessable_effect now clo home judged nid reason w)"
  unfolding unassessable_effect_def by (intro control moves_claims moves_requireNode moves_review_fails)

lemma moves_changes: "moves (changes_effect now clo home judged nid ds w)"
  unfolding changes_effect_def Let_def by (intro control writers moves_claims moves_requireNode moves_review_fails)

lemma moves_inconclusive: "moves m \<Longrightarrow> moves (applyInconclusive now run k g m unknown)"
  unfolding applyInconclusive_def by (intro control writers moves_evaluate)

lemma moves_commands: "moves (finish_command now k c)" "moves (release_command k c)"
  unfolding finish_command_def release_command_def by (intro control writers)+

lemma moves_inspect_delivery: "moves (inspect_delivery now k c w)"
  unfolding inspect_delivery_def by (intro control writers moves_commands)

lemma moves_inspect_model: "moves (inspect_model_job now k g c w)"
  unfolding inspect_model_job_def by (intro control moves_inconclusive writers)

lemma moves_inspect_ended: "moves (inspect_ended now k g c rv a w)"
  unfolding inspect_ended_def Let_def
  by (intro control moves_inconclusive writers moves_commands moves_requireCurrentAttempt moves_acceptance moves_evaluate)

lemma moves_inspect_dispatch: "moves (inspect_dispatch now k g c w)"
  unfolding inspect_dispatch_def Let_def by (intro control moves_inconclusive writers moves_commands moves_inspect_ended)

lemma moves_claim_expired: "moves (claim_expired_effect now k g w)"
proof -
  have "moves (case ck_action k of Ac_deliver \<Rightarrow> inspect_delivery now k c w
      | Ac_review \<Rightarrow> inspect_model_job now k g c w | Ac_plan \<Rightarrow> inspect_model_job now k g c w
      | _ \<Rightarrow> inspect_dispatch now k g c w)" for c
    by (cases "ck_action k") (simp_all add: moves_inspect_delivery moves_inspect_model moves_inspect_dispatch)
  then show ?thesis unfolding claim_expired_effect_def by (intro control moves_commands)
qed

lemma moves_sha: "moves (sha_effect now final w)"
  unfolding sha_effect_def Let_def by (intro control moves_requeue_review)

lemma moves_breaker: "moves (breaker_effect now rv nid resource i w)"
  unfolding breaker_effect_def Let_def by (intro control writers moves_release_dependents moves_settle)

lemma moves_model_job: "moves (model_job_failed_effect now cl reason w)"
  unfolding model_job_failed_effect_def Let_def by (intro control writers moves_owned)

lemma moves_interrupted: "moves (interrupted_effect now w)"
  unfolding interrupted_effect_def by (intro control writers)

lemma moves_cancelled: "moves (cancelled_effect now reason w)"
  unfolding cancelled_effect_def by (intro control writers)

lemma moves_input_requested: "moves (input_requested_effect now i question criteria ikind w)"
  unfolding input_requested_effect_def by (intro control writers)

lemma moves_input_answered: "moves (input_answered_effect now i w)"
  unfolding input_answered_effect_def by (intro control writers)

lemmas effects = moves_attempt_succeeded moves_attempt_failed moves_admission moves_proposal moves_plan_rejected
  moves_round_rejected moves_malformed moves_accepted moves_unassessable moves_changes moves_claim_expired moves_sha
  moves_breaker moves_model_job moves_interrupted moves_cancelled moves_input_requested moves_input_answered moves_evaluate

end

section \<open>Its interpretations\<close>

interpretation tables: store_writers "\<lambda>s t. wf_tables s \<longrightarrow> wf_tables t"
  by unfold_locales (rule typed_rules)+

text \<open>
  An effect leaves the run and ingress rows (the envelope writes them), the cards and the supervision
  rows (the projection writes them) alone, and of a worker attempt it changes at most one thing: a
  cancellation asks an attempt that has not ended to stop.
\<close>

definition asked_to_stop :: "attempt \<Rightarrow> attempt \<Rightarrow> bool" where
  "asked_to_stop r r' \<longleftrightarrow> r' = r \<or> (at_lifecycle r = L_pending \<or> active_lifecycle (at_lifecycle r)) \<and>
     (\<exists>why. r' = r\<lparr> at_lifecycle := L_cancel_requested, at_cancel_reason := why \<rparr>)"

definition fenced_attempts :: "swarm_db \<Rightarrow> swarm_db \<Rightarrow> bool" where
  "fenced_attempts s t \<longleftrightarrow> list_all2 asked_to_stop (db_attempts s) (db_attempts t)"

definition quiet :: "swarm_db \<Rightarrow> swarm_db \<Rightarrow> bool" where
  "quiet s t \<longleftrightarrow> db_workflow_runs t = db_workflow_runs s \<and> db_ingress t = db_ingress s \<and>
     db_cards t = db_cards s \<and> db_supervision t = db_supervision s \<and> db_task_runs t = db_task_runs s \<and> fenced_attempts s t"

lemma asked_to_stop_refl [simp]: "asked_to_stop r r"
  by (simp add: asked_to_stop_def)

lemma asked_to_stop_trans: "asked_to_stop r s \<Longrightarrow> asked_to_stop s t \<Longrightarrow> asked_to_stop r t"
  by (auto simp: asked_to_stop_def active_lifecycle_def)

lemma fenced_refl [simp]: "db_attempts t = db_attempts s \<Longrightarrow> fenced_attempts s t"
  by (simp add: fenced_attempts_def list.rel_refl)

lemma fenced_trans: "fenced_attempts s t \<Longrightarrow> fenced_attempts t u \<Longrightarrow> fenced_attempts s u"
  unfolding fenced_attempts_def using list_all2_trans [of asked_to_stop asked_to_stop asked_to_stop] asked_to_stop_trans by blast

interpretation hush: preserved quiet
  by unfold_locales (auto simp: quiet_def intro: fenced_trans)

named_theorems quiet_rules

lemma quiet_updates [quiet_rules]: "hush.moves (update_nodes pn fn)" "hush.moves (update_deps pd fd)" "hush.moves (update_operations po fo)"
  "hush.moves (update_budgets pb fb)" "hush.moves (update_commands pc fc)" "hush.moves (update_deliveries pv fv)"
  "hush.moves (update_inputs pi fi)"
  by (rule hush.movesI; simp add: update_nodes_def update_deps_def update_operations_def update_budgets_def
      update_commands_def update_deliveries_def update_inputs_def quiet_def)+

lemma quiet_writes: "(\<And>s. quiet s (f s)) \<Longrightarrow> hush.moves (writes f)"
  by (rule hush.moves_writes)

lemma quiet_fence: "hush.moves (\<lambda>db. case cancelRun_fence now run root db of (n, db1) \<Rightarrow> (Inr n, db1))"
  by (rule hush.movesI)
     (auto simp: cancelRun_fence_def update_attempts_def update_reservations_def Let_def case_prod_unfold quiet_def
        fenced_attempts_def sql_update_def list_all2_conv_all_nth asked_to_stop_def)

lemma quiet_writers [quiet_rules]:
  "hush.moves (insertPlanRevision run rv p)" "hush.moves (insertNodes run rv ns)" "hush.moves (insertDeps run rv ds)"
  "hush.moves (setNodeOutcome run rv nid st out a)" "hush.moves (skipDependents run rv nid)"
  "hush.moves (satisfyDependents run rv nid)" "hush.moves (queueCommand now k payload)"
  "hush.moves (insertDelivery run nid obligation)" "hush.moves (setDeliveryOutcome run nid dv receipt)"
  "hush.moves (upsertOperation op run kind rvo ost result)" "hush.moves (closeOpenOperations run ost res)"
  "hush.moves (completeCommand now k owner tok)" "hush.moves (releaseClaim k owner tok)" "hush.moves (cancelCommand now k)"
  "hush.moves (supersedeCommand now k)" "hush.moves (cancelPendingCommands now run)"
  "hush.moves (noteInspectionAlive now k g interval)" "hush.moves (noteInspectionInconclusive now k g i)"
  "hush.moves (consumeBudget run scope)" "hush.moves (cancelPriorNodes run rv spare)" "hush.moves (cancelRun now run root)"
  "hush.moves (insertInputRequest iid run root question criteria ikind)"
  unfolding insertPlanRevision_def insertNodes_def insertNode_def insertDeps_def insertDep_def setNodeOutcome_def skipDependents_def
    satisfyDependents_def queueCommand_def insertDelivery_def setDeliveryOutcome_def upsertOperation_def closeOpenOperations_def
    completeCommand_def releaseClaim_def cancelCommand_def supersedeCommand_def cancelPendingCommands_def noteInspectionAlive_def
    noteInspectionInconclusive_def consumeBudget_def cancelPriorNodes_def cancelRun_def insertInputRequest_def exactly_one_def
    one_row_def Let_def
  by (intro hush.control quiet_rules quiet_fence quiet_writes; simp add: quiet_def)+

interpretation framed: store_writers quiet
  by unfold_locales (rule quiet_rules)+

lemma find_map: "list_all2 R xs ys \<Longrightarrow> (\<And>x y. R x y \<Longrightarrow> P x = P y) \<Longrightarrow> rel_option R (List.find P xs) (List.find P ys)"
  by (induction xs ys rule: list_all2_induct) auto

lemma fenced_evolves:
  assumes "fenced_attempts s t"
  shows "evolves s t"
proof -
  have "rel_option asked_to_stop (find_attempt s a) (find_attempt t a)" for a
    using assms unfolding fenced_attempts_def find_attempt_def sql_first_def
    by (intro find_map) (auto simp: asked_to_stop_def)
  moreover have "attempt_evolves r r'" if "asked_to_stop r r'" for r r'
    using that by (auto simp: asked_to_stop_def attempt_evolves_def attempt_move_def attempt_moves_def active_lifecycle_def)
  ultimately show ?thesis unfolding evolves_def by (metis option_rel_Some1)
qed

lemma quiet_tokens: "quiet s t \<Longrightarrow> tokens_of t x = tokens_of s x"
  by (simp add: quiet_def tokens_of_def find_card_def)

end
