(* ===== verification/WorkflowRunner.thy ===== *)
theory WorkflowRunner
  imports WorkflowFrames Delivery
begin

text \<open>
  The operations of the workflow runner (\<open>orc-project/orc-workflow-runner.ts\<close>), the startup barrier
  (\<open>orc-workflow-startup.ts\<close>) and the successor hook of worker settlement (\<open>orc-workflow-settlement.ts\<close>).
  The record \<open>wenv\<close> holds what they read from outside the database: the clock, the hash, generated
  ids, the file system, the validators, the wording of plan diagnostics (which no decision reads), and
  the settlement of a root that came from a peer. Cancelling in-process model calls when a run ends is
  left out: it changes no row.
\<close>

section \<open>Environment\<close>

text \<open>\<open>reportConstraintOf\<close>: none, a required output, or a contract that cannot be used.\<close>

datatype report_constraint = No_report | Report_ref string | Report_problem string

record wenv =
  we_now :: int
  we_sha :: "json \<Rightarrow> string"
  we_uid :: "nat \<Rightarrow> string"
  we_caps :: "string list"
  we_redact :: "string \<Rightarrow> string"
  we_report :: "swarm_db \<Rightarrow> string \<Rightarrow> report_constraint"
  we_wording :: "plan_issue \<Rightarrow> string"
  we_directory :: "int \<Rightarrow> string"
  we_resolve :: "string \<Rightarrow> string option"
  we_peer :: "workflow_run \<Rightarrow> supervision \<Rightarrow> bool wf"

text \<open>The environment of the i-th round of a loop draws other ids.\<close>

definition round_env :: "nat \<Rightarrow> wenv \<Rightarrow> wenv" where
  "round_env i env = env\<lparr> we_uid := (\<lambda>j. we_uid env (2 ^ i * (2 * j + 1))) \<rparr>"

fun state_name :: "workflow_state \<Rightarrow> string" where
  "state_name W_admitted = ''admitted''" | "state_name W_planning = ''planning''"
| "state_name W_dispatched = ''dispatched''" | "state_name W_executing = ''executing''"
| "state_name W_reviewing = ''reviewing''" | "state_name W_repairing = ''repairing''"
| "state_name W_awaiting_input = ''awaiting_input''" | "state_name W_delivering = ''delivering''"
| "state_name W_succeeded = ''succeeded''" | "state_name W_failed = ''failed''" | "state_name W_cancelled = ''cancelled''"

section \<open>Supervision rows\<close>

definition ensureAwaitingContract :: "int \<Rightarrow> swarm_db \<Rightarrow> swarm_db" where
  "ensureAwaitingContract c db = (case find_supervision db c of
     Some _ \<Rightarrow> db
   | None \<Rightarrow> db\<lparr> db_supervision := db_supervision db @ [\<lparr> ps_project_card_id = c, ps_state = Awaiting_contract,
       ps_generation = 1, ps_blocked_reason = None, ps_workspace_cwd = None \<rparr>] \<rparr>)"

definition bindWorkspace :: "int \<Rightarrow> string \<Rightarrow> bool wf" where
  "bindWorkspace c cwd db = (let p = (\<lambda>r. ps_project_card_id r = c \<and> (ps_workspace_cwd r = None \<or> ps_workspace_cwd r = Some cwd))
     in (Inr (sql_changes p (db_supervision db) = 1),
         db\<lparr> db_supervision := sql_update p (\<lambda>r. r\<lparr> ps_workspace_cwd := Some cwd \<rparr>) (db_supervision db) \<rparr>))"

definition stateTransition ::
    "int \<Rightarrow> project_state list \<Rightarrow> project_state \<Rightarrow> (supervision \<Rightarrow> supervision) \<Rightarrow> authority \<Rightarrow> bool wf" where
  "stateTransition c fs st extra au db =
     (if pa_card_id au \<noteq> c \<or> authorizeActiveProjectWork db (Some au) \<noteq> None then (Inr False, db)
      else let p = (\<lambda>r. ps_project_card_id r = c \<and> ps_generation r = pa_generation au \<and> ps_state r \<in> set fs)
        in (Inr (sql_changes p (db_supervision db) = 1),
            db\<lparr> db_supervision := sql_update p (\<lambda>r. extra (r\<lparr> ps_state := st \<rparr>)) (db_supervision db) \<rparr>))"

definition kanbanSetProjectDeliveryReady :: "int \<Rightarrow> int \<Rightarrow> int \<Rightarrow> string option \<Rightarrow> swarm_db \<Rightarrow> swarm_db" where
  "kanbanSetProjectDeliveryReady now c gen scheduled db =
     (let p = (\<lambda>r. k_id r = c \<and> is_project r \<and> k_status r = Done \<and> \<not> k_delivery_ready r \<and>
            supervised db c (\<lambda>st. st = Accepted) gen \<and>
            (case scheduled of
               Some run \<Rightarrow> from_task r \<and> k_source_id r = Some run \<and>
                 task_run_where db run (\<lambda>tr. tr_finished_at tr \<noteq> None \<and> tr_outcome tr = Some ''success'')
             | None \<Rightarrow> \<not> from_task r));
          db1 = update_cards p (\<lambda>r. r\<lparr> k_delivery_ready := True, k_updated_at := sqliteNow now \<rparr>) db
      in if sql_changes p (db_cards db) = 1 then db1\<lparr> db_nerve := db_nerve db1 @ [(Done, c)] \<rparr> else db1)"

section \<open>Terminal projection\<close>

definition resultSummary :: "swarm_db \<Rightarrow> workflow_run \<Rightarrow> string" where
  "resultSummary db w = take 4000 (join_with '': ''
     ([state_name (wr_state w) @ '' revision '' @ show_nat (currentRevision db (wr_run_id w))] @
      (case wr_failure_reason w of None \<Rightarrow> [] | Some r \<Rightarrow> if r = [] then [] else [boundText r 500])))"

text \<open>
  The artifact pointer is the first non-empty text of a member \<open>artifact\<close>, \<open>result_path\<close> or \<open>path\<close> in
  the JSON of a succeeded node (the source matches the text; a path has no character that JSON escapes).
\<close>

fun texts_at :: "string \<Rightarrow> json \<Rightarrow> string list" where
  "texts_at k (JArr vs) = concat (map (texts_at k) vs)"
| "texts_at k (JObj ms) =
     concat (map (\<lambda>(n, v). (if n = k then (case v of JStr s \<Rightarrow> [s] | _ \<Rightarrow> []) else []) @ texts_at k v) ms)"
| "texts_at k _ = []"

definition first_text :: "json \<Rightarrow> string \<Rightarrow> string option" where
  "first_text v k = List.find (\<lambda>s. s \<noteq> []) (texts_at k v)"

definition node_artifact :: "node_row \<Rightarrow> string option" where
  "node_artifact n = (if wn_status n \<noteq> Nd_succeeded then None else case wn_outcome n of None \<Rightarrow> None
     | Some v \<Rightarrow> orelse_opt (first_text v ''artifact'') (orelse_opt (first_text v ''result_path'') (first_text v ''path'')))"

definition resultArtifact :: "swarm_db \<Rightarrow> workflow_run \<Rightarrow> string option" where
  "resultArtifact db w = map_option (take 500) (orelse
     (List.find (\<lambda>x. x \<noteq> None) (map node_artifact (listNodes db (wr_run_id w) (currentRevision db (wr_run_id w))))) None)"

definition failure_text :: "workflow_run \<Rightarrow> string \<Rightarrow> string" where
  "failure_text w dflt = orelse (orelse_opt (wr_failure_reason w) (wr_failure_code w)) dflt"

definition ACTIVE_PROJECT_STATES :: "project_state list" where
  "ACTIVE_PROJECT_STATES = [Awaiting_contract, Executing, Review_ready, Review_requested, Reviewing, Repair_planned,
     Repairing, Needs_input]"

definition projected_state :: "workflow_run \<Rightarrow> project_state" where
  "projected_state w = (if wr_state w = W_succeeded then Accepted else Blocked)"

definition project_supervision :: "workflow_run \<Rightarrow> supervision \<Rightarrow> bool wf" where
  "project_supervision w psv = (if ps_state psv = projected_state w then return True
     else stateTransition (wr_root_card_id w) ACTIVE_PROJECT_STATES (projected_state w)
       (\<lambda>r. if wr_state w = W_succeeded then r else r\<lparr> ps_blocked_reason := Some (boundText (failure_text w ''failed'') 2000) \<rparr>)
       \<lparr> pa_card_id = wr_root_card_id w, pa_generation = ps_generation psv, pa_scheduled_run_id = wr_scheduled_run_id w \<rparr>)"

definition card_move :: "wenv \<Rightarrow> workflow_run \<Rightarrow> swarm_db \<Rightarrow> transition_request" where
  "card_move env w db = (let now = we_now env; c = wr_root_card_id w; title = ''run '' @ wr_run_id w @ '' '' in
     if wr_state w = W_succeeded then
       (move c [Queued, Running] Done A_workflow_runner (title @ ''succeeded''))
         \<lparr> tq_fields := [W_result_summary (Some (resultSummary db w))] @
             (case resultArtifact db w of None \<Rightarrow> [] | Some p \<Rightarrow> [W_result_path (Some p)]) @ [W_completed_at (Some (sqliteNow now))] \<rparr>
     else (move c [Queued, Running] Failed A_workflow_runner (title @ state_name (wr_state w)))
         \<lparr> tq_fields := [W_error (Some (boundText (failure_text w (state_name (wr_state w))) 1000)),
             W_completed_at (Some (sqliteNow now))] \<rparr>)"

definition card_settled :: "card_status \<Rightarrow> bool" where
  "card_settled st \<longleftrightarrow> st = Done \<or> st = Failed \<or> st = Delivered"

definition project_card :: "wenv \<Rightarrow> workflow_run \<Rightarrow> unit wf" where
  "project_card env w = writes (\<lambda>db. case find_card db (wr_root_card_id w) of
     None \<Rightarrow> db
   | Some k \<Rightarrow> if card_settled (k_status k) then db
       else snd (kanbanTransition (we_redact env) (we_now env) (card_move env w db) db))"

definition from_peer :: "swarm_db \<Rightarrow> workflow_run \<Rightarrow> bool" where
  "from_peer db w \<longleftrightarrow> (case find_card db (wr_root_card_id w) of None \<Rightarrow> False | Some k \<Rightarrow> k_source k = ''peer'')"

definition project_local :: "wenv \<Rightarrow> workflow_run \<Rightarrow> supervision \<Rightarrow> bool wf" where
  "project_local env w psv = bind (project_supervision w psv) (\<lambda>ok.
     if \<not> ok then return False
     else andThen (project_card env w)
      (andThen (only_if (wr_state w = W_succeeded)
        (writes (kanbanSetProjectDeliveryReady (we_now env) (wr_root_card_id w) (ps_generation psv) (wr_scheduled_run_id w))))
        (return True)))"

definition projectTerminalProjections :: "wenv \<Rightarrow> string \<Rightarrow> bool wf" where
  "projectTerminalProjections env run = bind (reads (\<lambda>db. getRun db run)) (\<lambda>raw. case raw of
     None \<Rightarrow> return False
   | Some w \<Rightarrow>
       (if \<not> run_terminal (wr_state w) then return False
        else andThen (writes (ensureAwaitingContract (wr_root_card_id w)))
          (bind (reads (\<lambda>db. find_supervision db (wr_root_card_id w))) (\<lambda>sv. case sv of
             None \<Rightarrow> throw E_supervision_missing
           | Some psv \<Rightarrow> bind (reads (\<lambda>db. from_peer db w)) (\<lambda>peer.
               if peer then we_peer env w psv else project_local env w psv)))))"

definition projectAfterCommit :: "wenv \<Rightarrow> string \<Rightarrow> disposition \<Rightarrow> unit wf" where
  "projectAfterCommit env run d = bind (reads (\<lambda>db. getRun db run)) (\<lambda>raw.
     if d = Committed \<and> (case raw of None \<Rightarrow> False | Some w \<Rightarrow> run_terminal (wr_state w)) then
       bind (projectTerminalProjections env run) (\<lambda>ok. if ok then return () else throw E_projection_incomplete)
     else return ())"

section \<open>Commits\<close>

definition commitWithProjections :: "wenv \<Rightarrow> runner_event \<Rightarrow> (workflow_run \<Rightarrow> effect wf) \<Rightarrow> disposition wf" where
  "commitWithProjections env e applier = bind (commitTransition (we_now env) e applier) (\<lambda>d.
     andThen (projectAfterCommit env (rn_run_id e) d) (return d))"

definition no_conflict :: "disposition wf \<Rightarrow> disposition wf" where
  "no_conflict m = bind m (\<lambda>d. if d = Conflict then throw E_conflict else return d)"

text \<open>\<open>randomUUID().replace(/-/g, "").slice(0, n)\<close>\<close>

definition short_uid :: "wenv \<Rightarrow> nat \<Rightarrow> nat \<Rightarrow> string" where
  "short_uid env i n = take n (filter (\<lambda>c. c \<noteq> CHR ''-'') (we_uid env i))"

definition payload_of :: "string \<Rightarrow> json \<Rightarrow> json" where
  "payload_of kind body = JObj [(''kind'', JStr kind), (''body'', body)]"

definition event_for :: "wenv \<Rightarrow> workflow_run \<Rightarrow> string \<Rightarrow> json \<Rightarrow> runner_event" where
  "event_for env w i payload = \<lparr> rn_event_id = i, rn_run_id = wr_run_id w, rn_hash = we_sha env payload, rn_payload = payload,
     rn_generation = wr_generation w, rn_state_version = wr_state_version w \<rparr>"

definition freshEvent :: "wenv \<Rightarrow> workflow_run \<Rightarrow> string \<Rightarrow> json \<Rightarrow> runner_event" where
  "freshEvent env w kind body =
     event_for env w (kind @ ''-'' @ wr_run_id w @ ''-'' @ short_uid env 0 12) (payload_of kind body)"

definition commitKind :: "wenv \<Rightarrow> workflow_run \<Rightarrow> string \<Rightarrow> json \<Rightarrow> (workflow_run \<Rightarrow> effect wf) \<Rightarrow> disposition wf" where
  "commitKind env w kind body applier = no_conflict (commitWithProjections env (freshEvent env w kind body) applier)"

definition requireRun :: "string \<Rightarrow> workflow_run wf" where
  "requireRun run = bind (reads (\<lambda>db. getRun db run)) (\<lambda>w. case w of None \<Rightarrow> throw E_run_missing | Some w \<Rightarrow> return w)"

definition requireLive :: "string \<Rightarrow> workflow_run wf" where
  "requireLive run = bind (requireRun run) (\<lambda>w. if run_terminal (wr_state w) then throw E_run_terminal else return w)"

section \<open>Admission\<close>

record admission =
  ad_root_card_id :: int
  ad_source :: string
  ad_source_peer :: "string option"
  ad_source_id :: "string option"
  ad_scheduled_run_id :: "string option"
  ad_cwd :: "string option"

definition default_budgets :: "budget_scope \<Rightarrow> int" where
  "default_budgets sc = (case sc of Work_retry \<Rightarrow> 1 | Plan_revision \<Rightarrow> 2 | Review_repair \<Rightarrow> 2 | Protocol_correction \<Rightarrow> 1)"

definition admit :: "wenv \<Rightarrow> root_kind \<Rightarrow> int \<Rightarrow> string option \<Rightarrow> string \<Rightarrow> (workflow_run \<times> bool) wf" where
  "admit env kind c scheduled op = admitRun (we_sha env) (we_now env)
     \<lparr> ri_run_id = ''wf_'' @ short_uid env 0 16, ri_root_kind = kind, ri_root_card_id = c, ri_scheduled_run_id = scheduled,
       ri_client_operation_id = op, ri_budgets = default_budgets \<rparr>"

text \<open>\<open>ensureProjectWorkspace\<close>: an unbound root is bound to its own project directory.\<close>

definition workspace_of :: "swarm_db \<Rightarrow> int \<Rightarrow> string option" where
  "workspace_of db c = (case find_supervision db c of None \<Rightarrow> None | Some sv \<Rightarrow> ps_workspace_cwd sv)"

definition ensureProjectWorkspace :: "wenv \<Rightarrow> int \<Rightarrow> string wf" where
  "ensureProjectWorkspace env c = andThen (writes (ensureAwaitingContract c))
     (bind (reads (\<lambda>db. workspace_of db c)) (\<lambda>current. case current of
        Some (x # xs) \<Rightarrow> return (x # xs)
      | _ \<Rightarrow> bind (bindWorkspace c (we_directory env c)) (\<lambda>bound.
          if bound then return (we_directory env c)
          else bind (reads (\<lambda>db. workspace_of db c)) (\<lambda>winner. case winner of
            Some (x # xs) \<Rightarrow> return (x # xs) | _ \<Rightarrow> throw E_workspace))))"

definition plan_node :: string where
  "plan_node = ''__plan__''"

definition initial_op :: "string \<Rightarrow> string" where
  "initial_op run = ''op-'' @ run @ ''-initial-plan''"

definition queue_initial :: "wenv \<Rightarrow> workflow_run \<Rightarrow> unit wf" where
  "queue_initial env w = queueCommand (we_now env)
     \<lparr> ck_run_id = wr_run_id w, ck_generation = wr_generation w, ck_node_id = plan_node, ck_action = Ac_plan, ck_ordinal = 0 \<rparr>
     (JObj [(''nodeId'', JStr plan_node), (''revision'', JNull), (''purpose'', JStr ''initial''), (''defects'', JArr []),
        (''opId'', JStr (initial_op (wr_run_id w)))])"

definition open_initial :: "workflow_run \<Rightarrow> unit wf" where
  "open_initial w = upsertOperation (initial_op (wr_run_id w)) (wr_run_id w) Op_planning None Op_pending
     (Some (JObj [(''purpose'', JStr ''initial'')]))"

definition planning_open :: "string \<Rightarrow> swarm_db \<Rightarrow> bool" where
  "planning_open run db \<longleftrightarrow> hasCommand db run plan_node Ac_plan Cm_pending \<or> hasCommand db run plan_node Ac_plan Cm_claimed"

definition ensureInitialPlanning :: "wenv \<Rightarrow> string \<Rightarrow> unit wf" where
  "ensureInitialPlanning env run = bind (reads (\<lambda>db. (currentRevision db run, getRun db run))) (\<lambda>(rv, raw).
     if rv \<noteq> 0 then return () else case raw of
       None \<Rightarrow> return ()
     | Some w \<Rightarrow> if wr_state w \<noteq> W_admitted then return ()
         else atomically (andThen (open_initial w)
           (bind (reads (planning_open run)) (\<lambda>op. only_if (\<not> op) (queue_initial env w)))))"

datatype admitted = Admitted string root_kind | Admission_duplicate string root_kind | Origin_invalid

definition root_kind_of :: "string \<Rightarrow> root_kind" where
  "root_kind_of src = (if src = ''task'' then Root_scheduled else if src = ''peer'' then Root_peer else Root_interactive)"

text \<open>\<open>trim().length === 0\<close> on the characters of white space in the basic plane's first page.\<close>

definition blank :: "string option \<Rightarrow> bool" where
  "blank v \<longleftrightarrow> (case v of None \<Rightarrow> True
     | Some s \<Rightarrow> list_all (\<lambda>c. let n = (of_char c :: nat) in n = 32 \<or> 9 \<le> n \<and> n \<le> 13 \<or> n = 160) s)"

definition resolve_cwd :: "wenv \<Rightarrow> string \<Rightarrow> string wf" where
  "resolve_cwd env cwd = (case we_resolve env cwd of None \<Rightarrow> throw E_workspace | Some p \<Rightarrow> return p)"

definition duplicate_workspace :: "wenv \<Rightarrow> admission \<Rightarrow> unit wf" where
  "duplicate_workspace env ad = (case ad_cwd ad of
     None \<Rightarrow> bind (ensureProjectWorkspace env (ad_root_card_id ad)) (\<lambda>_. return ())
   | Some cwd \<Rightarrow> bind (resolve_cwd env cwd) (\<lambda>p. require E_workspace (\<lambda>db. case workspace_of db (ad_root_card_id ad) of
       None \<Rightarrow> True | Some cur \<Rightarrow> cur = p)))"

definition bind_admitted :: "wenv \<Rightarrow> admission \<Rightarrow> unit wf" where
  "bind_admitted env ad = (case ad_cwd ad of
     None \<Rightarrow> bind (ensureProjectWorkspace env (ad_root_card_id ad)) (\<lambda>_. return ())
   | Some cwd \<Rightarrow> bind (resolve_cwd env cwd) (\<lambda>p. andThen (writes (ensureAwaitingContract (ad_root_card_id ad)))
       (bind (bindWorkspace (ad_root_card_id ad) p) (\<lambda>ok. if ok then return () else throw E_workspace))))"

definition admitSupervised :: "wenv \<Rightarrow> admission \<Rightarrow> admitted wf" where
  "admitSupervised env ad =
     (if ad_source ad = ''peer'' \<and> blank (ad_source_peer ad) then return Origin_invalid
      else (let kind = root_kind_of (ad_source ad);
                scheduled = orelse_opt (ad_scheduled_run_id ad) (if ad_source ad = ''task'' then ad_source_id ad else None)
        in bind (admit env kind (ad_root_card_id ad) scheduled (''admit-'' @ show_int (ad_root_card_id ad) @ ''-'' @ ad_source ad))
          (\<lambda>(w, fresh). if \<not> fresh then
              andThen (duplicate_workspace env ad)
             (andThen (ensureInitialPlanning env (wr_run_id w)) (return (Admission_duplicate (wr_run_id w) kind)))
           else andThen (bind_admitted env ad)
             (andThen (atomically (andThen (open_initial w) (queue_initial env w)))
               (return (Admitted (wr_run_id w) kind))))))"

section \<open>Plans\<close>

definition issue_json :: "wenv \<Rightarrow> plan_issue \<Rightarrow> json" where
  "issue_json env i = JStr (we_wording env i)"

definition problems_text :: "wenv \<Rightarrow> plan_issue list \<Rightarrow> string" where
  "problems_text env ps = boundText (join_with ''; '' (map (we_wording env) ps)) 2000"

definition problems_body :: "wenv \<Rightarrow> plan_issue list \<Rightarrow> json" where
  "problems_body env ps = JObj [(''problems'', JArr (map (issue_json env) ps))]"

fun text_items :: "json list \<Rightarrow> string list" where
  "text_items [] = []"
| "text_items (JStr s # vs) = s # text_items vs"
| "text_items (_ # vs) = text_items vs"

definition cumulativeOutputs :: "swarm_db \<Rightarrow> string \<Rightarrow> nat \<Rightarrow> string list" where
  "cumulativeOutputs db run rvs = uniq (concat (map (\<lambda>rv. case getPlan db run rv of None \<Rightarrow> []
     | Some p \<Rightarrow> text_items (declared_outputs (plan_nodes p))) [1..<Suc rvs]))"

definition names_output :: "json \<Rightarrow> string \<Rightarrow> bool" where
  "names_output p ref \<longleftrightarrow> (case jget p ''requiredOutputs'' of
     Some (JArr rs) \<Rightarrow> JStr ref \<in> set rs | Some (JStr s) \<Rightarrow> sublist ref s | _ \<Rightarrow> False)"

definition validatePlanForRun :: "wenv \<Rightarrow> swarm_db \<Rightarrow> string \<Rightarrow> json \<Rightarrow> plan_issue list option" where
  "validatePlanForRun env db run p =
     map_option (\<lambda>ps. ps @ (case we_report env db run of
         No_report \<Rightarrow> []
       | Report_problem why \<Rightarrow> [Report_contract_problem why]
       | Report_ref ref \<Rightarrow> issue_if (ref \<noteq> [] \<and> \<not> names_output p ref) (Report_output_missing ref)))
       (validatePlan (we_caps env) p (cumulativeOutputs db run (currentRevision db run)))"

definition revision_body :: "nat \<Rightarrow> json" where
  "revision_body rv = JObj [(''revision'', jnat rv)]"

definition ready_count :: "swarm_db \<Rightarrow> string \<Rightarrow> nat \<Rightarrow> json \<Rightarrow> nat" where
  "ready_count db run rv p = length (filter (\<lambda>i. \<not> hasUnsatisfiedDeps db run rv i) (hostIds rv p))"

definition acceptPlan :: "wenv \<Rightarrow> string \<Rightarrow> json \<Rightarrow> (nat \<times> string list \<times> nat) wf" where
  "acceptPlan env run p = bind (requireLive run) (\<lambda>w.
     andThen (require E_plan_exists (\<lambda>db. currentRevision db run = 0))
    (bind (reads (\<lambda>db. validatePlanForRun env db run p)) (\<lambda>checked. case checked of
       None \<Rightarrow> throw E_type_error
     | Some [] \<Rightarrow> bind (commitKind env w ''PlanAccepted'' (revision_body 1) (admission_effect (we_now env) 1 p))
         (\<lambda>_. reads (\<lambda>db. (1, hostIds 1 p, ready_count db run 1 p)))
     | Some ps \<Rightarrow> bind (commitKind env w ''PlanRejected'' (problems_body env ps) (plan_rejected_effect (problems_text env ps)))
         (\<lambda>_. throw (E_plan_rejected ps)))))"

text \<open>The result tells whether the round was requeued.\<close>

definition rejectPlanRound :: "wenv \<Rightarrow> string \<Rightarrow> plan_issue list \<Rightarrow> proposal_opts \<Rightarrow> bool wf" where
  "rejectPlanRound env run ps op = bind (requireLive run) (\<lambda>w.
     bind (commitKind env w ''PlanRejected'' (problems_body env ps)
         (round_rejected_effect (we_now env) op (problems_text env ps)))
       (\<lambda>d. reads (\<lambda>db. \<not> (d = Committed \<and> map_option wr_state (getRun db run) = Some W_failed))))"

definition baseline_outputs :: "swarm_db \<Rightarrow> string \<Rightarrow> json list option" where
  "baseline_outputs db run = (case getPlan db run 1 of None \<Rightarrow> Some [] | Some p \<Rightarrow> required_list (jget p ''requiredOutputs''))"

definition keeps_output :: "json \<Rightarrow> json \<Rightarrow> bool" where
  "keeps_output p r \<longleftrightarrow> (case jget p ''requiredOutputs'' of
     Some (JArr rs) \<Rightarrow> list_ex (same_value r) rs
   | Some (JStr s) \<Rightarrow> (case r of JStr t \<Rightarrow> sublist t s | _ \<Rightarrow> False)
   | _ \<Rightarrow> False)"

definition submitPlanProposal :: "wenv \<Rightarrow> string \<Rightarrow> json \<Rightarrow> proposal_opts \<Rightarrow> (nat \<times> string list) wf" where
  "submitPlanProposal env run p op = bind (requireLive run) (\<lambda>w.
     andThen (own_claim (pp_claim op))
    (bind (reads (\<lambda>db. currentRevision db run)) (\<lambda>current.
     if pp_base op \<noteq> None \<and> pp_base op \<noteq> Some current then throw E_revision_stale
     else bind (reads (\<lambda>db. validatePlanForRun env db run p)) (\<lambda>checked. case checked of
       None \<Rightarrow> throw E_type_error
     | Some (i # is) \<Rightarrow> bind (rejectPlanRound env run (i # is) op) (\<lambda>_. throw (E_plan_rejected (i # is)))
     | Some [] \<Rightarrow> bind (reads (\<lambda>db. baseline_outputs db run)) (\<lambda>base. case base of
         None \<Rightarrow> throw E_type_error
       | Some rs \<Rightarrow>
           (if \<not> list_all (keeps_output p) rs then throw E_weakens
            else bind (commitKind env w ''PlanAccepted'' (revision_body (Suc current))
                (proposal_effect (we_now env) (Suc current) p op))
              (\<lambda>_. return (Suc current, hostIds (Suc current) p))))))))"

section \<open>Worker outcomes and verdicts\<close>

definition attemptSucceeded :: "wenv \<Rightarrow> string \<Rightarrow> string \<Rightarrow> string \<Rightarrow> json \<Rightarrow> disposition wf" where
  "attemptSucceeded env run nid a artifacts = bind (requireLive run) (\<lambda>w. bind (reads (\<lambda>db. currentRevision db run)) (\<lambda>rv.
     commitKind env w ''AttemptSucceeded'' (JObj [(''nodeId'', JStr nid), (''attemptId'', JStr a)])
       (attempt_succeeded_effect (we_now env) rv nid a artifacts)))"

definition attemptFailed :: "wenv \<Rightarrow> string \<Rightarrow> string \<Rightarrow> string \<Rightarrow> string \<Rightarrow> bool \<Rightarrow> disposition wf" where
  "attemptFailed env run nid a cause retrySafe = bind (requireLive run) (\<lambda>w. bind (reads (\<lambda>db. currentRevision db run)) (\<lambda>rv.
     let why = boundText cause 2000 in
     commitKind env w ''AttemptFailed'' (JObj [(''nodeId'', JStr nid), (''attemptId'', JStr a), (''cause'', JStr why)])
       (attempt_failed_effect (we_now env) rv nid a why retrySafe)))"

datatype verdict_outcome = Vo_accepted | Vo_repair_queued | Vo_failed | Vo_unassessable | Vo_correction_queued

text \<open>A review that was answered but not settled leaves its node open.\<close>

definition still_open :: "string \<Rightarrow> nat \<Rightarrow> string \<Rightarrow> swarm_db \<Rightarrow> bool" where
  "still_open run rv nid db \<longleftrightarrow> (case find_node db run rv nid of None \<Rightarrow> False | Some n \<Rightarrow> node_open n)"

definition judged_body :: "string \<Rightarrow> nat \<Rightarrow> (string \<times> json) list \<Rightarrow> json" where
  "judged_body nid judged ms = JObj ([(''nodeId'', JStr nid), (''judged'', jnat judged)] @ ms)"

definition apply_verdict ::
    "wenv \<Rightarrow> workflow_run \<Rightarrow> claim_authority option \<Rightarrow> nat \<Rightarrow> nat \<Rightarrow> string \<Rightarrow> review_verdict \<Rightarrow> verdict_outcome wf" where
  "apply_verdict env w cl home judged nid v = (let run = wr_run_id w; now = we_now env; said = (''verdict'', JObj (verdict_members v)) in
     bind (reads (\<lambda>db. checkVerdict db run judged v)) (\<lambda>malformed. case malformed of
       Some why \<Rightarrow> bind (commitKind env w ''ReviewInvalid'' (judged_body nid judged [said, (''malformed'', JStr why)])
           (malformed_effect now cl home judged nid why))
         (\<lambda>_. reads (\<lambda>db. if still_open run home nid db then Vo_correction_queued else Vo_failed))
     | None \<Rightarrow> (case v of
         V_accept \<Rightarrow> bind (commitKind env w ''ReviewAccepted'' (judged_body nid judged [(''home'', jnat home)])
             (accepted_effect now cl home judged nid)) (\<lambda>_. return Vo_accepted)
       | V_cannot reason \<Rightarrow> bind (commitKind env w ''ReviewUnassessable'' (judged_body nid judged [said])
             (unassessable_effect now cl home judged nid reason)) (\<lambda>_. return Vo_unassessable)
       | V_changes ds \<Rightarrow> bind (commitKind env w ''ReviewChangesRequested'' (judged_body nid judged [said])
             (changes_effect now cl home judged nid ds))
           (\<lambda>_. reads (\<lambda>db. if still_open run home nid db then Vo_repair_queued else Vo_failed))
       | V_unknown _ \<Rightarrow> throw E_type_error)))"

definition submitVerdict :: "wenv \<Rightarrow> string \<Rightarrow> string \<Rightarrow> review_verdict \<Rightarrow> claim_authority option \<Rightarrow> verdict_outcome wf" where
  "submitVerdict env run nid raw cl = bind (requireLive run) (\<lambda>w.
     andThen (own_claim cl)
    (bind (reads (\<lambda>db. (currentRevision db run, locateReviewNode db run nid))) (\<lambda>(judged, home). case home of
       None \<Rightarrow> throw E_no_review_node
     | Some h \<Rightarrow> apply_verdict env w cl h judged nid (sanitize_verdict raw))))"

section \<open>Cancellation, failure, input\<close>

text \<open>The counters of the cancellation are left out of the result.\<close>

definition requestCancelRun :: "wenv \<Rightarrow> string \<Rightarrow> string \<Rightarrow> bool wf" where
  "requestCancelRun env run cause = bind (requireRun run) (\<lambda>w.
     if run_terminal (wr_state w) then return False
     else let why = boundText cause 2000 in
       bind (commitKind env w ''CancelRequested'' (JObj [(''cause'', JStr why)]) (cancelled_effect (we_now env) why)) (\<lambda>_. return True))"

definition failRun :: "wenv \<Rightarrow> string \<Rightarrow> string \<Rightarrow> string \<Rightarrow> disposition wf" where
  "failRun env run code reason = bind (requireLive run) (\<lambda>w.
     commitKind env w ''RunFailed'' (JObj [(''code'', JStr code), (''reason'', JStr reason)])
       (\<lambda>_. return (failing code (boundText reason 2000))))"

definition requestInput :: "wenv \<Rightarrow> string \<Rightarrow> string \<Rightarrow> string list \<Rightarrow> string \<Rightarrow> string wf" where
  "requestInput env run question criteria kind = bind (requireLive run) (\<lambda>w.
     if wr_state w = W_awaiting_input then throw E_already_awaiting
     else let q = boundText question 2000; i = we_uid env 1 in
       bind (commitKind env w ''InputRequested'' (JObj [(''question'', JStr q)])
         (input_requested_effect (we_now env) i q criteria kind)) (\<lambda>_. return i))"

definition answerInput :: "wenv \<Rightarrow> string \<Rightarrow> string \<Rightarrow> string wf" where
  "answerInput env i response = bind (answerInputRequest i (boundText response 2000)) (\<lambda>answered. case answered of
     Some (x # xs, _) \<Rightarrow> bind (requireLive (x # xs)) (\<lambda>w.
       if wr_state w \<noteq> W_awaiting_input then throw E_not_awaiting
       else bind (commitKind env w ''InputAnswered'' (JObj [(''inputId'', JStr i)]) (input_answered_effect (we_now env) i))
         (\<lambda>_. return (wr_run_id w)))
   | _ \<Rightarrow> throw E_input_unknown)"

section \<open>Delivery\<close>

definition DELIVERY_MAX_ATTEMPTS :: int where
  "DELIVERY_MAX_ATTEMPTS = 3"

text \<open>What a send answers: a receipt, a definitive refusal, or an error that says nothing.\<close>

datatype send_reply = Sent_with json | Send_refused string | Send_unclear

type_synonym sender = "string \<Rightarrow> string \<Rightarrow> json \<Rightarrow> string \<Rightarrow> send_reply"

datatype delivery_result = Dr_acknowledged | Dr_failed | Dr_unknown | Dr_retry_queued

definition settleIfDeliverable :: "wenv \<Rightarrow> string \<Rightarrow> unit wf" where
  "settleIfDeliverable env run = bind (reads (\<lambda>db. (getRun db run, currentRevision db run))) (\<lambda>(raw, rv). case raw of
     None \<Rightarrow> return ()
   | Some w \<Rightarrow> if run_terminal (wr_state w) then return ()
       else bind (commitKind env w ''DeliverySettled'' (JObj []) (\<lambda>_. evaluateTerminal run rv None)) (\<lambda>_. return ()))"

definition refused_send :: "wenv \<Rightarrow> string \<Rightarrow> string \<Rightarrow> command_key \<Rightarrow> string \<Rightarrow> string \<Rightarrow> int \<Rightarrow> string \<Rightarrow> delivery_result wf" where
  "refused_send env run nid k owner tok attempts msg =
     (if attempts < DELIVERY_MAX_ATTEMPTS then
        andThen (completeCommand (we_now env) k owner tok)
       (bind (reads (\<lambda>db. nextCommandOrdinal db run (ck_generation k) nid Ac_deliver)) (\<lambda>n.
        andThen (queueCommand (we_now env)
            \<lparr> ck_run_id = run, ck_generation = ck_generation k, ck_node_id = nid, ck_action = Ac_deliver, ck_ordinal = n \<rparr>
            (JObj [(''nodeId'', JStr nid), (''retryOf'', JNum (NInt attempts))]))
          (return Dr_retry_queued)))
      else andThen (setDeliveryOutcome run nid Dv_failed (Some (JObj [(''error'', JStr (boundText msg 500))])))
       (andThen (completeCommand (we_now env) k owner tok) (return Dr_failed)))"

definition send_key :: "string \<Rightarrow> string \<Rightarrow> int \<Rightarrow> string" where
  "send_key run nid attempts = run @ ''/'' @ nid @ ''/'' @ show_int attempts"

definition runDeliverySend :: "wenv \<Rightarrow> sender \<Rightarrow> string \<Rightarrow> string \<Rightarrow> command_key \<Rightarrow> string \<Rightarrow> string \<Rightarrow> delivery_result wf" where
  "runDeliverySend env snd_to run nid k owner tok = bind (reads (\<lambda>db. getDelivery db run nid)) (\<lambda>d. case d of
     None \<Rightarrow> throw E_no_obligation
   | Some v \<Rightarrow>
       (if wv_outcome v \<noteq> Dv_pending then
          andThen (completeCommand (we_now env) k owner tok)
            (return (case wv_outcome v of Dv_acknowledged \<Rightarrow> Dr_acknowledged | Dv_failed \<Rightarrow> Dr_failed | _ \<Rightarrow> Dr_unknown))
        else bind (bumpDeliveryAttempts run nid) (\<lambda>attempts. case snd_to run nid (wv_obligation v) (send_key run nid attempts) of
            Sent_with receipt \<Rightarrow> andThen (setDeliveryOutcome run nid Dv_acknowledged (Some receipt))
             (andThen (completeCommand (we_now env) k owner tok)
             (andThen (settleIfDeliverable env run) (return Dr_acknowledged)))
          | Send_refused msg \<Rightarrow> refused_send env run nid k owner tok attempts msg
          | Send_unclear \<Rightarrow> andThen (setDeliveryOutcome run nid Dv_unknown
                (Some (JObj [(''idempotenceKey'', JStr (send_key run nid attempts))])))
             (andThen (completeCommand (we_now env) k owner tok) (return Dr_unknown)))))"

definition executeDelivery :: "wenv \<Rightarrow> sender \<Rightarrow> string \<Rightarrow> string \<Rightarrow> delivery_result wf" where
  "executeDelivery env snd_to run nid = bind (requireLive run) (\<lambda>_.
     bind (reads (\<lambda>db. findPendingCommand db run nid Ac_deliver)) (\<lambda>pending. case pending of
       None \<Rightarrow> throw E_no_deliver_command
     | Some c \<Rightarrow> (let k = \<lparr> ck_run_id = run, ck_generation = wc_generation c, ck_node_id = nid, ck_action = Ac_deliver,
           ck_ordinal = wc_ordinal c \<rparr>; tok = short_uid env 0 32
         in bind (claimCommand (we_now env) k ''delivery'' tok) (\<lambda>claimed. case claimed of
             None \<Rightarrow> throw E_deliver_busy
           | Some _ \<Rightarrow> runDeliverySend (round_env 0 env) snd_to run nid k ''delivery'' tok))))"

section \<open>Hand-off and breaker\<close>

definition acceptShaHandoff :: "wenv \<Rightarrow> int \<Rightarrow> string \<Rightarrow> string \<Rightarrow> bool \<Rightarrow> disposition option wf" where
  "acceptShaHandoff env c stage result final = bind (reads (\<lambda>db. findRunByCard db c)) (\<lambda>raw. case raw of
     None \<Rightarrow> return None
   | Some w \<Rightarrow> if run_terminal (wr_state w) then return None
       else bind (commitKind env w ''ShaHandoff'' (JObj [(''rootCardId'', JNum (NInt c)), (''stage'', JStr (boundText stage 500)),
           (''result'', JStr (boundText result 2000)), (''final'', JBool final)]) (sha_effect (we_now env) final)) (\<lambda>d. return (Some d)))"

definition submitBreakerRefused :: "wenv \<Rightarrow> string \<Rightarrow> string \<Rightarrow> string \<Rightarrow> int \<Rightarrow> disposition wf" where
  "submitBreakerRefused env run nid resource ordinal = bind (requireLive run) (\<lambda>w.
     bind (reads (\<lambda>db. currentRevision db run)) (\<lambda>rv. let r = boundText resource 500 in
     commitKind env w ''BreakerRefused'' (JObj [(''nodeId'', JStr nid), (''resource'', JStr r)])
       (breaker_effect (we_now env) rv nid r ordinal)))"

section \<open>Inspections and lost work\<close>

fun action_name :: "command_action \<Rightarrow> string" where
  "action_name Ac_dispatch = ''dispatch''" | "action_name Ac_notify = ''notify''" | "action_name Ac_deliver = ''deliver''"
| "action_name Ac_review = ''review''" | "action_name Ac_plan = ''plan''"

definition action_named :: "string \<Rightarrow> command_action" where
  "action_named s = (if s = ''deliver'' then Ac_deliver else if s = ''review'' then Ac_review else if s = ''plan'' then Ac_plan
     else if s = ''notify'' then Ac_notify else Ac_dispatch)"

definition key_json :: "command_key \<Rightarrow> json" where
  "key_json k = JObj [(''nodeId'', JStr (ck_node_id k)), (''action'', JStr (action_name (ck_action k))),
     (''ordinal'', JNum (NInt (ck_ordinal k))), (''generation'', JNum (NInt (ck_generation k)))]"

definition int_at :: "json \<Rightarrow> string \<Rightarrow> int" where
  "int_at v k = (case jget v k of Some (JNum (NInt i)) \<Rightarrow> i | _ \<Rightarrow> 0)"

definition key_read :: "string \<Rightarrow> json \<Rightarrow> command_key" where
  "key_read run v = \<lparr> ck_run_id = run, ck_generation = int_at v ''generation'', ck_node_id = text_at v ''nodeId'',
     ck_action = action_named (text_at v ''action''), ck_ordinal = int_at v ''ordinal'' \<rparr>"

definition claim_body :: "command_key \<Rightarrow> int \<Rightarrow> json" where
  "claim_body k gen = JObj [(''key'', key_json k), (''expectedGen'', JNum (NInt gen))]"

definition claim_payload :: "command_key \<Rightarrow> int \<Rightarrow> json" where
  "claim_payload k gen = payload_of ''ClaimExpired'' (claim_body k gen)"

definition apply_claim_expired :: "wenv \<Rightarrow> runner_event \<Rightarrow> command_key \<Rightarrow> int \<Rightarrow> disposition wf" where
  "apply_claim_expired env e k gen = commitWithProjections env e (claim_expired_effect (we_now env) k gen)"

definition inspectClaim :: "wenv \<Rightarrow> string \<Rightarrow> command_key \<Rightarrow> int \<Rightarrow> disposition wf" where
  "inspectClaim env run k gen = bind (requireLive run) (\<lambda>w.
     no_conflict (apply_claim_expired env
       ((event_for env w (''inspect-'' @ run @ ''-'' @ ck_node_id k @ ''-'' @ action_name (ck_action k) @ ''-'' @
            show_int (ck_ordinal k) @ ''-'' @ show_int gen @ ''-'' @ short_uid env 0 8) (claim_payload k gen))
          \<lparr> rn_hash := we_sha env (claim_body k gen) \<rparr>) k gen))"

definition submitClaimInspection :: "wenv \<Rightarrow> string \<Rightarrow> string \<Rightarrow> int \<Rightarrow> disposition wf" where
  "submitClaimInspection env run tok gen = bind (requireRun run) (\<lambda>w.
     bind (reads (\<lambda>db. findCommandByToken db tok)) (\<lambda>cmd. case cmd of
       None \<Rightarrow> throw E_token_unknown
     | Some c \<Rightarrow> (if wc_run_id c \<noteq> run then throw E_token_unknown
         else apply_claim_expired env (event_for env w (''inspect-'' @ tok @ ''-'' @ show_int gen) (claim_payload (key_of c) gen))
           (key_of c) gen)))"

definition failModelJob :: "wenv \<Rightarrow> string \<Rightarrow> claim_authority \<Rightarrow> string \<Rightarrow> disposition wf" where
  "failModelJob env run cl reason = bind (requireLive run) (\<lambda>w.
     no_conflict (commitWithProjections env
       (event_for env w (''model-unobserved-'' @ cl_token cl)
         (payload_of ''ModelJobUnobserved'' (JObj [(''key'', key_json (cl_key cl)), (''reason'', JStr reason)])))
       (model_job_failed_effect (we_now env) cl reason)))"

datatype job_ownership = Job_active | Job_expired | Job_ownerless

datatype job_inspection = Ji_terminal | Ji_gone | Ji_settled | Ji_stale | Ji_extended | Ji_failed disposition

definition submitModelJobInspection ::
    "wenv \<Rightarrow> string \<Rightarrow> string \<Rightarrow> int \<Rightarrow> job_ownership \<Rightarrow> int option \<Rightarrow> job_inspection wf" where
  "submitModelJobInspection env run tok gen own withinMs = bind (requireRun run) (\<lambda>w.
     if run_terminal (wr_state w) then return Ji_terminal
     else bind (reads (\<lambda>db. findCommandByToken db tok)) (\<lambda>cmd. case cmd of
       None \<Rightarrow> return Ji_gone
     | Some c \<Rightarrow>
         (if wc_run_id c \<noteq> run then return Ji_gone
          else if wc_status c \<noteq> Cm_claimed \<or> wc_owner c = None then return Ji_settled
          else if wc_inspect_gen c \<noteq> gen - 1 then return Ji_stale
          else let cl = \<lparr> cl_key = key_of c, cl_owner = orelse (wc_owner c) [], cl_token = tok \<rparr> in
            case own of
              Job_active \<Rightarrow> andThen (case withinMs of
                  Some ms \<Rightarrow> noteInspectionAliveForMillis (we_now env) (key_of c) gen ms
                | None \<Rightarrow> noteInspectionAlive (we_now env) (key_of c) gen COMMAND_CLAIM_LEASE_MS) (return Ji_extended)
            | Job_expired \<Rightarrow> bind (failModelJob env run cl ''model call deadline exceeded; external termination unconfirmed'')
                (\<lambda>d. return (Ji_failed d))
            | Job_ownerless \<Rightarrow> bind (failModelJob env run cl ''model job has no current execution ownership'')
                (\<lambda>d. return (Ji_failed d)))))"

definition interruptRun :: "wenv \<Rightarrow> string \<Rightarrow> bool wf" where
  "interruptRun env run = bind (reads (\<lambda>db. getRun db run)) (\<lambda>raw. case raw of
     None \<Rightarrow> return False
   | Some w \<Rightarrow> (if run_terminal (wr_state w) then return False
       else bind (no_conflict (commitWithProjections env
           (event_for env w (''restart-interrupt-'' @ run)
             (payload_of ''StartupInterrupted'' (JObj [(''reason'', JStr INTERRUPTED_BY_RESTART)])))
           (interrupted_effect (we_now env)))) (\<lambda>d. return (d = Committed))))"

section \<open>Stored outcomes and recovery\<close>

datatype stored_outcome = Stored_success json | Stored_failure string bool

definition outcome_payload :: "string \<Rightarrow> string \<Rightarrow> stored_outcome \<Rightarrow> json" where
  "outcome_payload nid a o1 = (case o1 of
     Stored_success env \<Rightarrow> payload_of ''AttemptSucceeded''
       (JObj [(''nodeId'', JStr nid), (''attemptId'', JStr a), (''artifactsJson'', env)])
   | Stored_failure cause safe \<Rightarrow> payload_of ''AttemptFailed''
       (JObj [(''nodeId'', JStr nid), (''attemptId'', JStr a), (''cause'', JStr cause), (''retrySafe'', JBool safe)]))"

definition apply_outcome :: "wenv \<Rightarrow> nat \<Rightarrow> string \<Rightarrow> string \<Rightarrow> stored_outcome \<Rightarrow> runner_event \<Rightarrow> disposition wf" where
  "apply_outcome env rv nid a o1 e = commitWithProjections env e (case o1 of
     Stored_success out \<Rightarrow> attempt_succeeded_effect (we_now env) rv nid a out
   | Stored_failure cause safe \<Rightarrow> attempt_failed_effect (we_now env) rv nid a cause safe)"

definition commitStoredAttemptOutcome ::
    "wenv \<Rightarrow> string \<Rightarrow> nat \<Rightarrow> string \<Rightarrow> string \<Rightarrow> stored_outcome \<Rightarrow> runner_event \<Rightarrow> disposition wf" where
  "commitStoredAttemptOutcome env run rv nid a o1 e = bind (requireRun run) (\<lambda>_. apply_outcome env rv nid a o1 e)"

definition outcome_event_id :: "string \<Rightarrow> attempt_lifecycle \<Rightarrow> string" where
  "outcome_event_id a l = ''attempt-'' @ a @ ''-'' @ lifecycle_name l"

definition stored_verdict :: "wenv \<Rightarrow> swarm_db \<Rightarrow> int \<Rightarrow> string \<Rightarrow> stored_outcome" where
  "stored_verdict env db c a = (case readWorkerAcceptance db c a of
     Accepted_result out \<Rightarrow> Stored_success out | Rejected_result cause \<Rightarrow> Stored_failure cause False)"

definition recover_completion :: "wenv \<Rightarrow> node_row \<times> int \<times> attempt \<Rightarrow> bool wf" where
  "recover_completion env row = (case row of (n, c, a) \<Rightarrow> bind (reads (\<lambda>db. getRun db (wn_run_id n))) (\<lambda>raw. case raw of
     None \<Rightarrow> return False
   | Some w \<Rightarrow>
       (if run_terminal (wr_state w) then return False
        else bind (reads (\<lambda>db. if at_lifecycle a = L_completed then stored_verdict env db c (at_id a)
            else Stored_failure (lifecycle_name (at_lifecycle a)) False)) (\<lambda>o1.
          attempt_call (bind (commitStoredAttemptOutcome env (wn_run_id n) (wn_revision n) (wn_node_id n) (at_id a) o1
              (event_for env w (outcome_event_id (at_id a) (at_lifecycle a)) (outcome_payload (wn_node_id n) (at_id a) o1)))
              (\<lambda>d. return (d = Committed)))
            (\<lambda>_. return False)))))"

definition recoverUnconsumedCompletions :: "wenv \<Rightarrow> nat \<Rightarrow> nat wf" where
  "recoverUnconsumedCompletions env limit = bind (reads (\<lambda>db. findUnconsumedCompletions db limit))
     (count_calls (\<lambda>_. recover_completion env))"

text \<open>Redrive of a received event by the kind its payload names, with its stored identity.\<close>

definition redrive_apply :: "wenv \<Rightarrow> workflow_run \<Rightarrow> runner_event \<Rightarrow> nat \<Rightarrow> bool wf" where
  "redrive_apply env w e rv = (let b = member_at (rn_payload e) ''body''; kind = text_at (rn_payload e) ''kind''; ok = (\<lambda>_. return True) in
     if kind = ''AttemptSucceeded'' then bind (apply_outcome env rv (text_at b ''nodeId'') (text_at b ''attemptId'')
         (Stored_success (member_at b ''artifactsJson'')) e) ok
     else if kind = ''AttemptFailed'' then bind (apply_outcome env rv (text_at b ''nodeId'') (text_at b ''attemptId'')
         (Stored_failure (text_at b ''cause'') (flagged ''retrySafe'' b)) e) ok
     else if kind = ''ClaimExpired'' then bind (apply_claim_expired env e (key_read (wr_run_id w) (member_at b ''key'')) (int_at b ''expectedGen'')) ok
     else if kind = ''ShaHandoff'' then bind (commitWithProjections env e (sha_effect (we_now env) (flagged ''final'' b))) ok
     else return False)"

definition consumeIngressNoop :: "int \<Rightarrow> string \<Rightarrow> bool wf" where
  "consumeIngressNoop now i = one_row (consume_event now i In_noop)"

definition redrive :: "wenv \<Rightarrow> ingress_row \<Rightarrow> bool wf" where
  "redrive env x = bind (reads (\<lambda>db. (getRun db (wi_run_id x), currentRevision db (wi_run_id x)))) (\<lambda>(raw, rv). case raw of
     None \<Rightarrow> return False
   | Some w \<Rightarrow>
       (if run_terminal (wr_state w) then bind (consumeIngressNoop (we_now env) (wi_event_id x)) (\<lambda>_. return True)
        else attempt_call (redrive_apply env w \<lparr> rn_event_id = wi_event_id x, rn_run_id = wi_run_id x, rn_hash = wi_hash x,
            rn_payload = wi_payload x, rn_generation = wr_generation w, rn_state_version = wr_state_version w \<rparr> rv)
          (\<lambda>_. return False)))"

definition reproject :: "wenv \<Rightarrow> string \<Rightarrow> bool wf" where
  "reproject env run = attempt_call (projectTerminalProjections env run) (\<lambda>_. return False)"

record recovery =
  rc_redriven :: nat
  rc_pending :: nat
  rc_recovered :: nat
  rc_projected :: nat

definition startupRecovery :: "wenv \<Rightarrow> (string \<Rightarrow> unit wf) option \<Rightarrow> recovery wf" where
  "startupRecovery env reconcile =
     bind (bind (reads (\<lambda>db. listUnappliedIngress db 100)) (count_calls (\<lambda>_. redrive env))) (\<lambda>redriven.
     andThen (case reconcile of None \<Rightarrow> return ()
       | Some f \<Rightarrow> bind (reads (\<lambda>db. listAuditRoots db 0 100)) (each (\<lambda>w. f (wr_run_id w))))
    (bind (bind (reads (\<lambda>db. findTerminalUnprojected db 100)) (count_calls (\<lambda>_. reproject env))) (\<lambda>projected.
     bind (reads (\<lambda>db. length (filter (\<lambda>c. wc_status c = Cm_pending) (db_commands db)))) (\<lambda>pending.
     bind (recoverUnconsumedCompletions env 100) (\<lambda>recovered.
     return \<lparr> rc_redriven = redriven, rc_pending = pending, rc_recovered = recovered, rc_projected = projected \<rparr>)))))"

section \<open>Audit\<close>

record audit =
  au_next_cursor :: int
  au_checked :: nat
  au_lawful :: "string list"
  au_ownerless :: "string list"
  au_due :: "(string \<times> string option \<times> int) list"

definition lawful_probe :: "run_probe \<Rightarrow> bool" where
  "lawful_probe p \<longleftrightarrow> rp_pending p \<or> rp_fresh_claim p \<or> rp_live_attempt p \<or> rp_pending_input p \<or> rp_open_op p \<or>
     rp_pending_delivery p \<or> rp_due_claim p"

definition awaiting_plan :: "workflow_run \<Rightarrow> bool" where
  "awaiting_plan w \<longleftrightarrow> wr_state w = W_admitted \<or> wr_state w = W_planning"

definition auditTick :: "int \<Rightarrow> int \<Rightarrow> swarm_db \<Rightarrow> audit" where
  "auditTick now cursor db =
     (let first = listAuditRoots db cursor 100; wrap = first = [] \<and> cursor > 0;
          roots = (if wrap then listAuditRoots db 0 100 else first);
          probe = (\<lambda>w. probeRun now db (wr_run_id w) (wr_root_card_id w));
          lawful = (\<lambda>w. awaiting_plan w \<or> lawful_probe (probe w))
      in \<lparr> au_next_cursor = fold max (map wr_root_card_id roots) (if wrap then 0 else cursor), au_checked = length roots,
           au_lawful = map wr_run_id (filter lawful roots), au_ownerless = map wr_run_id (filter (\<lambda>w. \<not> lawful w) roots),
           au_due = concat (map (\<lambda>w. if rp_due_claim (probe w)
             then map (\<lambda>(t, g). (wr_run_id w, t, g)) (dueInspections now db (wr_run_id w) 10) else []) roots) \<rparr>)"

end
