(* ===== verification/WorkflowDrain.thy ===== *)
theory WorkflowDrain
  imports WorkflowRunner RetryDecision
begin

text \<open>
  The loops that drive the runner: the drain of pending commands, the startup barrier
  (\<open>orc-workflow-startup.ts\<close>) and the successor hook that worker settlement calls
  (\<open>orc-workflow-settlement.ts\<close>). Executors, reviewers and planners are ports: calls that may change the
  database and may throw; \<open>E_capacity_busy\<close> is the port's \<open>CapacityBusy\<close>.
\<close>

section \<open>Review briefs\<close>

record brief_node =
  bn_id :: string
  bn_kind :: node_kind
  bn_status :: node_status
  bn_outcome :: "json option"
  bn_attempt_id :: "string option"

record review_brief =
  br_run_id :: string
  br_revision :: nat
  br_node_id :: string
  br_title :: string
  br_goal :: "string option"
  br_required :: json
  br_criteria :: "(string \<times> json) list"
  br_nodes :: "brief_node list"
  br_failures :: "(string \<times> json option) list"
  br_evidence :: "string list"
  br_budgets :: "(budget_scope \<times> int \<times> int) list"
  br_texts :: "(string \<times> string) list"

definition brief_node_of :: "node_row \<Rightarrow> brief_node" where
  "brief_node_of n = \<lparr> bn_id = wn_node_id n, bn_kind = wn_kind n, bn_status = wn_status n, bn_outcome = wn_outcome n,
     bn_attempt_id = wn_attempt_id n \<rparr>"

definition readBudgets :: "swarm_db \<Rightarrow> string \<Rightarrow> (budget_scope \<times> int \<times> int) list" where
  "readBudgets db run = map (\<lambda>b. (wb_scope b, wb_allowed b, wb_consumed b)) (filter (\<lambda>b. wb_run_id b = run) (db_budgets db))"

text \<open>The text of a node whose envelope shows an existing report or logical artifact; nothing otherwise.\<close>

definition observed_artifact :: "json \<Rightarrow> bool" where
  "observed_artifact a \<longleftrightarrow> (text_at a ''kind'' = ''report'' \<or> text_at a ''kind'' = ''logical'') \<and> flagged ''exists'' a"

definition deliverable_text :: "swarm_db \<Rightarrow> node_row \<Rightarrow> string option" where
  "deliverable_text db n = (case wn_attempt_id n of None \<Rightarrow> None | Some a \<Rightarrow> (case find_result db a of
     None \<Rightarrow> None
   | Some r \<Rightarrow>
       (let t = text_at (member_at (re_envelope r) ''worker_report'') ''summary''
        in if list_ex observed_artifact (items_at (re_envelope r) ''artifacts'') \<and> \<not> blank (Some t) then Some (take 2000 t) else None)))"

definition deliverableTextByNode :: "swarm_db \<Rightarrow> node_row list \<Rightarrow> (string \<times> string) list" where
  "deliverableTextByNode db ns =
     concat (map (\<lambda>n. case deliverable_text db n of None \<Rightarrow> [] | Some t \<Rightarrow> [(wn_node_id n, t)]) ns)"

definition assembleBrief :: "swarm_db \<Rightarrow> string \<Rightarrow> nat \<Rightarrow> string \<Rightarrow> review_brief option" where
  "assembleBrief db run rv nid = (case (getRun db run, getPlan db run rv) of
     (Some w, Some p) \<Rightarrow>
       (let ns = listNodes db run rv; root = find_card db (wr_root_card_id w) in Some
         \<lparr> br_run_id = run, br_revision = rv, br_node_id = nid,
           br_title = (case root of None \<Rightarrow> ''run '' @ run | Some k \<Rightarrow> k_title k),
           br_goal = (case root of None \<Rightarrow> None | Some k \<Rightarrow> k_goal k),
           br_required = orelse (jget p ''requiredOutputs'') (JArr []),
           br_criteria = map (\<lambda>n. (label_text n, orelse (jget n ''acceptance'') (JArr []))) (plan_nodes p),
           br_nodes = map brief_node_of ns,
           br_failures = map (\<lambda>n. (wn_node_id n, wn_outcome n)) (filter (\<lambda>n. wn_status n = Nd_failed) ns),
           br_evidence = uniq (concat (map (\<lambda>n. case wn_attempt_id n of None \<Rightarrow> [] | Some a \<Rightarrow> [a]) ns)),
           br_budgets = readBudgets db run, br_texts = deliverableTextByNode db ns \<rparr>)
   | _ \<Rightarrow> None)"

section \<open>Ports and policy\<close>

record planning_input =
  pl_revision :: "nat option"
  pl_purpose :: json
  pl_defects :: json
  pl_required :: json
  pl_op_id :: string

record model_ports =
  mp_reviewer :: string
  mp_review :: "command_row \<Rightarrow> review_brief \<Rightarrow> claim_authority \<Rightarrow> unit wf"
  mp_planner :: string
  mp_plan :: "command_row \<Rightarrow> planning_input \<Rightarrow> claim_authority \<Rightarrow> unit wf"
  mp_sender :: "sender option"

record ports =
  pt_executor :: string
  pt_dispatch :: "command_row \<Rightarrow> unit wf"
  pt_jobs :: "model_ports option"

type_synonym refuses = "string \<Rightarrow> string option \<Rightarrow> bool"

definition requiredOutputsOf :: "swarm_db \<Rightarrow> string \<Rightarrow> json list" where
  "requiredOutputsOf db run = (case getPlan db run (currentRevision db run) of None \<Rightarrow> []
     | Some p \<Rightarrow> orelse (iterate (jget p ''requiredOutputs'')) [])"

definition plannerRequiredOutputs :: "wenv \<Rightarrow> swarm_db \<Rightarrow> string \<Rightarrow> json list" where
  "plannerRequiredOutputs env db run = (let base = requiredOutputsOf db run in case we_report env db run of
     Report_ref ref \<Rightarrow> if ref \<noteq> [] \<and> JStr ref \<notin> set base then JStr ref # base else base
   | _ \<Rightarrow> base)"

definition payload_revision :: "command_row \<Rightarrow> nat option" where
  "payload_revision c = (case jget (wc_payload c) ''revision'' of Some (JNum (NInt r)) \<Rightarrow> Some (nat r) | _ \<Rightarrow> None)"

definition model_action :: "command_action \<Rightarrow> bool" where
  "model_action a \<longleftrightarrow> a = Ac_review \<or> a = Ac_plan"

definition route_owner :: "ports \<Rightarrow> command_row \<Rightarrow> string" where
  "route_owner pt c = (case pt_jobs pt of
     Some mp \<Rightarrow> if wc_action c = Ac_review then mp_reviewer mp else if wc_action c = Ac_plan then mp_planner mp else pt_executor pt
   | None \<Rightarrow> pt_executor pt)"

definition start_review :: "model_ports \<Rightarrow> command_row \<Rightarrow> claim_authority \<Rightarrow> unit wf" where
  "start_review mp c cl = (let run = wc_run_id c; rv = orelse (payload_revision c) 0 in
     andThen (upsertOperation (opIdFor run rv (wc_node_id c)) run Op_review (payload_revision c) Op_running None)
       (bind (reads (\<lambda>db. assembleBrief db run (currentRevision db run) (wc_node_id c))) (\<lambda>b. case b of
          None \<Rightarrow> throw E_plan_missing | Some brief \<Rightarrow> mp_review mp c brief cl)))"

definition start_planning :: "wenv \<Rightarrow> model_ports \<Rightarrow> command_row \<Rightarrow> claim_authority \<Rightarrow> unit wf" where
  "start_planning env mp c cl = (let run = wc_run_id c; opId = orelse (op_id_in (wc_payload c))
        (opIdFor run (orelse (payload_revision c) 0) (wc_node_id c)) in
     andThen (upsertOperation opId run Op_planning (payload_revision c) Op_running None)
       (bind (reads (\<lambda>db. plannerRequiredOutputs env db run)) (\<lambda>required. mp_plan mp c
          \<lparr> pl_revision = payload_revision c, pl_purpose = member_at (wc_payload c) ''purpose'',
            pl_defects = orelse (jget (wc_payload c) ''defects'') (JArr []), pl_required = JArr required, pl_op_id = opId \<rparr> cl)))"

definition start_command :: "wenv \<Rightarrow> ports \<Rightarrow> command_row \<Rightarrow> claim_authority \<Rightarrow> unit wf" where
  "start_command env pt c cl = (case pt_jobs pt of
     None \<Rightarrow> pt_dispatch pt c
   | Some mp \<Rightarrow>
       (case wc_action c of
          Ac_review \<Rightarrow> start_review mp c cl
        | Ac_plan \<Rightarrow> start_planning env mp c cl
        | Ac_deliver \<Rightarrow> (case mp_sender mp of
              None \<Rightarrow> pt_dispatch pt c
            | Some snd_to \<Rightarrow> bind (runDeliverySend (round_env 0 env) snd_to (wc_run_id c) (wc_node_id c) (key_of c) (cl_owner cl) (cl_token cl))
                (\<lambda>_. return ()))
        | _ \<Rightarrow> pt_dispatch pt c))"

section \<open>Drain\<close>

datatype drain_step = Dispatched | Passed | Port_failed wf_error

definition refuse_command :: "wenv \<Rightarrow> command_row \<Rightarrow> drain_step wf" where
  "refuse_command env c = attempt_call
     (bind (submitBreakerRefused env (wc_run_id c) (wc_node_id c)
        (case jget (wc_payload c) ''resource'' of Some (JStr r) \<Rightarrow> r | _ \<Rightarrow> ''default'') (wc_ordinal c)) (\<lambda>_. return Passed))
     (\<lambda>e. reads (\<lambda>db. case getRun db (wc_run_id c) of
        None \<Rightarrow> Passed | Some w \<Rightarrow> if run_terminal (wr_state w) then Passed else Port_failed e))"

text \<open>
  What happens to the node of a claimed command: a dispatch of a node that has ended is completed as
  stale; a queued node starts running. The answer says whether to go on.
\<close>

definition mark_started :: "wenv \<Rightarrow> command_row \<Rightarrow> claim_authority \<Rightarrow> bool wf" where
  "mark_started env c cl =
     (if wc_action c = Ac_notify \<or> wc_action c = Ac_deliver then return True
      else if wc_action c = Ac_dispatch then
        bind (reads (\<lambda>db. currentRevision db (wc_run_id c))) (\<lambda>rv.
        bind (reads (still_open (wc_run_id c) rv (wc_node_id c))) (\<lambda>open.
        if open then bind (markNodeRunning (wc_run_id c) rv (wc_node_id c)) (\<lambda>_. return True)
        else andThen (completeCommand (we_now env) (cl_key cl) (cl_owner cl) (cl_token cl)) (return False)))
      else case payload_revision c of
        None \<Rightarrow> return True
      | Some rv \<Rightarrow> bind (markNodeRunning (wc_run_id c) rv (wc_node_id c)) (\<lambda>_. return True))"

definition drain_command :: "wenv \<Rightarrow> ports \<Rightarrow> refuses option \<Rightarrow> command_row \<Rightarrow> drain_step wf" where
  "drain_command env pt policy c =
     (if wc_action c = Ac_dispatch \<and> (case policy of None \<Rightarrow> False
          | Some refused \<Rightarrow> refused (wc_run_id c) (case jget (wc_payload c) ''resource'' of Some (JStr r) \<Rightarrow> Some r | _ \<Rightarrow> None))
      then refuse_command env c
      else (let owner = route_owner pt c; tok = short_uid env 1 32;
                cl = \<lparr> cl_key = key_of c, cl_owner = owner, cl_token = tok \<rparr>
        in bind (claimCommand (we_now env) (key_of c) owner tok) (\<lambda>claimed. if claimed = None then return Passed
           else bind (mark_started env c cl) (\<lambda>go. if \<not> go then return Passed
           else attempt_call (andThen (start_command env pt c cl) (return Dispatched))
             (\<lambda>e. if e = E_capacity_busy then bind (releaseClaim (key_of c) owner tok) (\<lambda>_. return Passed)
                else return (Port_failed e))))))"

fun first_failure :: "drain_step list \<Rightarrow> wf_error option" where
  "first_failure [] = None"
| "first_failure (Port_failed e # ss) = Some e"
| "first_failure (_ # ss) = first_failure ss"

definition drain :: "wenv \<Rightarrow> nat \<Rightarrow> ports \<Rightarrow> refuses option \<Rightarrow> nat wf" where
  "drain env limit pt policy = bind (reads (\<lambda>db. drainPendingCommands db limit)) (\<lambda>cs.
     bind (collect_calls (\<lambda>i. drain_command (round_env i env) pt policy) 0 cs) (\<lambda>steps.
     let n = length (filter (\<lambda>s. s = Dispatched) steps) in
     case first_failure steps of
       Some e \<Rightarrow> if n = 0 then throw e else return n
     | None \<Rightarrow> return n))"

section \<open>The startup barrier\<close>

text \<open>\<open>rowid\<close> order is table order, so the watermark counts rows.\<close>

definition readWorkflowRowWatermark :: "swarm_db \<Rightarrow> nat" where
  "readWorkflowRowWatermark db = length (db_workflow_runs db)"

definition interrupted_set :: "nat \<Rightarrow> swarm_db \<Rightarrow> string list" where
  "interrupted_set wm db =
     take 100 (map wr_run_id (filter (\<lambda>w. \<not> run_terminal (wr_state w)) (take wm (db_workflow_runs db))))"

definition interrupt_one :: "wenv \<Rightarrow> string \<Rightarrow> bool wf" where
  "interrupt_one env run = bind (interruptRun env run) (\<lambda>done_now. if done_now then return True
     else bind (reads (\<lambda>db. getRun db run)) (\<lambda>live. case live of
       Some w \<Rightarrow> if run_terminal (wr_state w) then return False else throw E_no_progress
     | None \<Rightarrow> throw E_no_progress))"

text \<open>The passes are bounded by fuel; \<open>None\<close> is running out of it, which never happens (theory \<open>WorkflowSafety\<close>).\<close>

fun barrier_passes :: "nat \<Rightarrow> wenv \<Rightarrow> nat \<Rightarrow> nat \<Rightarrow> nat option wf" where
  "barrier_passes 0 env wm tally = return None"
| "barrier_passes (Suc fuel) env wm tally = bind (reads (interrupted_set wm)) (\<lambda>runs.
     if runs = [] then return (Some tally)
     else bind (count_calls (\<lambda>i. interrupt_one (round_env i env)) runs) (\<lambda>progressed.
       if progressed = 0 then throw E_no_progress else barrier_passes fuel env wm (tally + progressed)))"

definition failInterruptedWorkflows :: "wenv \<Rightarrow> nat \<Rightarrow> nat option wf" where
  "failInterruptedWorkflows env wm = barrier_passes (Suc wm) env wm 0"

section \<open>The successor hook of settlement\<close>

definition settled_input :: "settled_attempt \<Rightarrow> classify_input" where
  "settled_input sa = \<lparr> ci_attempt_id = sa_attempt_id sa, ci_envelope = None, ci_lease = None,
     ci_lifecycle = lifecycle_name (sa_lifecycle sa), ci_lifecycle_reason = None, ci_cancel_reason = None, ci_pending_input = None \<rparr>"

text \<open>\<open>stored\<close> reads the retryability of a recorded classification; settlement passes no envelope.\<close>

definition classifyRetrySafe :: "(string \<Rightarrow> string option) \<Rightarrow> settled_attempt \<Rightarrow> bool" where
  "classifyRetrySafe stored sa = (case stored (sa_attempt_id sa) of
     Some r \<Rightarrow> r = ''automatic''
   | None \<Rightarrow> vd_retry (judge (settled_input sa)) = Automatic)"

definition hook_outcome :: "wenv \<Rightarrow> (string \<Rightarrow> string option) \<Rightarrow> settled_attempt \<Rightarrow> swarm_db \<Rightarrow> stored_outcome" where
  "hook_outcome env stored sa db = (if sa_lifecycle sa = L_completed then stored_verdict env db (sa_card_id sa) (sa_attempt_id sa)
     else Stored_failure (lifecycle_name (sa_lifecycle sa) @ '': '' @ sa_reason sa) (classifyRetrySafe stored sa))"

definition supervised_outcome :: "wenv \<Rightarrow> (string \<Rightarrow> string option) \<Rightarrow> settled_attempt \<Rightarrow> unit wf" where
  "supervised_outcome env stored sa =
     (if prefix ''pi_input_requested'' (sa_reason sa) then return ()
      else bind (reads (\<lambda>db. findRunByCard db (sa_root_card_id sa))) (\<lambda>raw. case raw of
        None \<Rightarrow> return ()
      | Some w \<Rightarrow>
          (if run_terminal (wr_state w) then return ()
           else bind (reads (\<lambda>db. findNodeByCard db (wr_run_id w) (sa_card_id sa))) (\<lambda>node. case node of
             None \<Rightarrow> return ()
           | Some n \<Rightarrow> bind (reads (hook_outcome env stored sa)) (\<lambda>o1.
               bind (commitStoredAttemptOutcome env (wr_run_id w) (wn_revision n) (wn_node_id n) (sa_attempt_id sa) o1
                   (event_for env w (outcome_event_id (sa_attempt_id sa) (sa_lifecycle sa))
                      (outcome_payload (wn_node_id n) (sa_attempt_id sa) o1)))
                 (\<lambda>_. return ()))))))"

text \<open>Never throws: what the runner had committed before an error stays.\<close>

definition commitSupervisedOutcome :: "wenv \<Rightarrow> (string \<Rightarrow> string option) \<Rightarrow> joint_hook" where
  "commitSupervisedOutcome env stored sa db =
     Some (snd (attempt_call (supervised_outcome env stored sa) (\<lambda>_. return ()) db))"

end
