(* ===== verification/WorkflowSafety.thy ===== *)
theory WorkflowSafety
  imports WorkflowCommit WorkflowDrain
begin

text \<open>
  What holds across the operations of the workflow runner. The locale \<open>runner_calls\<close> extends the
  interface of the store's writers by the commit of a live run and the bookkeeping outside commits,
  and lifts a preorder to every operation. Its interpretations here: a terminal run never changes, and worker
  attempts and token counts are only touched the way settlement allows; a third one, in \<open>WorkflowWrites\<close>, says
  that every operation writes the workflow tables through the store.
\<close>

section \<open>What the projections leave alone\<close>

text \<open>The cards and supervision rows may change; the workflow tables, the attempts and what a card was charged do not.\<close>

definition beside :: "swarm_db \<Rightarrow> swarm_db \<Rightarrow> bool" where
  "beside s t \<longleftrightarrow> db_workflow_runs t = db_workflow_runs s \<and> db_plans t = db_plans s \<and> db_nodes t = db_nodes s \<and>
     db_deps t = db_deps s \<and> db_operations t = db_operations s \<and> db_budgets t = db_budgets s \<and>
     db_commands t = db_commands s \<and> db_ingress t = db_ingress s \<and> db_wdeliveries t = db_wdeliveries s \<and>
     db_inputs t = db_inputs s \<and> db_attempts t = db_attempts s \<and> (\<forall>x. tokens_of t x = tokens_of s x)"

interpretation aside: preserved beside
  by unfold_locales (auto simp: beside_def)

lemma beside_cards:
  assumes "\<And>r. k_id (f r) = k_id r" "\<And>r. k_tokens_used (f r) = k_tokens_used r"
  shows "beside s (update_cards p f s)"
  using assms find_card_update [of f p s, OF assms(1)]
  by (auto simp: beside_def tokens_of_def update_cards_def split: option.split)

lemma beside_supervision: "beside s (s\<lparr> db_supervision := v \<rparr>)"
  by (simp add: beside_def tokens_of_def find_card_def)

lemma beside_commit: "beside s (commit_applied redact rq st s)"
  by (simp add: beside_def tokens_of_def find_card_def commit_applied_def append_journal_def queuePeerCallbackInTx_def
      Let_def split: option.split)

lemma beside_emit: "beside s (emit_transition rq s)"
  by (simp add: beside_def tokens_of_def find_card_def emit_transition_def)

lemma beside_transition: "beside s (snd (kanbanTransition redact now rq s))"
proof -
  have st: "beside s (update_cards p (set_status now rq) s)" for p by (rule beside_cards) simp_all
  have "beside s (snd (transition_tx redact now rq s))"
    using aside.trans [OF st beside_commit] st aside.refl [of s]
    by (auto simp: transition_tx_def Let_def split: option.split)
  then show ?thesis using aside.refl [of s] aside.trans [OF _ beside_emit]
    by (auto simp: kanbanTransition_def case_prod_unfold Let_def split: option.split transition_outcome.split)
qed

lemma beside_projections:
  "aside.moves (writes (ensureAwaitingContract root))" "aside.moves (bindWorkspace root cwd)"
  "aside.moves (stateTransition root fs pst extra au)" "aside.moves (project_card env w)"
  "aside.moves (writes (kanbanSetProjectDeliveryReady now root g sched))"
proof -
  show "aside.moves (writes (ensureAwaitingContract root))"
    by (rule aside.moves_writes) (auto simp: ensureAwaitingContract_def aside.refl beside_supervision split: option.split)
  show "aside.moves (bindWorkspace root cwd)"
    by (rule aside.movesI) (simp add: bindWorkspace_def Let_def beside_supervision)
  show "aside.moves (stateTransition root fs pst extra au)"
    by (rule aside.movesI) (simp add: stateTransition_def Let_def beside_supervision aside.refl)
  show "aside.moves (project_card env w)"
    unfolding project_card_def
    by (rule aside.moves_writes) (auto simp: aside.refl beside_transition split: option.split)
  have n: "beside s (t\<lparr> db_nerve := v \<rparr>)" if "beside s t" for s t v
    using that by (simp add: beside_def tokens_of_def find_card_def)
  have "beside s (update_cards p (\<lambda>r. r\<lparr> k_delivery_ready := True, k_updated_at := x \<rparr>) s)" for s p x
    by (rule beside_cards) simp_all
  then show "aside.moves (writes (kanbanSetProjectDeliveryReady now root g sched))"
    by (intro aside.moves_writes) (simp add: kanbanSetProjectDeliveryReady_def Let_def n)
qed

section \<open>Every operation, once\<close>

definition live_row :: "swarm_db \<Rightarrow> workflow_run \<Rightarrow> bool" where
  "live_row s w \<longleftrightarrow> w \<in> set (db_workflow_runs s) \<and> \<not> run_terminal (wr_state w)"

lemma live_rows:
  "getRun s run = Some w \<Longrightarrow> \<not> run_terminal (wr_state w) \<Longrightarrow> live_row s w"
  "findRunByCard s c = Some w \<Longrightarrow> live_row s w"
  by (auto simp: live_row_def getRun_def findRunByCard_def dest: sql_first_SomeD sql_last_by_SomeD)

locale runner_calls = store_writers rel for rel :: "swarm_db \<Rightarrow> swarm_db \<Rightarrow> bool" +
  assumes commit: "live_row s w \<Longrightarrow> rn_run_id e = wr_run_id w \<Longrightarrow>
      (\<And>v. preserved.moves quiet (applier v)) \<Longrightarrow> (\<And>v. moves (applier v)) \<Longrightarrow>
      rel s (snd (commitTransition now e applier s))"
    and claimed: "moves (claimCommand now k owner tok)"
    and started: "moves (markNodeRunning run rv nid)"
    and extended: "moves (noteInspectionAliveForMillis now k g ms)"
    and bumped: "moves (bumpDeliveryAttempts run nid)"
    and answered: "moves (answerInputRequest iid response)"
    and admission: "moves (admitRun sha now ri)"
    and consumed: "moves (consumeIngressNoop now iid)"
    and aside: "beside s t \<Longrightarrow> rel s t"
begin

lemma moves_beside: "aside.moves m \<Longrightarrow> moves m"
  by (simp add: aside.moves_def moves_def aside)

lemmas bookkeeping = writers claimed started extended bumped answered admission consumed
  beside_projections [THEN moves_beside]

definition peer_ok :: "wenv \<Rightarrow> bool" where
  "peer_ok env \<longleftrightarrow> (\<forall>w sv. moves (we_peer env w sv))"

lemma peer_round [simp]: "peer_ok (round_env i env) = peer_ok env"
  by (simp add: peer_ok_def round_env_def)

text \<open>A call that respects the preorder when it starts where the given run is live.\<close>

definition live_moves :: "workflow_run \<Rightarrow> 'a wf \<Rightarrow> bool" where
  "live_moves w m \<longleftrightarrow> (\<forall>s. live_row s w \<longrightarrow> rel s (snd (m s)))"

lemma live_any: "moves m \<Longrightarrow> live_moves w m"
  by (simp add: live_moves_def moves_def)

lemma live_reads: "(\<And>x. live_moves w (f x)) \<Longrightarrow> live_moves w (bind (reads g) f)"
  by (simp add: live_moves_def call_simps)

lemma live_require: "live_moves w m \<Longrightarrow> live_moves w (andThen (require e p) m)"
  by (simp add: live_moves_def call_simps refl)

lemma own_claim_state: "own_claim cl s = (r, t) \<Longrightarrow> t = s"
  by (auto simp: own_claim_def requireOwnedClaim_def call_simps split: option.splits if_splits)

lemma live_own: "live_moves w m \<Longrightarrow> live_moves w (andThen (own_claim cl) m)"
  by (auto simp: live_moves_def call_simps refl dest: own_claim_state split: prod.split sum.split)

lemma live_if: "live_moves w m \<Longrightarrow> live_moves w n \<Longrightarrow> live_moves w (if b then m else n)"
  by simp

lemma live_option: "live_moves w m \<Longrightarrow> (\<And>a. live_moves w (f a)) \<Longrightarrow> live_moves w (case v of None \<Rightarrow> m | Some a \<Rightarrow> f a)"
  by (cases v) simp_all

lemma live_list: "live_moves w m \<Longrightarrow> (\<And>x xs. live_moves w (f x xs)) \<Longrightarrow> live_moves w (case v of [] \<Rightarrow> m | x # xs \<Rightarrow> f x xs)"
  by (cases v) simp_all

lemma live_prod: "(\<And>a b. live_moves w (f a b)) \<Longrightarrow> live_moves w (case p of (a, b) \<Rightarrow> f a b)"
  by (cases p) simp

lemma live_pure: "live_moves w (throw x)" "live_moves w (return a)" "live_moves w (reads h)"
  by (simp_all add: live_any)

lemma live_bind:
  assumes m: "live_moves w m" and f: "\<And>x. moves (f x)"
  shows "live_moves w (bind m f)"
  unfolding live_moves_def
proof (intro allI impI)
  fix s assume l: "live_row s w"
  obtain r t where r: "m s = (r, t)" by fastforce
  with m l have "rel s t" by (metis live_moves_def snd_conv)
  with r f show "rel s (snd (bind m f s))" by (cases r) (auto simp: bind_def moves_def intro: trans)
qed

lemma getRun_id: "getRun s run = Some w \<Longrightarrow> wr_run_id w = run"
  unfolding getRun_def by (blast dest: sql_first_SomeD)

lemma moves_list: "moves m \<Longrightarrow> (\<And>x xs. moves (f x xs)) \<Longrightarrow> moves (case v of [] \<Rightarrow> m | x # xs \<Rightarrow> f x xs)"
  by (cases v) simp_all

text \<open>How a call comes by a live run: by its id, through the guard of the operation, or by its card.\<close>

lemma moves_requireLive:
  assumes "\<And>w. wr_run_id w = run \<Longrightarrow> live_moves w (f w)"
  shows "moves (bind (requireLive run) f)"
  using assms getRun_id live_rows(1)
  by (intro movesI) (fastforce simp: requireLive_def requireRun_def call_simps refl live_moves_def split: option.split)

lemma moves_unless_terminal:
  assumes "\<And>w. wr_run_id w = run \<Longrightarrow> live_moves w (n w)" "\<And>w. moves (m w)"
  shows "moves (bind (requireRun run) (\<lambda>w. if run_terminal (wr_state w) then m w else n w))"
  using assms getRun_id live_rows(1)
  by (intro movesI) (fastforce simp: requireRun_def call_simps refl live_moves_def moves_def split: option.split)

lemma moves_getRun:
  assumes "\<And>w. wr_run_id w = run \<Longrightarrow> live_moves w (n w)" "\<And>w. moves (m w)" "moves k"
  shows "moves (bind (reads (\<lambda>db. getRun db run)) (\<lambda>raw. case raw of None \<Rightarrow> k
    | Some w \<Rightarrow> if run_terminal (wr_state w) then m w else n w))"
  using assms getRun_id live_rows(1)
  by (intro movesI) (fastforce simp: call_simps refl live_moves_def moves_def split: option.split)

lemma moves_getRun_with:
  assumes "\<And>w x. wr_run_id w = run \<Longrightarrow> live_moves w (n w x)" "\<And>w x. moves (m w x)" "\<And>x. moves (k x)"
  shows "moves (bind (reads (\<lambda>db. (getRun db run, g db))) (\<lambda>(raw, x). case raw of None \<Rightarrow> k x
    | Some w \<Rightarrow> if run_terminal (wr_state w) then m w x else n w x))"
  using assms getRun_id live_rows(1)
  by (intro movesI) (fastforce simp: call_simps refl live_moves_def moves_def split: option.split)

lemma moves_findRun:
  assumes "\<And>w. live_moves w (n w)" "\<And>w. moves (m w)" "moves k"
  shows "moves (bind (reads (\<lambda>db. findRunByCard db c)) (\<lambda>raw. case raw of None \<Rightarrow> k
    | Some w \<Rightarrow> if run_terminal (wr_state w) then m w else n w))"
  using assms live_rows(2)
  by (intro movesI) (fastforce simp: call_simps refl live_moves_def moves_def split: option.split)

lemma moves_project: "peer_ok env \<Longrightarrow> moves (projectTerminalProjections env run)"
  unfolding projectTerminalProjections_def project_local_def project_supervision_def
  by (intro control bookkeeping) (auto simp: peer_ok_def)

lemma moves_after_commit: "peer_ok env \<Longrightarrow> moves (projectAfterCommit env run d)"
  unfolding projectAfterCommit_def by (intro control moves_project)

lemma live_commit:
  assumes "peer_ok env" "rn_run_id e = wr_run_id w" "\<And>v. preserved.moves quiet (applier v)" "\<And>v. moves (applier v)"
  shows "live_moves w (commitWithProjections env e applier)"
  unfolding commitWithProjections_def
proof (rule live_bind)
  show "live_moves w (commitTransition (we_now env) e applier)"
    unfolding live_moves_def
  proof (intro allI impI)
    fix s assume l: "live_row s w"
    from commit [OF l assms(2,3,4)] show "rel s (snd (commitTransition (we_now env) e applier s))" .
  qed
  show "moves (andThen (projectAfterCommit env (rn_run_id e) d) (return d))" for d
    by (intro control moves_after_commit assms(1))
qed

lemma live_no_conflict: "live_moves w m \<Longrightarrow> live_moves w (no_conflict m)"
  unfolding no_conflict_def by (rule live_bind) (assumption | intro control)+

lemma live_commitKind:
  assumes "peer_ok env" "\<And>v. preserved.moves quiet (applier v)" "\<And>v. moves (applier v)"
  shows "live_moves w (commitKind env w kind body applier)"
  unfolding commitKind_def
  by (intro live_no_conflict live_commit assms) (simp add: freshEvent_def event_for_def)

lemmas live = live_reads live_require live_own live_if live_option live_list live_prod live_pure

lemmas both = effects framed.effects

lemma moves_failing: "moves (return x)" "preserved.moves quiet (return x :: effect wf)"
  by (simp_all add: hush.moves_pure)

lemma moves_attemptSucceeded: "peer_ok env \<Longrightarrow> moves (attemptSucceeded env run nid a out)"
  unfolding attemptSucceeded_def by (intro moves_requireLive live live_commitKind both)

lemma moves_attemptFailed: "peer_ok env \<Longrightarrow> moves (attemptFailed env run nid a cause safe)"
  unfolding attemptFailed_def Let_def by (intro moves_requireLive live live_commitKind both)

lemma moves_acceptPlan: "peer_ok env \<Longrightarrow> moves (acceptPlan env run p)"
  unfolding acceptPlan_def
  by (intro moves_requireLive live live_bind live_commitKind both control)

lemma moves_rejectPlanRound: "peer_ok env \<Longrightarrow> moves (rejectPlanRound env run ps opts)"
  unfolding rejectPlanRound_def by (intro moves_requireLive live_bind live_commitKind both control)

lemma moves_submitPlanProposal: "peer_ok env \<Longrightarrow> moves (submitPlanProposal env run p opts)"
  unfolding submitPlanProposal_def
  by (intro moves_requireLive live live_bind live_commitKind both control live_any moves_rejectPlanRound)

lemma live_atomic: "live_moves w m \<Longrightarrow> live_moves w (attempt_call m h)" if "\<And>x. moves (h x)"
  unfolding live_moves_def
proof (intro allI impI)
  fix s assume m: "\<forall>s. live_row s w \<longrightarrow> rel s (snd (m s))" and l: "live_row s w"
  obtain r t where r: "m s = (r, t)" by fastforce
  with m l have "rel s t" by (metis snd_conv)
  with r that show "rel s (snd (attempt_call m h s))" by (cases r) (auto simp: attempt_call_def moves_def intro: trans)
qed

lemma live_by_verdict:
  "live_moves w m \<Longrightarrow> (\<And>ds. live_moves w (f ds)) \<Longrightarrow> (\<And>r. live_moves w (g r)) \<Longrightarrow> (\<And>k. live_moves w (h k)) \<Longrightarrow>
   live_moves w (case v of V_accept \<Rightarrow> m | V_changes ds \<Rightarrow> f ds | V_cannot r \<Rightarrow> g r | V_unknown k \<Rightarrow> h k)"
  by (cases v) simp_all

lemma live_verdict: "peer_ok env \<Longrightarrow> live_moves w (apply_verdict env w clo home judged nid v)"
  unfolding apply_verdict_def Let_def
  by (intro live live_by_verdict live_bind live_commitKind both control)

lemma moves_submitVerdict: "peer_ok env \<Longrightarrow> moves (submitVerdict env run nid v clo)"
  unfolding submitVerdict_def by (intro moves_requireLive live live_verdict)

lemma moves_requestCancel: "peer_ok env \<Longrightarrow> moves (requestCancelRun env run cause)"
  unfolding requestCancelRun_def Let_def by (intro moves_unless_terminal live_bind live_commitKind both control)

lemma moves_failRun: "peer_ok env \<Longrightarrow> moves (failRun env run code reason)"
  unfolding failRun_def by (intro moves_requireLive live_commitKind moves_failing)

lemma moves_requestInput: "peer_ok env \<Longrightarrow> moves (requestInput env run q cr ikind)"
  unfolding requestInput_def Let_def by (intro moves_requireLive live live_bind live_commitKind both control)

lemma moves_answerInput: "peer_ok env \<Longrightarrow> moves (answerInput env iid response)"
  unfolding answerInput_def
  by (intro moves_bind bookkeeping moves_option moves_prod moves_list moves_requireLive live live_bind live_commitKind both control)

lemma moves_settleIfDeliverable: "peer_ok env \<Longrightarrow> moves (settleIfDeliverable env run)"
  unfolding settleIfDeliverable_def by (intro moves_getRun_with live_bind live_commitKind both control)

lemma moves_refused_send: "moves (refused_send env run nid k owner tok n msg)"
  unfolding refused_send_def by (intro control bookkeeping)

lemma moves_by_reply:
  "(\<And>x. moves (f x)) \<Longrightarrow> (\<And>x. moves (g x)) \<Longrightarrow> moves h \<Longrightarrow>
   moves (case v of Sent_with receipt \<Rightarrow> f receipt | Send_refused msg \<Rightarrow> g msg | Send_unclear \<Rightarrow> h)"
  by (cases v) simp_all

lemma moves_runDeliverySend: "peer_ok env \<Longrightarrow> moves (runDeliverySend env snd_to run nid k owner tok)"
  unfolding runDeliverySend_def
  by (intro control bookkeeping moves_by_reply moves_refused_send moves_settleIfDeliverable)

lemma moves_executeDelivery: "peer_ok env \<Longrightarrow> moves (executeDelivery env snd_to run nid)"
  unfolding executeDelivery_def Let_def
  by (intro moves_requireLive live_any control bookkeeping moves_runDeliverySend) simp

lemma moves_acceptShaHandoff: "peer_ok env \<Longrightarrow> moves (acceptShaHandoff env c stage result final)"
  unfolding acceptShaHandoff_def by (intro moves_findRun live_bind live_commitKind both control)

lemma moves_submitBreakerRefused: "peer_ok env \<Longrightarrow> moves (submitBreakerRefused env run nid resource i)"
  unfolding submitBreakerRefused_def Let_def by (intro moves_requireLive live live_commitKind both)

lemma live_event: "wr_run_id w = run \<Longrightarrow> rn_run_id (event_for env w i payload) = wr_run_id w"
  by (simp add: event_for_def)

lemma event_run [simp]: "rn_run_id (event_for env w i payload) = wr_run_id w"
  by (simp add: event_for_def)

lemma moves_inspectClaim: "peer_ok env \<Longrightarrow> moves (inspectClaim env run k g)"
  unfolding inspectClaim_def apply_claim_expired_def
  by (intro moves_requireLive live_no_conflict live_commit both) simp_all

lemma moves_failModelJob: "peer_ok env \<Longrightarrow> moves (failModelJob env run cl reason)"
  unfolding failModelJob_def by (intro moves_requireLive live_no_conflict live_commit both) simp_all

lemma moves_by_ownership:
  "moves m \<Longrightarrow> moves n \<Longrightarrow> moves k \<Longrightarrow>
   moves (case own of Job_active \<Rightarrow> m | Job_expired \<Rightarrow> n | Job_ownerless \<Rightarrow> k)"
  by (cases own) simp_all

lemma moves_submitModelJobInspection: "peer_ok env \<Longrightarrow> moves (submitModelJobInspection env run tok g own ms)"
  unfolding submitModelJobInspection_def requireRun_def Let_def
  by (intro control bookkeeping moves_by_ownership moves_failModelJob)

lemma moves_interruptRun: "peer_ok env \<Longrightarrow> moves (interruptRun env run)"
  unfolding interruptRun_def
  by (intro moves_getRun live_bind live_no_conflict live_commit both control) simp_all

lemma live_outcome:
  assumes "peer_ok env" "rn_run_id e = wr_run_id w"
  shows "live_moves w (apply_outcome env rv nid a o1 e)"
  unfolding apply_outcome_def using assms
  by (intro live_commit) (cases o1; simp add: both)+

lemma live_stored:
  assumes "peer_ok env" "rn_run_id e = wr_run_id w"
  shows "live_moves w (commitStoredAttemptOutcome env run rv nid a o1 e)"
proof -
  have "snd (commitStoredAttemptOutcome env run rv nid a o1 e s) = (if getRun s run = None then s else snd (apply_outcome env rv nid a o1 e s))" for s
    by (simp add: commitStoredAttemptOutcome_def requireRun_def call_simps split: option.split)
  with live_outcome [OF assms] show ?thesis by (simp add: live_moves_def refl)
qed

lemma moves_recover: "peer_ok env \<Longrightarrow> moves (recoverUnconsumedCompletions env limit)"
  unfolding recoverUnconsumedCompletions_def recover_completion_def
  by (intro moves_bind moves_count moves_pure moves_prod moves_getRun live live_atomic live_bind live_stored) simp_all

lemma live_redrive: "peer_ok env \<Longrightarrow> rn_run_id e = wr_run_id w \<Longrightarrow> live_moves w (redrive_apply env w e rv)"
  unfolding redrive_apply_def Let_def apply_claim_expired_def
  by (intro live live_bind live_outcome live_commit both control)

lemma moves_redrive: "peer_ok env \<Longrightarrow> moves (redrive env x)"
  unfolding redrive_def
  by (intro moves_getRun_with live_atomic live_redrive control bookkeeping) simp_all

lemma moves_startupRecovery:
  assumes "peer_ok env" "\<And>f run. reconcile = Some f \<Longrightarrow> moves (f run)"
  shows "moves (startupRecovery env reconcile)"
proof -
  have r: "moves (case reconcile of None \<Rightarrow> return ()
       | Some f \<Rightarrow> bind (reads (\<lambda>db. listAuditRoots db 0 100)) (each (\<lambda>w. f (wr_run_id w))))"
    using assms(2) by (cases reconcile) (simp_all, intro control, blast)
  show ?thesis unfolding startupRecovery_def reproject_def
    by (intro control r moves_redrive moves_recover moves_project assms(1))
qed

lemma moves_workspace: "moves (ensureProjectWorkspace env root)"
  unfolding ensureProjectWorkspace_def by (intro control bookkeeping moves_list)

lemma moves_planning: "moves (ensureInitialPlanning env run)"
  unfolding ensureInitialPlanning_def open_initial_def queue_initial_def by (intro control bookkeeping)

lemma moves_admitSupervised: "moves (admitSupervised env ad)"
  unfolding admitSupervised_def admit_def duplicate_workspace_def bind_admitted_def resolve_cwd_def open_initial_def
    queue_initial_def Let_def
  by (intro control bookkeeping moves_workspace moves_planning)

text \<open>The loops over the runner. The ports are calls of their own: they have to respect the preorder too.\<close>

definition ports_ok :: "ports \<Rightarrow> bool" where
  "ports_ok pt \<longleftrightarrow> (\<forall>c. moves (pt_dispatch pt c)) \<and>
     (\<forall>mp c b i cl. pt_jobs pt = Some mp \<longrightarrow> moves (mp_review mp c b cl) \<and> moves (mp_plan mp c i cl))"

lemma moves_start:
  assumes "peer_ok env" "ports_ok pt"
  shows "moves (start_command env pt c cl)"
proof (cases "pt_jobs pt")
  case None
  with assms(2) show ?thesis by (simp add: start_command_def ports_ok_def)
next
  case (Some mp)
  have r: "moves (start_review mp c cl)" "moves (start_planning env mp c cl)"
    unfolding start_review_def start_planning_def Let_def using assms(2) Some
    by (intro control bookkeeping; simp add: ports_ok_def)+
  have d: "moves (case mp_sender mp of None \<Rightarrow> pt_dispatch pt c
      | Some snd_to \<Rightarrow> bind (runDeliverySend (round_env 0 env) snd_to (wc_run_id c) (wc_node_id c) (key_of c) (cl_owner cl) (cl_token cl))
          (\<lambda>_. return ()))"
    using assms by (intro control moves_runDeliverySend) (simp_all add: ports_ok_def)
  show ?thesis using r d assms(2) Some by (cases "wc_action c") (simp_all add: start_command_def ports_ok_def)
qed

lemma moves_drain:
  assumes "peer_ok env" "ports_ok pt"
  shows "moves (drain env limit pt policy)"
proof -
  have r: "moves (refuse_command (round_env i env) c)" for i c
    unfolding refuse_command_def using assms(1) by (intro control moves_submitBreakerRefused) simp_all
  have m: "moves (mark_started e c cl)" for e c cl
    unfolding mark_started_def by (intro control bookkeeping)
  have st: "moves (start_command (round_env i env) pt c cl)" for i c cl
    using assms by (intro moves_start) simp_all
  have f: "moves (case f1 of None \<Rightarrow> return n | Some e \<Rightarrow> if n = 0 then throw e else return n)" for f1 and n :: nat
    by (intro control)
  show ?thesis
    unfolding drain_def drain_command_def Let_def
    by (intro control bookkeeping r m st f)
qed

lemma moves_barrier: "peer_ok env \<Longrightarrow> moves (barrier_passes fuel env wm tally)"
proof (induction fuel arbitrary: tally)
  case (Suc fuel)
  have "moves (interrupt_one (round_env i env) run)" for i run
    unfolding interrupt_one_def using Suc.prems by (intro control moves_interruptRun) simp_all
  with Suc show ?case by (auto intro!: control)
qed simp

lemma moves_supervised: "peer_ok env \<Longrightarrow> moves (supervised_outcome env stored sa)"
  unfolding supervised_outcome_def
  by (intro moves_if moves_pure moves_findRun live live_bind live_stored control) simp_all

lemma hook_respects: "peer_ok env \<Longrightarrow> commitSupervisedOutcome env stored sa s = Some t \<Longrightarrow> rel s t"
  using moves_attempt [OF moves_supervised moves_pure(1), of env stored sa "\<lambda>_. ()"]
  by (auto simp: commitSupervisedOutcome_def moves_def)

end

section \<open>Two instances\<close>

lemma quiet_bookkeeping:
  "hush.moves (claimCommand now k owner tok)" "hush.moves (markNodeRunning run rv nid)"
  "hush.moves (noteInspectionAliveForMillis now k g ms)" "hush.moves (bumpDeliveryAttempts run nid)"
  "hush.moves (answerInputRequest iid response)"
  unfolding claimCommand_def markNodeRunning_def noteInspectionAliveForMillis_def bumpDeliveryAttempts_def
    answerInputRequest_def one_row_def exactly_one_def
  by (intro hush.control quiet_rules; simp)+

text \<open>The run table grows at its end, keeps its keys, and never changes a terminal run.\<close>

definition settled :: "workflow_run \<Rightarrow> workflow_run \<Rightarrow> bool" where
  "settled r r' \<longleftrightarrow> wr_run_id r' = wr_run_id r \<and> (run_terminal (wr_state r) \<longrightarrow> r' = r)"

definition runs_kept :: "swarm_db \<Rightarrow> swarm_db \<Rightarrow> bool" where
  "runs_kept s t \<longleftrightarrow> (keyed wr_run_id (db_workflow_runs s) \<longrightarrow> keyed wr_run_id (db_workflow_runs t) \<and>
     list_all2 settled (db_workflow_runs s) (take (length (db_workflow_runs s)) (db_workflow_runs t)))"

lemma settled_refl [simp]: "settled r r"
  by (simp add: settled_def)

lemma settled_trans: "settled r s \<Longrightarrow> settled s t \<Longrightarrow> settled r t"
  by (auto simp: settled_def)

lemma runs_same: "db_workflow_runs t = db_workflow_runs s \<Longrightarrow> runs_kept s t"
  by (simp add: runs_kept_def list.rel_refl)

lemma runs_kept_trans:
  assumes a: "runs_kept s t" and b: "runs_kept t u"
  shows "runs_kept s u"
  unfolding runs_kept_def
proof (intro impI)
  let ?n = "length (db_workflow_runs s)"
  assume k: "keyed wr_run_id (db_workflow_runs s)"
  with a have t: "keyed wr_run_id (db_workflow_runs t)" and st: "list_all2 settled (db_workflow_runs s) (take ?n (db_workflow_runs t))"
    by (simp_all add: runs_kept_def)
  with b have u: "keyed wr_run_id (db_workflow_runs u)"
    and tu: "list_all2 settled (db_workflow_runs t) (take (length (db_workflow_runs t)) (db_workflow_runs u))"
    by (simp_all add: runs_kept_def)
  from list_all2_lengthD [OF st] have le: "?n \<le> length (db_workflow_runs t)" by simp
  from list_all2_takeI [OF tu, of ?n] le
  have "list_all2 settled (take ?n (db_workflow_runs t)) (take ?n (db_workflow_runs u))" by (simp add: min_def)
  with st have "list_all2 settled (db_workflow_runs s) (take ?n (db_workflow_runs u))"
    using list_all2_trans [of settled settled settled] settled_trans by blast
  with u show "keyed wr_run_id (db_workflow_runs u) \<and> list_all2 settled (db_workflow_runs s) (take ?n (db_workflow_runs u))" ..
qed

lemma updated_runs: "update_runs p f s = (Inr n, t) \<Longrightarrow> db_workflow_runs t = sql_update p f (db_workflow_runs s)"
  by (auto simp: update_runs_def)

lemma runs_commit:
  assumes l: "live_row s w" and e: "rn_run_id e = wr_run_id w" and q: "\<And>v. hush.moves (applier v)"
  shows "runs_kept s (snd (commitTransition now e applier s))"
proof -
  let ?p = "\<lambda>r. wr_run_id r = rn_run_id e \<and> wr_state_version r = rn_state_version e"
  have bumped: "runs_kept s t" if "db_workflow_runs t = sql_update ?p (bump_run now ef) (db_workflow_runs s)" for t ef
  proof -
    have b: "wr_run_id (bump_run now ef r) = wr_run_id r" for r by (simp add: bump_run_def)
    have "settled r (if ?p r then bump_run now ef r else r)"
      if k: "keyed wr_run_id (db_workflow_runs s)" and r: "r \<in> set (db_workflow_runs s)" for r
      using keyed_unique [OF k r, of w] l e b by (auto simp: settled_def live_row_def)
    then have "list_all2 settled (db_workflow_runs s) (sql_update ?p (bump_run now ef) (db_workflow_runs s))"
      if "keyed wr_run_id (db_workflow_runs s)"
      using that by (auto simp: sql_update_def list_all2_conv_all_nth)
    moreover have "keyed wr_run_id (db_workflow_runs t) = keyed wr_run_id (db_workflow_runs s)"
      unfolding that by (rule keyed_update) (rule b)
    ultimately show ?thesis using that by (simp add: runs_kept_def)
  qed
  show ?thesis
  proof (cases "commitTransition now e applier s")
    case (Pair r t)
    show ?thesis
    proof (cases r)
      case (Inl x)
      with Pair atomically_throws show ?thesis by (force simp: commitTransition_def intro: runs_same)
    next
      case (Inr d)
      with Pair have env: "applyEnvelope now e applier s = (Inr d, t)" by (simp add: commitTransition_def atomically_Inr)
      consider "t = s" | s1 known where "db_workflow_runs s1 = db_workflow_runs s" "fence now e applier known s1 = (Inr d, t)"
      proof (cases "find_ingress s (rn_event_id e)")
        case None
        with env that(2) [of "s\<lparr> db_ingress := db_ingress s @ [received now e] \<rparr>" False] show ?thesis
          by (simp add: applyEnvelope_def call_simps)
      next
        case (Some x)
        with env that(2) [of s True] that(1) show ?thesis
          by (auto simp: applyEnvelope_def call_simps split: if_splits)
      qed
      then show ?thesis
      proof cases
        case 2
        from fence_Inr [OF 2(2)] consider
            n where "consume_event now (rn_event_id e) In_noop s1 = (Inr n, t)"
          | w0 where "apply_event now e applier w0 s1 = (Inr d, t)" by blast
        then show ?thesis
        proof cases
          case 1
          with 2(1) Pair show ?thesis by (simp add: consume_Inr runs_same)
        next
          case a: 2
          obtain ef u u1 where u: "applier w0 s1 = (Inr ef, u)"
            "update_runs ?p (bump_run now (ef\<lparr> ef_next_state := Some (orelse (ef_next_state ef) (wr_state w0)) \<rparr>)) u = (Inr 1, u1)"
            "consume_event now (rn_event_id e) (if ef_noop ef then In_noop else In_applied) u1 = (Inr 1, t)"
            by (rule apply_event_Inr [OF a])
          from hush.movesD [OF q u(1)] 2(1) have "db_workflow_runs u = db_workflow_runs s" by (simp add: quiet_def)
          moreover from u(2) have "db_workflow_runs u1 = sql_update ?p
              (bump_run now (ef\<lparr> ef_next_state := Some (orelse (ef_next_state ef) (wr_state w0)) \<rparr>)) (db_workflow_runs u)"
            by (rule updated_runs)
          moreover from u(3) have "db_workflow_runs t = db_workflow_runs u1" by (simp add: consume_Inr)
          ultimately have "db_workflow_runs t = sql_update ?p
              (bump_run now (ef\<lparr> ef_next_state := Some (orelse (ef_next_state ef) (wr_state w0)) \<rparr>)) (db_workflow_runs s)"
            by (simp only:)
          from bumped [OF this] Pair show ?thesis by simp
        qed
      qed (use Pair in \<open>simp add: runs_same\<close>)
    qed
  qed
qed

interpretation runs: preserved runs_kept
  by unfold_locales (auto intro: runs_same runs_kept_trans)

lemma runs_quiet: "hush.moves m \<Longrightarrow> runs.moves m"
  by (simp add: hush.moves_def runs.moves_def quiet_def runs_same)

lemma admitRun_leaves:
  assumes "admitRun sha now ri s = (r, t)"
  shows "t = s \<or> getRun s (ri_run_id ri) = None \<and> db_workflow_runs t = db_workflow_runs s @ [admitted_run now ri] \<and>
     db_cards t = db_cards s \<and> db_attempts t = db_attempts s"
proof (cases r)
  case (Inl x)
  with assms show ?thesis by (auto simp: admitRun_def call_simps split: if_splits dest: atomically_throws)
next
  case (Inr y)
  have budget: "insert_budget run sc n u = (Inr x, v) \<Longrightarrow> db_workflow_runs v = db_workflow_runs u \<and> db_cards v = db_cards u \<and>
      db_attempts v = db_attempts u" for run sc n u x v
    by (auto simp: insert_budget_def andThen_Inr basic_Inr)
  have all: "each (\<lambda>sc. insert_budget run sc (n sc)) scs u = (Inr x, v) \<Longrightarrow> db_workflow_runs v = db_workflow_runs u \<and>
      db_cards v = db_cards u \<and> db_attempts v = db_attempts u" for run n scs u x v
    by (induction scs arbitrary: u) (auto simp: andThen_Inr basic_Inr dest: budget)
  have ins: "insert_run sha now ri s = (Inr w, t) \<Longrightarrow> getRun s (ri_run_id ri) = None \<and>
      db_workflow_runs t = db_workflow_runs s @ [admitted_run now ri] \<and> db_cards t = db_cards s \<and> db_attempts t = db_attempts s" for w
    unfolding insert_run_def insert_ingress_def andThen_Inr basic_Inr by (elim exE conjE, drule all) simp
  from assms Inr show ?thesis
    unfolding admitRun_def by (auto simp: atomically_Inr bind_Inr basic_Inr split: if_splits option.splits dest!: ins)
qed

lemma runs_admitted: "runs.moves (admitRun sha now ri)"
proof (rule runs.movesI)
  fix s
  show "runs_kept s (snd (admitRun sha now ri s))"
  proof (cases "admitRun sha now ri s")
    case (Pair r t)
    from admitRun_leaves [OF Pair] Pair show ?thesis
      by (auto simp: runs_kept_def keyed_append1 list.rel_refl getRun_def sql_first_None admitted_run_def)
  qed
qed

lemma runs_consumed: "runs.moves (consumeIngressNoop now iid)"
  by (rule runs.movesI)
     (auto simp: consumeIngressNoop_def one_row_def consume_event_def call_simps update_ingress_def intro: runs_same)

lemma runs_beside: "beside s t \<Longrightarrow> runs_kept s t"
  by (simp add: beside_def runs_same)

interpretation final: runner_calls runs_kept
  by unfold_locales
     (auto intro: runs_commit runs_quiet quiet_rules quiet_bookkeeping runs_admitted runs_consumed runs_beside)

text \<open>Attempts are at most asked to stop, and no card is charged.\<close>

definition uncharged :: "swarm_db \<Rightarrow> swarm_db \<Rightarrow> bool" where
  "uncharged s t \<longleftrightarrow> fenced_attempts s t \<and> (\<forall>x. tokens_of t x = tokens_of s x)"

interpretation charge: preserved uncharged
  by unfold_locales (auto simp: uncharged_def intro: fenced_trans)

lemma uncharged_same: "db_attempts t = db_attempts s \<Longrightarrow> db_cards t = db_cards s \<Longrightarrow> uncharged s t"
  by (simp add: uncharged_def tokens_of_def find_card_def)

lemma uncharged_quiet: "hush.moves m \<Longrightarrow> charge.moves m"
  by (simp add: hush.moves_def charge.moves_def uncharged_def quiet_tokens) (simp add: quiet_def)

lemma uncharged_rows: "charge.moves (update_runs p f)" "charge.moves (update_ingress q g)"
  by (rule charge.movesI; simp add: update_runs_def update_ingress_def uncharged_same)+

lemma uncharged_commit:
  assumes "\<And>v. hush.moves (applier v)"
  shows "charge.moves (commitTransition now e applier)"
proof -
  have a: "charge.moves (applier v)" for v using assms by (rule uncharged_quiet)
  show ?thesis
    unfolding commitTransition_def applyEnvelope_def fence_def apply_event_def consume_event_def exactly_one_def
    by (intro charge.control uncharged_rows a charge.moves_writes uncharged_same; simp)
qed

lemma uncharged_admitted: "charge.moves (admitRun sha now ri)"
proof (rule charge.movesI)
  fix s
  show "uncharged s (snd (admitRun sha now ri s))"
  proof (cases "admitRun sha now ri s")
    case (Pair r t)
    from admitRun_leaves [OF Pair] Pair show ?thesis by (auto intro: uncharged_same)
  qed
qed

lemma uncharged_consumed: "charge.moves (consumeIngressNoop now iid)"
  unfolding consumeIngressNoop_def one_row_def consume_event_def by (intro charge.control uncharged_rows)

lemma uncharged_commits: "(\<And>v. hush.moves (applier v)) \<Longrightarrow> uncharged s (snd (commitTransition now e applier s))"
  using uncharged_commit [of applier now e] by (simp add: charge.moves_def)

lemma uncharged_beside: "beside s t \<Longrightarrow> uncharged s t"
  by (simp add: beside_def uncharged_def)

interpretation bill: runner_calls uncharged
  by unfold_locales
     (auto intro: uncharged_commits uncharged_quiet quiet_rules quiet_bookkeeping uncharged_admitted uncharged_consumed
        uncharged_beside)

end
