(* ===== verification/WorkflowVerdict.thy ===== *)
theory WorkflowVerdict
  imports WorkflowSafety
begin

text \<open>
  When a run succeeds: of all the effects the runner commits only the terminal evaluation lets a run
  succeed, and it does so for a finished plan. And what that evaluation misses: the failed review of an
  earlier revision.
\<close>

section \<open>Earned success\<close>

text \<open>
  A revision earns success: it has nodes, none is open, no review runs in it or an earlier revision, no delivery is
  pending, and of its required nodes none failed, or the plan allows dropping them and every required output was
  produced by a succeeded node.
\<close>

definition all_produced :: "plan_policy \<Rightarrow> node_row list \<Rightarrow> bool" where
  "all_produced po ns \<longleftrightarrow> (\<exists>made rs. produced_outputs po ns = Some made \<and> required_list (po_required po) = Some rs \<and>
     (\<forall>r \<in> set rs. \<exists>x \<in> set made. same_value r x))"

definition earned :: "swarm_db \<Rightarrow> string \<Rightarrow> nat \<Rightarrow> bool" where
  "earned db run rv \<longleftrightarrow> listNodes db run rv \<noteq> [] \<and> (\<forall>n \<in> set (listNodes db run rv). \<not> node_open n) \<and>
     (\<forall>r. 1 \<le> r \<and> r \<le> rv \<longrightarrow> \<not> review_running db run r) \<and> \<not> hasPendingDelivery db run \<and>
     (\<exists>po. policy_of db run rv = Some po \<and>
       (failed_required po (listNodes db run rv) = [] \<or> po_partial po \<and> all_produced po (listNodes db run rv)))"

lemma partial_earned:
  assumes "partial_verdict po ns failed cause = Some ef" "ef_next_state ef = Some W_succeeded"
  shows "all_produced po ns"
proof -
  from assms obtain made rs where m: "produced_outputs po ns = Some made" "required_list (po_required po) = Some rs"
    and "filter (\<lambda>r. \<not> list_ex (same_value r) made) rs = []"
    by (auto simp: partial_verdict_def node_failed_def failing_def split: option.splits list.splits)
  then have "\<forall>r \<in> set rs. \<exists>x \<in> set made. same_value r x" by (auto simp: filter_empty_conv list_ex_iff)
  with m show ?thesis unfolding all_produced_def by blast
qed

lemma verdict_earned:
  assumes t: "terminal_verdict db run rv cause = Some ef" and s: "ef_next_state ef = Some W_succeeded"
  shows "earned db run rv"
proof -
  let ?ns = "listNodes db run rv"
  from s have n: "ef \<noteq> no_workers" "ef \<noteq> no_effect" "\<And>c f. ef \<noteq> node_failed c f"
    by (auto simp: no_workers_def no_effect_def node_failed_def failing_def)
  with t obtain po where a: "?ns \<noteq> []" "\<not> list_ex node_open ?ns" "\<not> list_ex (review_running db run) [1..<Suc rv]"
    "\<not> hasPendingDelivery db run" "policy_of db run rv = Some po"
    and v: "(case failed_required po ?ns of [] \<Rightarrow> Some (goto W_succeeded)
       | failed \<Rightarrow> (if po_partial po then partial_verdict po ?ns failed cause
           else Some (node_failed cause (''nodes failed: '' @ join_with '','' failed)))) = Some ef"
    unfolding terminal_verdict_def Let_def
    by (cases "policy_of db run rv") (auto simp del: upt_Suc simp: node_failed_def split: if_split_asm)
  have "failed_required po ?ns = [] \<or> po_partial po \<and> all_produced po ?ns"
  proof (cases "failed_required po ?ns")
    case (Cons x xs)
    with v n(3) have "po_partial po" "partial_verdict po ?ns (x # xs) cause = Some ef" by (auto split: if_split_asm)
    with partial_earned s show ?thesis by blast
  qed simp
  moreover have "\<forall>r. 1 \<le> r \<and> r \<le> rv \<longrightarrow> \<not> review_running db run r" using a(3) by (auto simp: list_ex_iff simp del: upt_Suc)
  ultimately show ?thesis using a by (auto simp: earned_def list_ex_iff)
qed

text \<open>A call that answers with success leaves a state in which it is earned.\<close>

definition earns :: "string \<Rightarrow> effect wf \<Rightarrow> bool" where
  "earns run m \<longleftrightarrow> (\<forall>s ef t. m s = (Inr ef, t) \<and> ef_next_state ef = Some W_succeeded \<longrightarrow> (\<exists>rv. earned t run rv))"

lemma earns_other: "ef_next_state ef \<noteq> Some W_succeeded \<Longrightarrow> earns run (return ef)"
  by (auto simp: earns_def basic_Inr)

lemma earns_throw: "earns run (throw x)"
  by (simp add: earns_def basic_Inr)

lemma earns_bind: "(\<And>x. earns run (f x)) \<Longrightarrow> earns run (bind m f)"
  unfolding earns_def bind_Inr by blast

lemma earns_andThen: "earns run n \<Longrightarrow> earns run (andThen m n)"
  unfolding andThen_def by (rule earns_bind)

lemma earns_if: "earns run m \<Longrightarrow> earns run n \<Longrightarrow> earns run (if b then m else n)"
  by simp

lemma earns_option: "earns run m \<Longrightarrow> (\<And>a. earns run (f a)) \<Longrightarrow> earns run (case v of None \<Rightarrow> m | Some a \<Rightarrow> f a)"
  by (cases v) simp_all

lemma earns_acceptance:
  "(\<And>x. earns run (f x)) \<Longrightarrow> (\<And>x. earns run (g x)) \<Longrightarrow> earns run (case v of Accepted_result x \<Rightarrow> f x | Rejected_result x \<Rightarrow> g x)"
  by (cases v) simp_all

lemma earns_evaluate: "earns run (evaluateTerminal run rv cause)"
  using verdict_earned by (fastforce simp: earns_def evaluateTerminal_def split: option.splits)

lemma earns_settle: "earns run (settleWithReReview now run g rv cause)"
proof -
  have "\<exists>rv. earned t run rv" if "settleWithReReview now run g rv cause s = (Inr ef, t)" "ef_next_state ef = Some W_succeeded" for s ef t
  proof -
    from that have "evaluateTerminal run rv cause s = (Inr ef, t)"
      by (auto simp: settleWithReReview_def bind_Inr andThen_Inr basic_Inr only_if_def)
    with earns_evaluate that(2) show ?thesis unfolding earns_def by blast
  qed
  then show ?thesis by (auto simp: earns_def)
qed

lemma earned_commands: "earned (s\<lparr> db_commands := cs \<rparr>) run rv = earned s run rv"
  by (simp add: earned_def listNodes_def review_running_def hasPendingDelivery_def policy_of_def getPlan_def)

lemma completed_earned: "completeCommand now k owner tok s = (Inr u, t) \<Longrightarrow> earned t run rv = earned s run rv"
  by (auto simp: completeCommand_def exactly_one_Inr update_commands_def earned_commands)

lemma earns_finish: "earns run m \<Longrightarrow> earns run (bind m (\<lambda>ef. andThen (finish_command now k c) (return ef)))"
  unfolding earns_def by (fastforce simp: bind_Inr andThen_Inr basic_Inr finish_command_def dest: completed_earned)

lemmas earn_control = earns_throw earns_if earns_option earns_andThen earns_acceptance

lemma earns_succeed: "earns run (succeedNodeEffect now run g rv nid a out)"
  unfolding succeedNodeEffect_def by (intro earn_control earns_settle)

lemma earns_simple: "earns run (return no_effect)" "earns run (return noop_effect)" "earns run (return (failing c why))"
  "earns run (return unobserved)" "earns run (return (goto W_dispatched))" "earns run (return (goto W_planning))"
  "earns run (return (goto W_awaiting_input))" "earns run (return (goto W_executing))"
  by (simp_all add: earns_other no_effect_def noop_effect_def failing_def unobserved_def goto_def)

lemma earns_choice: "earns run (return a) \<Longrightarrow> earns run (return b) \<Longrightarrow> earns run (return (if c then a else b))"
  by simp

lemmas earn = earn_control earns_choice earns_simple earns_settle earns_evaluate earns_succeed earns_bind

lemma earns_fail: "earns run (failNodeEffect now run g rv nid a cause safe)"
  unfolding failNodeEffect_def by (intro earn)

lemma earns_stored: "earns run (applyStoredAcceptanceEffect now run g rv nid c a)"
  unfolding applyStoredAcceptanceEffect_def by (intro earn earns_fail)

lemma earns_review_fails: "earns (wr_run_id w) (review_fails now cl home judged nid result out cause w)"
  unfolding review_fails_def by (intro earn)

lemma earns_inconclusive: "earns run (applyInconclusive now run k g m unknown)"
  unfolding applyInconclusive_def by (intro earn)

lemma earns_inspect_ended: "earns (wr_run_id w) (inspect_ended now k g c rv a w)"
  unfolding inspect_ended_def Let_def
  by (intro earns_if earns_bind earns_option earns_throw earns_finish earns_stored earns_inconclusive earns_andThen
      earns_simple earns_evaluate)

lemma earns_by_action:
  "earns run m \<Longrightarrow> earns run n \<Longrightarrow> earns run p \<Longrightarrow>
   earns run (case a of Ac_deliver \<Rightarrow> m | Ac_review \<Rightarrow> n | Ac_plan \<Rightarrow> n | _ \<Rightarrow> p)"
  by (cases a) simp_all

lemma earns_claim_expired: "earns (wr_run_id w) (claim_expired_effect now k g w)"
  unfolding claim_expired_effect_def inspect_delivery_def inspect_model_job_def inspect_dispatch_def Let_def
  by (intro earns_by_action earn earns_inspect_ended earns_inconclusive)

text \<open>The effects the runner commits, by the operation that commits them.\<close>

inductive runner_effect :: "string \<Rightarrow> (workflow_run \<Rightarrow> effect wf) \<Rightarrow> bool" for run where
  "runner_effect run (attempt_succeeded_effect now rv nid a out)"
| "runner_effect run (attempt_failed_effect now rv nid a cause safe)"
| "runner_effect run (admission_effect now rv p)"
| "runner_effect run (proposal_effect now rv p opts)"
| "runner_effect run (plan_rejected_effect text)"
| "runner_effect run (round_rejected_effect now opts text)"
| "runner_effect run (malformed_effect now clo home judged nid why)"
| "runner_effect run (accepted_effect now clo home judged nid)"
| "runner_effect run (unassessable_effect now clo home judged nid reason)"
| "runner_effect run (changes_effect now clo home judged nid ds)"
| "runner_effect run (cancelled_effect now reason)"
| "runner_effect run (\<lambda>_. return (failing code reason))"
| "runner_effect run (input_requested_effect now i question criteria ikind)"
| "runner_effect run (input_answered_effect now i)"
| "runner_effect run (\<lambda>_. evaluateTerminal run rv cause)"
| "runner_effect run (sha_effect now final)"
| "runner_effect run (breaker_effect now rv nid resource ordinal)"
| "runner_effect run (claim_expired_effect now k g)"
| "runner_effect run (model_job_failed_effect now cl reason)"
| "runner_effect run (interrupted_effect now)"

lemma effect_earns: "runner_effect (wr_run_id w) applier \<Longrightarrow> earns (wr_run_id w) (applier w)"
proof (induction rule: runner_effect.induct)
  case (1 now rv nid a out)
  then show ?case unfolding attempt_succeeded_effect_def by (intro earn earns_stored)
next
  case (2 now rv nid a cause safe)
  then show ?case unfolding attempt_failed_effect_def by (intro earn earns_fail)
next
  case (7 now clo home judged nid why)
  then show ?case unfolding malformed_effect_def by (intro earn earns_review_fails)
next
  case (8 now clo home judged nid)
  then show ?case unfolding accepted_effect_def by (intro earn)
next
  case (9 now clo home judged nid reason)
  then show ?case unfolding unassessable_effect_def by (intro earn earns_review_fails)
next
  case (10 now clo home judged nid ds)
  then show ?case unfolding changes_effect_def Let_def by (intro earn earns_review_fails)
next
  case (17 now rv nid resource ordinal)
  then show ?case unfolding breaker_effect_def Let_def by (intro earn)
next
  case (18 now k g)
  then show ?case by (intro earns_claim_expired)
next
  case (11 now reason)
  then show ?case unfolding cancelled_effect_def by (intro earns_bind earns_other) simp
qed (unfold admission_effect_def proposal_effect_def plan_rejected_effect_def round_rejected_effect_def
    input_requested_effect_def input_answered_effect_def sha_effect_def model_job_failed_effect_def interrupted_effect_def Let_def,
    (intro earn)+)

lemma effect_quiet: "runner_effect run applier \<Longrightarrow> hush.moves (applier v)"
  by (induction rule: runner_effect.induct) (intro framed.effects hush.moves_pure)+

section \<open>What a commit did\<close>

lemma committed_effect:
  assumes c: "commitTransition now e applier s = (Inr Committed, t)" and q: "\<And>v. hush.moves (applier v)"
  obtains w s1 ef u where "getRun s (rn_run_id e) = Some w" "applier w s1 = (Inr ef, u)" "\<not> ef_noop ef"
    "db_workflow_runs t = sql_update (\<lambda>r. wr_run_id r = rn_run_id e \<and> wr_state_version r = rn_state_version e)
        (bump_run now (ef\<lparr> ef_next_state := Some (orelse (ef_next_state ef) (wr_state w)) \<rparr>)) (db_workflow_runs s)"
    "wr_state_version w = rn_state_version e"
    "\<exists>rs is. t = u\<lparr> db_workflow_runs := rs, db_ingress := is \<rparr>"
proof -
  from c have env: "applyEnvelope now e applier s = (Inr Committed, t)" by (simp add: commitTransition_def atomically_Inr)
  obtain s1 known where s1: "db_workflow_runs s1 = db_workflow_runs s" and f: "fence now e applier known s1 = (Inr Committed, t)"
  proof (cases "find_ingress s (rn_event_id e)")
    case None
    with env that [of "s\<lparr> db_ingress := db_ingress s @ [received now e] \<rparr>" False] show ?thesis
      by (simp add: applyEnvelope_def call_simps)
  next
    case (Some x)
    with env that [of s True] show ?thesis by (auto simp: applyEnvelope_def call_simps split: if_splits)
  qed
  from fence_Inr [OF f] obtain w where w: "getRun s1 (rn_run_id e) = Some w" "wr_state_version w = rn_state_version e"
    and a: "apply_event now e applier w s1 = (Inr Committed, t)" by blast
  obtain ef u u1 where u: "applier w s1 = (Inr ef, u)"
      "update_runs (\<lambda>r. wr_run_id r = rn_run_id e \<and> wr_state_version r = rn_state_version e)
        (bump_run now (ef\<lparr> ef_next_state := Some (orelse (ef_next_state ef) (wr_state w)) \<rparr>)) u = (Inr 1, u1)"
      "consume_event now (rn_event_id e) (if ef_noop ef then In_noop else In_applied) u1 = (Inr 1, t)"
      "Committed = (if ef_noop ef then Noop else Committed)"
    by (rule apply_event_Inr [OF a])
  from hush.movesD [OF q u(1)] s1 have ru: "db_workflow_runs u = db_workflow_runs s" by (simp add: quiet_def)
  from w(1) s1 have "getRun s (rn_run_id e) = Some w" by (simp add: getRun_def)
  moreover from u(4) have "\<not> ef_noop ef" by (simp split: if_splits)
  moreover have "db_workflow_runs t = sql_update (\<lambda>r. wr_run_id r = rn_run_id e \<and> wr_state_version r = rn_state_version e)
        (bump_run now (ef\<lparr> ef_next_state := Some (orelse (ef_next_state ef) (wr_state w)) \<rparr>)) (db_workflow_runs s)"
    using u(3) updated_runs [OF u(2)] ru by (simp add: consume_Inr)
  moreover have "\<exists>rs is. t = u\<lparr> db_workflow_runs := rs, db_ingress := is \<rparr>"
    using u(2,3) by (auto simp: update_runs_def consume_Inr)
  ultimately show ?thesis using that u(1) w(2) by blast
qed

text \<open>
  C2: Success is earned. A commit of the runner that turns a live run into a succeeded one leaves a revision
  with nodes that have all ended, with no running review up to it and no pending delivery, none of whose required
  nodes failed, unless the plan allows it and every required output was produced by a succeeded node.
\<close>

theorem success_is_earned:
  assumes "commitTransition now e applier s = (Inr Committed, t)" "runner_effect (rn_run_id e) applier"
    and "getRun s (rn_run_id e) = Some w" "wr_state w \<noteq> W_succeeded"
    and "getRun t (rn_run_id e) = Some w'" "wr_state w' = W_succeeded"
  shows "\<exists>rv. earned t (rn_run_id e) rv"
proof -
  obtain w0 s1 ef u where c: "getRun s (rn_run_id e) = Some w0" "applier w0 s1 = (Inr ef, u)" "\<not> ef_noop ef"
    "db_workflow_runs t = sql_update (\<lambda>r. wr_run_id r = rn_run_id e \<and> wr_state_version r = rn_state_version e)
        (bump_run now (ef\<lparr> ef_next_state := Some (orelse (ef_next_state ef) (wr_state w0)) \<rparr>)) (db_workflow_runs s)"
    "wr_state_version w0 = rn_state_version e" "\<exists>rs is. t = u\<lparr> db_workflow_runs := rs, db_ingress := is \<rparr>"
    by (rule committed_effect [OF assms(1) effect_quiet [OF assms(2)]])
  have i: "wr_run_id w = rn_run_id e" using assms(3) unfolding getRun_def by (blast dest: sql_first_SomeD)
  from c(1) assms(3) have w0: "w0 = w" by simp
  have "w' = bump_run now (ef\<lparr> ef_next_state := Some (orelse (ef_next_state ef) (wr_state w)) \<rparr>) w"
    using assms(3,5) c(5) unfolding getRun_def c(4) w0
    by (subst (asm) sql_first_update) (use i in \<open>auto simp: bump_run_def\<close>)
  with assms(4,6) have "ef_next_state ef = Some W_succeeded"
    by (cases "ef_next_state ef") (auto simp: bump_run_def)
  with effect_earns [of w applier] assms(2) i c(2) w0 obtain rv where "earned u (rn_run_id e) rv"
    unfolding earns_def by metis
  with c(6) have "earned t (rn_run_id e) rv"
    by (auto simp: earned_def listNodes_def review_running_def hasPendingDelivery_def policy_of_def getPlan_def)
  then show ?thesis ..
qed

definition tested_node :: node_row where
  "tested_node = \<lparr> wn_run_id = ''r'', wn_revision = 1, wn_node_id = ''n1_0_a'', wn_kind = N_work, wn_status = Nd_succeeded,
     wn_worker_card_id = None, wn_attempt_id = None, wn_outcome = None \<rparr>"

definition finished_db :: swarm_db where
  "finished_db = sample_db\<lparr> db_plans := [\<lparr> pv_run_id = ''r'', pv_revision = 1, pv_plan = JObj [(''nodes'', JArr [])] \<rparr>],
     db_nodes := [tested_node] \<rparr>"

lemmas finished_simps = finished_db_def sample_db_def empty_db_def tested_node_def sample_run_def sample_event_def

lemma finished_verdict:
  assumes "db_nodes s = db_nodes finished_db" "db_plans s = db_plans finished_db" "db_wdeliveries s = []"
  shows "terminal_verdict s ''r'' 1 None = Some (goto W_succeeded)"
  using assms by (simp add: terminal_verdict_def listNodes_def review_running_def hasPendingDelivery_def policy_of_def getPlan_def
      readable_nodes_def jget_def failed_required_def node_open_def finished_simps)

lemma success_is_earned_witness:
  "\<exists>rv. earned (after (commitTransition 1000 sample_event (\<lambda>_. evaluateTerminal ''r'' 1 None)) finished_db) ''r'' rv"
proof -
  let ?a = "\<lambda>_ :: workflow_run. evaluateTerminal ''r'' 1 None" and ?s = finished_db
  let ?c = "commitTransition 1000 sample_event ?a ?s"
  have v: "evaluateTerminal ''r'' 1 None (?s\<lparr> db_ingress := x \<rparr>) = (Inr (goto W_succeeded), ?s\<lparr> db_ingress := x \<rparr>)" for x
    using finished_verdict [of "?s\<lparr> db_ingress := x \<rparr>"] by (simp add: evaluateTerminal_def finished_simps)
  have g: "\<And>x. getRun (?s\<lparr> db_ingress := x \<rparr>) ''r'' = Some sample_run" "getRun ?s ''r'' = Some sample_run"
    "find_ingress ?s (rn_event_id sample_event) = None" "db_ingress ?s = []" "db_workflow_runs ?s = [sample_run]"
    by (simp_all add: getRun_def find_ingress_def finished_simps)
  have c: "?c = (Inr Committed, ?s\<lparr> db_workflow_runs := [sample_run\<lparr> wr_state := W_succeeded, wr_state_version := 1, wr_updated_at := sqliteNow 1000 \<rparr>],
      db_ingress := [(received 1000 sample_event)\<lparr> wi_disposition := In_applied, wi_applied_at := Some (sqliteNow 1000) \<rparr>] \<rparr>)"
    using g v
    by (simp add: commitTransition_def applyEnvelope_def fence_def apply_event_def atomically_def call_simps exactly_one_def
        update_runs_def goto_def no_effect_def consume_event_def update_ingress_def received_def bump_run_def
        sample_event_def sample_run_def)
  have e: "runner_effect (rn_run_id sample_event) ?a" unfolding sample_event_def by simp (rule runner_effect.intros)
  show ?thesis
    using success_is_earned [OF c e] g(2) c by (simp add: after_def getRun_def sample_event_def sample_run_def)
qed

section \<open>The review of an earlier revision\<close>

lemma upsert_frame: "upsertOperation op run kind rv st res s = (Inr u, t) \<Longrightarrow> \<exists>ops. t = s\<lparr> db_operations := ops \<rparr>"
  by (auto simp: upsertOperation_def bind_Inr andThen_Inr basic_Inr Let_def update_operations_def split: option.splits)

lemma finish_frame: "finish_claim now clo s = (Inr u, t) \<Longrightarrow> \<exists>cs. t = s\<lparr> db_commands := cs \<rparr>"
  by (cases clo) (auto simp: finish_claim_def basic_Inr completeCommand_def exactly_one_Inr update_commands_def
      intro: exI [of _ "db_commands s"])

lemma nodes_elsewhere:
  assumes "rv \<noteq> home" and f: "\<And>n. wn_revision (f n) = wn_revision n \<and> wn_run_id (f n) = wn_run_id n"
  shows "filter (\<lambda>n. wn_run_id n = run \<and> wn_revision n = rv) (sql_update (at_node run home nid) f ns) =
    filter (\<lambda>n. wn_run_id n = run \<and> wn_revision n = rv) ns"
  using assms by (induction ns) (auto simp: sql_update_def at_node_def)

lemma find_hits: "\<exists>x \<in> set xs. P x \<Longrightarrow> (\<And>x. x \<in> set xs \<Longrightarrow> P x \<Longrightarrow> Q x) \<Longrightarrow> \<exists>y. List.find P xs = Some y \<and> Q y"
  by (induction xs) auto

lemma review_fails_steps:
  assumes "review_fails now clo home judged nid result out cause w s = (Inr ef, t)"
  shows "\<exists>f ops cs. t = s\<lparr> db_operations := ops, db_commands := cs, db_nodes := sql_update (at_node (wr_run_id w) home nid) f (db_nodes s) \<rparr> \<and>
    (\<forall>n. wn_status (f n) = Nd_failed \<and> wn_run_id (f n) = wn_run_id n \<and> wn_revision (f n) = wn_revision n \<and>
       wn_node_id (f n) = wn_node_id n \<and> wn_kind (f n) = wn_kind n) \<and>
    sql_changes (at_node (wr_run_id w) home nid) (db_nodes s) = 1 \<and>
    terminal_verdict t (wr_run_id w) judged (Some cause) = Some ef"
proof -
  from assms obtain s1 s2 u1 u2 u3 where a: "upsertOperation (opIdFor (wr_run_id w) home nid) (wr_run_id w) Op_review (Some home) Op_failed (Some result) s = (Inr u1, s1)"
    and b: "setNodeOutcome (wr_run_id w) home nid Nd_failed (Some (JStr out)) None s1 = (Inr u2, s2)"
    and c: "finish_claim now clo s2 = (Inr u3, t)" and v: "terminal_verdict t (wr_run_id w) judged (Some cause) = Some ef"
    by (auto simp: review_fails_def andThen_Inr evaluateTerminal_def split: option.splits)
  from upsert_frame [OF a] finish_frame [OF c] obtain ops cs where "s1 = s\<lparr> db_operations := ops \<rparr>" "t = s2\<lparr> db_commands := cs \<rparr>" by blast
  with b v show ?thesis
    by (intro exI [of _ "\<lambda>n. n\<lparr> wn_status := Nd_failed, wn_outcome := orelse_opt (Some (JStr out)) (wn_outcome n),
         wn_attempt_id := orelse_opt None (wn_attempt_id n) \<rparr>"] exI [of _ ops] exI [of _ cs])
      (auto simp: setNodeOutcome_def exactly_one_Inr update_nodes_def)
qed

text \<open>
  The review of an earlier revision cannot fail its run. When a review node left over from an earlier
  revision is answered with \<open>cannot_assess\<close> about a later one whose nodes have all succeeded, the node is marked failed
  and the effect it commits lets the run succeed: the evaluation looks at the nodes of the judged revision only.
\<close>

theorem failed_rereview_succeeds:
  assumes "unassessable_effect now clo home judged nid reason w s = (Inr ef, t)" "home \<noteq> judged"
    and "listNodes s (wr_run_id w) judged \<noteq> []" "\<And>n. n \<in> set (listNodes s (wr_run_id w) judged) \<Longrightarrow> wn_status n = Nd_succeeded"
    and "\<And>n. n \<in> set (db_nodes s) \<Longrightarrow> wn_run_id n = wr_run_id w \<Longrightarrow> wn_kind n = N_review \<Longrightarrow> wn_status n = Nd_running \<Longrightarrow>
      wn_revision n = home \<and> wn_node_id n = nid"
    and "\<not> hasPendingDelivery s (wr_run_id w)" "policy_of s (wr_run_id w) judged \<noteq> None"
  shows "ef = goto W_succeeded \<and> map_option wn_status (find_node t (wr_run_id w) home nid) = Some Nd_failed"
proof -
  let ?run = "wr_run_id w"
  from assms(1) obtain u s0 u0 s00 where "own_claim clo s = (Inr u, s0)" "requireNode ?run home nid s0 = (Inr u0, s00)"
    and r: "review_fails now clo home judged nid (JObj (verdict_members (V_cannot reason))) reason (''review cannot assess: '' @ reason) w s00 = (Inr ef, t)"
    by (auto simp: unassessable_effect_def andThen_Inr)
  then have "s00 = s" by (auto simp: requireNode_def bind_Inr basic_Inr dest!: final.own_claim_state split: option.splits if_splits)
  from review_fails_steps [OF r, unfolded this] obtain f ops cs where
    t: "t = s\<lparr> db_operations := ops, db_commands := cs, db_nodes := sql_update (at_node ?run home nid) f (db_nodes s) \<rparr>"
    and f: "\<And>n. wn_status (f n) = Nd_failed \<and> wn_run_id (f n) = wn_run_id n \<and> wn_revision (f n) = wn_revision n \<and>
       wn_node_id (f n) = wn_node_id n \<and> wn_kind (f n) = wn_kind n"
    and one: "sql_changes (at_node ?run home nid) (db_nodes s) = 1"
    and v: "terminal_verdict t ?run judged (Some (''review cannot assess: '' @ reason)) = Some ef" by blast
  have l: "listNodes t ?run judged = listNodes s ?run judged"
    using nodes_elsewhere [of judged home f ?run nid "db_nodes s"] assms(2) f by (simp add: t listNodes_def)
  have q: "\<not> review_running t ?run r" for r
  proof -
    have "\<not> (wn_kind n = N_review \<and> wn_status n = Nd_running)" if "n \<in> set (db_nodes t)" "wn_run_id n = ?run" for n
    proof -
      from that(1) obtain m where m: "m \<in> set (db_nodes s)" "n = (if at_node ?run home nid m then f m else m)"
        by (auto simp: t sql_update_def)
      show ?thesis
      proof (cases "at_node ?run home nid m")
        case True with m f [of m] show ?thesis by simp
      next
        case False
        with m assms(5) [OF m(1)] that(2) show ?thesis by (auto simp: at_node_def)
      qed
    qed
    then show ?thesis by (auto simp: review_running_def listNodes_def list_ex_iff)
  qed
  obtain po where po: "policy_of t ?run judged = Some po" using assms(7) by (auto simp: t policy_of_def getPlan_def)
  have "failed_required po (listNodes t ?run judged) = []"
    using assms(4) by (auto simp: l failed_required_def filter_empty_conv)
  moreover have "\<not> list_ex node_open (listNodes t ?run judged)"
    using assms(4) by (auto simp: l list_ex_iff node_open_def)
  moreover have "\<not> hasPendingDelivery t ?run" using assms(6) by (simp add: t hasPendingDelivery_def)
  ultimately have "terminal_verdict t ?run judged c = Some (goto W_succeeded)" for c
    using assms(3) q po unfolding terminal_verdict_def Let_def by (simp add: l list_ex_iff del: upt_Suc)
  with v have "ef = goto W_succeeded" by simp
  moreover have "\<exists>y. find_node t ?run home nid = Some y \<and> wn_status y = Nd_failed"
    unfolding find_node_def
  proof (rule find_hits)
    from one obtain m where m: "m \<in> set (db_nodes s)" "at_node ?run home nid m"
      by (metis One_nat_def sql_changes_0 zero_neq_one)
    then have "f m \<in> set (db_nodes t)" by (auto simp: t sql_update_def)
    with m f [of m] show "\<exists>x \<in> set (listNodes t ?run home). wn_node_id x = nid" by (auto simp: listNodes_def at_node_def)
    show "wn_status x = Nd_failed" if "x \<in> set (listNodes t ?run home)" "wn_node_id x = nid" for x
      using that f by (auto simp: listNodes_def t sql_update_def at_node_def)
  qed
  ultimately show ?thesis by auto
qed

definition rereview_db :: swarm_db where
  "rereview_db = sample_db\<lparr> db_plans := [\<lparr> pv_run_id = ''r'', pv_revision = 2, pv_plan = JObj [(''nodes'', JArr [])] \<rparr>],
     db_nodes := [tested_node\<lparr> wn_node_id := ''n1_1_review'', wn_kind := N_review, wn_status := Nd_running \<rparr>,
       tested_node\<lparr> wn_revision := 2, wn_node_id := ''n2_0_a'' \<rparr>] \<rparr>"

lemma failed_rereview_succeeds_witness:
  "\<exists>t. unassessable_effect 1000 None 1 2 ''n1_1_review'' ''no evidence'' sample_run rereview_db = (Inr (goto W_succeeded), t)"
proof -
  let ?m = "unassessable_effect 1000 None 1 2 ''n1_1_review'' ''no evidence'' sample_run rereview_db"
  have "\<exists>ef t. ?m = (Inr ef, t)"
    by (simp add: unassessable_effect_def review_fails_def own_claim_def requireNode_def upsertOperation_def setNodeOutcome_def
        finish_claim_def evaluateTerminal_def terminal_verdict_def call_simps find_node_def listNodes_def node_open_def Let_def
        exactly_one_def update_nodes_def op_clash_def review_running_def hasPendingDelivery_def policy_of_def getPlan_def
        readable_nodes_def jget_def failed_required_def rereview_db_def finished_simps at_node_def)
  then obtain ef t where m: "?m = (Inr ef, t)" by blast
  have "ef = goto W_succeeded \<and> map_option wn_status (find_node t (wr_run_id sample_run) 1 ''n1_1_review'') = Some Nd_failed"
    by (rule failed_rereview_succeeds [OF m])
      (auto simp: listNodes_def hasPendingDelivery_def policy_of_def getPlan_def readable_nodes_def jget_def rereview_db_def finished_simps)
  with m show ?thesis by blast
qed

end
