(* ===== verification/WorkflowWrites.thy ===== *)
theory WorkflowWrites
  imports WorkflowSafety
begin

text \<open>
  The writes of the workflow tables. Only the workflow store writes them: whoever else touches the database
  (executors, reviewers, planners, the settlement of peer roots) either leaves them alone or goes through a writer
  of the store. The relation \<open>workflow_write\<close> says so, one rule per writer, with no say on what the writers keep;
  what they keep is proved here, and every operation of the runner is shown to be such a write.
\<close>

section \<open>The relation\<close>

text \<open>
  Outside the store: the workflow tables stay as they are. Input requests are shared with the review store;
  their id is the primary key of the table.
\<close>

definition tables_alone :: "swarm_db \<Rightarrow> swarm_db \<Rightarrow> bool" where
  "tables_alone s t \<longleftrightarrow> db_workflow_runs t = db_workflow_runs s \<and> db_plans t = db_plans s \<and> db_nodes t = db_nodes s \<and>
     db_deps t = db_deps s \<and> db_operations t = db_operations s \<and> db_budgets t = db_budgets s \<and>
     db_commands t = db_commands s \<and> db_ingress t = db_ingress s \<and> db_wdeliveries t = db_wdeliveries s \<and>
     (keyed iq_id (db_inputs s) \<longrightarrow> keyed iq_id (db_inputs t))"

inductive workflow_write :: "swarm_db \<Rightarrow> swarm_db \<Rightarrow> bool" where
  elsewhere: "tables_alone s t \<Longrightarrow> workflow_write s t"
| composed: "workflow_write s t \<Longrightarrow> workflow_write t u \<Longrightarrow> workflow_write s u"
| w_committed: "(\<And>w s. workflow_write s (snd (applier w s))) \<Longrightarrow> workflow_write s (snd (commitTransition now e applier s))"
| w_admitted: "workflow_write s (snd (admitRun sha now ri s))"
| w_revision: "workflow_write s (snd (insertPlanRevision run rv p s))"
| w_nodes: "workflow_write s (snd (insertNodes run rv ns s))"
| w_deps: "workflow_write s (snd (insertDeps run rv ds s))"
| w_bound: "workflow_write s (snd (bindNodeWorker run rv nid c a s))"
| w_running: "workflow_write s (snd (markNodeRunning run rv nid s))"
| w_outcome: "workflow_write s (snd (setNodeOutcome run rv nid st out ao s))"
| w_skipped: "workflow_write s (snd (skipDependents run rv nid s))"
| w_satisfied: "workflow_write s (snd (satisfyDependents run rv nid s))"
| w_queued: "workflow_write s (snd (queueCommand now k payload s))"
| w_claimed: "workflow_write s (snd (claimCommand now k owner tok s))"
| w_completed: "workflow_write s (snd (completeCommand now k owner tok s))"
| w_released: "workflow_write s (snd (releaseClaim k owner tok s))"
| w_cancelled: "workflow_write s (snd (cancelCommand now k s))"
| w_superseded: "workflow_write s (snd (supersedeCommand now k s))"
| w_pending_cancelled: "workflow_write s (snd (cancelPendingCommands now run s))"
| w_alive: "workflow_write s (snd (noteInspectionAlive now k g interval s))"
| w_extended: "workflow_write s (snd (noteInspectionAliveForMillis now k g ms s))"
| w_inconclusive: "workflow_write s (snd (noteInspectionInconclusive now k g i s))"
| w_delivery: "workflow_write s (snd (insertDelivery run nid obligation s))"
| w_delivered: "workflow_write s (snd (setDeliveryOutcome run nid dv receipt s))"
| w_bumped: "workflow_write s (snd (bumpDeliveryAttempts run nid s))"
| w_operation: "workflow_write s (snd (upsertOperation op run kind rvo ost result s))"
| w_closed: "workflow_write s (snd (closeOpenOperations run ost res s))"
| w_budget: "workflow_write s (snd (consumeBudget run scope s))"
| w_prior: "workflow_write s (snd (cancelPriorNodes run rv spare s))"
| w_run_cancelled: "workflow_write s (snd (cancelRun now run root s))"
| w_asked: "workflow_write s (snd (insertInputRequest iid run root question criteria ikind s))"
| w_answered: "workflow_write s (snd (answerInputRequest iid response s))"
| w_consumed: "workflow_write s (snd (consumeIngressNoop now iid s))"

lemma tables_alone_refl [simp]: "tables_alone s s"
  by (simp add: tables_alone_def)

lemma beside_alone: "beside s t \<Longrightarrow> tables_alone s t"
  by (simp add: beside_def tables_alone_def)

lemmas store_writes = w_admitted w_revision w_nodes w_deps w_bound w_running w_outcome w_skipped w_satisfied w_queued w_claimed
  w_completed w_released w_cancelled w_superseded w_pending_cancelled w_alive w_extended w_inconclusive w_delivery w_delivered
  w_bumped w_operation w_closed w_budget w_prior w_run_cancelled w_asked w_answered w_consumed

interpretation stored: preserved workflow_write
  by unfold_locales (auto intro: elsewhere composed)

lemma stored_commit: "(\<And>v. stored.moves (applier v)) \<Longrightarrow> stored.moves (commitTransition now e applier)"
  by (auto simp: stored.moves_def intro: w_committed)

text \<open>Every operation of the runner writes through the store.\<close>

interpretation ledger: runner_calls workflow_write
  by unfold_locales (auto simp: stored.moves_def intro: store_writes w_committed elsewhere beside_alone)

section \<open>What the writers keep\<close>

lemma typed_consumed: "typed.moves (consumeIngressNoop now iid)"
  unfolding consumeIngressNoop_def consume_event_def by (intro typed_rules) simp

lemma typed_extended: "typed.moves (noteInspectionAliveForMillis now k g ms)"
  unfolding noteInspectionAliveForMillis_def by (rule typed_rules)

theorem written_tables: "workflow_write s t \<Longrightarrow> wf_tables s \<Longrightarrow> wf_tables t"
proof (induction rule: workflow_write.induct)
  case (elsewhere s t)
  then show ?case by (auto simp: tables_alone_def wf_tables_def)
next
  case (w_committed applier s now e)
  then have "typed.moves (applier w)" for w by (simp add: typed.moves_def)
  from typed_commitTransition [OF this] w_committed.prems show ?case by (simp add: typed.moves_def)
qed (use typed_rules typed_consumed typed_extended in \<open>simp_all only: typed.moves_def\<close>)

text \<open>
  A command that was completed or cancelled stays so. Only the counters of its inspection may still be written.
\<close>

definition ended :: "command_row \<Rightarrow> bool" where
  "ended c \<longleftrightarrow> wc_status c = Cm_done \<or> wc_status c = Cm_cancelled"

definition same_end :: "command_row \<Rightarrow> command_row \<Rightarrow> bool" where
  "same_end c c' \<longleftrightarrow> (\<exists>g i n. c' = c\<lparr> wc_inspect_gen := g, wc_inconclusive := i, wc_next_inspection_at := n \<rparr>)"

definition ends_kept :: "swarm_db \<Rightarrow> swarm_db \<Rightarrow> bool" where
  "ends_kept s t \<longleftrightarrow> (\<forall>c \<in> set (db_commands s). ended c \<longrightarrow> (\<exists>c' \<in> set (db_commands t). same_end c c'))"

lemma same_end_refl [simp]: "same_end c c"
proof -
  have "c = c\<lparr> wc_inspect_gen := wc_inspect_gen c, wc_inconclusive := wc_inconclusive c,
     wc_next_inspection_at := wc_next_inspection_at c \<rparr>" by simp
  then show ?thesis unfolding same_end_def by blast
qed

lemma same_end_trans:
  assumes "same_end c d" "same_end d e"
  shows "same_end c e"
proof -
  from assms obtain g i n where "e = c\<lparr> wc_inspect_gen := g, wc_inconclusive := i, wc_next_inspection_at := n \<rparr>"
    by (auto simp: same_end_def)
  then show ?thesis unfolding same_end_def by blast
qed

lemma same_end_ended: "same_end c d \<Longrightarrow> ended d = ended c"
  by (auto simp: same_end_def ended_def)

lemma same_end_row:
  assumes "same_end c d"
  shows "key_of d = key_of c" "at_key k d = at_key k c" "wc_status d = wc_status c" "wc_owner d = wc_owner c"
    "wc_token d = wc_token c" "wc_done_at d = wc_done_at c"
  using assms by (auto simp: same_end_def key_of_def at_key_def)

interpretation spent: preserved ends_kept
proof unfold_locales
  show "ends_kept s s" for s unfolding ends_kept_def using same_end_refl by blast
  fix s t u assume a: "ends_kept s t" and b: "ends_kept t u"
  show "ends_kept s u"
    unfolding ends_kept_def
  proof (intro ballI impI)
    fix c assume c: "c \<in> set (db_commands s)" "ended c"
    with a obtain d where d: "d \<in> set (db_commands t)" "same_end c d" by (auto simp: ends_kept_def)
    with c(2) same_end_ended have "ended d" by simp
    with b d(1) obtain e where "e \<in> set (db_commands u)" "same_end d e" by (auto simp: ends_kept_def)
    with d(2) same_end_trans show "\<exists>c' \<in> set (db_commands u). same_end c c'" by blast
  qed
qed

named_theorems spent_rules

lemma ends_grow: "set (db_commands s) \<subseteq> set (db_commands t) \<Longrightarrow> ends_kept s t"
  unfolding ends_kept_def using same_end_refl by blast

lemma spent_update_commands:
  assumes "\<And>c. ended c \<Longrightarrow> p c \<Longrightarrow> same_end c (f c)"
  shows "spent.moves (update_commands p f)"
proof (rule spent.movesI)
  fix s
  show "ends_kept s (snd (update_commands p f s))"
    unfolding ends_kept_def
  proof (intro ballI impI)
    fix c assume c: "c \<in> set (db_commands s)" "ended c"
    have "(if p c then f c else c) \<in> set (db_commands (snd (update_commands p f s)))"
      using c(1) by (auto simp: update_commands_def sql_update_def)
    moreover have "same_end c (if p c then f c else c)" using assms c(2) by simp
    ultimately show "\<exists>c' \<in> set (db_commands (snd (update_commands p f s))). same_end c c'" by blast
  qed
qed

lemma spent_writes: "(\<And>s. set (db_commands s) \<subseteq> set (db_commands (f s))) \<Longrightarrow> spent.moves (writes f)"
  by (rule spent.moves_writes) (rule ends_grow)

lemma spent_updates [spent_rules]: "spent.moves (update_runs pr fr)" "spent.moves (update_nodes pn fn)" "spent.moves (update_deps pd fd)"
  "spent.moves (update_operations po fo)" "spent.moves (update_budgets pb fb)" "spent.moves (update_deliveries pv fv)"
  "spent.moves (update_inputs pi fi)" "spent.moves (update_ingress pg fg)"
  by (rule spent.movesI; rule ends_grow; simp add: update_runs_def update_nodes_def update_deps_def update_operations_def
      update_budgets_def update_deliveries_def update_inputs_def update_ingress_def)+

lemma spent_fence [spent_rules]: "spent.moves (\<lambda>db. case cancelRun_fence now run root db of (n, db1) \<Rightarrow> (Inr n, db1))"
  by (rule spent.movesI, rule ends_grow)
     (simp add: cancelRun_fence_def update_attempts_def update_reservations_def Let_def case_prod_unfold)

lemma spent_insert_budget [spent_rules]: "spent.moves (insert_budget run sc n)"
  unfolding insert_budget_def by (intro spent.control spent_writes) simp

lemma spent_admitRun: "spent.moves (admitRun sha now ri)"
proof -
  have "spent.moves (insert_run sha now ri)"
    unfolding insert_run_def insert_ingress_def by (intro spent.control spent_rules spent_writes) simp_all
  then show ?thesis unfolding admitRun_def by (intro spent.control)
qed

lemma spent_commands [spent_rules]:
  "spent.moves (queueCommand now k payload)" "spent.moves (claimCommand now k owner tok)"
  "spent.moves (completeCommand now k owner tok)" "spent.moves (releaseClaim k owner tok)" "spent.moves (cancelCommand now k)"
  "spent.moves (supersedeCommand now k)" "spent.moves (cancelPendingCommands now run)"
  "spent.moves (noteInspectionAlive now k g interval)" "spent.moves (noteInspectionInconclusive now k g i)"
  "spent.moves (cancelRun now run root)"
  unfolding queueCommand_def claimCommand_def completeCommand_def releaseClaim_def cancelCommand_def supersedeCommand_def
    cancelPendingCommands_def noteInspectionAlive_def noteInspectionInconclusive_def cancelRun_def exactly_one_def one_row_def
  by (intro spent.control spent_rules spent_update_commands spent_writes; auto simp: ended_def holds_token_def same_end_def)+

lemma spent_writers [spent_rules]:
  "spent.moves (insertPlanRevision run rv p)" "spent.moves (insertNodes run rv ns)" "spent.moves (insertDeps run rv ds)"
  "spent.moves (bindNodeWorker run rv nid cd ao)" "spent.moves (markNodeRunning run rv nid)"
  "spent.moves (setNodeOutcome run rv nid st out a)" "spent.moves (skipDependents run rv nid)"
  "spent.moves (satisfyDependents run rv nid)" "spent.moves (insertDelivery run nid obligation)"
  "spent.moves (setDeliveryOutcome run nid dv receipt)" "spent.moves (bumpDeliveryAttempts run nid)"
  "spent.moves (upsertOperation op run kind rvo ost result)" "spent.moves (closeOpenOperations run ost res)"
  "spent.moves (consumeBudget run scope)" "spent.moves (cancelPriorNodes run rv spare)"
  "spent.moves (insertInputRequest iid run root question criteria ikind)" "spent.moves (answerInputRequest iid response)"
  "spent.moves (consumeIngressNoop now iid)" "spent.moves (noteInspectionAliveForMillis now k g ms)"
  unfolding insertPlanRevision_def insertNodes_def insertNode_def insertDeps_def insertDep_def bindNodeWorker_def markNodeRunning_def
    setNodeOutcome_def skipDependents_def satisfyDependents_def insertDelivery_def setDeliveryOutcome_def bumpDeliveryAttempts_def
    upsertOperation_def closeOpenOperations_def consumeBudget_def cancelPriorNodes_def insertInputRequest_def answerInputRequest_def
    consumeIngressNoop_def consume_event_def noteInspectionAliveForMillis_def exactly_one_def one_row_def Let_def
  by (intro spent.control spent_rules spent_writes; simp)+

lemma spent_commit: "(\<And>w. spent.moves (applier w)) \<Longrightarrow> spent.moves (commitTransition now e applier)"
  unfolding commitTransition_def applyEnvelope_def fence_def apply_event_def consume_event_def exactly_one_def
  by (intro spent.control spent_rules spent_writes; simp)

theorem written_ends: "workflow_write s t \<Longrightarrow> ends_kept s t"
proof (induction rule: workflow_write.induct)
  case (elsewhere s t)
  then show ?case by (auto simp: tables_alone_def intro: ends_grow)
next
  case (composed s t u)
  from composed.IH show ?case by (rule spent.trans)
next
  case (w_committed applier s now e)
  then have "spent.moves (applier w)" for w by (simp add: spent.moves_def)
  from spent_commit [OF this] show ?case by (simp add: spent.moves_def)
qed (use spent_rules spent_admitRun in \<open>simp_all only: spent.moves_def\<close>)

end
