(* ===== verification/WorkflowPromises.thy ===== *)
theory WorkflowPromises
  imports WorkflowVerdict WorkflowWrites
begin

text \<open>
  What the workflow runner promises whatever it is asked to do: the step relation over its operations,
  loops and hooks, and the theorems about its reachable states. The calls the runner makes to the
  outside (executors, reviewers, planners, the reconciler of boot, the settlement of peer roots) are
  parameters that respect what the runner promises.
\<close>

section \<open>Steps\<close>

text \<open>A call respects a relation between the state it starts in and the one it leaves.\<close>

definition obeys :: "(swarm_db \<Rightarrow> swarm_db \<Rightarrow> bool) \<Rightarrow> 'a wf \<Rightarrow> bool" where
  "obeys rel m \<longleftrightarrow> (\<forall>s. rel s (after m s))"

definition outside_obeys ::
    "(swarm_db \<Rightarrow> swarm_db \<Rightarrow> bool) \<Rightarrow> (workflow_run \<Rightarrow> supervision \<Rightarrow> bool wf) \<Rightarrow> ports \<Rightarrow> (string \<Rightarrow> unit wf) \<Rightarrow> bool" where
  "outside_obeys rel peer pt reconcile \<longleftrightarrow> (\<forall>w sv. obeys rel (peer w sv)) \<and> (\<forall>run. obeys rel (reconcile run)) \<and>
     (\<forall>c. obeys rel (pt_dispatch pt c)) \<and>
     (\<forall>mp c b i cl. pt_jobs pt = Some mp \<longrightarrow> obeys rel (mp_review mp c b cl) \<and> obeys rel (mp_plan mp c i cl))"

text \<open>
  The steps: every operation callers have, the loops of the driver, and the hooks. The claim inspection does not
  look at the state of its run; the audit only selects claims of live runs. With \<open>late\<close> it may also come
  after its run has ended; without, it is submitted for a live run only.
\<close>

inductive runner_step ::
    "bool \<Rightarrow> (workflow_run \<Rightarrow> supervision \<Rightarrow> bool wf) \<Rightarrow> ports \<Rightarrow> (string \<Rightarrow> unit wf) \<Rightarrow> swarm_db \<Rightarrow> swarm_db \<Rightarrow> bool"
  for late peer pt reconcile where
  admitted: "we_peer env = peer \<Longrightarrow> runner_step late peer pt reconcile s (after (admitSupervised env ad) s)"
| planned: "we_peer env = peer \<Longrightarrow> runner_step late peer pt reconcile s (after (acceptPlan env run p) s)"
| proposed: "we_peer env = peer \<Longrightarrow> runner_step late peer pt reconcile s (after (submitPlanProposal env run p opts) s)"
| round_rejected: "we_peer env = peer \<Longrightarrow> runner_step late peer pt reconcile s (after (rejectPlanRound env run ps opts) s)"
| succeeded: "we_peer env = peer \<Longrightarrow> runner_step late peer pt reconcile s (after (attemptSucceeded env run nid a out) s)"
| failed: "we_peer env = peer \<Longrightarrow> runner_step late peer pt reconcile s (after (attemptFailed env run nid a cause safe) s)"
| judged: "we_peer env = peer \<Longrightarrow> runner_step late peer pt reconcile s (after (submitVerdict env run nid v cl) s)"
| cancelled: "we_peer env = peer \<Longrightarrow> runner_step late peer pt reconcile s (after (requestCancelRun env run cause) s)"
| run_failed: "we_peer env = peer \<Longrightarrow> runner_step late peer pt reconcile s (after (failRun env run code reason) s)"
| asked: "we_peer env = peer \<Longrightarrow> runner_step late peer pt reconcile s (after (requestInput env run q cr ikind) s)"
| answered: "we_peer env = peer \<Longrightarrow> runner_step late peer pt reconcile s (after (answerInput env iid response) s)"
| delivered: "we_peer env = peer \<Longrightarrow> runner_step late peer pt reconcile s (after (executeDelivery env snd_to run nid) s)"
| inspected: "we_peer env = peer \<Longrightarrow> runner_step late peer pt reconcile s (after (inspectClaim env run k g) s)"
| handed_off: "we_peer env = peer \<Longrightarrow> runner_step late peer pt reconcile s (after (acceptShaHandoff env c stage result final) s)"
| refused: "we_peer env = peer \<Longrightarrow> runner_step late peer pt reconcile s (after (submitBreakerRefused env run nid resource i) s)"
| projected: "we_peer env = peer \<Longrightarrow> runner_step late peer pt reconcile s (after (projectTerminalProjections env run) s)"
| job_inspected: "we_peer env = peer \<Longrightarrow> runner_step late peer pt reconcile s (after (submitModelJobInspection env run tok g own ms) s)"
| job_failed: "we_peer env = peer \<Longrightarrow> runner_step late peer pt reconcile s (after (failModelJob env run cl reason) s)"
| interrupted: "we_peer env = peer \<Longrightarrow> runner_step late peer pt reconcile s (after (interruptRun env run) s)"
| claim_submitted: "we_peer env = peer \<Longrightarrow> late \<or> (\<forall>w. getRun s run = Some w \<longrightarrow> \<not> run_terminal (wr_state w)) \<Longrightarrow>
    runner_step late peer pt reconcile s (after (submitClaimInspection env run tok g) s)"
| completions: "we_peer env = peer \<Longrightarrow> runner_step late peer pt reconcile s (after (recoverUnconsumedCompletions env limit) s)"
| drained: "we_peer env = peer \<Longrightarrow> runner_step late peer pt reconcile s (after (drain env limit pt policy) s)"
| recovered: "we_peer env = peer \<Longrightarrow> runner_step late peer pt reconcile s (after (startupRecovery env (Some reconcile)) s)"
| barred: "we_peer env = peer \<Longrightarrow> runner_step late peer pt reconcile s (after (failInterruptedWorkflows env wm) s)"
| settled_by: "we_peer env = peer \<Longrightarrow> commitSupervisedOutcome env stored sa s = Some t \<Longrightarrow> runner_step late peer pt reconcile s t"

text \<open>What every instance of \<open>runner_calls\<close> says of the steps.\<close>

context runner_calls
begin

lemma obeys_moves: "obeys rel m \<longleftrightarrow> moves m"
  by (simp add: obeys_def moves_def after_def)

lemma moves_after: "moves m \<Longrightarrow> rel s (after m s)"
  by (simp add: moves_def after_def)

lemma outside_ok:
  assumes "outside_obeys rel peer pt reconcile"
  shows "we_peer env = peer \<Longrightarrow> peer_ok env" "ports_ok pt" "moves (reconcile run)"
  using assms by (auto simp: outside_obeys_def obeys_moves peer_ok_def ports_ok_def)

lemma moves_interrupted_runs: "peer_ok env \<Longrightarrow> moves (failInterruptedWorkflows env wm)"
  unfolding failInterruptedWorkflows_def by (rule moves_barrier)

lemma live_claim_inspection:
  assumes p: "peer_ok env" and l: "\<And>w. getRun s run = Some w \<Longrightarrow> \<not> run_terminal (wr_state w)"
  shows "rel s (after (submitClaimInspection env run tok g) s)"
proof (cases "getRun s run")
  case None
  then show ?thesis by (simp add: after_def submitClaimInspection_def requireRun_def call_simps refl)
next
  case (Some w)
  have e: "wr_run_id w = run" using getRun_id [OF Some] .
  have "live_moves w (bind (reads (\<lambda>db. findCommandByToken db tok)) (\<lambda>cmd. case cmd of
       None \<Rightarrow> throw E_token_unknown
     | Some c \<Rightarrow> (if wc_run_id c \<noteq> run then throw E_token_unknown
         else apply_claim_expired env (event_for env w (''inspect-'' @ tok @ ''-'' @ show_int g) (claim_payload (key_of c) g))
           (key_of c) g)))"
    unfolding apply_claim_expired_def using p by (intro live live_commit both) (simp_all add: e)
  with live_rows(1) [OF Some l [OF Some]] have "rel s (snd (bind (reads (\<lambda>db. findCommandByToken db tok)) (\<lambda>cmd. case cmd of
       None \<Rightarrow> throw E_token_unknown
     | Some c \<Rightarrow> (if wc_run_id c \<noteq> run then throw E_token_unknown
         else apply_claim_expired env (event_for env w (''inspect-'' @ tok @ ''-'' @ show_int g) (claim_payload (key_of c) g))
           (key_of c) g)) s))" by (simp add: live_moves_def)
  with Some show ?thesis by (simp add: after_def submitClaimInspection_def requireRun_def call_simps)
qed

lemma step_rel:
  assumes "runner_step late peer pt reconcile s t" and o: "outside_obeys rel peer pt reconcile"
    and late: "\<And>env run tok g. late \<Longrightarrow> peer_ok env \<Longrightarrow> moves (submitClaimInspection env run tok g)"
  shows "rel s t"
  using assms(1)
proof cases
  case (settled_by env stored sa)
  from hook_respects [OF outside_ok(1) [OF o settled_by(1)] settled_by(2)] show ?thesis .
next
  case (recovered env)
  have "moves (startupRecovery env (Some reconcile))"
    by (rule moves_startupRecovery) (use outside_ok [OF o] recovered in auto)
  with recovered show ?thesis by (simp add: moves_after)
next
  case (claim_submitted env run tok g)
  note p = outside_ok(1) [OF o claim_submitted(2)]
  from claim_submitted(3) show ?thesis
  proof
    assume late
    from moves_after [OF assms(3) [OF this p]] claim_submitted(1) show ?thesis by simp
  next
    assume "\<forall>w. getRun s run = Some w \<longrightarrow> \<not> run_terminal (wr_state w)"
    with live_claim_inspection [OF p] claim_submitted(1) show ?thesis by blast
  qed
qed (use outside_ok(1,2) [OF o] in \<open>simp_all add: moves_after moves_admitSupervised moves_acceptPlan moves_submitPlanProposal
      moves_rejectPlanRound moves_attemptSucceeded moves_attemptFailed moves_submitVerdict moves_requestCancel moves_failRun
      moves_requestInput moves_answerInput moves_executeDelivery moves_inspectClaim moves_acceptShaHandoff
      moves_submitBreakerRefused moves_project moves_submitModelJobInspection moves_failModelJob moves_interruptRun
      moves_recover moves_drain moves_interrupted_runs\<close>)

lemma steps_rel:
  assumes "(runner_step False peer pt reconcile)\<^sup>*\<^sup>* s t" "outside_obeys rel peer pt reconcile"
  shows "rel s t"
  using assms(1) by (induction rule: rtranclp_induct) (auto intro: refl trans step_rel [OF _ assms(2)])

end

text \<open>A late claim inspection commits for a run that has ended; it writes through the store like every other operation.\<close>

lemma written_inspection: "ledger.peer_ok env \<Longrightarrow> stored.moves (submitClaimInspection env run tok g)"
  unfolding submitClaimInspection_def requireRun_def apply_claim_expired_def commitWithProjections_def
  by (intro stored.control stored_commit ledger.moves_claim_expired ledger.moves_after_commit)

text \<open>
  The steps with everything that may happen between them: whoever else writes the workflow tables goes through a
  writer of the store.
\<close>

definition workflow_step ::
    "(workflow_run \<Rightarrow> supervision \<Rightarrow> bool wf) \<Rightarrow> ports \<Rightarrow> (string \<Rightarrow> unit wf) \<Rightarrow> swarm_db \<Rightarrow> swarm_db \<Rightarrow> bool" where
  "workflow_step peer pt reconcile s t \<longleftrightarrow> runner_step True peer pt reconcile s t \<or> workflow_write s t"

lemma steps_written:
  assumes "(workflow_step peer pt reconcile)\<^sup>*\<^sup>* s t" "outside_obeys workflow_write peer pt reconcile"
  shows "workflow_write s t"
  using assms(1)
  by (induction rule: rtranclp_induct)
     (auto simp: workflow_step_def intro: elsewhere composed ledger.step_rel [OF _ assms(2) written_inspection])

section \<open>The promises\<close>

lemma keyed_first: "keyed k t \<Longrightarrow> r \<in> set t \<Longrightarrow> k r = x \<Longrightarrow> sql_first (\<lambda>r. k r = x) t = Some r"
  by (cases "sql_first (\<lambda>r. k r = x) t") (auto simp: sql_first_None dest: sql_first_SomeD keyed_unique)

lemma kept_terminal:
  assumes r: "runs_kept s t" and k: "keyed wr_run_id (db_workflow_runs s)"
    and g: "getRun s run = Some w" and w: "run_terminal (wr_state w)"
  shows "getRun t run = Some w"
proof -
  let ?n = "length (db_workflow_runs s)"
  from r k have k': "keyed wr_run_id (db_workflow_runs t)"
    and l: "list_all2 settled (db_workflow_runs s) (take ?n (db_workflow_runs t))" by (simp_all add: runs_kept_def)
  from g have m: "w \<in> set (db_workflow_runs s)" "wr_run_id w = run"
    unfolding getRun_def by (auto dest: sql_first_SomeD)
  from m(1) obtain i where i: "i < ?n" "db_workflow_runs s ! i = w" by (metis in_set_conv_nth)
  from list_all2_nthD [OF l i(1)] i w have "take ?n (db_workflow_runs t) ! i = w" by (simp add: settled_def)
  moreover from list_all2_lengthD [OF l] i(1) have "i < length (take ?n (db_workflow_runs t))" by simp
  ultimately have "w \<in> set (db_workflow_runs t)" by (metis in_set_takeD nth_mem)
  with k' m(2) show ?thesis
    unfolding getRun_def by (auto intro: keyed_first)
qed

text \<open>
  C1: The workflow tables stay well formed. Whatever operations, drains, recoveries, inspections, barriers and
  settlement hooks run, in any order and with any clock, ids and inputs, and whatever other code writes through the
  store in between: primary keys and unique indexes hold, a run has at most one open operation per kind and revision,
  a claim token names one command, and no budget is overdrawn. Of the executors, reviewers, planners, the reconciler
  and the settlement of peer roots it is assumed only that they write the workflow tables through the store.
\<close>

theorem workflow_tables_kept:
  assumes "(workflow_step peer pt reconcile)\<^sup>*\<^sup>* s t" "outside_obeys workflow_write peer pt reconcile" "wf_tables s"
  shows "wf_tables t"
  by (rule written_tables [OF steps_written [OF assms(1,2)] assms(3)])

text \<open>
  C3: A terminal run is final. Once a run has succeeded, failed or been cancelled no later step changes its row:
  not its state, its version, its failure or its root, provided that claim inspections are submitted for live runs
  only, as the audit selects them: the inspection itself does not look at the state of the run. Executors, reviewers,
  planners, the reconciler and the settlement of peer roots are assumed to leave terminal runs alone.
\<close>

theorem terminal_run_final:
  assumes "(runner_step False peer pt reconcile)\<^sup>*\<^sup>* s t" "outside_obeys runs_kept peer pt reconcile"
    and "keyed wr_run_id (db_workflow_runs s)" "getRun s run = Some w" "run_terminal (wr_state w)"
  shows "getRun t run = Some w"
  by (rule kept_terminal [OF final.steps_rel [OF assms(1,2)] assms(3-5)])

lemma ended_stays:
  assumes w: "workflow_write s t" and k: "wf_tables s" and c: "getCommand s k = Some c" "ended c"
  shows "\<exists>c'. getCommand t k = Some c' \<and> same_end c c'"
proof -
  from c(1) have m: "c \<in> set (db_commands s)" "key_of c = k" unfolding getCommand_key by (auto dest: sql_first_SomeD)
  with written_ends [OF w] c(2) obtain c' where d: "c' \<in> set (db_commands t)" "same_end c c'" by (auto simp: ends_kept_def)
  with commands_keyed [OF written_tables [OF w k]] m(2) same_end_row(1) [OF d(2)] have "getCommand t k = Some c'"
    unfolding getCommand_key by (intro keyed_first) simp_all
  with d(2) show ?thesis by blast
qed

text \<open>
  C16: A claim ends once. A command is completed only by the owner and token that hold its claim. From then on,
  through any steps of the runner and any other writes through the store, it stays done with the same owner, token
  and time, and no owner or token can complete it, release it or claim it again.
\<close>

theorem claim_ends_once:
  assumes "wf_tables db" "completeCommand now k owner tok db = (Inr (), db')"
    and "(workflow_step peer pt reconcile)\<^sup>*\<^sup>* db' t" "outside_obeys workflow_write peer pt reconcile"
  shows "(\<exists>c. getCommand db k = Some c \<and> holds_token k owner tok c \<and>
        getCommand db' k = Some (c\<lparr> wc_status := Cm_done, wc_done_at := Some (sqliteNow now), wc_next_inspection_at := None \<rparr>)) \<and>
     (\<exists>c. getCommand t k = Some c \<and> wc_status c = Cm_done \<and> wc_owner c = Some owner \<and> wc_token c = Some tok \<and>
        wc_done_at c = Some (sqliteNow now)) \<and>
     (\<forall>now2 owner2 tok2. completeCommand now2 k owner2 tok2 t = (Inl E_complete_rejected, t) \<and>
        releaseClaim k owner2 tok2 t = (Inr False, t) \<and> claimCommand now2 k owner2 tok2 t = (Inr None, t))"
proof -
  from completed_claim [OF assms(1,2)] obtain c where c: "getCommand db k = Some c" "holds_token k owner tok c"
    "getCommand db' k = Some (c\<lparr> wc_status := Cm_done, wc_done_at := Some (sqliteNow now), wc_next_inspection_at := None \<rparr>)"
    (is "_ = Some ?d") by blast
  have w: "wf_tables db'" using typed_completeCommand [of now k owner tok] assms(1,2) by (auto simp: typed.moves_def dest: spec [of _ db])
  note run = steps_written [OF assms(3,4)]
  obtain c' where c': "getCommand t k = Some c'" "same_end ?d c'" using ended_stays [OF run w c(3)] by (auto simp: ended_def)
  from same_end_row [OF c'(2)] c(2) have f: "wc_status c' = Cm_done" "wc_owner c' = Some owner" "wc_token c' = Some tok"
    "wc_done_at c' = Some (sqliteNow now)" by (simp_all add: holds_token_def)
  note refuses = ended_refuses [OF commands_keyed [OF written_tables [OF run w]] c'(1)]
  from c c' f refuses show ?thesis by simp
qed

definition calm_peer :: "workflow_run \<Rightarrow> supervision \<Rightarrow> bool wf" where
  "calm_peer w sv = return True"

definition calm_env :: wenv where
  "calm_env = \<lparr> we_now = 1000, we_sha = (\<lambda>_. ''h''), we_uid = (\<lambda>_. ''u''), we_caps = [], we_redact = (\<lambda>s. s),
     we_report = (\<lambda>_ _. No_report), we_wording = (\<lambda>_. []), we_directory = (\<lambda>_. []), we_resolve = Some, we_peer = calm_peer \<rparr>"

definition calm_ports :: ports where
  "calm_ports = \<lparr> pt_executor = [], pt_dispatch = (\<lambda>_. return ()), pt_jobs = None \<rparr>"

lemma calm_outside: "(\<And>s. rel s s) \<Longrightarrow> outside_obeys rel calm_peer calm_ports (\<lambda>_. return ())"
  by (simp add: outside_obeys_def obeys_def after_def calm_peer_def calm_ports_def call_simps)

lemma calm_env_peer: "we_peer calm_env = calm_peer"
  by (simp add: calm_env_def)

lemma calm_steps:
  "(workflow_step calm_peer calm_ports (\<lambda>_. return ()))\<^sup>*\<^sup>* s (after (submitClaimInspection calm_env ''r'' ''t'' 1) (after (failRun calm_env ''r'' ''node_failed'' ''why'') s))"
proof -
  let ?step = "workflow_step calm_peer calm_ports (\<lambda>_. return ())" and ?f = "after (failRun calm_env ''r'' ''node_failed'' ''why'') s"
  have "?step s ?f" unfolding workflow_step_def by (rule disjI1) (rule run_failed [OF calm_env_peer])
  moreover have "?step ?f (after (submitClaimInspection calm_env ''r'' ''t'' 1) ?f)"
    unfolding workflow_step_def by (rule disjI1) (rule claim_submitted [OF calm_env_peer], simp)
  ultimately show ?thesis by (rule converse_rtranclp_into_rtranclp [OF _ r_into_rtranclp])
qed

lemma workflow_tables_kept_witness:
  "wf_tables (after (submitClaimInspection calm_env ''r'' ''t'' 1) (after (failRun calm_env ''r'' ''node_failed'' ''why'') sample_db))"
  by (rule workflow_tables_kept [OF calm_steps calm_outside [OF elsewhere [OF tables_alone_refl]] wf_sample_db])

lemma claim_ends_once_witness:
  "completeCommand 9 sample_key ''other'' ''u'' (after (submitClaimInspection calm_env ''r'' ''t'' 1)
       (after (failRun calm_env ''r'' ''node_failed'' ''why'') (snd (completeCommand 1 sample_key ''me'' ''t'' claimed_db)))) =
     (Inl E_complete_rejected, after (submitClaimInspection calm_env ''r'' ''t'' 1)
       (after (failRun calm_env ''r'' ''node_failed'' ''why'') (snd (completeCommand 1 sample_key ''me'' ''t'' claimed_db))))"
  using claim_ends_once [OF wf_claimed_db claimed_completes calm_steps calm_outside [OF elsewhere [OF tables_alone_refl]]] by blast

definition ended_run :: workflow_run where
  "ended_run = sample_run\<lparr> wr_run_id := ''done'', wr_client_operation_id := ''op2'', wr_state := W_succeeded \<rparr>"

lemma terminal_run_final_witness:
  "getRun (after (interruptRun calm_env ''r'') (sample_db\<lparr> db_workflow_runs := [sample_run, ended_run] \<rparr>)) ''done'' = Some ended_run"
proof -
  let ?s = "sample_db\<lparr> db_workflow_runs := [sample_run, ended_run] \<rparr>"
  have "keyed wr_run_id (db_workflow_runs ?s)" "getRun ?s ''done'' = Some ended_run" "run_terminal (wr_state ended_run)"
    by (simp_all add: keyed_def sample_run_def ended_run_def getRun_def)
  moreover have "(runner_step False calm_peer calm_ports (\<lambda>_. return ()))\<^sup>*\<^sup>* ?s (after (interruptRun calm_env ''r'') ?s)"
    using interrupted [OF calm_env_peer] by (rule r_into_rtranclp)
  ultimately show ?thesis using terminal_run_final [OF _ calm_outside] runs_same by blast
qed

text \<open>
  C5: The hook respects settlement. Settlement calls the workflow runner inside its own transaction and relies on
  two laws of the hook it is given: attempts only evolve, and nobody is charged. The runner's hook keeps both.
\<close>

theorem hook_respects_settlement:
  assumes "\<And>w sv. obeys uncharged (we_peer env w sv)"
  shows "hook_ok (commitSupervisedOutcome env stored) \<and> hook_keeps_tokens (commitSupervisedOutcome env stored)"
proof -
  have "bill.peer_ok env" using assms by (simp add: bill.peer_ok_def bill.obeys_moves)
  from bill.hook_respects [OF this] have u: "commitSupervisedOutcome env stored sa d = Some d' \<Longrightarrow> uncharged d d'" for sa d d' .
  have "hook_ok (commitSupervisedOutcome env stored)"
    using u unfolding hook_ok_def uncharged_def by (blast intro: fenced_evolves)
  moreover have "hook_keeps_tokens (commitSupervisedOutcome env stored)"
    using u by (auto simp: hook_keeps_tokens_def uncharged_def)
  ultimately show ?thesis ..
qed

lemma hook_respects_settlement_witness: "hook_ok (commitSupervisedOutcome calm_env (\<lambda>_. None))"
proof -
  have "obeys uncharged (we_peer calm_env w sv)" for w sv
    by (simp add: calm_env_peer calm_peer_def obeys_def after_def call_simps uncharged_same)
  from hook_respects_settlement [OF this] show ?thesis ..
qed

section \<open>The startup barrier ends\<close>

lemma interrupted_effect_result: "interrupted_effect now w s = (Inr ef, t) \<Longrightarrow> ef = failing ''observation_unknown'' INTERRUPTED_BY_RESTART"
  by (auto simp: interrupted_effect_def andThen_Inr basic_Inr)

text \<open>An interruption that counts as progress ends its run.\<close>

lemma interrupt_ends:
  assumes i: "interrupt_one env run s = (Inr True, t)" and p: "final.peer_ok env" and k: "keyed wr_run_id (db_workflow_runs s)"
  shows "\<exists>w w'. getRun s run = Some w \<and> \<not> run_terminal (wr_state w) \<and> getRun t run = Some w' \<and> run_terminal (wr_state w')"
proof -
  have "interruptRun env run s = (Inr True, t)"
    using i by (auto simp: interrupt_one_def bind_Inr basic_Inr split: option.splits if_splits)
  then obtain w where w: "getRun s run = Some w" "\<not> run_terminal (wr_state w)"
    and c: "no_conflict (commitWithProjections env
           (event_for env w (''restart-interrupt-'' @ run)
             (payload_of ''StartupInterrupted'' (JObj [(''reason'', JStr INTERRUPTED_BY_RESTART)])))
           (interrupted_effect (we_now env))) s = (Inr Committed, t)" (is "no_conflict (commitWithProjections env ?e ?a) s = _")
    by (auto simp: interruptRun_def bind_Inr basic_Inr split: option.splits if_splits)
  from c obtain t1 u where m: "commitTransition (we_now env) ?e ?a s = (Inr Committed, t1)"
    and pr: "projectAfterCommit env (rn_run_id ?e) Committed t1 = (Inr u, t)"
    by (auto simp: no_conflict_def commitWithProjections_def bind_Inr andThen_Inr basic_Inr split: if_splits)
  have e: "rn_run_id ?e = run" using final.getRun_id [OF w(1)] by simp
  let ?b = "\<lambda>ef w. bump_run (we_now env) (ef\<lparr> ef_next_state := Some (orelse (ef_next_state ef) (wr_state w)) \<rparr>)"
  obtain w0 s1 ef u1 where c0: "getRun s (rn_run_id ?e) = Some w0" "?a w0 s1 = (Inr ef, u1)" "\<not> ef_noop ef"
    "db_workflow_runs t1 = sql_update (\<lambda>r. wr_run_id r = rn_run_id ?e \<and> wr_state_version r = rn_state_version ?e)
        (?b ef w0) (db_workflow_runs s)"
    "wr_state_version w0 = rn_state_version ?e" "\<exists>rs is. t1 = u1\<lparr> db_workflow_runs := rs, db_ingress := is \<rparr>"
    by (rule committed_effect [OF m framed.moves_interrupted])
  note w0 = c0(1,2) [unfolded e] and r = c0(4) [unfolded e] and v = c0(5)
  let ?w = "bump_run (we_now env) (ef\<lparr> ef_next_state := Some (orelse (ef_next_state ef) (wr_state w0)) \<rparr>) w0"
  from interrupted_effect_result [OF w0(2)] have wt: "run_terminal (wr_state ?w)"
    by (simp add: bump_run_def failing_def)
  have g: "getRun t1 run = Some ?w"
  proof -
    have "sql_first (\<lambda>r. wr_run_id r = run) (db_workflow_runs s) = Some w0" using w0(1) by (simp add: getRun_def)
    then show ?thesis unfolding getRun_def r using v
      by (subst sql_first_update) (auto simp: bump_run_def dest: sql_first_SomeD)
  qed
  have "runs_kept s (snd (commitTransition (we_now env) ?e ?a s))"
    by (rule runs_commit [OF live_rows(1) [OF w] final.event_run framed.moves_interrupted])
  then have "runs_kept s t1" unfolding m by simp
  with k have k1: "keyed wr_run_id (db_workflow_runs t1)" by (simp add: runs_kept_def)
  from runs.movesD [OF final.moves_after_commit [OF p] pr] have "runs_kept t1 t" .
  from kept_terminal [OF this k1 g wt] w wt show ?thesis by blast
qed


text \<open>The measure of the barrier: the live runs below the watermark.\<close>

definition live_below :: "nat \<Rightarrow> swarm_db \<Rightarrow> nat" where
  "live_below wm db = length (filter (\<lambda>w. \<not> run_terminal (wr_state w)) (take wm (db_workflow_runs db)))"

lemma settled_fewer:
  "list_all2 settled xs ys \<Longrightarrow> length (filter (\<lambda>w. \<not> run_terminal (wr_state w)) ys) \<le> length (filter (\<lambda>w. \<not> run_terminal (wr_state w)) xs)"
  by (induction rule: list_all2_induct) (auto simp: settled_def)

lemma settled_fewer_still:
  "list_all2 settled xs ys \<Longrightarrow> i < length xs \<Longrightarrow> \<not> run_terminal (wr_state (xs ! i)) \<Longrightarrow> run_terminal (wr_state (ys ! i)) \<Longrightarrow>
   length (filter (\<lambda>w. \<not> run_terminal (wr_state w)) ys) < length (filter (\<lambda>w. \<not> run_terminal (wr_state w)) xs)"
proof (induction arbitrary: i rule: list_all2_induct)
  case (Cons x xs y ys)
  from settled_fewer [OF Cons.hyps(2)] Cons show ?case by (cases i) (fastforce simp: settled_def)+
qed simp

lemma kept_below:
  assumes "runs_kept s t" "keyed wr_run_id (db_workflow_runs s)" "wm \<le> length (db_workflow_runs s)"
  shows "list_all2 settled (take wm (db_workflow_runs s)) (take wm (db_workflow_runs t))"
    "keyed wr_run_id (db_workflow_runs t)" "wm \<le> length (db_workflow_runs t)"
proof -
  from assms have l: "list_all2 settled (db_workflow_runs s) (take (length (db_workflow_runs s)) (db_workflow_runs t))"
    and k: "keyed wr_run_id (db_workflow_runs t)" by (simp_all add: runs_kept_def)
  from list_all2_lengthD [OF l] assms(3) show "wm \<le> length (db_workflow_runs t)" by simp
  from list_all2_takeI [OF l, of wm] assms(3)
  show "list_all2 settled (take wm (db_workflow_runs s)) (take wm (db_workflow_runs t))" by (simp add: min_def)
  show "keyed wr_run_id (db_workflow_runs t)" by (rule k)
qed

lemma progress_shrinks:
  assumes k: "keyed wr_run_id (db_workflow_runs s)" and wm: "wm \<le> length (db_workflow_runs s)"
    and r: "runs_kept s t" and run: "run \<in> set (interrupted_set wm s)"
    and t: "getRun t run = Some w'" "run_terminal (wr_state w')"
  shows "live_below wm t < live_below wm s"
proof -
  from run obtain w where w: "w \<in> set (take wm (db_workflow_runs s))" "wr_run_id w = run" "\<not> run_terminal (wr_state w)"
    unfolding interrupted_set_def by (fastforce dest: in_set_takeD [of _ 100])
  then obtain i where i: "i < length (take wm (db_workflow_runs s))" "take wm (db_workflow_runs s) ! i = w"
    by (metis in_set_conv_nth)
  note l = kept_below(1) [OF r k wm]
  from i(1) list_all2_lengthD [OF l] have it: "i < length (take wm (db_workflow_runs t))" by (simp only:)
  let ?v = "take wm (db_workflow_runs t) ! i"
  from list_all2_nthD [OF l i(1)] i(2) w(2) have "wr_run_id ?v = run" by (simp add: settled_def)
  moreover from it have "?v \<in> set (db_workflow_runs t)" by (metis in_set_takeD nth_mem)
  ultimately have "getRun t run = Some ?v" unfolding getRun_def by (rule keyed_first [OF kept_below(2) [OF r k wm], rotated])
  with t have "run_terminal (wr_state ?v)" by simp
  with settled_fewer_still [OF l i(1)] i(2) w(3) show ?thesis by (simp add: live_below_def)
qed

lemma runs_interrupt_one: "final.peer_ok env \<Longrightarrow> runs.moves (interrupt_one (round_env i env) run)"
  unfolding interrupt_one_def by (intro runs.control final.moves_interruptRun) simp_all

lemma barrier_ends:
  assumes p: "final.peer_ok env"
  shows "keyed wr_run_id (db_workflow_runs s) \<Longrightarrow> wm \<le> length (db_workflow_runs s) \<Longrightarrow> live_below wm s < fuel \<Longrightarrow>
    barrier_passes fuel env wm tally s = (r, t) \<Longrightarrow>
    r \<noteq> Inr None \<and> (\<forall>n. r = Inr (Some n) \<longrightarrow> live_below wm t = 0)"
proof (induction fuel arbitrary: s tally)
  case (Suc fuel)
  show ?case
  proof (cases "interrupted_set wm s = []")
    case True
    then have "live_below wm s = 0" by (auto simp: interrupted_set_def live_below_def)
    with True Suc.prems(4) show ?thesis by (auto simp: call_simps)
  next
    case False
    obtain c u where c: "count_calls (\<lambda>i. interrupt_one (round_env i env)) (interrupted_set wm s) s = (c, u)" by fastforce
    show ?thesis
    proof (cases c)
      case (Inl e)
      with c False Suc.prems(4) show ?thesis by (auto simp: call_simps)
    next
      case (Inr n)
      show ?thesis
      proof (cases "n = 0")
        case True
        with c Inr False Suc.prems(4) show ?thesis by (auto simp: call_simps)
      next
        case n: False
        with c Inr False Suc.prems(4) have rest: "barrier_passes fuel env wm (tally + n) u = (r, t)" by (simp add: call_simps)
        have mv: "runs.moves (count_calls (\<lambda>i. interrupt_one (round_env i env)) xs)" for xs
          by (rule runs.moves_count) (rule runs_interrupt_one [OF p])
        from runs.movesD [OF mv c] have su: "runs_kept s u" .
        from runs.counted_one [OF c [unfolded Inr] runs_interrupt_one [OF p] n] obtain i run s1 t1 where
          run: "run \<in> set (interrupted_set wm s)" and a: "runs_kept s s1" and o: "interrupt_one (round_env i env) run s1 = (Inr True, t1)"
          and b: "runs_kept t1 u" by blast
        from interrupt_ends [OF o] p kept_below(2) [OF a Suc.prems(1,2)] obtain w' where
          w': "getRun t1 run = Some w'" "run_terminal (wr_state w')" by auto
        have "runs_kept s1 t1" using runs.movesD [OF runs_interrupt_one [OF p] o] .
        from kept_below(2) [OF this kept_below(2,3) [OF a Suc.prems(1,2)]] have "keyed wr_run_id (db_workflow_runs t1)" .
        from kept_terminal [OF b this w'] w'(2) have "live_below wm u < live_below wm s"
          using progress_shrinks [OF Suc.prems(1,2) su run] by blast
        with Suc.IH [OF kept_below(2,3) [OF su Suc.prems(1,2)] _ rest] Suc.prems(3) show ?thesis by simp
      qed
    qed
  qed
qed simp

lemma live_below_le: "live_below wm db \<le> wm"
  unfolding live_below_def by (rule le_trans [OF length_filter_le]) simp

text \<open>
  C4: The startup barrier ends. Whatever the peers do to runs that have not ended, the passes stay within
  the watermark: the barrier throws, or it returns and every run below the watermark is terminal.
\<close>

theorem barrier_returns:
  assumes "\<And>w sv. obeys runs_kept (we_peer env w sv)" "keyed wr_run_id (db_workflow_runs s)"
    and "wm \<le> readWorkflowRowWatermark s" "failInterruptedWorkflows env wm s = (r, t)"
  shows "r \<noteq> Inr None \<and> (\<forall>n. r = Inr (Some n) \<longrightarrow> (\<forall>w \<in> set (take wm (db_workflow_runs t)). run_terminal (wr_state w)))"
proof -
  have "final.peer_ok env" using assms(1) by (simp add: final.peer_ok_def final.obeys_moves)
  from barrier_ends [OF this assms(2) _ _ assms(4) [unfolded failInterruptedWorkflows_def]] assms(3) live_below_le [of wm s]
  have "r \<noteq> Inr None \<and> (\<forall>n. r = Inr (Some n) \<longrightarrow> live_below wm t = 0)" by (simp add: readWorkflowRowWatermark_def)
  then show ?thesis by (auto simp: live_below_def filter_empty_conv)
qed

text \<open>A run that has not ended, whose root a peer asked for: one pass interrupts it, the next finds nothing.\<close>

definition barred_db :: swarm_db where
  "barred_db = sample_db\<lparr> db_cards := [(default_card 1 ''w'' ''agent'' 0)\<lparr> k_source := ''peer'' \<rparr>] \<rparr>"

lemma barred_ends: "fst (failInterruptedWorkflows calm_env 1 barred_db) = Inr (Some 1)"
  by code_simp

lemma barrier_returns_witness:
  "\<exists>t. failInterruptedWorkflows calm_env 1 barred_db = (Inr (Some 1), t) \<and>
     (\<forall>w \<in> set (take 1 (db_workflow_runs t)). run_terminal (wr_state w))"
proof -
  obtain t where f: "failInterruptedWorkflows calm_env 1 barred_db = (Inr (Some 1), t)"
    using barred_ends by (metis prod.collapse)
  have "obeys runs_kept (we_peer calm_env w sv)" for w sv
    by (simp add: calm_env_peer calm_peer_def obeys_def after_def call_simps runs_same)
  from barrier_returns [OF this _ _ f] have "\<forall>w \<in> set (take 1 (db_workflow_runs t)). run_terminal (wr_state w)"
    by (simp add: barred_db_def sample_db_def keyed_def readWorkflowRowWatermark_def empty_db_def)
  with f show ?thesis by blast
qed

end
