(* ===== verification/WorkerEvidence.thy ===== *)
theory WorkerEvidence
  imports WorkerEnvelope RetryDecision
begin

text \<open>
  The evaluation of a worker's evidence (\<open>worker-evidence-verifier.ts\<close>, \<open>workspace-paths.ts\<close>): the
  resolution of a workspace path, the run of the verification commands, the observation of the
  artifacts and the verdict on each criterion. The host is a parameter: its file system and clock are
  read from a world that a spawned command may change. Paths are POSIX paths. The contract is a
  normalised one, all of whose arrays are there.
\<close>

section \<open>Paths\<close>

text \<open>The segments of a normalised path: empty ones and \<open>.\<close> are dropped, \<open>..\<close> removes the one before.\<close>

fun walk_segments :: "string list \<Rightarrow> string list \<Rightarrow> string list" where
  "walk_segments acc [] = acc"
| "walk_segments acc (s # ss) = (if s = [] \<or> s = ''.'' then walk_segments acc ss
     else if s = ''..'' then walk_segments (butlast acc) ss else walk_segments (acc @ [s]) ss)"

definition slash :: char where
  "slash = CHR ''/''"

definition segments :: "string \<Rightarrow> string \<Rightarrow> string list" where
  "segments cwd p = walk_segments [] (split_on slash (if prefix ''/'' p then p else cwd @ ''/'' @ p))"

definition absolute_path :: "string list \<Rightarrow> string" where
  "absolute_path ss = slash # join_with ''/'' ss"

text \<open>\<open>path.resolve(root, p)\<close>, \<open>path.relative(a, b)\<close> and \<open>path.dirname(p)\<close> of a path without a trailing slash.\<close>

definition resolve_path :: "string \<Rightarrow> string \<Rightarrow> string \<Rightarrow> string" where
  "resolve_path cwd root p = absolute_path (segments cwd (if prefix ''/'' p then p else root @ ''/'' @ p))"

fun relative_segments :: "string list \<Rightarrow> string list \<Rightarrow> string list" where
  "relative_segments [] ts = ts"
| "relative_segments (f # fs) [] = replicate (Suc (length fs)) ''..''"
| "relative_segments (f # fs) (t # ts) =
     (if f = t then relative_segments fs ts else replicate (Suc (length fs)) ''..'' @ t # ts)"

definition relative_path :: "string \<Rightarrow> string \<Rightarrow> string \<Rightarrow> string" where
  "relative_path cwd a b = join_with ''/'' (relative_segments (segments cwd a) (segments cwd b))"

definition dirname :: "string \<Rightarrow> string" where
  "dirname p = (let q = List.rev (dropWhile (\<lambda>c. c \<noteq> slash) (List.rev p)) in
     if q = [] then ''.'' else if q = ''/'' then q else butlast q)"

definition isPathWithinRoot :: "string \<Rightarrow> string \<Rightarrow> string \<Rightarrow> bool" where
  "isPathWithinRoot cwd root p = (let r = relative_path cwd root p in
     if r = [] then True else if prefix ''/'' r then False else if r = ''..'' then False
     else if prefix ''../'' r then False else True)"

section \<open>The host\<close>

record spawned =
  sp_error :: "string option"
  sp_status :: "int option"
  sp_signal :: "string option"
  sp_stdout :: string
  sp_stderr :: string

text \<open>\<open>stat\<close>, \<open>realpath\<close> and \<open>read\<close> return \<open>Inl\<close> the message they throw; \<open>stat\<close> is whether a directory, and the size.\<close>

record 'w host =
  ho_cwd :: string
  ho_now :: "'w \<Rightarrow> string"
  ho_stat :: "'w \<Rightarrow> string \<Rightarrow> string + (bool \<times> nat)"
  ho_realpath :: "'w \<Rightarrow> string \<Rightarrow> string + string"
  ho_exists :: "'w \<Rightarrow> string \<Rightarrow> bool"
  ho_read :: "'w \<Rightarrow> string \<Rightarrow> string + string"
  ho_spawn :: "json list \<Rightarrow> string \<Rightarrow> json \<Rightarrow> nat \<Rightarrow> 'w \<Rightarrow> spawned \<times> 'w"

datatype workspace_member = Member_ok string | Member_missing | Member_escape | Member_invalid string

function nearest_existing :: "(string \<Rightarrow> bool) \<Rightarrow> string \<Rightarrow> string" where
  "nearest_existing ex p = (if ex p \<or> dirname p = p then p else nearest_existing ex (dirname p))"
  by auto

definition path_measure :: "string \<Rightarrow> nat" where
  "path_measure p = (if slash \<in> set p then 1 + length p else if p = ''.'' then 0 else 1)"

lemma path_measure_le: "path_measure p \<le> Suc (length p)"
  by (simp add: path_measure_def)

lemma dirname_shrinks:
  assumes "dirname p \<noteq> p"
  shows "path_measure (dirname p) < path_measure p"
proof -
  let ?q = "List.rev (dropWhile (\<lambda>c. c \<noteq> slash) (List.rev p))"
  have l: "length ?q \<le> length p" using length_dropWhile_le [of "\<lambda>c. c \<noteq> slash" "List.rev p"] by simp
  show ?thesis
  proof (cases "slash \<in> set p")
    case False
    then have "dropWhile (\<lambda>c. c \<noteq> slash) (List.rev p) = []" by (auto simp: dropWhile_eq_Nil_conv)
    with assms False show ?thesis by (auto simp: dirname_def Let_def path_measure_def slash_def)
  next
    case True
    then have ne: "?q \<noteq> []" by (auto simp: dropWhile_eq_Nil_conv)
    show ?thesis
    proof (cases "?q = ''/''")
      case t: True
      with assms have "p \<noteq> ''/''" "dirname p = ''/''" by (auto simp: dirname_def Let_def)
      moreover from True \<open>p \<noteq> ''/''\<close> have "length p > 1"
        by (cases p; cases "tl p") (auto simp: slash_def)
      ultimately show ?thesis using \<open>slash \<in> set p\<close> by (simp add: path_measure_def slash_def)
    next
      case False
      with ne \<open>slash \<in> set p\<close> have d: "dirname p = butlast ?q" by (auto simp: dirname_def Let_def)
      have "length (butlast ?q) < length p" using l ne by (cases ?q rule: rev_cases) auto
      then have "path_measure (dirname p) < Suc (length p)"
        unfolding d using le_less_trans [OF path_measure_le] by simp
      with True show ?thesis by (simp add: path_measure_def)
    qed
  qed
qed

termination nearest_existing
  by (relation "measure (\<lambda>(ex, p). path_measure p)") (auto simp: dirname_shrinks)

declare nearest_existing.simps [simp del]

definition resolveWorkspaceMember :: "'w host \<Rightarrow> 'w \<Rightarrow> string option \<Rightarrow> string \<Rightarrow> workspace_member" where
  "resolveWorkspaceMember h w ws p =
     (if orelse ws [] = [] then Member_invalid ''workspace unavailable''
      else case ho_stat h w (the ws) of
        Inl e \<Rightarrow> Member_invalid (''workspace unreadable: '' @ e)
      | Inr (dir, _) \<Rightarrow> if \<not> dir then Member_invalid ''workspace is not a directory''
        else case ho_realpath h w (the ws) of
          Inl e \<Rightarrow> Member_invalid (''workspace unreadable: '' @ e)
        | Inr root \<Rightarrow> (let absolute = resolve_path (ho_cwd h) root p in
            if \<not> isPathWithinRoot (ho_cwd h) root absolute then Member_escape
            else if ho_exists h w absolute then
              (case ho_realpath h w absolute of
                Inl _ \<Rightarrow> Member_missing
              | Inr real \<Rightarrow> if \<not> isPathWithinRoot (ho_cwd h) root real then Member_escape else Member_ok absolute)
            else
              (case ho_realpath h w (nearest_existing (ho_exists h w) absolute) of
                Inl _ \<Rightarrow> Member_invalid ''workspace parent unreadable''
              | Inr real \<Rightarrow> if \<not> isPathWithinRoot (ho_cwd h) root real then Member_escape else Member_missing)))"

section \<open>Checks\<close>

definition MAX_CHECK_OUTPUT_LENGTH :: nat where "MAX_CHECK_OUTPUT_LENGTH = 10000"
definition MAX_WORKER_REPORT_LENGTH :: nat where "MAX_WORKER_REPORT_LENGTH = 4000"

record observation =
  ob_check_id :: string
  ob_argv :: "json list"
  ob_cwd :: "json option"
  ob_started_at :: string
  ob_finished_at :: string
  ob_timed_out :: bool
  ob_exit_code :: "int option"
  ob_signal :: "string option"
  ob_stdout :: string
  ob_stderr :: string

text \<open>What the record of a command has in every case; both instants are read before the command runs.\<close>

definition observation_of :: "'w host \<Rightarrow> 'w \<Rightarrow> json \<Rightarrow> observation" where
  "observation_of h w cmd = \<lparr> ob_check_id = text_at cmd ''id'', ob_argv = items_at cmd ''argv'', ob_cwd = jget cmd ''cwd'',
     ob_started_at = ho_now h w, ob_finished_at = ho_now h w, ob_timed_out = False, ob_exit_code = None, ob_signal = None,
     ob_stdout = [], ob_stderr = [] \<rparr>"

definition excerpt :: "string \<Rightarrow> string" where
  "excerpt s = take MAX_CHECK_OUTPUT_LENGTH s"

text \<open>
  The result of \<open>execFileSync\<close> with its \<open>catch\<close>: an error of the spawn has a code and nothing else
  (\<open>killed\<close> is set by no branch), an exit status other than 0 comes with the signal and the output.
\<close>

definition observe_spawn :: "spawned \<Rightarrow> observation \<Rightarrow> observation" where
  "observe_spawn r ob = (case sp_error r of
     Some code \<Rightarrow> ob\<lparr> ob_timed_out := code = ''ERR_CHILD_PROCESS_STDIO_MAXBUFFER'' \<or> code = ''ETIMEDOUT'' \<rparr>
   | None \<Rightarrow>
       (if sp_status r = Some 0
        then ob\<lparr> ob_exit_code := Some 0, ob_stdout := excerpt (sp_stdout r), ob_stderr := excerpt (sp_stderr r) \<rparr>
        else ob\<lparr> ob_exit_code := sp_status r, ob_signal := sp_signal r,
               ob_stdout := excerpt (sp_stdout r), ob_stderr := excerpt (sp_stderr r) \<rparr>))"

definition skipped_stderr :: "string option \<Rightarrow> string option \<Rightarrow> string" where
  "skipped_stderr ws reason = (if orelse ws [] = [] then ''workspace unavailable: verification skipped''
     else ''workspace unavailable ('' @ orelse reason ''unreadable'' @ ''): verification skipped'')"

definition rejected_cwd :: "string \<Rightarrow> string \<Rightarrow> workspace_member \<Rightarrow> string" where
  "rejected_cwd root cwd m = (case m of
     Member_escape \<Rightarrow> ''rejected: cwd escapes workspace ('' @ cwd @ '')''
   | Member_missing \<Rightarrow> ''rejected: verification cwd not found ('' @ cwd @ '')''
   | Member_invalid reason \<Rightarrow> skipped_stderr (Some root) (Some reason)
   | Member_ok _ \<Rightarrow> [])"

definition run_at :: "'w host \<Rightarrow> json \<Rightarrow> string \<Rightarrow> 'w \<Rightarrow> observation \<times> 'w" where
  "run_at h cmd cwd w = (case ho_spawn h (items_at cmd ''argv'') cwd (member_at cmd ''timeout_ms'') MAX_CHECK_OUTPUT_LENGTH w of
     (r, w') \<Rightarrow> (observe_spawn r (observation_of h w cmd), w'))"

definition runCheck :: "'w host \<Rightarrow> string option \<Rightarrow> json \<Rightarrow> 'w \<Rightarrow> observation \<times> 'w" where
  "runCheck h root cmd w = (case root of
     None \<Rightarrow> ((observation_of h w cmd)\<lparr> ob_stderr := excerpt (skipped_stderr None None) \<rparr>, w)
   | Some r \<Rightarrow>
       (let cwd = text_at cmd ''cwd'' in
        if cwd = [] then run_at h cmd r w
        else case resolveWorkspaceMember h w (Some r) cwd of
          Member_ok absolute \<Rightarrow> run_at h cmd absolute w
        | m \<Rightarrow> ((observation_of h w cmd)\<lparr> ob_stderr := excerpt (rejected_cwd r cwd m) \<rparr>, w)))"

fun runChecks :: "'w host \<Rightarrow> string option \<Rightarrow> json list \<Rightarrow> 'w \<Rightarrow> observation list \<times> 'w" where
  "runChecks h root [] w = ([], w)"
| "runChecks h root (cmd # cmds) w = (case runCheck h root cmd w of
     (ob, w1) \<Rightarrow> (case runChecks h root cmds w1 of (obs, w2) \<Rightarrow> (ob # obs, w2)))"

section \<open>Artifacts\<close>

record artifact_observation =
  ao_id :: string
  ao_exists :: bool
  ao_kind :: string
  ao_ref :: string
  ao_size :: "nat option"
  ao_digest :: "string option"
  ao_error :: "string option"

definition artifact_there :: "json \<Rightarrow> nat \<Rightarrow> string option \<Rightarrow> artifact_observation" where
  "artifact_there a n d = \<lparr> ao_id = text_at a ''id'', ao_exists = True, ao_kind = text_at a ''kind'', ao_ref = text_at a ''ref'',
     ao_size = Some n, ao_digest = map_option (\<lambda>x. ''sha256-'' @ take 16 x) d, ao_error = None \<rparr>"

definition artifact_missing :: "json \<Rightarrow> string \<Rightarrow> artifact_observation" where
  "artifact_missing a e = \<lparr> ao_id = text_at a ''id'', ao_exists = False, ao_kind = text_at a ''kind'', ao_ref = text_at a ''ref'',
     ao_size = None, ao_digest = None, ao_error = Some e \<rparr>"

definition text_artifact :: "json \<Rightarrow> bool" where
  "text_artifact a \<longleftrightarrow> text_at a ''kind'' = ''report'' \<or> text_at a ''kind'' = ''logical''"

definition settled_text :: "string option \<Rightarrow> string" where
  "settled_text t = take MAX_WORKER_REPORT_LENGTH (js_trim (orelse t []))"

definition observeArtifact :: "(string \<Rightarrow> string) \<Rightarrow> 'w host \<Rightarrow> 'w \<Rightarrow> string option \<Rightarrow> string option \<Rightarrow> json \<Rightarrow> artifact_observation" where
  "observeArtifact sha h w root text a =
     (if text_artifact a then
        (if settled_text text \<noteq> [] then artifact_there a (length (settled_text text)) (Some (sha (settled_text text)))
         else artifact_missing a (''missing deliverable text for \"'' @ text_at a ''ref'' @ ''\"''))
      else case root of
        None \<Rightarrow> artifact_missing a ''workspace unavailable''
      | Some r \<Rightarrow> (case resolveWorkspaceMember h w (Some r) (text_at a ''ref'') of
          Member_escape \<Rightarrow> artifact_missing a ''path escapes workspace''
        | Member_missing \<Rightarrow> artifact_missing a ''not found''
        | Member_invalid reason \<Rightarrow> artifact_missing a reason
        | Member_ok absolute \<Rightarrow> (case ho_stat h w absolute of
            Inl e \<Rightarrow> artifact_missing a e
          | Inr (_, n) \<Rightarrow> (if text_at a ''kind'' = ''file''
              then case ho_read h w absolute of Inl e \<Rightarrow> artifact_missing a e | Inr x \<Rightarrow> artifact_there a n (Some (sha x))
              else artifact_there a n None))))"

section \<open>Criteria\<close>

record criterion_result =
  cr_id :: string
  cr_status :: criterion_status
  cr_evidence :: "string list"

definition check_passed :: "observation \<Rightarrow> bool" where
  "check_passed ob \<longleftrightarrow> ob_exit_code ob = Some 0 \<and> \<not> ob_timed_out ob"

definition is_required :: "json \<Rightarrow> bool" where
  "is_required a \<longleftrightarrow> jget a ''required'' = Some (JBool True)"

definition relevant_checks :: "json list \<Rightarrow> observation list \<Rightarrow> string \<Rightarrow> observation list" where
  "relevant_checks cmds obs c = filter (\<lambda>ob. case sql_first (\<lambda>m. text_at m ''id'' = ob_check_id ob) cmds of
     None \<Rightarrow> False | Some m \<Rightarrow> supports m c) obs"

definition required_artifacts :: "json list \<Rightarrow> artifact_observation list \<Rightarrow> string \<Rightarrow> artifact_observation list" where
  "required_artifacts arts aos c = filter (\<lambda>ao. case sql_first (\<lambda>a. text_at a ''id'' = ao_id ao) arts of
     None \<Rightarrow> False | Some a \<Rightarrow> supports a c \<and> is_required a) aos"

definition deriveCriterion :: "json \<Rightarrow> observation list \<Rightarrow> artifact_observation list \<Rightarrow> string \<Rightarrow> criterion_result" where
  "deriveCriterion ct obs aos c =
     (let cs = relevant_checks (items_at ct ''verification_commands'') obs c;
          as = required_artifacts (items_at ct ''expected_artifacts'') aos c;
          st1 = (if cs \<noteq> [] then if list_all check_passed cs then Cr_passed else Cr_failed else Cr_not_run);
          st2 = (if as \<noteq> [] then if st1 = Cr_not_run then if list_all ao_exists as then Cr_passed else Cr_failed
                   else if \<not> list_all ao_exists as then Cr_failed else st1
                 else st1);
          st3 = (if cs = [] \<and> as = [] then Cr_inconclusive else st2)
      in \<lparr> cr_id = c, cr_status = st3, cr_evidence = map ob_check_id cs @ map ao_id as \<rparr>)"

definition deriveCriteria :: "json \<Rightarrow> observation list \<Rightarrow> artifact_observation list \<Rightarrow> criterion_result list" where
  "deriveCriteria ct obs aos = map (\<lambda>x. deriveCriterion ct obs aos (text_at x ''id'')) (items_at ct ''criteria'')"

record evaluation =
  el_checks :: "observation list"
  el_artifacts :: "artifact_observation list"
  el_criteria :: "criterion_result list"

definition evaluation_root :: "'w host \<Rightarrow> 'w \<Rightarrow> string option \<Rightarrow> string option" where
  "evaluation_root h w ws = (if orelse ws [] = [] then None
     else case resolveWorkspaceMember h w ws ''.'' of Member_ok a \<Rightarrow> Some a | _ \<Rightarrow> None)"

definition evaluateWorkerEvidence ::
    "(string \<Rightarrow> string) \<Rightarrow> 'w host \<Rightarrow> json \<Rightarrow> string option \<Rightarrow> string option \<Rightarrow> 'w \<Rightarrow> evaluation \<times> 'w" where
  "evaluateWorkerEvidence sha h ct ws text w =
     (let root = evaluation_root h w ws in
      case runChecks h root (items_at ct ''verification_commands'') w of (obs, w1) \<Rightarrow>
        (let aos = map (observeArtifact sha h w1 root text) (items_at ct ''expected_artifacts'')
         in (\<lparr> el_checks = obs, el_artifacts = aos, el_criteria = deriveCriteria ct obs aos \<rparr>, w1)))"

section \<open>Containment\<close>

definition clean :: "string list \<Rightarrow> bool" where
  "clean ss \<longleftrightarrow> (\<forall>s \<in> set ss. s \<noteq> [] \<and> s \<noteq> ''.'' \<and> s \<noteq> ''..'' \<and> slash \<notin> set s)"

lemma clean_simps [simp]:
  "clean []" "clean (s # ss) \<longleftrightarrow> s \<noteq> [] \<and> s \<noteq> ''.'' \<and> s \<noteq> ''..'' \<and> slash \<notin> set s \<and> clean ss"
  "clean (xs @ ys) \<longleftrightarrow> clean xs \<and> clean ys"
  by (auto simp: clean_def)

lemma split_on_nonempty [simp]: "split_on c s \<noteq> []"
  by (induction s) (auto split: list.split)

lemma split_on_free: "w \<in> set (split_on c s) \<Longrightarrow> c \<notin> set w"
  by (induction s arbitrary: w) (auto split: list.splits if_splits)

lemma split_on_append: "split_on c (a @ c # b) = split_on c a @ split_on c b"
proof (induction a)
  case Nil
  then show ?case by (cases "split_on c b") auto
next
  case (Cons x a)
  then show ?case by (cases "split_on c a") auto
qed

lemma split_on_id: "c \<notin> set s \<Longrightarrow> split_on c s = [s]"
  by (induction s) auto

lemma split_on_join:
  assumes "\<forall>s \<in> set ss. c \<notin> set s" and "ss \<noteq> []"
  shows "split_on c (join_with [c] ss) = ss"
  using assms
proof (induction "[c]" ss rule: join_with.induct)
  case (3 s t ss)
  then show ?case by (simp add: split_on_append split_on_id)
qed (simp_all add: split_on_id)

lemma walk_clean: "clean acc \<Longrightarrow> \<forall>s \<in> set ss. slash \<notin> set s \<Longrightarrow> clean (walk_segments acc ss)"
proof (induction acc ss rule: walk_segments.induct)
  case (2 acc s ss)
  have "clean (butlast acc)" using 2(4) by (auto simp: clean_def dest: in_set_butlastD)
  with 2 show ?case by auto
qed simp

lemma walk_segments_append: "walk_segments acc (xs @ ys) = walk_segments (walk_segments acc xs) ys"
  by (induction acc xs rule: walk_segments.induct) auto

lemma walk_clean_id: "clean ss \<Longrightarrow> walk_segments acc ss = acc @ ss"
  by (induction acc ss rule: walk_segments.induct) auto

lemma walk_down: "''..'' \<notin> set ss \<Longrightarrow> \<exists>ts. walk_segments acc ss = acc @ ts"
  by (induction acc ss rule: walk_segments.induct) auto

lemma segments_clean: "clean (segments cwd p)"
  unfolding segments_def by (rule walk_clean) (auto dest: split_on_free)

lemma segments_absolute:
  assumes "clean ss"
  shows "segments cwd (absolute_path ss) = ss"
proof -
  have p: "prefix ''/'' (absolute_path ss)" by (simp add: absolute_path_def slash_def)
  have a: "split_on slash (absolute_path ss) = [] # split_on slash (join_with ''/'' ss)"
    using split_on_append [of slash "[]"] by (simp add: absolute_path_def)
  show ?thesis
  proof (cases "ss = []")
    case True
    from p a show ?thesis by (simp add: True segments_def)
  next
    case False
    have "split_on slash (join_with [slash] ss) = ss" by (rule split_on_join) (use assms False in \<open>auto simp: clean_def\<close>)
    with a have "split_on slash (absolute_path ss) = [] # ss" by (simp add: slash_def)
    then show ?thesis using walk_clean_id [OF assms, of "[]"] by (simp add: segments_def p)
  qed
qed

lemma relative_prefix: "prefix fs ts \<Longrightarrow> relative_segments fs ts = drop (length fs) ts"
  by (induction fs ts rule: relative_segments.induct) auto

lemma relative_up: "\<not> prefix fs ts \<Longrightarrow> \<exists>us. relative_segments fs ts = ''..'' # us"
  by (induction fs ts rule: relative_segments.induct) auto

lemma join_Cons: "join_with d (s # ss) = s @ (if ss = [] then [] else d @ join_with d ss)"
  by (cases ss) auto

text \<open>Containment of two paths is that of their segments.\<close>

lemma within_iff: "isPathWithinRoot cwd root p \<longleftrightarrow> prefix (segments cwd root) (segments cwd p)"
proof (cases "prefix (segments cwd root) (segments cwd p)")
  case True
  then obtain us where u: "relative_segments (segments cwd root) (segments cwd p) = us" and c: "clean us"
    using segments_clean [of cwd p] by (auto simp: relative_prefix prefix_def)
  show ?thesis
  proof (cases us)
    case Nil
    then show ?thesis using True by (simp add: isPathWithinRoot_def relative_path_def u)
  next
    case (Cons x xs)
    with c have x: "x \<noteq> []" "x \<noteq> ''..''" "slash \<notin> set x" by auto
    show ?thesis using True x
      by (cases x; cases "tl x"; cases "tl (tl x)")
        (auto simp: isPathWithinRoot_def relative_path_def u Cons join_Cons Let_def slash_def)
  qed
next
  case False
  then obtain us where "relative_segments (segments cwd root) (segments cwd p) = ''..'' # us" by (blast dest: relative_up)
  then show ?thesis using False by (auto simp: isPathWithinRoot_def relative_path_def join_Cons Let_def)
qed

lemma segments_resolve: "segments cwd (resolve_path cwd root p) = segments cwd (if prefix ''/'' p then p else root @ ''/'' @ p)"
  by (simp add: resolve_path_def segments_absolute segments_clean)

lemma resolve_below:
  assumes "prefix ''/'' root" and "\<not> prefix ''/'' p" and "''..'' \<notin> set (split_on slash p)"
  shows "prefix (segments cwd root) (segments cwd (resolve_path cwd root p))"
proof -
  have "prefix ''/'' (root @ ''/'' @ p)" using assms(1) by (auto simp: prefix_def)
  then have "segments cwd (root @ ''/'' @ p) = walk_segments (segments cwd root) (split_on slash p)"
    using assms(1) split_on_append [of slash root p] by (simp add: segments_def walk_segments_append slash_def)
  with walk_down [OF assms(3)] show ?thesis
    using assms(2) by (auto simp: segments_resolve prefix_def)
qed

lemma join_split: "join_with [c] (split_on c s) = s"
proof (induction s)
  case (Cons x s)
  obtain v vs where "split_on c s = v # vs" by (cases "split_on c s") auto
  with Cons show ?case by (auto simp: join_Cons split: if_splits)
qed simp

lemma join_append: "xs \<noteq> [] \<Longrightarrow> ys \<noteq> [] \<Longrightarrow> join_with d (xs @ ys) = join_with d xs @ d @ join_with d ys"
  by (induction xs) (auto simp: join_Cons)

lemma split_parts:
  assumes "w \<in> set (split_on c s)"
  obtains a b where "s = a @ w @ b" "a = [] \<or> (\<exists>a'. a = a' @ [c])" "b = [] \<or> (\<exists>b'. b = c # b')"
proof -
  from assms obtain xs ys where "split_on c s = xs @ w # ys" by (auto dest: split_list)
  then have "s = join_with [c] (xs @ w # ys)" by (metis join_split)
  then have "s = (if xs = [] then [] else join_with [c] xs @ [c]) @ w @ (if ys = [] then [] else [c] @ join_with [c] ys)"
    by (auto simp: join_append join_Cons)
  with that show thesis by auto
qed

lemma parts_split:
  assumes "c \<notin> set w" "a = [] \<or> (\<exists>a'. a = a' @ [c])" "b = [] \<or> (\<exists>b'. b = c # b')"
  shows "w \<in> set (split_on c (a @ w @ b))"
proof -
  have "w \<in> set (split_on c (w @ b))"
    using assms(1,3) by (auto simp: split_on_id split_on_append)
  with assms(2) show ?thesis by (auto simp: split_on_append)
qed

lemma split_slashed:
  assumes "w \<in> set (split_on slash p)" and b: "backslash \<notin> set w"
  shows "w \<in> set (split_on slash (slashed p))"
  using assms(1)
proof (rule split_parts)
  fix u v assume p: "p = u @ w @ v" "u = [] \<or> (\<exists>u'. u = u' @ [slash])" "v = [] \<or> (\<exists>v'. v = slash # v')"
  have "slashed w = w" using b by (induction w) (auto simp: slashed_def)
  with p have "slashed p = slashed u @ w @ slashed v" by (simp add: slashed_def)
  moreover have "slashed u = [] \<or> (\<exists>u'. slashed u = u' @ [slash])" "slashed v = [] \<or> (\<exists>v'. slashed v = slash # v')"
    using p(2,3) by (auto simp: slashed_def slash_def)
  ultimately show ?thesis using parts_split [of slash w] split_on_free [OF assms(1)] by simp
qed

text \<open>
  C19: What the validator admits stays inside. A path without an issue (\<open>workspacePathIssues\<close>: not
  absolute, no \<open>..\<close>, no home form, no control character) resolves below any absolute root.
\<close>

theorem admitted_path_inside:
  assumes "workspacePathIssues p = []" and "prefix ''/'' root"
  shows "isPathWithinRoot cwd root (resolve_path cwd root p)"
proof -
  have ok: "path_ok p" using assms(1) by (simp add: path_issues_Nil)
  have "backslash \<noteq> CHR ''.''" by (simp add: backslash_def char_of_def)
  then have "''..'' \<notin> set (split_on slash p)"
    using ok split_slashed [of "''..''" p] by (auto simp: path_ok_def hasTraversalComponent_def slash_def)
  moreover have "\<not> prefix ''/'' p" using ok by (simp add: path_ok_def isAbsolutePath_def)
  ultimately show ?thesis unfolding within_iff using assms(2) by (intro resolve_below) auto
qed

lemma admitted_path_inside_witness:
  "workspacePathIssues ''out/report.md'' = [] \<and> isPathWithinRoot ''/'' ''/srv/ws'' (resolve_path ''/'' ''/srv/ws'' ''out/report.md'')"
proof -
  have "workspacePathIssues ''out/report.md'' = []"
    by (simp add: workspacePathIssues_def isAbsolutePath_def hasTraversalComponent_def hasHomeForm_def hasControlChars_def drive_form_def
        is_slash_def code_of_def slashed_def backslash_def char_of_def)
  with admitted_path_inside [OF this, of "''/srv/ws''" "''/''"] show ?thesis by simp
qed

text \<open>
  C18: A resolved member lies in the workspace. When \<open>resolveWorkspaceMember\<close> returns a path, the
  workspace is an existing directory, the path exists, and both the path and its real path are the
  root's real path or below it, segment by segment.
\<close>

theorem resolved_inside:
  assumes "resolveWorkspaceMember h w ws p = Member_ok a"
  shows "\<exists>d n root real. ws = Some d \<and> d \<noteq> [] \<and> ho_stat h w d = Inr (True, n) \<and> ho_realpath h w d = Inr root \<and>
     ho_exists h w a \<and> ho_realpath h w a = Inr real \<and> a = resolve_path (ho_cwd h) root p \<and>
     prefix (segments (ho_cwd h) root) (segments (ho_cwd h) a) \<and> prefix (segments (ho_cwd h) root) (segments (ho_cwd h) real)"
  using assms
  by (cases ws) (auto simp: resolveWorkspaceMember_def Let_def within_iff split: if_splits sum.splits prod.splits)

section \<open>The verdicts\<close>

lemma sql_first_key: "distinct (map k xs) \<Longrightarrow> x \<in> set xs \<Longrightarrow> sql_first (\<lambda>r. k r = k x) xs = Some x"
  by (induction xs) auto

text \<open>Results in the order of the items they are of, looked up again by the id of the item.\<close>

lemma filter_by_key:
  assumes d: "distinct (map k xs)" and l: "length ys = length xs" and z: "\<And>x y. (x, y) \<in> set (zip xs ys) \<Longrightarrow> j y = k x"
  shows "filter (\<lambda>y. case sql_first (\<lambda>r. k r = j y) xs of None \<Rightarrow> False | Some r \<Rightarrow> P r) ys = map snd (filter (\<lambda>(x, y). P x) (zip xs ys))"
proof -
  let ?f = "\<lambda>y. case sql_first (\<lambda>r. k r = j y) xs of None \<Rightarrow> False | Some r \<Rightarrow> P r"
  have "?f y = P x" if "(x, y) \<in> set (zip xs ys)" for x y
    using z [OF that] sql_first_key [OF d] set_zip_leftD [OF that] by simp
  then have "filter (?f \<circ> snd) (zip xs ys) = filter (\<lambda>(x, y). P x) (zip xs ys)" by (intro filter_cong) auto
  moreover have "filter ?f ys = map snd (filter (?f \<circ> snd) (zip xs ys))" using l by (simp add: filter_map [symmetric])
  ultimately show ?thesis by simp
qed

lemma ob_check_id_run: "runCheck h root cmd w = (ob, w1) \<Longrightarrow> ob_check_id ob = text_at cmd ''id''"
  by (auto simp: runCheck_def run_at_def observe_spawn_def observation_of_def Let_def split: option.splits if_splits workspace_member.splits prod.splits)

lemma runChecks_zip:
  "runChecks h root cmds w = (obs, w1) \<Longrightarrow> length obs = length cmds \<and> (\<forall>(m, ob) \<in> set (zip cmds obs). ob_check_id ob = text_at m ''id'')"
proof (induction cmds arbitrary: obs w)
  case (Cons m ms)
  obtain ob w2 where r: "runCheck h root m w = (ob, w2)" by fastforce
  with Cons.prems obtain os where "runChecks h root ms w2 = (os, w1)" "obs = ob # os" by (auto split: prod.splits)
  with Cons.IH [of w2 os] ob_check_id_run [OF r] show ?case by simp
qed simp

lemma ob_argv_run: "runCheck h root cmd w = (ob, w1) \<Longrightarrow> ob_argv ob = items_at cmd ''argv''"
  by (auto simp: runCheck_def run_at_def observe_spawn_def observation_of_def Let_def split: option.splits if_splits workspace_member.splits prod.splits)

lemma runChecks_from:
  "ob \<in> set obs \<Longrightarrow> runChecks h root cmds w = (obs, w1) \<Longrightarrow> \<exists>m \<in> set cmds. ob_check_id ob = text_at m ''id'' \<and> ob_argv ob = items_at m ''argv''"
proof (induction cmds arbitrary: obs w)
  case (Cons m ms)
  obtain o1 w2 where r: "runCheck h root m w = (o1, w2)" by fastforce
  with Cons.prems obtain os where "runChecks h root ms w2 = (os, w1)" "obs = o1 # os" by (auto split: prod.splits)
  with Cons.IH [of os w2] Cons.prems(1) ob_check_id_run [OF r] ob_argv_run [OF r] show ?case by auto
qed simp

lemma ao_id_observe: "ao_id (observeArtifact sha h w root text a) = text_at a ''id''"
  by (simp add: observeArtifact_def artifact_there_def artifact_missing_def split: option.split workspace_member.split sum.split)

lemma deriveCriterion_status:
  "cr_status (deriveCriterion ct obs aos c) =
    (let cs = relevant_checks (items_at ct ''verification_commands'') obs c;
         as = required_artifacts (items_at ct ''expected_artifacts'') aos c
     in if cs = [] \<and> as = [] then Cr_inconclusive
        else if list_all check_passed cs \<and> list_all ao_exists as then Cr_passed else Cr_failed)"
  by (simp add: deriveCriterion_def Let_def)

lemma contract_distinct:
  assumes "contract_ok ct"
  shows "distinct (map (\<lambda>m. text_at m ''id'') (items_at ct ''verification_commands''))"
    and "distinct (map (\<lambda>a. text_at a ''id'') (items_at ct ''expected_artifacts''))"
    and "distinct (contract_criteria ct)"
  using assms
  by (auto simp: contract_ok_def criteria_ok_def array_ok_def items_at_def contract_criteria_def split: option.splits json.splits)

text \<open>
  The evaluation decides every criterion. For a contract that passed validation the evaluation
  reports its criteria, each once and in order, each as passed or failed and none as not run or
  inconclusive; a criterion passes exactly when every command that supports it exited with 0 in time
  and every required artifact that supports it exists.
\<close>

theorem evidence_decides:
  assumes ok: "contract_ok ct" and e: "evaluateWorkerEvidence sha h ct ws text w = (el, w1)"
  shows "map cr_id (el_criteria el) = contract_criteria ct \<and> length (el_checks el) = length (items_at ct ''verification_commands'') \<and>
    length (el_artifacts el) = length (items_at ct ''expected_artifacts'') \<and>
    (\<forall>r \<in> set (el_criteria el). cr_status r =
      (if (\<forall>(m, ob) \<in> set (zip (items_at ct ''verification_commands'') (el_checks el)). supports m (cr_id r) \<longrightarrow> check_passed ob) \<and>
          (\<forall>(a, ao) \<in> set (zip (items_at ct ''expected_artifacts'') (el_artifacts el)). supports a (cr_id r) \<and> is_required a \<longrightarrow> ao_exists ao)
       then Cr_passed else Cr_failed))"
proof -
  let ?ms = "items_at ct ''verification_commands''" and ?as = "items_at ct ''expected_artifacts''"
  obtain obs w2 where run: "runChecks h (evaluation_root h w ws) ?ms w = (obs, w2)" by fastforce
  define aos where "aos = map (observeArtifact sha h w2 (evaluation_root h w ws) text) ?as"
  from e run have el: "el = \<lparr> el_checks = obs, el_artifacts = aos, el_criteria = deriveCriteria ct obs aos \<rparr>"
    by (auto simp: evaluateWorkerEvidence_def aos_def Let_def)
  note zipped = runChecks_zip [OF run]
  have l: "length aos = length ?as" by (simp add: aos_def)
  have ids: "ao_id ao = text_at a ''id''" if "(a, ao) \<in> set (zip ?as aos)" for a ao
    using that by (auto simp: aos_def ao_id_observe set_zip)
  have cs: "relevant_checks ?ms obs c = map snd (filter (\<lambda>(m, ob). supports m c) (zip ?ms obs))" for c
    unfolding relevant_checks_def
    by (rule filter_by_key [OF contract_distinct(1) [OF ok], where j = ob_check_id and P = "\<lambda>m. supports m c"]) (use zipped in auto)
  have as: "required_artifacts ?as aos c = map snd (filter (\<lambda>(a, ao). supports a c \<and> is_required a) (zip ?as aos))" for c
    unfolding required_artifacts_def
    by (rule filter_by_key [OF contract_distinct(2) [OF ok] l, where j = ao_id and P = "\<lambda>a. supports a c \<and> is_required a"]) (rule ids)
  have some: "relevant_checks ?ms obs c \<noteq> [] \<or> required_artifacts ?as aos c \<noteq> []" if c: "c \<in> set (contract_criteria ct)" for c
  proof -
    from ok c consider m where "m \<in> set ?ms" "supports m c" | a where "a \<in> set ?as" "supports a c" "is_required a"
      by (auto simp: contract_ok_def has_evidence_def is_required_def)
    then show ?thesis
    proof cases
      case 1
      then obtain ob where "(m, ob) \<in> set (zip ?ms obs)" using zipped by (metis in_set_impl_in_set_zip1)
      with 1 show ?thesis by (auto simp: cs filter_empty_conv)
    next
      case 2
      then obtain ao where "(a, ao) \<in> set (zip ?as aos)" using l by (metis in_set_impl_in_set_zip1)
      with 2 show ?thesis by (auto simp: as filter_empty_conv)
    qed
  qed
  have st: "cr_status (deriveCriterion ct obs aos c) =
      (if (\<forall>(m, ob) \<in> set (zip ?ms obs). supports m c \<longrightarrow> check_passed ob) \<and>
          (\<forall>(a, ao) \<in> set (zip ?as aos). supports a c \<and> is_required a \<longrightarrow> ao_exists ao) then Cr_passed else Cr_failed)"
    if "c \<in> set (contract_criteria ct)" for c
    using some [OF that] unfolding deriveCriterion_status Let_def cs as by (auto simp: list_all_iff)
  have i: "cr_id (deriveCriterion ct obs aos c) = c" for c by (simp add: deriveCriterion_def Let_def)
  show ?thesis
    unfolding el using zipped l st
    by (auto simp: deriveCriteria_def contract_criteria_def i)
qed

text \<open>A host whose one directory is the workspace and whose commands succeed; the world counts the commands run.\<close>

definition sample_host :: "nat host" where
  "sample_host = \<lparr> ho_cwd = ''/'', ho_now = (\<lambda>_. ''t''), ho_stat = (\<lambda>_ p. if p = ''/ws'' then Inr (True, 10) else Inl ''ENOENT''),
     ho_realpath = (\<lambda>_ p. if p = ''/ws'' then Inr p else Inl ''ENOENT''), ho_exists = (\<lambda>_ p. p = ''/ws''), ho_read = (\<lambda>_ _. Inl ''ENOENT''),
     ho_spawn = (\<lambda>_ _ _ _ n. (\<lparr> sp_error = None, sp_status = Some 0, sp_signal = None, sp_stdout = ''ok'', sp_stderr = [] \<rparr>, Suc n)) \<rparr>"

lemma sample_root: "evaluation_root sample_host n (Some ''/ws'') = Some ''/ws''"
proof -
  have "resolve_path ''/'' ''/ws'' ''.'' = ''/ws''"
    by (simp add: resolve_path_def segments_def absolute_path_def slash_def)
  then show ?thesis
    by (simp add: evaluation_root_def resolveWorkspaceMember_def Let_def sample_host_def within_iff)
qed

lemma resolved_inside_witness: "\<exists>root real. resolveWorkspaceMember sample_host 0 (Some ''/ws'') ''.'' = Member_ok ''/ws'' \<and>
    prefix (segments ''/'' root) (segments ''/'' ''/ws'') \<and> prefix (segments ''/'' root) (segments ''/'' real)"
proof -
  have r: "resolveWorkspaceMember sample_host 0 (Some ''/ws'') ''.'' = Member_ok ''/ws''"
    using sample_root [of 0] by (simp add: evaluation_root_def split: workspace_member.splits)
  have "ho_cwd sample_host = ''/''" by (simp add: sample_host_def)
  with resolved_inside [OF r] r show ?thesis by auto
qed

definition sample_observation :: observation where
  "sample_observation = \<lparr> ob_check_id = ''v1'', ob_argv = [JStr ''make''], ob_cwd = None, ob_started_at = ''t'', ob_finished_at = ''t'',
     ob_timed_out = False, ob_exit_code = Some 0, ob_signal = None, ob_stdout = ''ok'', ob_stderr = [] \<rparr>"

definition sample_el :: evaluation where
  "sample_el = \<lparr> el_checks = [sample_observation], el_artifacts = [], el_criteria = [\<lparr> cr_id = ''c1'', cr_status = Cr_passed, cr_evidence = [''v1''] \<rparr>] \<rparr>"

lemma sample_evaluation: "evaluateWorkerEvidence sha sample_host passing_contract (Some ''/ws'') text 0 = (sample_el, 1)"
proof -
  have "deriveCriteria passing_contract [sample_observation] [] = el_criteria sample_el"
    by (simp add: deriveCriteria_def deriveCriterion_def Let_def relevant_checks_def required_artifacts_def passing_contract_def items_at_def
        text_at_def supports_def sample_observation_def sample_el_def check_passed_def)
  then show ?thesis
    unfolding evaluateWorkerEvidence_def sample_root
    by (simp add: passing_contract_def items_at_def runCheck_def run_at_def observation_of_def observe_spawn_def text_at_def sample_host_def
        excerpt_def MAX_CHECK_OUTPUT_LENGTH_def sample_observation_def sample_el_def)
qed

end
