(* ===== verification/WorkerSettlement.thy ===== *)
theory WorkerSettlement
  imports WorkerEvidence Attempts
begin

text \<open>
  The settlement of a worker's result (\<open>worker-supervision-service.ts\<close>): the report read from the
  result text, the envelope built from the evaluation, and \<open>collectAndSettle\<close>, which hands it to
  \<open>terminalSettlement\<close> of the attempt store. \<open>instant\<close> is \<open>toISOString\<close> of a time in milliseconds,
  \<open>finished\<close> the instant at which the envelope is built. The call is synchronous: no other handler of the
  process runs between its reads and the settlement.
\<close>

section \<open>The worker's report\<close>

text \<open>The expressions ignore case. \<open>[\s\S]*?\<close> takes the shortest text before the closing tag.\<close>

definition lower_char :: "char \<Rightarrow> char" where
  "lower_char c = (let n = code_of c in if 65 \<le> n \<and> n \<le> 90 then char_of (n + 32) else c)"

fun after_tag :: "string \<Rightarrow> string \<Rightarrow> string option" where
  "after_tag [] s = Some s"
| "after_tag (t # ts) [] = None"
| "after_tag (t # ts) (c # cs) = (if lower_char t = lower_char c then after_tag ts cs else None)"

fun until_tag :: "string \<Rightarrow> string \<Rightarrow> (string \<times> string) option" where
  "until_tag tag [] = (case after_tag tag [] of Some r \<Rightarrow> Some ([], r) | None \<Rightarrow> None)"
| "until_tag tag (c # cs) = (case after_tag tag (c # cs) of
     Some r \<Rightarrow> Some ([], r)
   | None \<Rightarrow> (case until_tag tag cs of None \<Rightarrow> None | Some (t, r) \<Rightarrow> Some (c # t, r)))"

text \<open>The leftmost match of an opening form and its closing tag: what the form captured, the text, the rest.\<close>

fun first_match :: "(string \<Rightarrow> ('a \<times> string) option) \<Rightarrow> string \<Rightarrow> string \<Rightarrow> ('a \<times> string \<times> string) option" where
  "first_match opens close [] = None"
| "first_match opens close (c # cs) = (case opens (c # cs) of
     Some (x, r) \<Rightarrow> (case until_tag close r of Some (t, r') \<Rightarrow> Some (x, t, r') | None \<Rightarrow> first_match opens close cs)
   | None \<Rightarrow> first_match opens close cs)"

definition plain_open :: "string \<Rightarrow> string \<Rightarrow> (unit \<times> string) option" where
  "plain_open tag s = map_option (\<lambda>r. ((), r)) (after_tag tag s)"

definition quote_char :: char where
  "quote_char = char_of (34 :: nat)"

text \<open>\<open><claim(?:\s+criterion_id="([^"]*)")?>\<close>: the attribute is tried first, and is the empty text when it is absent.\<close>

definition claim_attribute :: "string \<Rightarrow> (string \<times> string) option" where
  "claim_attribute s = (if takeWhile js_space s = [] then None
     else case after_tag (''criterion_id='' @ [quote_char]) (dropWhile js_space s) of
       None \<Rightarrow> None
     | Some r \<Rightarrow> (case dropWhile (\<lambda>c. c \<noteq> quote_char) r of
         [] \<Rightarrow> None
       | _ # r' \<Rightarrow> map_option (\<lambda>x. (takeWhile (\<lambda>c. c \<noteq> quote_char) r, x)) (after_tag ''>'' r')))"

definition claim_open :: "string \<Rightarrow> (string \<times> string) option" where
  "claim_open s = (case after_tag ''<claim'' s of
     None \<Rightarrow> None
   | Some r \<Rightarrow> (case claim_attribute r of Some m \<Rightarrow> Some m | None \<Rightarrow> map_option (\<lambda>x. ([], x)) (after_tag ''>'' r)))"

text \<open>\<open>matchAll\<close>: the matches from left to right, each after the end of the one before; one character at least is used up by each.\<close>

fun all_matches :: "nat \<Rightarrow> (string \<Rightarrow> ('a \<times> string) option) \<Rightarrow> string \<Rightarrow> string \<Rightarrow> ('a \<times> string) list" where
  "all_matches 0 opens close s = []"
| "all_matches (Suc n) opens close s = (case first_match opens close s of
     None \<Rightarrow> [] | Some (x, t, r) \<Rightarrow> (x, t) # all_matches n opens close r)"

record worker_report =
  wp_summary :: string
  wp_claims :: "(string option \<times> string) list"
  wp_risks :: "string list"

definition MAX_RESULT_LENGTH :: nat where "MAX_RESULT_LENGTH = 500"

definition line_break :: char where
  "line_break = char_of (10 :: nat)"

definition last_lines :: "string \<Rightarrow> string" where
  "last_lines s = (let ls = filter (\<lambda>l. js_trim l \<noteq> []) (split_on line_break s)
     in take MAX_RESULT_LENGTH (join_with ''; '' (drop (length ls - 3) ls)))"

definition parseWorkerReport :: "string \<Rightarrow> worker_report" where
  "parseWorkerReport s =
     (let sm = first_match (plain_open ''<summary>'') ''</summary>'' s;
          claims = map (\<lambda>(i, t). (if i = [] then None else Some i, js_trim t)) (all_matches (length s) claim_open ''</claim>'' s);
          risks = map (\<lambda>(_, t). js_trim t) (all_matches (length s) (plain_open ''<risk>'') ''</risk>'' s)
      in \<lparr> wp_summary = (case sm of Some (_, t, _) \<Rightarrow> js_trim t
             | None \<Rightarrow> if claims = [] \<and> risks = [] then last_lines s else []),
           wp_claims = claims, wp_risks = risks \<rparr>)"

section \<open>The envelope\<close>

definition json_int :: "int option \<Rightarrow> json" where
  "json_int x = (case x of None \<Rightarrow> JNull | Some i \<Rightarrow> JNum (NInt i))"

definition json_text :: "string option \<Rightarrow> json" where
  "json_text x = (case x of None \<Rightarrow> JNull | Some s \<Rightarrow> JStr s)"

definition check_json :: "observation \<Rightarrow> json" where
  "check_json ob = JObj ([(''check_id'', JStr (ob_check_id ob)), (''argv'', JArr (ob_argv ob))] @ opt_mem False ''cwd'' (ob_cwd ob) @
     [(''started_at'', JStr (ob_started_at ob)), (''finished_at'', JStr (ob_finished_at ob)), (''timed_out'', JBool (ob_timed_out ob)),
      (''exit_code'', json_int (ob_exit_code ob)), (''signal'', json_text (ob_signal ob)),
      (''stdout_excerpt'', JStr (ob_stdout ob)), (''stderr_excerpt'', JStr (ob_stderr ob))])"

definition artifact_json :: "artifact_observation \<Rightarrow> json" where
  "artifact_json a = JObj ([(''artifact_id'', JStr (ao_id a)), (''exists'', JBool (ao_exists a)), (''kind'', JStr (ao_kind a)), (''ref'', JStr (ao_ref a))] @
     opt_member ''size'' (\<lambda>n. JNum (NInt (int n))) (ao_size a) @ opt_member ''digest'' JStr (ao_digest a) @ opt_member ''error'' JStr (ao_error a))"

fun criterion_status_name :: "criterion_status \<Rightarrow> string" where
  "criterion_status_name Cr_passed = ''passed''"
| "criterion_status_name Cr_failed = ''failed''"
| "criterion_status_name Cr_not_run = ''not_run''"
| "criterion_status_name Cr_inconclusive = ''inconclusive''"

definition criterion_json :: "criterion_result \<Rightarrow> json" where
  "criterion_json r = JObj [(''criterion_id'', JStr (cr_id r)), (''status'', JStr (criterion_status_name (cr_status r))),
     (''evidence_ids'', JArr (map JStr (cr_evidence r)))]"

definition claim_json :: "string option \<times> string \<Rightarrow> json" where
  "claim_json c = JObj (opt_member ''criterion_id'' JStr (fst c) @ [(''text'', JStr (snd c))])"

definition report_json :: "worker_report \<Rightarrow> json" where
  "report_json p = JObj [(''summary'', JStr (take MAX_RESULT_LENGTH (wp_summary p))), (''claims'', JArr (map claim_json (take 30 (wp_claims p)))),
     (''unresolved_risks'', JArr (map JStr (take 20 (wp_risks p))))]"

definition attempt_json :: "(int \<Rightarrow> string) \<Rightarrow> string \<Rightarrow> json \<Rightarrow> attempt \<Rightarrow> json" where
  "attempt_json instant finished ct a = JObj
     [(''id'', JStr (at_id a)), (''ordinal'', JNum (NInt (at_ordinal a))), (''contract_id'', JStr (text_at ct ''id'')),
      (''contract_digest'', JStr (text_at ct ''digest'')), (''executor_kind'', JStr (executor_kind_name (at_executor_kind a))),
      (''executor_id'', JStr (at_executor_id a)), (''started_at'', JStr (instant (at_started_at a))), (''finished_at'', JStr finished)]"

definition usage_json :: "int \<times> int \<Rightarrow> json" where
  "usage_json u = JObj [(''input_tokens'', JNum (NInt (fst u))), (''output_tokens'', JNum (NInt (snd u))),
     (''total_tokens'', JNum (NInt (fst u + snd u)))]"

definition build_envelope ::
    "(int \<Rightarrow> string) \<Rightarrow> string \<Rightarrow> json \<Rightarrow> attempt \<Rightarrow> evaluation \<Rightarrow> worker_report \<Rightarrow> (int \<times> int) option \<Rightarrow> json" where
  "build_envelope instant finished ct a el p u = JObj
     ([(''schema_version'', JNum (NInt 1)), (''attempt'', attempt_json instant finished ct a), (''outcome'', JStr ''completed''),
       (''criteria'', JArr (map criterion_json (el_criteria el))), (''checks'', JArr (map check_json (el_checks el))),
       (''artifacts'', JArr (map artifact_json (el_artifacts el))), (''worker_report'', report_json p)] @
      opt_member ''usage'' usage_json u)"

section \<open>Collect and settle\<close>

text \<open>The exception of \<open>terminalSettlement\<close>'s transaction is a conflict; none of its statements throws in the model.\<close>

definition terminalSettlement :: "joint_hook \<Rightarrow> (json \<Rightarrow> string) \<Rightarrow> int \<Rightarrow> settle_input \<Rightarrow> swarm_db \<Rightarrow> settle_result \<times> swarm_db" where
  "terminalSettlement joint digest now i db = settleAttemptInTransaction joint digest now i db"

datatype collected =
    Co_stale
  | Co_no_contract string
  | Co_throws
  | Co_conflict
  | Co_budget
  | Co_settled bool json

definition listed_last :: "swarm_db \<Rightarrow> int \<Rightarrow> attempt option" where
  "listed_last db c = (let rs = sort_key at_ordinal (filter (\<lambda>r. at_card_id r = c) (db_attempts db)) in if rs = [] then None else Some (last rs))"

definition completion_input :: "attempt \<Rightarrow> json \<Rightarrow> (int \<times> int) option \<Rightarrow> settle_input" where
  "completion_input a env u = \<lparr> st_attempt_id = at_id a, st_expected_generation = (if at_generation a = 0 then 1 else at_generation a),
     st_desired = D_completed, st_reason = ''worker_completed'',
     st_usage = map_option (\<lambda>(i, j). \<lparr> us_input = Some i, us_output = Some j, us_trustworthy = True \<rparr>) u,
     st_envelope = Some env, st_input_requested = False \<rparr>"

record settle_env =
  se_joint :: joint_hook
  se_digest :: "json \<Rightarrow> string"
  se_now :: int
  se_instant :: "int \<Rightarrow> string"
  se_finished :: string
  se_sha :: "string \<Rightarrow> string"

definition settle_collected :: "settle_env \<Rightarrow> attempt \<Rightarrow> json \<Rightarrow> evaluation \<Rightarrow> worker_report \<Rightarrow> (int \<times> int) option \<Rightarrow> swarm_db \<Rightarrow> collected \<times> swarm_db" where
  "settle_collected s a ct el p u db =
     (let env = build_envelope (se_instant s) (se_finished s) ct a el p u in
      if validateEnvelope env \<noteq> [] then (Co_throws, db)
      else case terminalSettlement (se_joint s) (se_digest s) (se_now s) (completion_input a env u) db of
        (r, db') \<Rightarrow> ((case sr_kind r of Settle_stale \<Rightarrow> Co_stale | Settle_conflict \<Rightarrow> Co_conflict | Budget_violation \<Rightarrow> Co_budget
          | _ \<Rightarrow> Co_settled (list_all (\<lambda>c. cr_status c = Cr_passed) (el_criteria el)) env), db'))"

definition collectAndSettle ::
    "settle_env \<Rightarrow> 'w host \<Rightarrow> int \<Rightarrow> string \<Rightarrow> string option \<Rightarrow> string \<Rightarrow> int \<Rightarrow> (int \<times> int) option \<Rightarrow> swarm_db \<Rightarrow> 'w \<Rightarrow>
       (collected \<times> swarm_db) \<times> 'w" where
  "collectAndSettle s h c result ws a g u db w =
     (case (listed_last db c, find_attempt db a) of
       (Some latest, Some r) \<Rightarrow>
         (if at_card_id r \<noteq> c \<or> at_id latest \<noteq> a \<or> at_generation r \<noteq> g then ((Co_stale, db), w)
          else case find_contract db (at_contract_id r) of
            None \<Rightarrow> ((Co_no_contract (take MAX_RESULT_LENGTH result), db), w)
          | Some row \<Rightarrow> (case ct_json row of
              None \<Rightarrow> ((Co_throws, db), w)
            | Some ct \<Rightarrow>
                (if authorizeAttemptForProjectWork db r \<noteq> None then ((Co_stale, db), w)
                 else let p = parseWorkerReport result in
                   case evaluateWorkerEvidence (se_sha s) h ct ws (Some (wp_summary p)) w of
                     (el, w1) \<Rightarrow> (settle_collected s r ct el p u db, w1))))
     | _ \<Rightarrow> ((Co_stale, db), w))"

section \<open>The report\<close>

text \<open>An opening form uses up at least one character, so as many rounds as there are characters find every match.\<close>

lemma after_tag_shorter: "after_tag t s = Some r \<Longrightarrow> length r + length t = length s"
  by (induction t s rule: after_tag.induct) (auto split: if_splits)

lemma until_tag_shorter: "until_tag tag s = Some (t, r) \<Longrightarrow> length r \<le> length s"
  by (induction tag s arbitrary: t r rule: until_tag.induct) (auto dest: after_tag_shorter split: option.splits)

lemma first_match_shorter:
  assumes "\<And>u y v. opens u = Some (y, v) \<Longrightarrow> length v < length u" and "first_match opens close s = Some (x, t, r)"
  shows "length r < length s"
  using assms(2)
proof (induction s)
  case (Cons c cs)
  then show ?case
    by (auto split: option.splits dest!: assms(1) until_tag_shorter simp: less_Suc_eq_le)
qed simp

lemma all_matches_enough:
  assumes o: "\<And>u y v. opens u = Some (y, v) \<Longrightarrow> length v < length u"
  shows "length s \<le> n \<Longrightarrow> all_matches n opens close s = all_matches (length s) opens close s"
proof (induction n arbitrary: s rule: less_induct)
  case (less n)
  show ?case
  proof (cases "first_match opens close s")
    case None
    then show ?thesis by (cases n; cases "length s") simp_all
  next
    case (Some m)
    obtain x t r where m: "m = (x, t, r)" by (cases m) auto
    have l: "length r < length s" by (rule first_match_shorter [where opens = "opens"], erule o) (use Some m in simp)
    then obtain k where k: "length s = Suc k" by (cases "length s") auto
    with less.prems obtain j where j: "n = Suc j" "k \<le> j" by (cases n) auto
    have "all_matches j opens close r = all_matches (length r) opens close r" using less.IH [of j r] j l k less.prems by simp
    moreover have "all_matches k opens close r = all_matches (length r) opens close r" using less.IH [of k r] j l k by simp
    ultimately show ?thesis using Some m j k by simp
  qed
qed

lemma plain_open_shorter: "tag \<noteq> [] \<Longrightarrow> plain_open tag u = Some (y, v) \<Longrightarrow> length v < length u"
  by (cases tag) (auto simp: plain_open_def dest!: after_tag_shorter)

section \<open>Acceptance of the envelope\<close>

lemma built_envelope_members:
  "jget (build_envelope t f ct a el p u) ''schema_version'' = Some (JNum (NInt 1))"
  "jget (build_envelope t f ct a el p u) ''attempt'' = Some (attempt_json t f ct a)"
  "jget (build_envelope t f ct a el p u) ''outcome'' = Some (JStr ''completed'')"
  "jget (build_envelope t f ct a el p u) ''criteria'' = Some (JArr (map criterion_json (el_criteria el)))"
  "jget (build_envelope t f ct a el p u) ''checks'' = Some (JArr (map check_json (el_checks el)))"
  "jget (build_envelope t f ct a el p u) ''artifacts'' = Some (JArr (map artifact_json (el_artifacts el)))"
  "jget (build_envelope t f ct a el p u) ''worker_report'' = Some (report_json p)"
  "jget (build_envelope t f ct a el p u) ''usage'' = map_option usage_json u"
  "is_object (build_envelope t f ct a el p u)"
  by (simp_all add: build_envelope_def)

lemma criterion_members:
  "text_at (criterion_json r) ''criterion_id'' = cr_id r" "text_at (criterion_json r) ''status'' = criterion_status_name (cr_status r)"
  by (simp_all add: criterion_json_def text_at_def)

lemma criterion_status_passed: "criterion_status_name st = ''passed'' \<longleftrightarrow> st = Cr_passed"
  by (cases st) simp_all

lemma acceptance_built:
  assumes "contract_ok ct" and "map cr_id (el_criteria el) = contract_criteria ct"
  shows "acceptancePassed ct (build_envelope t f ct a el p u) \<longleftrightarrow> (\<forall>r \<in> set (el_criteria el). cr_status r = Cr_passed)"
proof -
  let ?e = "build_envelope t f ct a el p u"
  have "same_contract ct ?e"
    by (simp add: same_contract_def member_at_def built_envelope_members attempt_json_def text_at_def)
  moreover have "length (el_criteria el) = length (items_at ct ''criteria'')"
    using arg_cong [OF assms(2), of length] by (simp add: contract_criteria_def)
  moreover have "map (\<lambda>c. text_at c ''criterion_id'') (map criterion_json (el_criteria el)) = contract_criteria ct"
    using assms(2) by (simp add: comp_def criterion_members)
  ultimately show ?thesis
    using contract_distinct(3) [OF assms(1)]
    by (simp add: acceptancePassed_def items_at_def text_at_def [of ?e] built_envelope_members criteria_pass_iff Let_def
        criterion_members criterion_status_passed ball_simps del: map_map)
qed

text \<open>
  C11: Acceptance is exactly the evidence. For a valid contract the envelope that \<open>collectAndSettle\<close>
  builds is accepted (\<open>acceptancePassed\<close>) if and only if every verification command that supports a
  criterion exited with 0 in time and every required artifact that supports one exists; what the worker
  claims in its report has no part in it, except as the text of a report or logical artifact.
\<close>

theorem accepted_iff_evidence:
  assumes ok: "contract_ok ct" and e: "evaluateWorkerEvidence sha h ct ws text w = (el, w1)"
  shows "acceptancePassed ct (build_envelope t f ct a el p u) \<longleftrightarrow>
    (\<forall>(m, ob) \<in> set (zip (items_at ct ''verification_commands'') (el_checks el)).
       (\<exists>c \<in> set (contract_criteria ct). supports m c) \<longrightarrow> check_passed ob) \<and>
    (\<forall>(a, ao) \<in> set (zip (items_at ct ''expected_artifacts'') (el_artifacts el)).
       is_required a \<and> (\<exists>c \<in> set (contract_criteria ct). supports a c) \<longrightarrow> ao_exists ao)"
proof -
  note d = evidence_decides [OF ok e]
  from d have m: "map cr_id (el_criteria el) = contract_criteria ct" by blast
  have s: "cr_id ` set (el_criteria el) = set (contract_criteria ct)" using arg_cong [OF m, of set] by simp
  from d have "(\<forall>r \<in> set (el_criteria el). cr_status r = Cr_passed) \<longleftrightarrow> (\<forall>c \<in> cr_id ` set (el_criteria el).
      (\<forall>(m, ob) \<in> set (zip (items_at ct ''verification_commands'') (el_checks el)). supports m c \<longrightarrow> check_passed ob) \<and>
      (\<forall>(a, ao) \<in> set (zip (items_at ct ''expected_artifacts'') (el_artifacts el)). supports a c \<and> is_required a \<longrightarrow> ao_exists ao))"
    by auto
  then show ?thesis unfolding acceptance_built [OF ok m] s by fast
qed

lemma accepted_iff_evidence_witness:
  "acceptancePassed passing_contract (build_envelope (\<lambda>_. ''t'') ''f'' passing_contract
     (sample_attempt ''a'' 7 L_running) sample_el (parseWorkerReport ''done'') None)"
  unfolding accepted_iff_evidence [OF passing_contract_ok sample_evaluation]
  by (auto simp: sample_el_def sample_observation_def check_passed_def dest: set_zip_rightD)

section \<open>What can be wrong with it\<close>

text \<open>The shape of what an evaluation returns.\<close>

definition evaluation_ok :: "evaluation \<Rightarrow> bool" where
  "evaluation_ok el \<longleftrightarrow>
     (\<forall>ob \<in> set (el_checks el). ob_check_id ob \<noteq> [] \<and> list_all (\<lambda>x. is_string (Some x)) (ob_argv ob)) \<and>
     (\<forall>ao \<in> set (el_artifacts el). ao_id ao \<noteq> []) \<and>
     (\<forall>r \<in> set (el_criteria el). cr_id r \<noteq> [] \<and> set (cr_evidence r) \<subseteq> ob_check_id ` set (el_checks el) \<union> ao_id ` set (el_artifacts el))"

lemma text_nonempty: "isNonEmptyString (jget v k) \<Longrightarrow> text_at v k \<noteq> []"
  by (auto simp: isNonEmptyString_def text_at_def split: option.splits json.splits)

lemma array_items: "array_ok k n P v \<Longrightarrow> x \<in> set (items_at v k) \<Longrightarrow> P x"
  by (auto simp: array_ok_def items_at_def split: option.splits json.splits)

lemma contract_items:
  assumes "contract_ok ct"
  shows "m \<in> set (items_at ct ''verification_commands'') \<Longrightarrow> text_at m ''id'' \<noteq> [] \<and> list_all (\<lambda>x. is_string (Some x)) (items_at m ''argv'')"
    and "a \<in> set (items_at ct ''expected_artifacts'') \<Longrightarrow> text_at a ''id'' \<noteq> []"
    and "c \<in> set (items_at ct ''criteria'') \<Longrightarrow> text_at c ''id'' \<noteq> []"
proof -
  have arg: "is_string (Some x)" if "arg_ok x" for x using that by (cases x) (simp_all add: arg_ok_def)
  assume "m \<in> set (items_at ct ''verification_commands'')"
  then have "command_ok (contract_criteria ct) m" using assms by (auto simp: contract_ok_def dest: array_items)
  then show "text_at m ''id'' \<noteq> [] \<and> list_all (\<lambda>x. is_string (Some x)) (items_at m ''argv'')"
    by (auto simp: command_ok_def text_nonempty argv_ok_def items_at_def list_all_iff arg split: option.splits json.splits)
next
  assume "a \<in> set (items_at ct ''expected_artifacts'')"
  then have "artifact_ok (contract_criteria ct) a" using assms by (auto simp: contract_ok_def dest: array_items)
  then show "text_at a ''id'' \<noteq> []" by (auto simp: artifact_ok_def text_nonempty)
next
  assume "c \<in> set (items_at ct ''criteria'')"
  then have "criterion_ok c" using assms by (auto simp: contract_ok_def criteria_ok_def dest: array_items)
  then show "text_at c ''id'' \<noteq> []" by (auto simp: criterion_ok_def text_nonempty)
qed

lemma evaluation_shape:
  assumes ok: "contract_ok ct" and e: "evaluateWorkerEvidence sha h ct ws text w = (el, w1)"
  shows "evaluation_ok el"
proof -
  let ?ms = "items_at ct ''verification_commands''" and ?as = "items_at ct ''expected_artifacts''"
  obtain obs w2 where run: "runChecks h (evaluation_root h w ws) ?ms w = (obs, w2)" by fastforce
  define aos where "aos = map (observeArtifact sha h w2 (evaluation_root h w ws) text) ?as"
  from e run have el: "el = \<lparr> el_checks = obs, el_artifacts = aos, el_criteria = deriveCriteria ct obs aos \<rparr>"
    by (auto simp: evaluateWorkerEvidence_def aos_def Let_def)
  have o: "\<exists>m \<in> set ?ms. ob_check_id ob = text_at m ''id'' \<and> ob_argv ob = items_at m ''argv''" if "ob \<in> set obs" for ob
    using that run by (rule runChecks_from)
  have a: "\<exists>x \<in> set ?as. ao_id ao = text_at x ''id''" if "ao \<in> set aos" for ao
    using that by (auto simp: aos_def ao_id_observe)
  have ev: "set (cr_evidence (deriveCriterion ct obs aos c)) \<subseteq> ob_check_id ` set obs \<union> ao_id ` set aos" for c
    by (auto simp: deriveCriterion_def Let_def relevant_checks_def required_artifacts_def)
  have i: "cr_id (deriveCriterion ct obs aos c) = c" for c by (simp add: deriveCriterion_def Let_def)
  show ?thesis
    unfolding evaluation_ok_def el using o a ev contract_items [OF ok]
    by (fastforce simp: deriveCriteria_def i)
qed

lemma each_item_ok:
  assumes "jget v k = Some (JArr xs)" and "\<And>x p. x \<in> set xs \<Longrightarrow> is_object x \<and> f p x = []"
  shows "each_item k path f v = []"
proof -
  have "concat (map (\<lambda>(i, x). if is_object x then f (nth_path path i) x else [(T_type_error, nth_path path i)]) (enumerate n xs)) = []" for n
    using assms(2) by (induction xs arbitrary: n) (auto simp del: enumerate_eq_zip)
  then show ?thesis by (simp add: each_item_def assms(1))
qed

lemma result_ok: "cr_id r \<noteq> [] \<Longrightarrow> [] \<notin> set (cr_evidence r) \<Longrightarrow> is_object (criterion_json r) \<and> result_issues p (criterion_json r) = []"
  by (cases "cr_status r") (auto simp: result_issues_def criterion_json_def needs_text_def isNonEmptyString_def one_of_def texts_only_def list_all_iff)

lemma check_ok: "ob_check_id ob \<noteq> [] \<Longrightarrow> list_all (\<lambda>x. is_string (Some x)) (ob_argv ob) \<Longrightarrow>
    is_object (check_json ob) \<and> check_issues p (check_json ob) = []"
  by (cases "ob_exit_code ob")
    (auto simp: check_issues_def check_json_def needs_text_def isNonEmptyString_def texts_only_def is_number_def is_bool_def json_int_def
      map_of_opt_mem map_add_def split: option.split)

lemma observed_ok: "ao_id a \<noteq> [] \<Longrightarrow> is_object (artifact_json a) \<and> observed_issues p (artifact_json a) = []"
  by (simp add: observed_issues_def artifact_json_def needs_text_def isNonEmptyString_def is_bool_def)

lemma ids_at_built: "jget v k = Some (JArr (map f xs)) \<Longrightarrow> (\<And>x. x \<in> set xs \<Longrightarrow> jget (f x) j = Some (JStr (g x)) \<and> g x \<noteq> []) \<Longrightarrow>
    ids_at v k j = map g xs"
  by (induction xs arbitrary: v) (auto simp: ids_at_def items_at_def isNonEmptyString_def text_at_def)

lemma evidence_refs_ok:
  assumes "\<And>c x. c \<in> set (items_at v ''criteria'') \<Longrightarrow> x \<in> set (items_at c ''evidence_ids'') \<Longrightarrow> names_id (known_evidence v) x"
  shows "evidence_ref_issues v = []"
proof -
  have i: "concat (map (\<lambda>(j, x). when_so (\<not> names_id (known_evidence v) x) T_bad_reference (nth_path q j)) (enumerate n xs)) = []"
    if "\<And>x. x \<in> set xs \<Longrightarrow> names_id (known_evidence v) x" for q n xs
    using that by (induction xs arbitrary: n) (auto simp del: enumerate_eq_zip)
  have "concat (map (\<lambda>(i, c). concat (map (\<lambda>(j, x). when_so (\<not> names_id (known_evidence v) x) T_bad_reference
      (nth_path (nth_path ''$.criteria'' i @ ''.evidence_ids'') j)) (enumerate 0 (items_at c ''evidence_ids'')))) (enumerate n cs)) = []"
    if "set cs \<subseteq> set (items_at v ''criteria'')" for n cs
    using that
  proof (induction cs arbitrary: n)
    case (Cons c cs)
    then have "c \<in> set (items_at v ''criteria'')" by simp
    with i [of "items_at c ''evidence_ids''"] assms [of c] Cons show ?case by (simp del: enumerate_eq_zip)
  qed simp
  from this [OF subset_refl] show ?thesis unfolding evidence_ref_issues_def .
qed

lemma built_envelope_valid:
  assumes ok: "contract_ok ct" and e: "evaluateWorkerEvidence sha h ct ws text w = (el, w1)"
    and n: "text_at ct ''digest'' \<noteq> []" "at_id a \<noteq> []" "at_executor_id a \<noteq> []" "t (at_started_at a) \<noteq> []" "f \<noteq> []"
  shows "validateEnvelope (build_envelope t f ct a el p u) =
    (if json_size (build_envelope t f ct a el p u) > MAX_ENVELOPE_JSON_BYTES then [(T_too_long, ''$'')] else [])"
proof -
  let ?e = "build_envelope t f ct a el p u"
  note s = evaluation_shape [OF ok e, unfolded evaluation_ok_def] and m = built_envelope_members [of t f ct a el p u]
  have "text_at ct ''id'' \<noteq> []" using ok by (auto simp: contract_ok_def text_nonempty)
  then have 1: "attempt_issues ?e = []"
    using n by (cases "at_executor_kind a")
      (simp_all add: attempt_issues_def m attempt_json_def needs_text_def isNonEmptyString_def is_number_def one_of_def)
  have "[] \<notin> ob_check_id ` set (el_checks el) \<union> ao_id ` set (el_artifacts el)" using s by auto
  then have nn: "[] \<notin> set (cr_evidence r)" "cr_id r \<noteq> []" if "r \<in> set (el_criteria el)" for r using s that by blast+
  have 2: "each_item ''criteria'' ''$.criteria'' result_issues ?e = []"
    by (rule each_item_ok [OF m(4)]) (use nn result_ok in auto)
  have 3: "each_item ''checks'' ''$.checks'' check_issues ?e = []"
    by (rule each_item_ok [OF m(5)]) (use s check_ok in auto)
  have 4: "each_item ''artifacts'' ''$.artifacts'' observed_issues ?e = []"
    by (rule each_item_ok [OF m(6)]) (use s observed_ok in auto)
  have "ids_at ?e ''checks'' ''check_id'' = map ob_check_id (el_checks el)"
    by (rule ids_at_built [OF m(5)]) (use s in \<open>simp add: check_json_def\<close>)
  moreover have "ids_at ?e ''artifacts'' ''artifact_id'' = map ao_id (el_artifacts el)"
    by (rule ids_at_built [OF m(6)]) (use s in \<open>simp add: artifact_json_def\<close>)
  ultimately have k: "set (known_evidence ?e) = ob_check_id ` set (el_checks el) \<union> ao_id ` set (el_artifacts el)"
    by (simp add: known_evidence_def)
  have 5: "evidence_ref_issues ?e = []"
  proof (rule evidence_refs_ok)
    fix c x assume "c \<in> set (items_at ?e ''criteria'')" "x \<in> set (items_at c ''evidence_ids'')"
    then obtain r where "r \<in> set (el_criteria el)" "x \<in> JStr ` set (cr_evidence r)"
      by (auto simp: items_at_def m criterion_json_def)
    then obtain y where "x = JStr y" "y \<in> set (known_evidence ?e)" using s k by blast
    then show "names_id (known_evidence ?e) x" by (simp add: names_id_def)
  qed
  have 6: "report_issues ?e = []" by (simp add: report_issues_def m report_json_def array_member_def)
  have 7: "usage_issues ?e = []" unfolding usage_issues_def m by (cases u) (simp_all add: usage_json_def)
  show ?thesis
    unfolding validateEnvelope_def 1 2 3 4 5 6 7 using m(1,3,9) by (simp add: one_of_def when_so_def)
qed

text \<open>
  Only its size can fail an envelope. For a valid contract with a digest, and an attempt whose
  id, executor and instants are texts, the envelope that \<open>collectAndSettle\<close> builds passes every
  structural rule of \<open>validateEnvelope\<close>: it is refused exactly when its JSON text is longer than
  \<open>MAX_ENVELOPE_JSON_BYTES\<close>, whatever the worker returned and whatever its commands printed.
\<close>

theorem envelope_fails_on_size_only:
  assumes ok: "contract_ok ct" and e: "evaluateWorkerEvidence sha h ct ws text w = (el, w1)"
    and n: "text_at ct ''digest'' \<noteq> []" "at_id a \<noteq> []" "at_executor_id a \<noteq> []" "t (at_started_at a) \<noteq> []" "f \<noteq> []"
  shows "validateEnvelope (build_envelope t f ct a el p u) =
    (if json_size (build_envelope t f ct a el p u) > MAX_ENVELOPE_JSON_BYTES then [(T_too_long, ''$'')] else [])"
  by (rule built_envelope_valid) (fact assms)+

text \<open>What the commands printed is part of the text.\<close>

lemma string_size_ge: "length s \<le> string_size s"
proof -
  have "length s \<le> sum_list (map escape_size s)"
  proof (induction s)
    case (Cons c s)
    have "1 \<le> escape_size c" by (simp add: escape_size_def Let_def)
    with Cons show ?case by simp
  qed simp
  then show ?thesis by (simp add: string_size_def)
qed

lemma json_size_member:
  assumes "(k, v) \<in> set ms"
  shows "json_size v \<le> json_size (JObj ms)"
proof -
  have "string_size k + 1 + json_size v \<le> sum_list (map (\<lambda>(k, v). string_size k + 1 + json_size v) ms)"
    by (rule member_le_sum_list, use assms in force) simp
  then show ?thesis by simp
qed

lemma check_json_size: "length (ob_stdout ob) + length (ob_stderr ob) \<le> json_size (check_json ob)"
proof -
  have "sum_list (map (\<lambda>(k, v). string_size k + 1 + json_size v) ([(''a'', JStr x), (''b'', JStr y)])) \<le>
      sum_list (map (\<lambda>(k, v). string_size k + 1 + json_size v) (ms @ [(''stdout_excerpt'', JStr x), (''stderr_excerpt'', JStr y)]))" for ms x y
    by (simp add: string_size_def escape_size_def Let_def)
  from this [of "ob_stdout ob" "ob_stderr ob"]
  show ?thesis using string_size_ge [of "ob_stdout ob"] string_size_ge [of "ob_stderr ob"]
    by (simp add: check_json_def)
qed

lemma printed_size:
  "(\<Sum>ob\<leftarrow>el_checks el. length (ob_stdout ob) + length (ob_stderr ob)) \<le> json_size (build_envelope t f ct a el p u)"
proof -
  have "(\<Sum>ob\<leftarrow>el_checks el. length (ob_stdout ob) + length (ob_stderr ob)) \<le> sum_list (map json_size (map check_json (el_checks el)))"
    by (simp add: comp_def sum_list_mono check_json_size)
  also have "\<dots> \<le> json_size (JArr (map check_json (el_checks el)))" by simp
  also have "\<dots> \<le> json_size (build_envelope t f ct a el p u)"
    unfolding build_envelope_def by (rule json_size_member [where k = "''checks''"]) simp
  finally show ?thesis .
qed

text \<open>
  Much output loses the result. When the excerpts of the commands come to more than
  \<open>MAX_ENVELOPE_JSON_BYTES\<close>, which eight commands with \<open>MAX_CHECK_OUTPUT_LENGTH\<close> characters on each of
  their two outputs reach, the settlement throws and the attempt, its charge and its result stay as they
  were, although every check may have passed.
\<close>

theorem much_output_throws:
  assumes "MAX_ENVELOPE_JSON_BYTES < (\<Sum>ob\<leftarrow>el_checks el. length (ob_stdout ob) + length (ob_stderr ob))"
  shows "settle_collected s a ct el p u db = (Co_throws, db)"
proof -
  let ?e = "build_envelope (se_instant s) (se_finished s) ct a el p u"
  have "validateEnvelope ?e \<noteq> []"
    using assms less_le_trans [OF assms printed_size] by (simp add: validateEnvelope_def Let_def)
  then show ?thesis by (simp add: settle_collected_def Let_def)
qed

definition settling_env :: "int \<Rightarrow> settle_env" where
  "settling_env now = \<lparr> se_joint = (\<lambda>_ _. None), se_digest = (\<lambda>_. ''d''), se_now = now, se_instant = (\<lambda>_. ''t''), se_finished = ''f'',
     se_sha = (\<lambda>s. s) \<rparr>"

lemma much_output_throws_witness:
  "let ob = \<lparr> ob_check_id = ''v1'', ob_argv = [], ob_cwd = None, ob_started_at = ''t'', ob_finished_at = ''t'', ob_timed_out = False,
         ob_exit_code = Some 0, ob_signal = None, ob_stdout = replicate MAX_CHECK_OUTPUT_LENGTH CHR ''x'',
         ob_stderr = replicate MAX_CHECK_OUTPUT_LENGTH CHR ''x'' \<rparr>
   in check_passed ob \<and> settle_collected (settling_env 0) (sample_attempt ''a'' 1 L_running) passing_contract
        \<lparr> el_checks = replicate 8 ob, el_artifacts = [], el_criteria = [] \<rparr> (parseWorkerReport ''done'') None empty_db = (Co_throws, empty_db)"
  unfolding Let_def
  by (intro conjI much_output_throws) (simp_all add: check_passed_def max_defs MAX_CHECK_OUTPUT_LENGTH_def sum_list_replicate)

section \<open>What a settlement does\<close>

text \<open>
  A result that is not accepted changes nothing. When \<open>collectAndSettle\<close> returns stale, missing
  contract or conflict, or throws, the database is as before; and when the attempt is unknown, is not the
  card's latest, is of another card or generation, or has lost its project's authority, no command runs either.
\<close>

theorem refused_changes_nothing:
  "(case collectAndSettle s h c result ws a g u db w of ((v, db'), w') \<Rightarrow>
     (case v of Co_settled _ _ \<Rightarrow> True | Co_budget \<Rightarrow> True | _ \<Rightarrow> db' = db) \<and>
     (if \<exists>r latest ct row. find_attempt db a = Some r \<and> listed_last db c = Some latest \<and> at_card_id r = c \<and> at_id latest = a \<and>
         at_generation r = g \<and> find_contract db (at_contract_id r) = Some row \<and> ct_json row = Some ct \<and>
         authorizeAttemptForProjectWork db r = None
      then True else w' = w \<and> db' = db))"
proof -
  have settle: "db' = db" if "settle_collected s r ct el p u db = (v, db')" "\<And>ok e. v \<noteq> Co_settled ok e" "v \<noteq> Co_budget" for r ct el p v db'
    using that
    by (auto simp: settle_collected_def terminalSettlement_def settleAttemptInTransaction_def settle_result_def replay_settlement_def Let_def
        split: if_splits option.splits settle_kind.splits prod.splits)
  obtain v db' w' where c: "collectAndSettle s h c result ws a g u db w = ((v, db'), w')" by (metis prod.collapse)
  have "db' = db" if "\<And>ok e. v \<noteq> Co_settled ok e" "v \<noteq> Co_budget"
    using c that settle
    by (auto simp: collectAndSettle_def Let_def split: option.splits if_splits prod.splits)
  moreover have "w' = w \<and> db' = db" if "\<not> (\<exists>r latest ct row. find_attempt db a = Some r \<and> listed_last db c = Some latest \<and> at_card_id r = c \<and>
         at_id latest = a \<and> at_generation r = g \<and> find_contract db (at_contract_id r) = Some row \<and> ct_json row = Some ct \<and>
         authorizeAttemptForProjectWork db r = None)"
    using c that by (auto simp: collectAndSettle_def Let_def split: option.splits if_splits prod.splits)
  ultimately show ?thesis unfolding c by (cases v) auto
qed

lemma settled_from:
  assumes "settle_collected s r ct el p u db = (Co_settled ok env, db')"
  shows "env = build_envelope (se_instant s) (se_finished s) ct r el p u" and "validateEnvelope env = []"
    and "ok = list_all (\<lambda>c. cr_status c = Cr_passed) (el_criteria el)"
  using assms by (auto simp: settle_collected_def Let_def split: if_splits prod.splits settle_kind.splits)

text \<open>
  C20: A settled result is judged by its contract. When \<open>collectAndSettle\<close> reports a settlement, the
  attempt was the card's latest, of the expected generation and authorised for its project; the envelope
  names that attempt and the contract it was claimed under, passes validation, and for a valid contract
  the reported verdict is \<open>acceptancePassed\<close> of the two.
\<close>

theorem settled_is_judged:
  assumes "collectAndSettle s h c result ws a g u db w = ((Co_settled ok env, db'), w')"
  shows "\<exists>r row ct. find_attempt db a = Some r \<and> map_option at_id (listed_last db c) = Some a \<and> at_card_id r = c \<and> at_generation r = g \<and>
    authorizeAttemptForProjectWork db r = None \<and> find_contract db (at_contract_id r) = Some row \<and> ct_json row = Some ct \<and>
    text_at (member_at env ''attempt'') ''id'' = a \<and> same_contract ct env \<and> validateEnvelope env = [] \<and>
    (contract_ok ct \<longrightarrow> ok = acceptancePassed ct env)"
proof -
  from assms obtain latest r row ct where l: "listed_last db c = Some latest" "find_attempt db a = Some r" "at_card_id r = c" "at_id latest = a"
      "at_generation r = g" "find_contract db (at_contract_id r) = Some row" "ct_json row = Some ct" "authorizeAttemptForProjectWork db r = None"
    and e: "(case evaluateWorkerEvidence (se_sha s) h ct ws (Some (wp_summary (parseWorkerReport result))) w of
        (el, w1) \<Rightarrow> (settle_collected s r ct el (parseWorkerReport result) u db, w1)) = ((Co_settled ok env, db'), w')"
    by (auto simp: collectAndSettle_def Let_def split: option.splits if_splits)
  obtain el w1 where ev: "evaluateWorkerEvidence (se_sha s) h ct ws (Some (wp_summary (parseWorkerReport result))) w = (el, w1)" by fastforce
  with e have "settle_collected s r ct el (parseWorkerReport result) u db = (Co_settled ok env, db')" by simp
  note f = settled_from [OF this]
  have i: "at_id r = a" using find_attemptD [OF l(2)] by simp
  have "ok = acceptancePassed ct env" if "contract_ok ct"
  proof -
    from evidence_decides [OF that ev] have m: "map cr_id (el_criteria el) = contract_criteria ct" by blast
    show ?thesis unfolding f(1,3) acceptance_built [OF that m] by (simp add: list_all_iff)
  qed
  moreover have "text_at (member_at env ''attempt'') ''id'' = a" "same_contract ct env"
    unfolding f(1) by (simp_all add: same_contract_def member_at_def built_envelope_members attempt_json_def text_at_def i)
  ultimately show ?thesis using l f(2) by auto
qed

text \<open>An attempt that runs under the contract of the examples, with its deadline at 1000.\<close>

definition settling_db :: swarm_db where
  "settling_db = empty_db\<lparr>
     db_attempts := [(sample_attempt ''a'' 1 L_running)\<lparr> at_contract_id := ''k'', at_hard_deadline_at := Some 1000 \<rparr>],
     db_contracts := [\<lparr> ct_id = ''k'', ct_card_id = 7, ct_revision = 1, ct_root_contract_id = ''k'', ct_parent_contract_id = None,
       ct_source_attempt_id = None, ct_json = Some passing_contract, ct_digest = ''d'' \<rparr>] \<rparr>"

definition settling_attempt :: attempt where
  "settling_attempt = (sample_attempt ''a'' 1 L_running)\<lparr> at_contract_id := ''k'', at_hard_deadline_at := Some 1000 \<rparr>"

lemma settling_facts:
  "find_attempt settling_db ''a'' = Some settling_attempt" "listed_last settling_db 7 = Some settling_attempt"
  "isCardLatestAttempt settling_db 7 ''a''" "authorizeAttemptForProjectWork settling_db settling_attempt = None"
  "find_contract settling_db ''k'' = Some \<lparr> ct_id = ''k'', ct_card_id = 7, ct_revision = 1, ct_root_contract_id = ''k'', ct_parent_contract_id = None,
       ct_source_attempt_id = None, ct_json = Some passing_contract, ct_digest = ''d'' \<rparr>"
  by (simp_all add: find_attempt_def settling_db_def settling_attempt_def sample_attempt_def empty_db_def listed_last_def Let_def
      isCardLatestAttempt_def getLatestAttempt_def sql_last_by_def authorizeAttemptForProjectWork_def projectAuthorityForAttempt_def
      cardIsSupervisedProjectChild_def find_contract_def find_card_def)

lemma done_report: "parseWorkerReport ''done'' = \<lparr> wp_summary = ''done'', wp_claims = [], wp_risks = [] \<rparr>"
  by (simp add: parseWorkerReport_def Let_def plain_open_def claim_open_def last_lines_def line_break_def js_trim_def js_space_def
      lower_char_def code_of_def char_of_def MAX_RESULT_LENGTH_def)

lemma settling_facts_text:
  "text_at passing_contract ''digest'' = ''d''" "text_at passing_contract ''id'' = ''k''"
  by (simp_all add: passing_contract_def text_at_def)

definition settling_envelope :: json where
  "settling_envelope = build_envelope (\<lambda>_. ''t'') ''f'' passing_contract settling_attempt sample_el (parseWorkerReport ''done'') None"

lemma settling_envelope_valid: "validateEnvelope settling_envelope = []"
proof -
  have "json_bound settling_envelope \<le> 150000"
    by (simp add: settling_envelope_def build_envelope_def attempt_json_def settling_attempt_def sample_attempt_def sample_el_def sample_observation_def
        settling_facts_text criterion_json_def check_json_def report_json_def done_report opt_mem_def opt_member_def json_int_def json_text_def
        MAX_RESULT_LENGTH_def show_int_def show_nat.simps)
  then have "json_size settling_envelope \<le> 150000" by (rule order_trans [OF json_size_le])
  moreover have "validateEnvelope settling_envelope =
      (if json_size settling_envelope > MAX_ENVELOPE_JSON_BYTES then [(T_too_long, ''$'')] else [])"
    unfolding settling_envelope_def
    by (rule built_envelope_valid [OF passing_contract_ok sample_evaluation])
      (simp_all add: settling_facts_text settling_attempt_def sample_attempt_def)
  ultimately show ?thesis by (simp add: max_defs)
qed

lemma envelope_fails_on_size_only_witness:
  "validateEnvelope (build_envelope (\<lambda>_. ''t'') ''f'' passing_contract settling_attempt sample_el (parseWorkerReport ''done'') None) =
    (if json_size (build_envelope (\<lambda>_. ''t'') ''f'' passing_contract settling_attempt sample_el (parseWorkerReport ''done'') None)
       > MAX_ENVELOPE_JSON_BYTES then [(T_too_long, ''$'')] else [])"
  by (rule envelope_fails_on_size_only [OF passing_contract_ok sample_evaluation])
    (simp_all add: settling_facts_text settling_attempt_def sample_attempt_def)

lemma settling_settles:
  "\<exists>db'. collectAndSettle (settling_env n) sample_host 7 ''done'' (Some ''/ws'') ''a'' 1 None settling_db 0 =
     ((Co_settled True settling_envelope, db'), 1)"
proof -
  have c: "at_card_id settling_attempt = 7" "at_id settling_attempt = ''a''" "at_generation settling_attempt = 1" "at_contract_id settling_attempt = ''k''"
    "at_lifecycle settling_attempt = L_running"
    by (simp_all add: settling_attempt_def sample_attempt_def)
  let ?i = "completion_input settling_attempt settling_envelope None"
  have i: "st_attempt_id ?i = ''a''" "st_expected_generation ?i = 1" "st_desired ?i = D_completed" "st_usage ?i = None" "\<not> st_input_requested ?i"
    by (simp_all add: completion_input_def c)
  have "snd (charge_of settling_attempt ?i) = False" using i by (simp add: charge_of_def valid_usage_def)
  then obtain k where k: "charge_of settling_attempt ?i = (k, False)" by (cases "charge_of settling_attempt ?i") auto
  obtain r db' where "terminalSettlement (se_joint (settling_env n)) (se_digest (settling_env n)) (se_now (settling_env n)) ?i settling_db = (r, db')"
    "sr_kind r = Settled"
    unfolding terminalSettlement_def settleAttemptInTransaction_def
    using settling_facts c i k
    by (auto simp: settle_allowed_from_def holds_claim_def active_lifecycle_def isAttemptTerminal_def terminal_lifecycle_def Let_def
        settle_result_def split: prod.splits)
  then have "settle_collected (settling_env n) settling_attempt passing_contract sample_el (parseWorkerReport ''done'') None settling_db =
      (Co_settled True settling_envelope, db')"
    using settling_envelope_valid
    by (simp add: settle_collected_def Let_def settling_env_def settling_envelope_def sample_el_def)
  then show ?thesis
    by (simp add: collectAndSettle_def settling_facts c sample_evaluation Let_def)
qed

lemma settled_is_judged_witness:
  "\<exists>r ct. find_attempt settling_db ''a'' = Some r \<and> contract_ok ct \<and> acceptancePassed ct settling_envelope"
proof -
  obtain db' where "collectAndSettle (settling_env 0) sample_host 7 ''done'' (Some ''/ws'') ''a'' 1 None settling_db 0 =
     ((Co_settled True settling_envelope, db'), 1)" using settling_settles by blast
  from settled_is_judged [OF this] settling_facts(1,5) passing_contract_ok show ?thesis
    by (auto simp: settling_attempt_def sample_attempt_def)
qed

text \<open>
  A late result still counts as delivered. When a worker returns after its hard deadline and the
  grace window, the store settles the attempt as timed out, and \<open>collectAndSettle\<close> nevertheless reports a
  settlement with the envelope of a completed run and the verdict of its criteria.
\<close>

theorem late_result_counts_as_settled:
  assumes a: "find_attempt db (at_id a) = Some a" "isCardLatestAttempt db (at_card_id a) (at_id a)" "authorizeAttemptForProjectWork db a = None"
      "holds_claim (at_lifecycle a)" "at_generation a \<noteq> 0" and d: "at_hard_deadline_at a = Some d" "d \<le> se_now s" "completionGraceMs db a < se_now s - d"
    and v: "validateEnvelope (build_envelope (se_instant s) (se_finished s) ct a el p None) = []"
  shows "\<exists>n db'. settle_collected s a ct el p None db =
      (Co_settled (list_all (\<lambda>c. cr_status c = Cr_passed) (el_criteria el)) (build_envelope (se_instant s) (se_finished s) ct a el p None), db') \<and>
    terminalSettlement (se_joint s) (se_digest s) (se_now s)
      (completion_input a (build_envelope (se_instant s) (se_finished s) ct a el p None) None) db = (settle_result Settled (Some L_timed_out) (Some n), db')"
proof -
  let ?i = "completion_input a (build_envelope (se_instant s) (se_finished s) ct a el p None) None"
  have i: "st_attempt_id ?i = at_id a" "st_expected_generation ?i = at_generation a" "st_desired ?i = D_completed" "st_usage ?i = None"
      "st_envelope ?i \<noteq> None" "\<not> st_input_requested ?i"
    using a(5) by (simp_all add: completion_input_def)
  have t: "\<not> isAttemptTerminal (at_lifecycle a)" using a(4)
    by (cases "at_lifecycle a") (simp_all add: isAttemptTerminal_def terminal_lifecycle_def holds_claim_def active_lifecycle_def)
  have c: "snd (charge_of a ?i) = False" using i(4,6) by (simp add: charge_of_def valid_usage_def)
  have "late_state db (se_now s) a ?i = L_timed_out" using d i(3,5) by (simp add: late_state_def Let_def)
  with c have "effective_state db (se_now s) a ?i = L_timed_out" by (simp add: effective_state_def)
  moreover from c obtain k where k: "charge_of a ?i = (k, False)" by (cases "charge_of a ?i") auto
  ultimately obtain n db' where r: "terminalSettlement (se_joint s) (se_digest s) (se_now s) ?i db = (settle_result Settled (Some L_timed_out) (Some n), db')"
    unfolding terminalSettlement_def settleAttemptInTransaction_def
    using a(1-4) i(1-3) t k by (auto simp: settle_allowed_from_def Let_def split: prod.split)
  then have "settle_collected s a ct el p None db =
      (Co_settled (list_all (\<lambda>c. cr_status c = Cr_passed) (el_criteria el)) (build_envelope (se_instant s) (se_finished s) ct a el p None), db')"
    using v by (simp add: settle_collected_def Let_def settle_result_def)
  with r show ?thesis by blast
qed

lemma late_result_counts_as_settled_witness:
  "\<exists>n db'. settle_collected (settling_env 100000000) settling_attempt passing_contract sample_el (parseWorkerReport ''done'') None settling_db =
      (Co_settled True settling_envelope, db') \<and>
    terminalSettlement (\<lambda>_ _. None) (\<lambda>_. ''d'') 100000000 (completion_input settling_attempt settling_envelope None) settling_db =
      (settle_result Settled (Some L_timed_out) (Some n), db')"
proof -
  have g: "completionGraceMs settling_db settling_attempt < 100000000 - 1000"
    by (simp add: completionGraceMs_def settling_facts settling_attempt_def sample_attempt_def passing_contract_def FALLBACK_COMPLETION_GRACE_MS_def)
  have v: "validateEnvelope (build_envelope (se_instant (settling_env 100000000)) (se_finished (settling_env 100000000)) passing_contract
      settling_attempt sample_el (parseWorkerReport ''done'') None) = []"
    using settling_envelope_valid by (simp add: settling_env_def settling_envelope_def)
  have f: "find_attempt settling_db (at_id settling_attempt) = Some settling_attempt"
    "isCardLatestAttempt settling_db (at_card_id settling_attempt) (at_id settling_attempt)"
    "holds_claim (at_lifecycle settling_attempt)" "at_generation settling_attempt \<noteq> 0" "at_hard_deadline_at settling_attempt = Some 1000"
    using settling_facts by (simp_all add: settling_attempt_def sample_attempt_def holds_claim_def active_lifecycle_def)
  have "1000 \<le> se_now (settling_env 100000000)" "completionGraceMs settling_db settling_attempt < se_now (settling_env 100000000) - 1000"
    using g by (simp_all add: settling_env_def)
  note late = late_result_counts_as_settled [OF f(1,2) settling_facts(4) f(3,4,5) this v]
  have "list_all (\<lambda>c. cr_status c = Cr_passed) (el_criteria sample_el) = True" by (simp add: sample_el_def)
  moreover have "build_envelope (se_instant (settling_env 100000000)) (se_finished (settling_env 100000000)) passing_contract settling_attempt sample_el
      (parseWorkerReport ''done'') None = settling_envelope" by (simp add: settling_env_def settling_envelope_def)
  moreover have "se_joint (settling_env n) = (\<lambda>_ _. None)" "se_digest (settling_env n) = (\<lambda>_. ''d'')" "se_now (settling_env n) = n" for n
    by (simp_all add: settling_env_def)
  ultimately show ?thesis using late by simp
qed

end
