(* ===== verification/Spec2Isabelle.thy ===== *)
theory Spec2Isabelle
  imports Interfaces Delivery LeaseReconciler RetryService WorkflowPlan WorkflowPromises WorkerSettlement
begin

text \<open>
  The swarm execution core of abTARS (\<open>src/src/components\<close>), modelled and verified.

  The program. Work is a card on a Kanban board (\<open>tasks/kanban-board.ts\<close>). A project card owns
  worker cards. A worker card carries an acceptance contract (\<open>worker-contract.ts\<close>); each try at it is an
  attempt (\<open>worker-supervision-store.ts\<close>) that claims an executor, runs under a lease that its progress
  facts keep alive (\<open>executor-progress.ts\<close>, \<open>executor-lease-reducer.ts\<close>, \<open>executor-lease-policy.ts\<close>,
  \<open>executor-lease-store.ts\<close>), and is settled once with the evidence that its commands and artifacts give
  (\<open>worker-evidence-verifier.ts\<close>, \<open>worker-supervision-service.ts\<close>). A failed attempt is classified and
  may get one successor, by policy or by a reviewer's answer (\<open>retry/retry-service.ts\<close> over
  \<open>retry/retry-store.ts\<close>). A project is driven by a workflow run
  (\<open>orc-project/orc-workflow-runner.ts\<close> over \<open>orc-workflow-store.ts\<close>): a plan of nodes, commands to
  dispatch them, budgets, and a hook that settlement calls in its transaction. A project may be changed
  only under an authority tuple (card, generation, scheduled run;
  \<open>project-acceptance/project-review-store.ts\<close>). Finished cards are delivered to their chat
  (\<open>tasks/kanban-delivery.ts\<close>). All state is one SQLite database.

  Theories.
  \<open>Prelude\<close>: generic lemmas on options, strings and tables (\<open>sql_first\<close>, \<open>sql_update\<close>).
  \<open>Json\<close>: JSON values, their members and size. \<open>Interfaces\<close>: the locales \<open>transition_table\<close> (a status
  table with final states; interpreted for the board, for attempts and for retry decisions) and \<open>versioned_store\<close> (rows whose
  writers compare a version; interpreted for leases). \<open>Calls\<close>: calls that return or throw with the state
  they leave, transactions, and the locale \<open>preserved\<close> (a preorder that the combinators respect).
  \<open>Progress\<close>: facts, snapshots, policies and the validator of raw facts.
  \<open>Lease\<close>: the fold of a fact into a snapshot and the evaluation of a lease.
  \<open>Database\<close>: one record field per table and one record per row.
  \<open>Board\<close>: the single status transition with its journal and peer callbacks, and the operations
  built on it. \<open>Delivery\<close>: claims, settlement of a send, the poll. \<open>Authority\<close>: the authority checks.
  \<open>LeaseStore\<close>: persisted leases and facts. \<open>Attempts\<close>: the attempt life. \<open>LeaseReconciler\<close>: what is done
  about a due lease (\<open>executor-lease-reconciler.ts\<close>). \<open>RetryDecision\<close>: why an attempt failed,
  whether it is retried and on which executor (\<open>retry/failure-classifier.ts\<close>,
  \<open>retry/retry-policy.ts\<close>, \<open>retry/executor-selector.ts\<close>).
  \<open>WorkerContract\<close>: validation and normalisation of contracts. \<open>WorkerEnvelope\<close>: validation of result
  envelopes, acceptance, the shortened copy. \<open>WorkerEvidence\<close>: paths, commands, artifacts and the verdict
  on each criterion. \<open>WorkerSettlement\<close>: the report, the envelope and \<open>collectAndSettle\<close>.
  \<open>RetryDirective\<close>: retry directives and the revision of a contract that a successor runs
  (\<open>retry/retry-directive.ts\<close>). \<open>RetryStore\<close>: classifications, decisions and directives, the transaction
  that allocates a successor, expiry of reviews, pruning, and the steps of the store. \<open>RetryService\<close>:
  reduction of an ended attempt, automatic and reviewed retries, recovery, the local executor catalogue
  (\<open>retry/local-executor-catalog.ts\<close>) and the executor a contract implies (\<open>worker-executor-routing.ts\<close>).
  \<open>WorkflowPlan\<close>: the validator of plans. \<open>WorkflowStore\<close>: the tables of runs and the operations on them.
  \<open>WorkflowTables\<close>: their keys and uniqueness as an invariant. \<open>WorkflowCommit\<close>: applying an event once,
  claims of commands, the closure of skipped nodes, acceptance. \<open>WorkflowEffects\<close>: what a transition of the
  runner does inside a commit. \<open>WorkflowRunner\<close>: its operations. \<open>WorkflowDrain\<close>: the drain, the startup
  barrier and the settlement hook. \<open>WorkflowFrames\<close> and \<open>WorkflowSafety\<close>: the locales \<open>store_writers\<close>
  (extending \<open>preserved\<close> by the laws of the store's writers) and \<open>runner_calls\<close> (by those of the runner's
  operations), interpreted for the table invariant (\<open>tables\<close>), for frames (\<open>framed\<close>), for final runs
  (\<open>final\<close>) and for charges (\<open>bill\<close>). \<open>WorkflowWrites\<close>: the relation \<open>workflow_write\<close>, one rule per writer of the
  store, that every operation of the runner is an instance of (\<open>ledger\<close>) and that the code outside is assumed to
  respect; what all writers keep. \<open>WorkflowVerdict\<close>: when a run succeeds. \<open>WorkflowPromises\<close>: the step
  relation over all operations and its reachable states.

  Correspondence. An operation keeps its name in the source; \<open>now\<close> is the clock read by it
  (milliseconds), its result is paired with the new database, a thrown error or a violated
  constraint is a value and leaves the database as it was. Stored JSON is the value itself, an
  instant is its millisecond count, \<open>datetime('now')\<close> is \<open>sqliteNow\<close>. Text redaction, hashes, fresh ids, the
  network, the file system and the processes it spawns are arguments. Texts have 8-bit characters.

  What is shown. Board: legal moves only, the outcome of every transition, one callback per
  transition, a bounded number of retries, delivered is final. Delivery: at most five attempts, who
  may claim, what each send outcome leads to, and the one outcome that wedges a card. Leases:
  deadlines stay within policy and hard deadline, every cancellation has evidence, facts are
  idempotent, of racing writers one wins, a closed lease is final. Attempts: claims stay within
  capacity and budget, terminal attempts are final, charges happen once, a completion is earned,
  resources are exclusive; and that a deferred claim loses its lease. Contracts: the validator accepts
  exactly the well-formed ones, normalising is stable. Evidence: paths stay in the workspace, every
  criterion is decided, a result is accepted exactly for its evidence; and what too much output and a late
  result lead to. Retries: reducing an attempt again changes nothing, an attempt gets at most one successor,
  which runs a revision that keeps every term of the contract, retry after retry, a stopped decision is final
  while its attempt is retained; and two
  behaviours that look unintended: a decision that waits for input can never be retried, and a card that
  cannot be requeued leaves the successor behind. Workflow: the validator of plans decides, the tables keep their keys, an
  event is applied once, a completed command is never taken up again, a terminal run is final (claim inspections of ended runs
  apart: the inspection does not look at the state of its run), success is earned, the barrier returns, the settlement
  hook keeps what the settlement relies on.

  Bounds. Three loops carry fuel. The depth-first search of \<open>validatePlan\<close> has one unit more than the plan has
  nodes, and \<open>visit_total\<close> proves it enough; the depth of the JavaScript stack is not modelled. The passes of the
  startup barrier have one more than the watermark, enough by \<open>barrier_ends\<close>. The matches of a tag in a report have as many as the text
  has characters, enough by \<open>all_matches_enough\<close>. All other recursions are structural or have a measure (the
  ancestor walk: the cards not yet visited; the nearest existing directory: the length of the path).

  Not modelled: schema migrations, display reads, logging; the timers and model calls of the workflow driver
  and the tick that starts executions (processes and files interleaved with the store operations
  modelled here); the older project review pipeline beyond its authority and supervision rows; and the parts of
  the program outside the swarm core (transports, model providers, memory, dashboards, boot).
\<close>

end
